(* ===== verification/Prelude.thy ===== *)
theory Prelude
  imports Main "HOL-Library.Monad_Syntax" "HOL-Library.Multiset"
begin

text \<open>
  What every component shares: the JavaScript values the code computes with, the string
  and array operations of the language it calls, and the lemmas about them.

  A JavaScript string is the list of its UTF-16 code units, each an \<open>int\<close>; a number that
  the code only ever uses as an integer (a column, a row, a count, a character code) is an
  \<open>int\<close>. A function that can throw returns an \<open>option\<close>, and \<open>None\<close> is the exception,
  unless the component needs to tell its exceptions apart.
\<close>

named_theorems wc_simps "widths and substrings in columns"
named_theorems dom_simps "DOM nodes and rows"
named_theorems term_simps "terminal state"
named_theorems vt_simps "escape sequence interpreter"

type_synonym code_unit = int
type_synonym jsstring = "code_unit list"

section \<open>String literals\<close>

text \<open>A literal of the source, as the code units of an ASCII string.\<close>

definition js :: "string \<Rightarrow> jsstring" where
  "js s = map of_char s"

lemma js_Nil [simp]: "js [] = []"
  by (simp add: js_def)

lemma js_Cons [simp]: "js (c # s) = of_char c # js s"
  by (simp add: js_def)

lemma js_append [simp]: "js (s @ t) = js s @ js t"
  by (simp add: js_def)

lemma length_js [simp]: "length (js s) = length s"
  by (simp add: js_def)

section \<open>Decimal and hexadecimal numerals\<close>

text \<open>\<open>Number.prototype.toString\<close> on an integer, in base ten and in base sixteen.\<close>

fun nat_digits :: "nat \<Rightarrow> nat \<Rightarrow> nat list" where
  "nat_digits base n =
     (if n < base \<or> base < 2 then [n] else nat_digits base (n div base) @ [n mod base])"

declare nat_digits.simps [simp del]

definition digit_unit :: "nat \<Rightarrow> code_unit" where
  "digit_unit d = (if d < 10 then 48 + int d else 87 + int d)"

definition js_of_int :: "int \<Rightarrow> jsstring" where
  "js_of_int i = (if i < 0 then [45] else []) @ map digit_unit (nat_digits 10 (nat \<bar>i\<bar>))"

definition is_digit :: "code_unit \<Rightarrow> bool" where
  "is_digit c \<longleftrightarrow> 48 \<le> c \<and> c \<le> 57"

text \<open>The value of a digit string, most significant digit first.\<close>

definition digits_value :: "jsstring \<Rightarrow> int" where
  "digits_value s = foldl (\<lambda>v c. 10 * v + (c - 48)) 0 s"

lemma nat_digits_small: "base \<ge> 2 \<Longrightarrow> \<forall>d \<in> set (nat_digits base n). d < base"
proof (induction base n rule: nat_digits.induct)
  case (1 base n)
  then show ?case by (subst nat_digits.simps) auto
qed

lemma nat_digits_nonempty [simp]: "nat_digits base n \<noteq> []"
  by (subst nat_digits.simps) simp

lemma nat_digits_value:
  "foldl (\<lambda>v d. 10 * v + d) 0 (nat_digits 10 n) = n"
proof (induction "10 :: nat" n rule: nat_digits.induct)
  case (1 n)
  then show ?case by (cases "n < 10") (simp_all add: nat_digits.simps [of 10 n])
qed

lemma foldl_digit_units:
  "\<forall>d \<in> set ds. d < 10 \<Longrightarrow>
   foldl (\<lambda>v c. 10 * v + (c - 48)) (int a) (map digit_unit ds) =
   int (foldl (\<lambda>v d. 10 * v + d) a ds)"
proof (induction ds arbitrary: a)
  case Nil
  then show ?case by simp
next
  case (Cons d ds)
  have "10 * int a + (digit_unit d - 48) = int (10 * a + d)"
    using Cons.prems by (simp add: digit_unit_def)
  moreover have "\<forall>d \<in> set ds. d < 10"
    using Cons.prems by simp
  ultimately show ?case
    using Cons.IH [of "10 * a + d"] by (simp only: list.map foldl_Cons)
qed

lemma digits_value_of_int: "0 \<le> i \<Longrightarrow> digits_value (js_of_int i) = i"
  using foldl_digit_units [of "nat_digits 10 (nat i)" 0] nat_digits_small [of 10 "nat i"]
  by (simp add: digits_value_def js_of_int_def nat_digits_value)

lemma js_of_int_digits: "0 \<le> i \<Longrightarrow> \<forall>c \<in> set (js_of_int i). is_digit c"
  using nat_digits_small [of 10 "nat i"]
  by (auto simp: js_of_int_def is_digit_def digit_unit_def)

lemma js_of_int_nonempty [simp]: "js_of_int i \<noteq> []"
  by (simp add: js_of_int_def)

section \<open>Substrings\<close>

text \<open>
  \<open>s.substr(start, len)\<close>: a negative start counts from the end, the length is clipped to
  what is left, a length that is not positive gives the empty string. \<open>s.substring(a, b)\<close>
  clips both indices and swaps them when they are in the wrong order.
\<close>

definition js_substr :: "jsstring \<Rightarrow> int \<Rightarrow> int option \<Rightarrow> jsstring" where
  "js_substr s start len =
     (let n = int (length s);
          st = (if start < 0 then max 0 (n + start) else min start n)
      in case len of
           None \<Rightarrow> drop (nat st) s
         | Some l \<Rightarrow> take (nat l) (drop (nat st) s))"

definition js_substring :: "jsstring \<Rightarrow> int \<Rightarrow> int \<Rightarrow> jsstring" where
  "js_substring s a b =
     (let n = int (length s);
          a' = min (max a 0) n;
          b' = min (max b 0) n;
          lo = min a' b';
          hi = max a' b'
      in take (nat hi - nat lo) (drop (nat lo) s))"

lemma js_substr_None [simp]: "0 \<le> start \<Longrightarrow> js_substr s start None = drop (nat start) s"
  by (cases "start \<le> int (length s)") (simp_all add: js_substr_def Let_def min_def)

lemma js_substr_Some [simp]:
  "0 \<le> start \<Longrightarrow> js_substr s start (Some l) = take (nat l) (drop (nat start) s)"
  by (cases "start \<le> int (length s)") (simp_all add: js_substr_def Let_def min_def)

lemma js_substring_ordered:
  assumes "i \<le> j" and "j \<le> length s"
  shows "js_substring s (int i) (int j) = take (j - i) (drop i s)"
  using assms by (simp add: js_substring_def Let_def)

section \<open>Lists the components share\<close>

text \<open>\<open>String.prototype.repeat\<close> of one code unit, for a count that is not negative.\<close>

definition js_repeat :: "code_unit \<Rightarrow> int \<Rightarrow> jsstring" where
  "js_repeat c n = replicate (nat n) c"

lemma length_js_repeat [simp]: "length (js_repeat c n) = nat n"
  by (simp add: js_repeat_def)

lemma set_js_repeat [simp]: "set (js_repeat c n) = (if 0 < n then {c} else {})"
  by (auto simp: js_repeat_def)

text \<open>\<open>Array.prototype.splice(start, count)\<close> and insertion at an index, with the clipping
  the language does.\<close>

definition js_splice :: "'a list \<Rightarrow> int \<Rightarrow> int \<Rightarrow> 'a list \<Rightarrow> 'a list \<times> 'a list" where
  "js_splice xs start cnt items =
     (let n = int (length xs);
          st = (if start < 0 then max 0 (n + start) else min start n);
          k = min (max cnt 0) (n - st)
      in (take (nat k) (drop (nat st) xs),
          take (nat st) xs @ items @ drop (nat st + nat k) xs))"

lemma js_splice_parts:
  assumes "0 \<le> start" and "start + cnt \<le> int (length xs)" and "0 \<le> cnt"
  shows "js_splice xs start cnt items =
    (take (nat cnt) (drop (nat start) xs),
     take (nat start) xs @ items @ drop (nat start + nat cnt) xs)"
  using assms by (simp add: js_splice_def Let_def)

lemma take_middle: "take a xs @ take b (drop a xs) @ drop (a + b) xs = xs"
  by (metis append_take_drop_id drop_drop add.commute)

lemma mset_middle:
  "mset (take b (drop a xs)) + mset (take a xs @ ys @ drop (a + b) xs) = mset xs + mset ys"
proof -
  have "mset xs = mset (take a xs @ take b (drop a xs) @ drop (a + b) xs)"
    by (simp only: take_middle)
  then show ?thesis by simp
qed

lemma mset_js_splice:
  "mset (fst (js_splice xs start cnt items)) + mset (snd (js_splice xs start cnt items))
   = mset xs + mset items"
  by (simp only: js_splice_def Let_def fst_conv snd_conv mset_middle)

end
