(* ===== verification/WcWidth.thy ===== *)
theory WcWidth
  imports Prelude
begin

text \<open>
  \<open>lib.wc\<close>, the column widths of characters and strings (hterm_all-1.91.js, the part that
  comes from \<open>libdot/third_party/wcwidth/lib_wc.js\<close>): the three interval tables, the binary
  search in them, \<open>charWidth\<close> and its two variants, \<open>strWidth\<close>, \<open>substr\<close> and
  \<open>substring\<close>. Shown: the search decides membership in the table, widths are between 0
  and 2, the width of a concatenation is the sum, a substring never exceeds its width, and
  cutting a string at a column loses nothing.
\<close>

section \<open>The module's variables and tables\<close>

record wc_config =
  nulWidth :: int
  controlWidth :: int
  regardCjkAmbiguous :: bool
  cjkAmbiguousWidth :: int

definition wc_default :: wc_config where
  "wc_default = \<lparr>nulWidth = 0, controlWidth = 0, regardCjkAmbiguous = False,
     cjkAmbiguousWidth = 2\<rparr>"

definition wc_combining :: "(int \<times> int) list" where
  "wc_combining = [
    (0xad, 0xad), (0x300, 0x36f), (0x483, 0x489), (0x591, 0x5bd),
    (0x5bf, 0x5bf), (0x5c1, 0x5c2), (0x5c4, 0x5c5), (0x5c7, 0x5c7),
    (0x610, 0x61a), (0x61c, 0x61c), (0x64b, 0x65f), (0x670, 0x670),
    (0x6d6, 0x6dc), (0x6df, 0x6e4), (0x6e7, 0x6e8), (0x6ea, 0x6ed),
    (0x711, 0x711), (0x730, 0x74a), (0x7a6, 0x7b0), (0x7eb, 0x7f3),
    (0x7fd, 0x7fd), (0x816, 0x819), (0x81b, 0x823), (0x825, 0x827),
    (0x829, 0x82d), (0x859, 0x85b), (0x898, 0x89f), (0x8ca, 0x8e1),
    (0x8e3, 0x902), (0x93a, 0x93a), (0x93c, 0x93c), (0x941, 0x948),
    (0x94d, 0x94d), (0x951, 0x957), (0x962, 0x963), (0x981, 0x981),
    (0x9bc, 0x9bc), (0x9c1, 0x9c4), (0x9cd, 0x9cd), (0x9e2, 0x9e3),
    (0x9fe, 0x9fe), (0xa01, 0xa02), (0xa3c, 0xa3c), (0xa41, 0xa42),
    (0xa47, 0xa48), (0xa4b, 0xa4d), (0xa51, 0xa51), (0xa70, 0xa71),
    (0xa75, 0xa75), (0xa81, 0xa82), (0xabc, 0xabc), (0xac1, 0xac5),
    (0xac7, 0xac8), (0xacd, 0xacd), (0xae2, 0xae3), (0xafa, 0xaff),
    (0xb01, 0xb01), (0xb3c, 0xb3c), (0xb3f, 0xb3f), (0xb41, 0xb44),
    (0xb4d, 0xb4d), (0xb55, 0xb56), (0xb62, 0xb63), (0xb82, 0xb82),
    (0xbc0, 0xbc0), (0xbcd, 0xbcd), (0xc00, 0xc00), (0xc04, 0xc04),
    (0xc3c, 0xc3c), (0xc3e, 0xc40), (0xc46, 0xc48), (0xc4a, 0xc4d),
    (0xc55, 0xc56), (0xc62, 0xc63), (0xc81, 0xc81), (0xcbc, 0xcbc),
    (0xcbf, 0xcbf), (0xcc6, 0xcc6), (0xccc, 0xccd), (0xce2, 0xce3),
    (0xd00, 0xd01), (0xd3b, 0xd3c), (0xd41, 0xd44), (0xd4d, 0xd4d),
    (0xd62, 0xd63), (0xd81, 0xd81), (0xdca, 0xdca), (0xdd2, 0xdd4),
    (0xdd6, 0xdd6), (0xe31, 0xe31), (0xe34, 0xe3a), (0xe47, 0xe4e),
    (0xeb1, 0xeb1), (0xeb4, 0xebc), (0xec8, 0xecd), (0xf18, 0xf19),
    (0xf35, 0xf35), (0xf37, 0xf37), (0xf39, 0xf39), (0xf71, 0xf7e),
    (0xf80, 0xf84), (0xf86, 0xf87), (0xf8d, 0xf97), (0xf99, 0xfbc),
    (0xfc6, 0xfc6), (0x102d, 0x1030), (0x1032, 0x1037), (0x1039, 0x103a),
    (0x103d, 0x103e), (0x1058, 0x1059), (0x105e, 0x1060), (0x1071, 0x1074),
    (0x1082, 0x1082), (0x1085, 0x1086), (0x108d, 0x108d), (0x109d, 0x109d),
    (0x1160, 0x11ff), (0x135d, 0x135f), (0x1712, 0x1714), (0x1732, 0x1733),
    (0x1752, 0x1753), (0x1772, 0x1773), (0x17b4, 0x17b5), (0x17b7, 0x17bd),
    (0x17c6, 0x17c6), (0x17c9, 0x17d3), (0x17dd, 0x17dd), (0x180b, 0x180f),
    (0x1885, 0x1886), (0x18a9, 0x18a9), (0x1920, 0x1922), (0x1927, 0x1928),
    (0x1932, 0x1932), (0x1939, 0x193b), (0x1a17, 0x1a18), (0x1a1b, 0x1a1b),
    (0x1a56, 0x1a56), (0x1a58, 0x1a5e), (0x1a60, 0x1a60), (0x1a62, 0x1a62),
    (0x1a65, 0x1a6c), (0x1a73, 0x1a7c), (0x1a7f, 0x1a7f), (0x1ab0, 0x1ace),
    (0x1b00, 0x1b03), (0x1b34, 0x1b34), (0x1b36, 0x1b3a), (0x1b3c, 0x1b3c),
    (0x1b42, 0x1b42), (0x1b6b, 0x1b73), (0x1b80, 0x1b81), (0x1ba2, 0x1ba5),
    (0x1ba8, 0x1ba9), (0x1bab, 0x1bad), (0x1be6, 0x1be6), (0x1be8, 0x1be9),
    (0x1bed, 0x1bed), (0x1bef, 0x1bf1), (0x1c2c, 0x1c33), (0x1c36, 0x1c37),
    (0x1cd0, 0x1cd2), (0x1cd4, 0x1ce0), (0x1ce2, 0x1ce8), (0x1ced, 0x1ced),
    (0x1cf4, 0x1cf4), (0x1cf8, 0x1cf9), (0x1dc0, 0x1dff), (0x200b, 0x200f),
    (0x202a, 0x202e), (0x2060, 0x2064), (0x2066, 0x206f), (0x20d0, 0x20f0),
    (0x2cef, 0x2cf1), (0x2d7f, 0x2d7f), (0x2de0, 0x2dff), (0x302a, 0x302d),
    (0x3099, 0x309a), (0xa66f, 0xa672), (0xa674, 0xa67d), (0xa69e, 0xa69f),
    (0xa6f0, 0xa6f1), (0xa802, 0xa802), (0xa806, 0xa806), (0xa80b, 0xa80b),
    (0xa825, 0xa826), (0xa82c, 0xa82c), (0xa8c4, 0xa8c5), (0xa8e0, 0xa8f1),
    (0xa8ff, 0xa8ff), (0xa926, 0xa92d), (0xa947, 0xa951), (0xa980, 0xa982),
    (0xa9b3, 0xa9b3), (0xa9b6, 0xa9b9), (0xa9bc, 0xa9bd), (0xa9e5, 0xa9e5),
    (0xaa29, 0xaa2e), (0xaa31, 0xaa32), (0xaa35, 0xaa36), (0xaa43, 0xaa43),
    (0xaa4c, 0xaa4c), (0xaa7c, 0xaa7c), (0xaab0, 0xaab0), (0xaab2, 0xaab4),
    (0xaab7, 0xaab8), (0xaabe, 0xaabf), (0xaac1, 0xaac1), (0xaaec, 0xaaed),
    (0xaaf6, 0xaaf6), (0xabe5, 0xabe5), (0xabe8, 0xabe8), (0xabed, 0xabed),
    (0xfb1e, 0xfb1e), (0xfe00, 0xfe0f), (0xfe20, 0xfe2f), (0xfeff, 0xfeff),
    (0xfff9, 0xfffb), (0x101fd, 0x101fd), (0x102e0, 0x102e0), (0x10376, 0x1037a),
    (0x10a01, 0x10a03), (0x10a05, 0x10a06), (0x10a0c, 0x10a0f), (0x10a38, 0x10a3a),
    (0x10a3f, 0x10a3f), (0x10ae5, 0x10ae6), (0x10d24, 0x10d27), (0x10eab, 0x10eac),
    (0x10f46, 0x10f50), (0x10f82, 0x10f85), (0x11001, 0x11001), (0x11038, 0x11046),
    (0x11070, 0x11070), (0x11073, 0x11074), (0x1107f, 0x11081), (0x110b3, 0x110b6),
    (0x110b9, 0x110ba), (0x110c2, 0x110c2), (0x11100, 0x11102), (0x11127, 0x1112b),
    (0x1112d, 0x11134), (0x11173, 0x11173), (0x11180, 0x11181), (0x111b6, 0x111be),
    (0x111c9, 0x111cc), (0x111cf, 0x111cf), (0x1122f, 0x11231), (0x11234, 0x11234),
    (0x11236, 0x11237), (0x1123e, 0x1123e), (0x112df, 0x112df), (0x112e3, 0x112ea),
    (0x11300, 0x11301), (0x1133b, 0x1133c), (0x11340, 0x11340), (0x11366, 0x1136c),
    (0x11370, 0x11374), (0x11438, 0x1143f), (0x11442, 0x11444), (0x11446, 0x11446),
    (0x1145e, 0x1145e), (0x114b3, 0x114b8), (0x114ba, 0x114ba), (0x114bf, 0x114c0),
    (0x114c2, 0x114c3), (0x115b2, 0x115b5), (0x115bc, 0x115bd), (0x115bf, 0x115c0),
    (0x115dc, 0x115dd), (0x11633, 0x1163a), (0x1163d, 0x1163d), (0x1163f, 0x11640),
    (0x116ab, 0x116ab), (0x116ad, 0x116ad), (0x116b0, 0x116b5), (0x116b7, 0x116b7),
    (0x1171d, 0x1171f), (0x11722, 0x11725), (0x11727, 0x1172b), (0x1182f, 0x11837),
    (0x11839, 0x1183a), (0x1193b, 0x1193c), (0x1193e, 0x1193e), (0x11943, 0x11943),
    (0x119d4, 0x119d7), (0x119da, 0x119db), (0x119e0, 0x119e0), (0x11a01, 0x11a0a),
    (0x11a33, 0x11a38), (0x11a3b, 0x11a3e), (0x11a47, 0x11a47), (0x11a51, 0x11a56),
    (0x11a59, 0x11a5b), (0x11a8a, 0x11a96), (0x11a98, 0x11a99), (0x11c30, 0x11c36),
    (0x11c38, 0x11c3d), (0x11c3f, 0x11c3f), (0x11c92, 0x11ca7), (0x11caa, 0x11cb0),
    (0x11cb2, 0x11cb3), (0x11cb5, 0x11cb6), (0x11d31, 0x11d36), (0x11d3a, 0x11d3a),
    (0x11d3c, 0x11d3d), (0x11d3f, 0x11d45), (0x11d47, 0x11d47), (0x11d90, 0x11d91),
    (0x11d95, 0x11d95), (0x11d97, 0x11d97), (0x11ef3, 0x11ef4), (0x13430, 0x13438),
    (0x16af0, 0x16af4), (0x16b30, 0x16b36), (0x16f4f, 0x16f4f), (0x16f8f, 0x16f92),
    (0x16fe4, 0x16fe4), (0x1bc9d, 0x1bc9e), (0x1bca0, 0x1bca3), (0x1cf00, 0x1cf2d),
    (0x1cf30, 0x1cf46), (0x1d167, 0x1d169), (0x1d173, 0x1d182), (0x1d185, 0x1d18b),
    (0x1d1aa, 0x1d1ad), (0x1d242, 0x1d244), (0x1da00, 0x1da36), (0x1da3b, 0x1da6c),
    (0x1da75, 0x1da75), (0x1da84, 0x1da84), (0x1da9b, 0x1da9f), (0x1daa1, 0x1daaf),
    (0x1e000, 0x1e006), (0x1e008, 0x1e018), (0x1e01b, 0x1e021), (0x1e023, 0x1e024),
    (0x1e026, 0x1e02a), (0x1e130, 0x1e136), (0x1e2ae, 0x1e2ae), (0x1e2ec, 0x1e2ef),
    (0x1e8d0, 0x1e8d6), (0x1e944, 0x1e94a), (0xe0001, 0xe0001), (0xe0020, 0xe007f),
    (0xe0100, 0xe01ef)]"

definition wc_ambiguous :: "(int \<times> int) list" where
  "wc_ambiguous = [
    (0xa1, 0xa1), (0xa4, 0xa4), (0xa7, 0xa8), (0xaa, 0xaa),
    (0xad, 0xae), (0xb0, 0xb4), (0xb6, 0xba), (0xbc, 0xbf),
    (0xc6, 0xc6), (0xd0, 0xd0), (0xd7, 0xd8), (0xde, 0xe1),
    (0xe6, 0xe6), (0xe8, 0xea), (0xec, 0xed), (0xf0, 0xf0),
    (0xf2, 0xf3), (0xf7, 0xfa), (0xfc, 0xfc), (0xfe, 0xfe),
    (0x101, 0x101), (0x111, 0x111), (0x113, 0x113), (0x11b, 0x11b),
    (0x126, 0x127), (0x12b, 0x12b), (0x131, 0x133), (0x138, 0x138),
    (0x13f, 0x142), (0x144, 0x144), (0x148, 0x14b), (0x14d, 0x14d),
    (0x152, 0x153), (0x166, 0x167), (0x16b, 0x16b), (0x1ce, 0x1ce),
    (0x1d0, 0x1d0), (0x1d2, 0x1d2), (0x1d4, 0x1d4), (0x1d6, 0x1d6),
    (0x1d8, 0x1d8), (0x1da, 0x1da), (0x1dc, 0x1dc), (0x251, 0x251),
    (0x261, 0x261), (0x2c4, 0x2c4), (0x2c7, 0x2c7), (0x2c9, 0x2cb),
    (0x2cd, 0x2cd), (0x2d0, 0x2d0), (0x2d8, 0x2db), (0x2dd, 0x2dd),
    (0x2df, 0x2df), (0x300, 0x36f), (0x391, 0x3a1), (0x3a3, 0x3a9),
    (0x3b1, 0x3c1), (0x3c3, 0x3c9), (0x401, 0x401), (0x410, 0x44f),
    (0x451, 0x451), (0x1100, 0x115f), (0x2010, 0x2010), (0x2013, 0x2016),
    (0x2018, 0x2019), (0x201c, 0x201d), (0x2020, 0x2022), (0x2024, 0x2027),
    (0x2030, 0x2030), (0x2032, 0x2033), (0x2035, 0x2035), (0x203b, 0x203b),
    (0x203e, 0x203e), (0x2074, 0x2074), (0x207f, 0x207f), (0x2081, 0x2084),
    (0x20ac, 0x20ac), (0x2103, 0x2103), (0x2105, 0x2105), (0x2109, 0x2109),
    (0x2113, 0x2113), (0x2116, 0x2116), (0x2121, 0x2122), (0x2126, 0x2126),
    (0x212b, 0x212b), (0x2153, 0x2154), (0x215b, 0x215e), (0x2160, 0x216b),
    (0x2170, 0x2179), (0x2189, 0x2189), (0x2190, 0x2199), (0x21b8, 0x21b9),
    (0x21d2, 0x21d2), (0x21d4, 0x21d4), (0x21e7, 0x21e7), (0x2200, 0x2200),
    (0x2202, 0x2203), (0x2207, 0x2208), (0x220b, 0x220b), (0x220f, 0x220f),
    (0x2211, 0x2211), (0x2215, 0x2215), (0x221a, 0x221a), (0x221d, 0x2220),
    (0x2223, 0x2223), (0x2225, 0x2225), (0x2227, 0x222c), (0x222e, 0x222e),
    (0x2234, 0x2237), (0x223c, 0x223d), (0x2248, 0x2248), (0x224c, 0x224c),
    (0x2252, 0x2252), (0x2260, 0x2261), (0x2264, 0x2267), (0x226a, 0x226b),
    (0x226e, 0x226f), (0x2282, 0x2283), (0x2286, 0x2287), (0x2295, 0x2295),
    (0x2299, 0x2299), (0x22a5, 0x22a5), (0x22bf, 0x22bf), (0x2312, 0x2312),
    (0x231a, 0x231b), (0x2329, 0x232a), (0x23e9, 0x23ec), (0x23f0, 0x23f0),
    (0x23f3, 0x23f3), (0x2460, 0x24e9), (0x24eb, 0x254b), (0x2550, 0x2573),
    (0x2580, 0x258f), (0x2592, 0x2595), (0x25a0, 0x25a1), (0x25a3, 0x25a9),
    (0x25b2, 0x25b3), (0x25b6, 0x25b7), (0x25bc, 0x25bd), (0x25c0, 0x25c1),
    (0x25c6, 0x25c8), (0x25cb, 0x25cb), (0x25ce, 0x25d1), (0x25e2, 0x25e5),
    (0x25ef, 0x25ef), (0x25fd, 0x25fe), (0x2605, 0x2606), (0x2609, 0x2609),
    (0x260e, 0x260f), (0x2614, 0x2615), (0x261c, 0x261c), (0x261e, 0x261e),
    (0x2640, 0x2640), (0x2642, 0x2642), (0x2648, 0x2653), (0x2660, 0x2661),
    (0x2663, 0x2665), (0x2667, 0x266a), (0x266c, 0x266d), (0x266f, 0x266f),
    (0x267f, 0x267f), (0x2693, 0x2693), (0x269e, 0x269f), (0x26a1, 0x26a1),
    (0x26aa, 0x26ab), (0x26bd, 0x26bf), (0x26c4, 0x26e1), (0x26e3, 0x26e3),
    (0x26e8, 0x26ff), (0x2705, 0x2705), (0x270a, 0x270b), (0x2728, 0x2728),
    (0x273d, 0x273d), (0x274c, 0x274c), (0x274e, 0x274e), (0x2753, 0x2755),
    (0x2757, 0x2757), (0x2776, 0x277f), (0x2795, 0x2797), (0x27b0, 0x27b0),
    (0x27bf, 0x27bf), (0x2b1b, 0x2b1c), (0x2b50, 0x2b50), (0x2b55, 0x2b59),
    (0x2e80, 0x2fdf), (0x2ff0, 0x303e), (0x3040, 0x4dbf), (0x4e00, 0xa4cf),
    (0xa960, 0xa97f), (0xac00, 0xd7a3), (0xe000, 0xfaff), (0xfe00, 0xfe19),
    (0xfe30, 0xfe6f), (0xff01, 0xff60), (0xffe0, 0xffe6), (0xfffd, 0xfffd),
    (0x16fe0, 0x16fe4), (0x16ff0, 0x16ff1), (0x17000, 0x18cd5), (0x18d00, 0x18d08),
    (0x1aff0, 0x1aff3), (0x1aff5, 0x1affb), (0x1affd, 0x1affe), (0x1b000, 0x1b12f),
    (0x1b150, 0x1b152), (0x1b164, 0x1b167), (0x1b170, 0x1b2ff), (0x1f004, 0x1f004),
    (0x1f0cf, 0x1f0cf), (0x1f100, 0x1f10a), (0x1f110, 0x1f12d), (0x1f130, 0x1f169),
    (0x1f170, 0x1f1ac), (0x1f200, 0x1f202), (0x1f210, 0x1f23b), (0x1f240, 0x1f248),
    (0x1f250, 0x1f251), (0x1f260, 0x1f265), (0x1f300, 0x1f320), (0x1f32d, 0x1f335),
    (0x1f337, 0x1f37c), (0x1f37e, 0x1f393), (0x1f3a0, 0x1f3ca), (0x1f3cf, 0x1f3d3),
    (0x1f3e0, 0x1f3f0), (0x1f3f4, 0x1f3f4), (0x1f3f8, 0x1f43e), (0x1f440, 0x1f440),
    (0x1f442, 0x1f4fc), (0x1f4ff, 0x1f53d), (0x1f54b, 0x1f54e), (0x1f550, 0x1f567),
    (0x1f57a, 0x1f57a), (0x1f595, 0x1f596), (0x1f5a4, 0x1f5a4), (0x1f5fb, 0x1f64f),
    (0x1f680, 0x1f6c5), (0x1f6cc, 0x1f6cc), (0x1f6d0, 0x1f6d2), (0x1f6d5, 0x1f6d7),
    (0x1f6dd, 0x1f6df), (0x1f6eb, 0x1f6ec), (0x1f6f4, 0x1f6fc), (0x1f7e0, 0x1f7eb),
    (0x1f7f0, 0x1f7f0), (0x1f90c, 0x1f93a), (0x1f93c, 0x1f945), (0x1f947, 0x1f9ff),
    (0x1fa70, 0x1fa74), (0x1fa78, 0x1fa7c), (0x1fa80, 0x1fa86), (0x1fa90, 0x1faac),
    (0x1fab0, 0x1faba), (0x1fac0, 0x1fac5), (0x1fad0, 0x1fad9), (0x1fae0, 0x1fae7),
    (0x1faf0, 0x1faf6), (0x20000, 0x2fffd), (0x30000, 0x3fffd), (0xe0100, 0xe01ef),
    (0xf0000, 0xffffd), (0x100000, 0x10fffd)]"

definition wc_unambiguous :: "(int \<times> int) list" where
  "wc_unambiguous = [
    (0x1100, 0x115f), (0x231a, 0x231b), (0x2329, 0x232a), (0x23e9, 0x23ec),
    (0x23f0, 0x23f0), (0x23f3, 0x23f3), (0x25fd, 0x25fe), (0x2614, 0x2615),
    (0x2648, 0x2653), (0x267f, 0x267f), (0x2693, 0x2693), (0x26a1, 0x26a1),
    (0x26aa, 0x26ab), (0x26bd, 0x26be), (0x26c4, 0x26c5), (0x26ce, 0x26ce),
    (0x26d4, 0x26d4), (0x26ea, 0x26ea), (0x26f2, 0x26f3), (0x26f5, 0x26f5),
    (0x26fa, 0x26fa), (0x26fd, 0x26fd), (0x2705, 0x2705), (0x270a, 0x270b),
    (0x2728, 0x2728), (0x274c, 0x274c), (0x274e, 0x274e), (0x2753, 0x2755),
    (0x2757, 0x2757), (0x2795, 0x2797), (0x27b0, 0x27b0), (0x27bf, 0x27bf),
    (0x2b1b, 0x2b1c), (0x2b50, 0x2b50), (0x2b55, 0x2b55), (0x2e80, 0x2fdf),
    (0x2ff0, 0x303e), (0x3040, 0x3247), (0x3250, 0x4dbf), (0x4e00, 0xa4cf),
    (0xa960, 0xa97f), (0xac00, 0xd7a3), (0xf900, 0xfaff), (0xfe10, 0xfe19),
    (0xfe30, 0xfe6f), (0xff01, 0xff60), (0xffe0, 0xffe6), (0x16fe0, 0x16fe4),
    (0x16ff0, 0x16ff1), (0x17000, 0x18cd5), (0x18d00, 0x18d08), (0x1aff0, 0x1aff3),
    (0x1aff5, 0x1affb), (0x1affd, 0x1affe), (0x1b000, 0x1b12f), (0x1b150, 0x1b152),
    (0x1b164, 0x1b167), (0x1b170, 0x1b2ff), (0x1f004, 0x1f004), (0x1f0cf, 0x1f0cf),
    (0x1f18e, 0x1f18e), (0x1f191, 0x1f19a), (0x1f200, 0x1f202), (0x1f210, 0x1f23b),
    (0x1f240, 0x1f248), (0x1f250, 0x1f251), (0x1f260, 0x1f265), (0x1f300, 0x1f320),
    (0x1f32d, 0x1f335), (0x1f337, 0x1f37c), (0x1f37e, 0x1f393), (0x1f3a0, 0x1f3ca),
    (0x1f3cf, 0x1f3d3), (0x1f3e0, 0x1f3f0), (0x1f3f4, 0x1f3f4), (0x1f3f8, 0x1f43e),
    (0x1f440, 0x1f440), (0x1f442, 0x1f4fc), (0x1f4ff, 0x1f53d), (0x1f54b, 0x1f54e),
    (0x1f550, 0x1f567), (0x1f57a, 0x1f57a), (0x1f595, 0x1f596), (0x1f5a4, 0x1f5a4),
    (0x1f5fb, 0x1f64f), (0x1f680, 0x1f6c5), (0x1f6cc, 0x1f6cc), (0x1f6d0, 0x1f6d2),
    (0x1f6d5, 0x1f6d7), (0x1f6dd, 0x1f6df), (0x1f6eb, 0x1f6ec), (0x1f6f4, 0x1f6fc),
    (0x1f7e0, 0x1f7eb), (0x1f7f0, 0x1f7f0), (0x1f90c, 0x1f93a), (0x1f93c, 0x1f945),
    (0x1f947, 0x1f9ff), (0x1fa70, 0x1fa74), (0x1fa78, 0x1fa7c), (0x1fa80, 0x1fa86),
    (0x1fa90, 0x1faac), (0x1fab0, 0x1faba), (0x1fac0, 0x1fac5), (0x1fad0, 0x1fad9),
    (0x1fae0, 0x1fae7), (0x1faf0, 0x1faf6), (0x20000, 0x2fffd), (0x30000, 0x3fffd)]"

section \<open>Binary search\<close>

text \<open>
  The loop of \<open>lib.wc.binaryTableSearch_\<close>, from \<open>min\<close> and \<open>max\<close>. Both indices stay inside the
  table (\<open>search_loop_iff\<close> below needs no other fact about the reads).
\<close>

function search_loop :: "int \<Rightarrow> (int \<times> int) list \<Rightarrow> int \<Rightarrow> int \<Rightarrow> bool" where
  "search_loop ucs tbl lo hi =
     (if hi \<ge> lo then
        (let mid = (lo + hi) div 2 in
         if ucs > snd (tbl ! nat mid) then search_loop ucs tbl (mid + 1) hi
         else if ucs < fst (tbl ! nat mid) then search_loop ucs tbl lo (mid - 1)
         else True)
      else False)"
  by pat_completeness auto
termination
  by (relation "measure (\<lambda>(ucs, tbl, lo, hi). nat (hi - lo + 1))") auto

declare search_loop.simps [simp del]

text \<open>The read of \<open>table[min][0]\<close> throws on an empty table: \<open>None\<close>.\<close>

definition binaryTableSearch :: "int \<Rightarrow> (int \<times> int) list \<Rightarrow> bool option" where
  "binaryTableSearch ucs tbl =
     (if tbl = [] then None
      else let lo = 0; hi = int (length tbl) - 1 in
        if ucs < fst (tbl ! nat lo) \<or> ucs > snd (tbl ! nat hi) then Some False
        else Some (search_loop ucs tbl lo hi))"

definition isSpace :: "int \<Rightarrow> bool" where
  "isSpace ucs \<longleftrightarrow> binaryTableSearch ucs wc_combining = Some True"

definition isCjkAmbiguous :: "int \<Rightarrow> bool" where
  "isCjkAmbiguous ucs \<longleftrightarrow> binaryTableSearch ucs wc_ambiguous = Some True"

section \<open>Widths\<close>

definition charWidthDisregardAmbiguous :: "wc_config \<Rightarrow> int \<Rightarrow> int" where
  "charWidthDisregardAmbiguous cfg ucs =
     (if ucs < 0x7f then
        (if ucs \<ge> 0x20 then 1
         else if ucs = 0 then nulWidth cfg
         else controlWidth cfg)
      else if ucs < 0xa0 then controlWidth cfg
      else if isSpace ucs then 0
      else if binaryTableSearch ucs wc_unambiguous = Some True then 2 else 1)"

definition charWidthRegardAmbiguous :: "wc_config \<Rightarrow> int \<Rightarrow> int" where
  "charWidthRegardAmbiguous cfg ucs =
     (if isCjkAmbiguous ucs then cjkAmbiguousWidth cfg
      else charWidthDisregardAmbiguous cfg ucs)"

definition charWidth :: "wc_config \<Rightarrow> int \<Rightarrow> int" where
  "charWidth cfg ucs =
     (if regardCjkAmbiguous cfg then charWidthRegardAmbiguous cfg ucs
      else charWidthDisregardAmbiguous cfg ucs)"

text \<open>
  \<open>str.codePointAt(i)\<close> at the head of what is left of the string: a surrogate pair is one
  code point, a surrogate on its own is itself. \<open>unit_count\<close> is the loops'
  \<open>codePoint <= 0xffff ? 1 : 2\<close>.
\<close>

definition is_high :: "code_unit \<Rightarrow> bool" where
  "is_high c \<longleftrightarrow> 0xd800 \<le> c \<and> c \<le> 0xdbff"

definition is_low :: "code_unit \<Rightarrow> bool" where
  "is_low c \<longleftrightarrow> 0xdc00 \<le> c \<and> c \<le> 0xdfff"

fun codePointAt :: "jsstring \<Rightarrow> int" where
  "codePointAt [] = 0"
| "codePointAt [c] = c"
| "codePointAt (c # d # s) =
     (if is_high c \<and> is_low d then (c - 0xd800) * 0x400 + (d - 0xdc00) + 0x10000 else c)"

definition unit_count :: "int \<Rightarrow> nat" where
  "unit_count cp = (if cp \<le> 0xffff then 1 else 2)"

function strWidth_loop :: "wc_config \<Rightarrow> int \<Rightarrow> jsstring \<Rightarrow> int" where
  "strWidth_loop cfg rv [] = rv"
| "strWidth_loop cfg rv (c # cs) =
     (let codePoint = codePointAt (c # cs);
          width = charWidth cfg codePoint
      in if width < 0 then -1
         else strWidth_loop cfg (rv + width) (drop (unit_count codePoint) (c # cs)))"
  by pat_completeness auto
termination
  by (relation "measure (\<lambda>(cfg, rv, s). length s)") (auto simp: unit_count_def)

definition strWidth :: "wc_config \<Rightarrow> jsstring \<Rightarrow> int" where
  "strWidth cfg str = strWidth_loop cfg 0 str"

text \<open>
  The two loops of \<open>substr\<close> are the same loop with two limits: how many code units it
  passes over before the accumulated width exceeds the limit.
\<close>

function seek :: "wc_config \<Rightarrow> int \<Rightarrow> int \<Rightarrow> jsstring \<Rightarrow> nat" where
  "seek cfg limit width [] = 0"
| "seek cfg limit width (c # cs) =
     (let codePoint = codePointAt (c # cs);
          width' = width + charWidth cfg codePoint
      in if width' > limit then 0
         else unit_count codePoint
           + seek cfg limit width' (drop (unit_count codePoint) (c # cs)))"
  by pat_completeness auto
termination
  by (relation "measure (\<lambda>(cfg, limit, width, s). length s)") (auto simp: unit_count_def)

definition wc_substr :: "wc_config \<Rightarrow> jsstring \<Rightarrow> int \<Rightarrow> int option \<Rightarrow> jsstring" where
  "wc_substr cfg str start subwidth =
     (let startIndex = (if start \<noteq> 0 then seek cfg start 0 str else 0) in
      case subwidth of
        Some w \<Rightarrow>
          (let endIndex = startIndex + seek cfg w 0 (drop startIndex str)
           in js_substring str (int startIndex) (int endIndex))
      | None \<Rightarrow> js_substr str (int startIndex) None)"

definition wc_substring :: "wc_config \<Rightarrow> jsstring \<Rightarrow> int \<Rightarrow> int \<Rightarrow> jsstring" where
  "wc_substring cfg str start stop = wc_substr cfg str start (Some (stop - start))"

section \<open>The search decides membership\<close>

text \<open>Sorted, disjoint intervals, each of them not empty: what the comments on the tables say.\<close>

fun intervals_ok :: "(int \<times> int) list \<Rightarrow> bool" where
  "intervals_ok [] = True"
| "intervals_ok [(a, b)] = (a \<le> b)"
| "intervals_ok ((a, b) # (c, d) # t) = (a \<le> b \<and> b < c \<and> intervals_ok ((c, d) # t))"

definition in_table :: "int \<Rightarrow> (int \<times> int) list \<Rightarrow> bool" where
  "in_table ucs tbl \<longleftrightarrow> (\<exists>(a, b) \<in> set tbl. a \<le> ucs \<and> ucs \<le> b)"

lemma intervals_ok_Cons:
  "intervals_ok (p # t) \<longleftrightarrow> fst p \<le> snd p \<and> (\<forall>q \<in> set t. snd p < fst q) \<and> intervals_ok t"
proof (induction t arbitrary: p)
  case Nil
  then show ?case by (cases p) simp
next
  case (Cons q t)
  from Cons [of q] show ?case
    by (cases p; cases q) force
qed

lemma intervals_ok_nth:
  assumes "intervals_ok tbl" and "i < j" and "j < length tbl"
  shows "snd (tbl ! i) < fst (tbl ! j)"
  using assms
proof (induction tbl arbitrary: i j)
  case Nil
  then show ?case by simp
next
  case (Cons p t)
  obtain j' where j': "j = Suc j'" "j' < length t"
    using Cons.prems by (cases j) auto
  with Cons show ?case
    by (cases i) (auto simp: intervals_ok_Cons)
qed

lemma intervals_ok_le:
  assumes "intervals_ok tbl" and "i < length tbl"
  shows "fst (tbl ! i) \<le> snd (tbl ! i)"
  using assms
proof (induction tbl arbitrary: i)
  case (Cons p t)
  then show ?case by (cases i) (auto simp: intervals_ok_Cons)
qed simp

text \<open>An interval that holds \<open>ucs\<close> settles which side of any other index it is on.\<close>

lemma interval_above:
  assumes ok: "intervals_ok tbl" and i: "i < length tbl" and m: "m < length tbl"
    and "fst (tbl ! i) \<le> ucs" and "ucs > snd (tbl ! m)" and "ucs \<le> snd (tbl ! i)"
  shows "m < i"
proof (rule ccontr)
  assume "\<not> m < i"
  then have "i = m \<or> i < m" by auto
  then show False
    using intervals_ok_nth [OF ok, of i m] intervals_ok_le [OF ok m] m assms(4-6) by auto
qed

lemma interval_below:
  assumes ok: "intervals_ok tbl" and i: "i < length tbl" and m: "m < length tbl"
    and "fst (tbl ! i) \<le> ucs" and "ucs < fst (tbl ! m)" and "ucs \<le> snd (tbl ! i)"
  shows "i < m"
proof (rule ccontr)
  assume "\<not> i < m"
  then have "i = m \<or> m < i" by auto
  then show False
    using intervals_ok_nth [OF ok, of m i] intervals_ok_le [OF ok m] i assms(4-6) by auto
qed

lemma search_loop_iff:
  "intervals_ok tbl \<Longrightarrow> 0 \<le> lo \<Longrightarrow> hi < int (length tbl) \<Longrightarrow>
    search_loop ucs tbl lo hi \<longleftrightarrow>
    (\<exists>i. lo \<le> int i \<and> int i \<le> hi \<and> fst (tbl ! i) \<le> ucs \<and> ucs \<le> snd (tbl ! i))"
proof (induction ucs tbl lo hi rule: search_loop.induct)
  case (1 ucs tbl lo hi)
  show ?case
  proof (cases "lo \<le> hi")
    case False
    then show ?thesis by (auto simp: search_loop.simps [of ucs tbl lo hi])
  next
    case True
    define mid where "mid = (lo + hi) div 2"
    have mid: "lo \<le> mid" "mid \<le> hi" using True by (auto simp: mid_def)
    then have m: "nat mid < length tbl" "int (nat mid) = mid" using "1.prems" by auto
    consider (up) "ucs > snd (tbl ! nat mid)"
      | (down) "\<not> ucs > snd (tbl ! nat mid)" "ucs < fst (tbl ! nat mid)"
      | (hit) "\<not> ucs > snd (tbl ! nat mid)" "\<not> ucs < fst (tbl ! nat mid)"
      by blast
    then show ?thesis
    proof cases
      case up
      have step: "search_loop ucs tbl lo hi = search_loop ucs tbl (mid + 1) hi"
        using True up by (simp add: mid_def Let_def search_loop.simps [of ucs tbl lo hi])
      have right: "mid + 1 \<le> int i"
        if "fst (tbl ! i) \<le> ucs" "ucs \<le> snd (tbl ! i)" "int i \<le> hi" for i
        using interval_above [OF "1.prems"(1) _ m(1) that(1) up that(2)] that(3) "1.prems"(3) m(2)
        by linarith
      have "search_loop ucs tbl (mid + 1) hi \<longleftrightarrow>
        (\<exists>i. mid + 1 \<le> int i \<and> int i \<le> hi \<and> fst (tbl ! i) \<le> ucs \<and> ucs \<le> snd (tbl ! i))"
        using "1.IH"(1) [OF True mid_def up] "1.prems" mid by simp
      moreover have "lo \<le> int i" if "mid + 1 \<le> int i" for i
        using that mid by linarith
      ultimately show ?thesis unfolding step using right by blast
    next
      case down
      have step: "search_loop ucs tbl lo hi = search_loop ucs tbl lo (mid - 1)"
        using True down by (simp add: mid_def Let_def search_loop.simps [of ucs tbl lo hi])
      have left: "int i \<le> mid - 1"
        if "fst (tbl ! i) \<le> ucs" "ucs \<le> snd (tbl ! i)" "int i \<le> hi" for i
        using interval_below [OF "1.prems"(1) _ m(1) that(1) down(2) that(2)] that(3) "1.prems"(3) m(2)
        by linarith
      have "search_loop ucs tbl lo (mid - 1) \<longleftrightarrow>
        (\<exists>i. lo \<le> int i \<and> int i \<le> mid - 1 \<and> fst (tbl ! i) \<le> ucs \<and> ucs \<le> snd (tbl ! i))"
        using "1.IH"(2) [OF True mid_def down] "1.prems" mid by simp
      moreover have "int i \<le> hi" if "int i \<le> mid - 1" for i
        using that mid by linarith
      ultimately show ?thesis unfolding step using left by blast
    next
      case hit
      have "search_loop ucs tbl lo hi"
        using True hit by (simp add: mid_def Let_def search_loop.simps [of ucs tbl lo hi])
      moreover have "lo \<le> int (nat mid) \<and> int (nat mid) \<le> hi"
        using mid m by simp
      ultimately show ?thesis
        using hit by (metis linorder_not_less)
    qed
  qed
qed

lemma in_table_nth:
  "in_table ucs tbl \<longleftrightarrow> (\<exists>i < length tbl. fst (tbl ! i) \<le> ucs \<and> ucs \<le> snd (tbl ! i))"
  by (fastforce simp: in_table_def in_set_conv_nth)

lemma binaryTableSearch_iff:
  assumes ok: "intervals_ok tbl" and ne: "tbl \<noteq> []"
  shows "binaryTableSearch ucs tbl = Some (in_table ucs tbl)"
proof -
  let ?hi = "int (length tbl) - 1"
  have search: "search_loop ucs tbl 0 ?hi \<longleftrightarrow> in_table ucs tbl"
    by (subst search_loop_iff [OF ok]) (auto simp: in_table_nth)
  have first: "fst (tbl ! 0) \<le> fst (tbl ! i)" if "i < length tbl" for i
    using intervals_ok_nth [OF ok, of 0 i] intervals_ok_le [OF ok, of 0] that
    by (cases "i = 0") force+
  have last: "snd (tbl ! i) \<le> snd (tbl ! nat ?hi)" if "i < length tbl" for i
    using intervals_ok_nth [OF ok, of i "nat ?hi"] intervals_ok_le [OF ok, of "nat ?hi"] that
    by (cases "i = nat ?hi") force+
  have "\<not> in_table ucs tbl" if "ucs < fst (tbl ! 0) \<or> ucs > snd (tbl ! nat ?hi)"
    using that first last unfolding in_table_nth by fastforce
  with search ne show ?thesis
    by (auto simp: binaryTableSearch_def Let_def)
qed

section \<open>The interface of a table, and the three tables\<close>

text \<open>
  What the width functions rely on from a table: it is a list of sorted, disjoint intervals
  and holds at least one. The search then always returns, and returns membership.
\<close>

locale interval_table =
  fixes tbl :: "(int \<times> int) list"
  assumes sorted_intervals: "intervals_ok tbl"
    and not_empty: "tbl \<noteq> []"
begin

lemma search: "binaryTableSearch ucs tbl = Some (in_table ucs tbl)"
  by (rule binaryTableSearch_iff [OF sorted_intervals not_empty])

lemma found_iff: "binaryTableSearch ucs tbl = Some True \<longleftrightarrow> in_table ucs tbl"
  by (simp add: search)

end

lemma tables_ok:
  "intervals_ok wc_combining" "intervals_ok wc_ambiguous" "intervals_ok wc_unambiguous"
  by code_simp+

lemma tables_not_empty: "wc_combining \<noteq> []" "wc_ambiguous \<noteq> []" "wc_unambiguous \<noteq> []"
  by (simp_all only: wc_combining_def wc_ambiguous_def wc_unambiguous_def list.simps not_False_eq_True)

interpretation combining: interval_table wc_combining
  by unfold_locales (fact tables_ok tables_not_empty)+

interpretation ambiguous: interval_table wc_ambiguous
  by unfold_locales (fact tables_ok tables_not_empty)+

interpretation unambiguous: interval_table wc_unambiguous
  by unfold_locales (fact tables_ok tables_not_empty)+

lemma isSpace_iff [wc_simps]: "isSpace ucs \<longleftrightarrow> in_table ucs wc_combining"
  by (simp add: isSpace_def combining.found_iff)

lemma isCjkAmbiguous_iff [wc_simps]: "isCjkAmbiguous ucs \<longleftrightarrow> in_table ucs wc_ambiguous"
  by (simp add: isCjkAmbiguous_def ambiguous.found_iff)

section \<open>Width bounds\<close>

text \<open>A configuration whose widths are column counts, as the shipped one is.\<close>

definition wc_ok :: "wc_config \<Rightarrow> bool" where
  "wc_ok cfg \<longleftrightarrow> 0 \<le> nulWidth cfg \<and> nulWidth cfg \<le> 2 \<and> 0 \<le> controlWidth cfg \<and>
     controlWidth cfg \<le> 2 \<and> 0 \<le> cjkAmbiguousWidth cfg \<and> cjkAmbiguousWidth cfg \<le> 2"

lemma wc_ok_default [simp]: "wc_ok wc_default"
  by (simp add: wc_ok_def wc_default_def)

lemma charWidth_bounds: "wc_ok cfg \<Longrightarrow> 0 \<le> charWidth cfg ucs \<and> charWidth cfg ucs \<le> 2"
  by (auto simp: wc_ok_def charWidth_def charWidthRegardAmbiguous_def
      charWidthDisregardAmbiguous_def)

lemma charWidth_nonneg [simp]: "wc_ok cfg \<Longrightarrow> 0 \<le> charWidth cfg ucs"
  using charWidth_bounds by blast

text \<open>Printable ASCII is one column wide, whatever the flag for ambiguous characters says.\<close>

definition printable :: "code_unit \<Rightarrow> bool" where
  "printable c \<longleftrightarrow> 0x20 \<le> c \<and> c < 0x7f"

abbreviation printable_str :: "jsstring \<Rightarrow> bool" where
  "printable_str s \<equiv> \<forall>c \<in> set s. printable c"

lemma in_table_above:
  assumes "\<forall>(a, b) \<in> set tbl. c < a"
  shows "\<not> in_table c tbl"
  using assms by (fastforce simp: in_table_def)

lemma ambiguous_first: "\<forall>(a, b) \<in> set wc_ambiguous. 0xa1 \<le> a"
  by code_simp

lemma ascii_not_ambiguous: "c < 0xa1 \<Longrightarrow> \<not> isCjkAmbiguous c"
proof -
  assume c: "c < 0xa1"
  have "\<forall>(a, b) \<in> set wc_ambiguous. 0xa1 \<le> a" by (rule ambiguous_first)
  with c have "\<forall>(a, b) \<in> set wc_ambiguous. c < a" by fastforce
  then show ?thesis by (simp add: isCjkAmbiguous_iff in_table_above)
qed

lemma charWidth_printable [simp]: "printable c \<Longrightarrow> charWidth cfg c = 1"
  using ascii_not_ambiguous [of c]
  by (simp add: printable_def charWidth_def charWidthRegardAmbiguous_def
      charWidthDisregardAmbiguous_def)

lemma printable_not_surrogate [simp]: "printable c \<Longrightarrow> \<not> is_high c"
  by (simp add: printable_def is_high_def)

lemma codePointAt_printable [simp]: "printable c \<Longrightarrow> codePointAt (c # s) = c"
  by (cases s) simp_all

lemma unit_count_printable [simp]: "printable c \<Longrightarrow> unit_count c = 1"
  by (simp add: unit_count_def printable_def)

section \<open>Code points of a string\<close>

text \<open>
  The loops walk the string code point by code point. \<open>points\<close> lists what they see, each
  code point with its code units, so that both loops become folds over one list. Code units
  are 16 bits wide.
\<close>

definition units_ok :: "jsstring \<Rightarrow> bool" where
  "units_ok s \<longleftrightarrow> (\<forall>c \<in> set s. 0 \<le> c \<and> c \<le> 0xffff)"

lemma units_ok_simps [simp]:
  "units_ok []" "units_ok (c # s) \<longleftrightarrow> 0 \<le> c \<and> c \<le> 0xffff \<and> units_ok s"
  "units_ok (s @ t) \<longleftrightarrow> units_ok s \<and> units_ok t"
  by (auto simp: units_ok_def)

lemma units_ok_take [simp]: "units_ok s \<Longrightarrow> units_ok (take k s)"
  and units_ok_drop [simp]: "units_ok s \<Longrightarrow> units_ok (drop k s)"
  by (auto simp: units_ok_def dest: in_set_takeD in_set_dropD)

function points :: "jsstring \<Rightarrow> (int \<times> jsstring) list" where
  "points [] = []"
| "points (c # cs) =
     (codePointAt (c # cs), take (unit_count (codePointAt (c # cs))) (c # cs)) #
     points (drop (unit_count (codePointAt (c # cs))) (c # cs))"
  by pat_completeness auto
termination
  by (relation "measure length") (auto simp: unit_count_def)

definition points_width :: "wc_config \<Rightarrow> (int \<times> jsstring) list \<Rightarrow> int" where
  "points_width cfg ps = sum_list (map (charWidth cfg \<circ> fst) ps)"

lemma points_width_simps [simp]:
  "points_width cfg [] = 0"
  "points_width cfg (p # ps) = charWidth cfg (fst p) + points_width cfg ps"
  "points_width cfg (ps @ qs) = points_width cfg ps + points_width cfg qs"
  by (simp_all add: points_width_def)

lemma points_width_nonneg [simp]: "wc_ok cfg \<Longrightarrow> 0 \<le> points_width cfg ps"
  by (induction ps) simp_all

lemma concat_points [simp]: "concat (map snd (points s)) = s"
  by (induction s rule: points.induct) simp_all

text \<open>A string splits at any boundary between its code points, and only there.\<close>

lemma codePointAt_cut:
  assumes "units_ok (c # cs)" and "unit_count (codePointAt (c # cs)) \<le> k"
  shows "codePointAt (take k (c # cs)) = codePointAt (c # cs)"
proof (cases cs)
  case Nil
  with assms show ?thesis by (cases k) (simp_all add: unit_count_def)
next
  case (Cons d ds)
  with assms show ?thesis
    by (cases k; cases "k - 1") (auto simp: unit_count_def is_high_def is_low_def split: if_splits)
qed

lemma unit_count_le: "units_ok (c # cs) \<Longrightarrow> unit_count (codePointAt (c # cs)) \<le> length (c # cs)"
  by (cases cs) (auto simp: unit_count_def)

lemma points_append:
  "units_ok s \<Longrightarrow> points s = ps @ qs \<Longrightarrow>
    points (concat (map snd ps)) = ps \<and> points (concat (map snd qs)) = qs"
proof (induction s arbitrary: ps rule: points.induct)
  case 1
  then show ?case by simp
next
  case (2 c cs)
  let ?cp = "codePointAt (c # cs)"
  let ?k = "unit_count ?cp"
  show ?case
  proof (cases ps)
    case Nil
    with 2 show ?thesis by (metis append_Nil concat_points concat.simps(1) list.simps(8) points.simps(1))
  next
    case (Cons p ps')
    with "2.prems" have p: "p = (?cp, take ?k (c # cs))"
      and rest: "points (drop ?k (c # cs)) = ps' @ qs" by simp_all
    have IH: "points (concat (map snd ps')) = ps'" "points (concat (map snd qs)) = qs"
      using "2.IH" [OF _ rest] "2.prems"(1) by simp_all
    define t where "t = concat (map snd ps')"
    define u where "u = concat (map snd qs)"
    have tu: "drop ?k (c # cs) = t @ u"
      using concat_points [of "drop ?k (c # cs)"] rest by (simp add: t_def u_def)
    have whole: "c # cs = take ?k (c # cs) @ t @ u"
      using tu append_take_drop_id [of ?k "c # cs"] by simp
    have k1: "?k \<ge> 1" by (simp add: unit_count_def)
    have lk: "length (take ?k (c # cs)) = ?k"
      using unit_count_le [OF "2.prems"(1)] by simp
    obtain x xs where x: "take ?k (c # cs) @ t = x # xs"
      using k1 by (cases ?k) auto
    have cut: "x # xs = take (length (x # xs)) (c # cs)"
      using whole x by (metis append.assoc append_eq_conv_conj)
    have len: "?k \<le> length (x # xs)"
      using lk x by (metis le_add1 length_append)
    have cp: "codePointAt (x # xs) = ?cp"
      using codePointAt_cut [OF "2.prems"(1) len] cut by simp
    have "points (x # xs) = (?cp, take ?k (x # xs)) # points (drop ?k (x # xs))"
      using cp by simp
    also have "take ?k (x # xs) = take ?k (c # cs)"
      using x lk by (metis append_eq_conv_conj)
    also have "drop ?k (x # xs) = t"
      using x lk by (metis append_eq_conv_conj)
    finally have "points (x # xs) = p # ps'"
      unfolding p IH(1) [folded t_def] .
    moreover have "concat (map snd ps) = x # xs"
      using x p Cons by (simp add: t_def)
    ultimately have "points (concat (map snd ps)) = ps" by (simp only: Cons)
    with IH(2) show ?thesis by blast
  qed
qed

text \<open>Both loops as functions of the code points.\<close>

lemma strWidth_loop_points:
  "wc_ok cfg \<Longrightarrow> strWidth_loop cfg rv s = rv + points_width cfg (points s)"
proof (induction cfg rv s rule: strWidth_loop.induct)
  case (2 cfg rv c cs)
  have "\<not> charWidth cfg (codePointAt (c # cs)) < 0"
    using charWidth_nonneg [OF "2.prems"] by (simp add: not_less)
  with 2 show ?case by (simp add: Let_def)
qed simp

lemma strWidth_points: "wc_ok cfg \<Longrightarrow> strWidth cfg s = points_width cfg (points s)"
  by (simp add: strWidth_def strWidth_loop_points)

fun fitting :: "wc_config \<Rightarrow> int \<Rightarrow> (int \<times> jsstring) list \<Rightarrow> (int \<times> jsstring) list" where
  "fitting cfg limit [] = []"
| "fitting cfg limit (p # ps) =
     (if charWidth cfg (fst p) > limit then []
      else p # fitting cfg (limit - charWidth cfg (fst p)) ps)"

lemma fitting_prefix: "\<exists>qs. ps = fitting cfg limit ps @ qs"
  by (induction cfg limit ps rule: fitting.induct) auto

lemma fitting_width: "0 \<le> limit \<Longrightarrow> points_width cfg (fitting cfg limit ps) \<le> limit"
  by (induction cfg limit ps rule: fitting.induct) auto

lemma fitting_all: "wc_ok cfg \<Longrightarrow> points_width cfg ps \<le> limit \<Longrightarrow> fitting cfg limit ps = ps"
proof (induction ps arbitrary: limit)
  case (Cons p ps)
  have "charWidth cfg (fst p) \<le> limit"
    using points_width_nonneg [OF Cons.prems(1), of ps] Cons.prems(2) by simp
  with Cons show ?case by simp
qed simp

lemma seek_fitting:
  "units_ok s \<Longrightarrow>
    seek cfg limit w s = length (concat (map snd (fitting cfg (limit - w) (points s))))"
proof (induction cfg limit w s rule: seek.induct)
  case (2 cfg limit w c cs)
  let ?cp = "codePointAt (c # cs)"
  show ?case
  proof (cases "w + charWidth cfg ?cp > limit")
    case True
    then show ?thesis by simp
  next
    case False
    have lim: "limit - (w + charWidth cfg ?cp) = limit - w - charWidth cfg ?cp" by simp
    show ?thesis
      using False "2.IH" [OF refl refl False] "2.prems" unit_count_le [OF "2.prems"]
      by (simp add: Let_def lim)
  qed
qed simp

lemma take_seek:
  assumes "units_ok s"
  shows "take (seek cfg limit 0 s) s = concat (map snd (fitting cfg limit (points s)))"
    (is "?l = ?r")
proof -
  obtain qs where qs: "points s = fitting cfg limit (points s) @ qs"
    using fitting_prefix by blast
  have "s = concat (map snd (fitting cfg limit (points s) @ qs))"
    using concat_points [of s] qs by metis
  then have "s = ?r @ concat (map snd qs)" by simp
  then show ?thesis
    by (metis append_eq_conv_conj assms diff_zero seek_fitting)
qed

lemma drop_seek:
  assumes "units_ok s" and "points s = fitting cfg limit (points s) @ qs"
  shows "drop (seek cfg limit 0 s) s = concat (map snd qs)"
proof -
  have "s = concat (map snd (fitting cfg limit (points s))) @ concat (map snd qs)"
    using concat_points [of s] assms(2) by (metis concat_append map_append)
  then show ?thesis
    by (metis append_eq_conv_conj assms(1) diff_zero seek_fitting)
qed

lemma seek_le: "units_ok s \<Longrightarrow> seek cfg limit w s \<le> length s"
proof (induction cfg limit w s rule: seek.induct)
  case (2 cfg limit w c cs)
  then show ?case
    using unit_count_le [OF "2.prems"] by (fastforce simp: Let_def)
qed simp

section \<open>Substrings in columns\<close>

lemma wc_substr_pieces:
  fixes cfg start
  assumes "units_ok s"
  defines "i \<equiv> (if start \<noteq> 0 then seek cfg start 0 s else 0)"
  shows "wc_substr cfg s start None = drop i s"
    and "wc_substr cfg s start (Some w) = take (seek cfg w 0 (drop i s)) (drop i s)"
proof -
  have i: "i \<le> length s" using seek_le [OF assms(1)] by (simp add: i_def)
  show "wc_substr cfg s start None = drop i s"
    by (simp add: wc_substr_def i_def Let_def)
  have "i + seek cfg w 0 (drop i s) \<le> length s"
    using seek_le [of "drop i s" cfg w 0] i assms(1) by simp
  then have "js_substring s (int i) (int (i + seek cfg w 0 (drop i s))) =
      take (seek cfg w 0 (drop i s)) (drop i s)"
    by (subst js_substring_ordered) simp_all
  then show "wc_substr cfg s start (Some w) = take (seek cfg w 0 (drop i s)) (drop i s)"
    by (simp add: wc_substr_def i_def Let_def)
qed

lemma units_ok_substr [simp]: "units_ok s \<Longrightarrow> units_ok (wc_substr cfg s start w)"
  by (cases w) (simp_all add: wc_substr_pieces)

lemma strWidth_nonneg [simp]: "wc_ok cfg \<Longrightarrow> 0 \<le> strWidth cfg s"
  by (simp add: strWidth_points)

lemma substr_width_le:
  assumes "wc_ok cfg" and "units_ok s" and "0 \<le> w"
  shows "strWidth cfg (wc_substr cfg s start (Some w)) \<le> w"
proof -
  define t where "t = drop (if start \<noteq> 0 then seek cfg start 0 s else 0) s"
  have t: "units_ok t" using assms by (simp add: t_def)
  obtain qs where "points t = fitting cfg w (points t) @ qs"
    using fitting_prefix by blast
  then have "points (concat (map snd (fitting cfg w (points t)))) = fitting cfg w (points t)"
    using points_append [OF t] by blast
  then show ?thesis
    using assms take_seek [OF t, of cfg w] fitting_width [of w cfg "points t"]
    by (simp add: wc_substr_pieces strWidth_points flip: t_def)
qed

lemma substr_partition:
  assumes "units_ok s" and "k \<noteq> 0"
  shows "wc_substr cfg s 0 (Some k) @ wc_substr cfg s k None = s"
  using assms by (simp add: wc_substr_pieces)

lemma substr_partition_width:
  assumes "wc_ok cfg" and "units_ok s" and "k \<noteq> 0"
  shows "strWidth cfg (wc_substr cfg s 0 (Some k)) + strWidth cfg (wc_substr cfg s k None)
    = strWidth cfg s"
proof -
  obtain qs where qs: "points s = fitting cfg k (points s) @ qs"
    using fitting_prefix by blast
  note parts = points_append [OF assms(2) qs]
  have "strWidth cfg s = points_width cfg (fitting cfg k (points s) @ qs)"
    using qs strWidth_points [OF assms(1)] by metis
  then show ?thesis
    using assms take_seek [OF assms(2), of cfg k] drop_seek [OF assms(2) qs] parts
    by (simp add: wc_substr_pieces strWidth_points)
qed

lemma substr_whole:
  assumes "wc_ok cfg" and "units_ok s" and "strWidth cfg s \<le> w"
  shows "wc_substr cfg s 0 (Some w) = s"
  using assms take_seek [OF assms(2), of cfg w]
  by (simp add: wc_substr_pieces fitting_all strWidth_points)

text \<open>A string of printable ASCII: columns and code units are the same thing.\<close>

lemma printable_units_ok [simp]: "printable_str s \<Longrightarrow> units_ok s"
  by (auto simp: units_ok_def printable_def)

lemma points_printable: "printable_str s \<Longrightarrow> points s = map (\<lambda>c. (c, [c])) s"
  by (induction s) simp_all

lemma strWidth_printable [simp]: "printable_str s \<Longrightarrow> strWidth cfg s = int (length s)"
proof -
  have "printable_str s \<Longrightarrow> strWidth_loop cfg rv s = rv + int (length s)" for rv
    by (induction s arbitrary: rv) simp_all
  then show "printable_str s \<Longrightarrow> strWidth cfg s = int (length s)"
    by (simp add: strWidth_def)
qed

lemma seek_printable:
  "printable_str s \<Longrightarrow> seek cfg limit w s = min (nat (limit - w)) (length s)"
proof (induction s arbitrary: w)
  case (Cons c s)
  have "seek cfg limit w (c # s) =
      (if limit \<le> w then 0 else Suc (min (nat (limit - w - 1)) (length s)))"
    using Cons by (simp add: Let_def diff_diff_eq)
  also have "\<dots> = min (nat (limit - w)) (length (c # s))"
    using Suc_nat_eq_nat_zadd1 [of "limit - w - 1"] by (auto simp flip: min_Suc_Suc)
  finally show ?case .
qed simp

lemma substr_printable [simp]:
  assumes "printable_str s" and "0 \<le> start"
  shows "wc_substr cfg s start None = drop (nat start) s"
    and "wc_substr cfg s start (Some w) = take (nat w) (drop (nat start) s)"
proof -
  define i where "i = (if start \<noteq> 0 then seek cfg start 0 s else 0)"
  have i: "drop i s = drop (nat start) s"
    using assms by (auto simp: i_def seek_printable min_def)
  have t: "printable_str (drop (nat start) s)" using assms(1) by (meson in_set_dropD)
  show "wc_substr cfg s start None = drop (nat start) s"
    using assms i by (simp add: wc_substr_pieces i_def)
  show "wc_substr cfg s start (Some w) = take (nat w) (drop (nat start) s)"
    using assms i by (simp add: wc_substr_pieces seek_printable [OF t] flip: i_def)
      (simp add: min_def)
qed

text \<open>Concatenation: widths add up unless the seam joins two halves of a surrogate pair.\<close>

definition seam_ok :: "jsstring \<Rightarrow> jsstring \<Rightarrow> bool" where
  "seam_ok s t \<longleftrightarrow> s = [] \<or> t = [] \<or> \<not> (is_high (last s) \<and> is_low (hd t))"

lemma codePointAt_append:
  "seam_ok (c # cs) t \<Longrightarrow> codePointAt ((c # cs) @ t) = codePointAt (c # cs)"
  by (cases cs; cases t) (auto simp: seam_ok_def)

lemma points_append_seam:
  "units_ok s \<Longrightarrow> seam_ok s t \<Longrightarrow> points (s @ t) = points s @ points t"
proof (induction s rule: points.induct)
  case (2 c cs)
  let ?k = "unit_count (codePointAt (c # cs))"
  have k: "?k \<le> length (c # cs)" by (rule unit_count_le [OF "2.prems"(1)])
  have "seam_ok (drop ?k (c # cs)) t"
    using "2.prems"(2) by (cases "drop ?k (c # cs) = []") (auto simp: seam_ok_def)
  then have "points (drop ?k (c # cs) @ t) = points (drop ?k (c # cs)) @ points t"
    using "2.IH" "2.prems"(1) units_ok_drop by blast
  moreover have "codePointAt (c # (cs @ t)) = codePointAt (c # cs)"
    using codePointAt_append [OF "2.prems"(2)] by simp
  moreover have "take ?k (c # (cs @ t)) = take ?k (c # cs)"
    and "drop ?k (c # (cs @ t)) = drop ?k (c # cs) @ t"
    using k take_append [of ?k "c # cs" t] drop_append [of ?k "c # cs" t] by simp_all
  ultimately show ?case by (simp only: append_Cons points.simps)
qed simp

section \<open>Properties\<close>

text \<open>
  C1. On a table of sorted, disjoint intervals \<open>lib.wc.binaryTableSearch_\<close> returns, and it
  returns whether some interval of the table holds the code point.
\<close>

theorem binaryTableSearch_decides:
  assumes "intervals_ok tbl" and "tbl \<noteq> []"
  shows "binaryTableSearch ucs tbl = Some (\<exists>(a, b) \<in> set tbl. a \<le> ucs \<and> ucs \<le> b)"
  using binaryTableSearch_iff [OF assms] by (simp add: in_table_def)

lemma binaryTableSearch_decides_witness:
  "binaryTableSearch 0x1f600 wc_unambiguous = Some True \<and>
   binaryTableSearch 0x301 [(0x300, 0x36f), (0x483, 0x489)] = Some True"
proof
  have "\<exists>(a, b) \<in> set wc_unambiguous. a \<le> 0x1f600 \<and> 0x1f600 \<le> b"
    by code_simp
  then show "binaryTableSearch 0x1f600 wc_unambiguous = Some True"
    using binaryTableSearch_decides [OF tables_ok(3) tables_not_empty(3)] by simp
  show "binaryTableSearch 0x301 [(0x300, 0x36f), (0x483, 0x489)] = Some True"
    using binaryTableSearch_decides [of "[(0x300, 0x36f), (0x483, 0x489)]" "0x301"] by simp
qed

text \<open>
  C2. With the shipped widths a character takes 0 columns when it is a control character or
  in the table of combining characters, 2 when it is in the table of wide characters and in
  neither of the former, and 1 otherwise. U+00AD is one of those with none, where the
  comment before the tables gives it one column, and control characters have none where it
  gives them -1.
\<close>

theorem charWidth_classes:
  "charWidth wc_default ucs =
     (if ucs < 0x20 \<or> 0x7f \<le> ucs \<and> ucs < 0xa0 \<or> 0xa0 \<le> ucs \<and> in_table ucs wc_combining then 0
      else if 0xa0 \<le> ucs \<and> in_table ucs wc_unambiguous then 2 else 1) \<and>
   charWidth wc_default 0xad = 0 \<and> charWidth wc_default 0x07 = 0"
proof -
  have ad: "isSpace 0xad" by code_simp
  show ?thesis
    using ad by (auto simp: charWidth_def wc_default_def charWidthDisregardAmbiguous_def
        isSpace_iff unambiguous.found_iff)
qed

text \<open>
  The width of two strings one after the other is the sum of their widths, unless the
  first ends and the second begins with the halves of one surrogate pair.
\<close>

theorem strWidth_append:
  assumes "wc_ok cfg" and "units_ok s" and "seam_ok s t"
  shows "strWidth cfg (s @ t) = strWidth cfg s + strWidth cfg t"
  using points_append_seam [OF assms(2,3)] by (simp add: strWidth_points assms(1))

lemma strWidth_append_witness:
  "strWidth wc_default ([0x61, 0x301] @ [0x4e2d, 0xd83d, 0xde00]) =
   strWidth wc_default [0x61, 0x301] + strWidth wc_default [0x4e2d, 0xd83d, 0xde00]"
  by (rule strWidth_append) (simp_all add: seam_ok_def is_high_def)

text \<open>
  C3. \<open>lib.wc.substr\<close> never returns more columns than it was asked for, returns the whole
  string when the string is no wider than that, and cutting at a column loses nothing: the
  piece before the column and the piece after it make the string and its width again, even
  where the column falls inside a wide character.
\<close>

theorem substr_cuts:
  assumes "wc_ok cfg" and "units_ok s"
  shows "(0 \<le> w \<longrightarrow> strWidth cfg (wc_substr cfg s start (Some w)) \<le> w) \<and>
    (strWidth cfg s \<le> w \<longrightarrow> wc_substr cfg s 0 (Some w) = s) \<and>
    (k \<noteq> 0 \<longrightarrow> wc_substr cfg s 0 (Some k) @ wc_substr cfg s k None = s \<and>
      strWidth cfg (wc_substr cfg s 0 (Some k)) + strWidth cfg (wc_substr cfg s k None)
        = strWidth cfg s)"
  using substr_width_le [OF assms] substr_whole [OF assms] substr_partition [OF assms(2)]
    substr_partition_width [OF assms] by blast

lemma substr_cuts_witness:
  "strWidth wc_default (wc_substr wc_default [0x4e2d, 0x61, 0x6587] 2 (Some 2)) \<le> 2 \<and>
   wc_substr wc_default [0x4e2d, 0x61, 0x6587] 0 (Some 1) @
     wc_substr wc_default [0x4e2d, 0x61, 0x6587] 1 None = [0x4e2d, 0x61, 0x6587]"
  using substr_cuts [of wc_default "[0x4e2d, 0x61, 0x6587]" 2 2 1] by simp

text \<open>
  A substring asked for by its columns \<open>start\<close> to \<open>stop\<close> of printable ASCII text is the
  one by the same code unit indices, and its width is the number of columns it could have.
\<close>

theorem substring_printable:
  assumes "printable_str s" and "0 \<le> start" and "start \<le> stop" and "stop \<le> int (length s)"
  shows "wc_substring cfg s start stop = js_substring s start stop \<and>
    strWidth cfg (wc_substring cfg s start stop) = stop - start"
proof -
  have sub: "wc_substring cfg s start stop = take (nat (stop - start)) (drop (nat start) s)"
    using assms by (simp add: wc_substring_def)
  have "printable_str (take (nat (stop - start)) (drop (nat start) s))"
    using assms(1) by (meson in_set_dropD in_set_takeD)
  then have "strWidth cfg (wc_substring cfg s start stop) = stop - start"
    using assms by (simp add: sub)
  moreover have "js_substring s start stop = take (nat (stop - start)) (drop (nat start) s)"
    using assms js_substring_ordered [of "nat start" "nat stop" s]
    by (simp add: nat_diff_distrib)
  ultimately show ?thesis using sub by simp
qed

lemma substring_printable_witness:
  "wc_substring wc_default (js ''cursor'') 1 4 = js_substring (js ''cursor'') 1 4 \<and>
   strWidth wc_default (wc_substring wc_default (js ''cursor'') 1 4) = 4 - 1"
  by (rule substring_printable) (simp_all add: printable_def)

end
