(* ===== verification/Colors.thy ===== *)
theory Colors
  imports Prelude
begin

text \<open>
  The part of \<open>lib.colors\<close> that the text attributes use (hterm_all-1.91.js, from
  \<open>libdot/js/lib_colors.js\<close>): the regular expressions for \<open>rgb(...)\<close> and \<open>rgba(...)\<close>,
  \<open>crackRGB\<close>, \<open>arrayToRGBA\<close> and \<open>setAlpha\<close>. Shown: what \<open>arrayToRGBA\<close> writes \<open>crackRGB\<close> reads
  back, exactly for components of one to three digits.
\<close>

section \<open>The regular expressions\<close>

text \<open>
  Each pattern is a sequence of literals, digit runs and \<open>\s*\<close> in which no character can be
  taken by two neighbours, so matching is reading from left to right: \<open>skip_ws\<close> is \<open>\s*\<close>,
  \<open>eat_lit\<close> a literal under the flag \<open>i\<close>, \<open>eat_digits n\<close> is \<open>(\d{1,n})\<close>.
\<close>

definition is_ws :: "code_unit \<Rightarrow> bool" where
  "is_ws c \<longleftrightarrow> 9 \<le> c \<and> c \<le> 13 \<or> c \<in> {32, 0xa0, 0x1680, 0x2028, 0x2029, 0x202f, 0x205f, 0x3000, 0xfeff}
     \<or> 0x2000 \<le> c \<and> c \<le> 0x200a"

definition skip_ws :: "jsstring \<Rightarrow> jsstring" where
  "skip_ws s = dropWhile is_ws s"

definition lower_ascii :: "code_unit \<Rightarrow> code_unit" where
  "lower_ascii c = (if 65 \<le> c \<and> c \<le> 90 then c + 32 else c)"

definition eat_lit :: "jsstring \<Rightarrow> jsstring \<Rightarrow> jsstring option" where
  "eat_lit l s =
     (if map lower_ascii (take (length l) s) = l then Some (drop (length l) s) else None)"

definition eat_digits :: "nat \<Rightarrow> jsstring \<Rightarrow> (jsstring \<times> jsstring) option" where
  "eat_digits n s =
     (let d = takeWhile is_digit (take n s)
      in if d = [] then None else Some (d, drop (length d) s))"

text \<open>\<open>\s*\(\s*(\d{1,3})\s*,\s*(\d{1,3})\s*,\s*(\d{1,3})\s*\<close>, common to both patterns.\<close>

definition eat_components :: "jsstring \<Rightarrow> (jsstring list \<times> jsstring) option" where
  "eat_components s = do {
     s \<leftarrow> eat_lit (js ''('') (skip_ws s);
     (r, s) \<leftarrow> eat_digits 3 (skip_ws s);
     s \<leftarrow> eat_lit (js '','') (skip_ws s);
     (g, s) \<leftarrow> eat_digits 3 (skip_ws s);
     s \<leftarrow> eat_lit (js '','') (skip_ws s);
     (b, s) \<leftarrow> eat_digits 3 (skip_ws s);
     Some ([r, g, b], skip_ws s)
   }"

text \<open>\<open>/^\s*rgb...\s*\)\s*$/i\<close>\<close>

definition match_rgb :: "jsstring \<Rightarrow> jsstring list option" where
  "match_rgb s = do {
     s \<leftarrow> eat_lit (js ''rgb'') (skip_ws s);
     (ary, s) \<leftarrow> eat_components s;
     s \<leftarrow> eat_lit (js '')'') s;
     (if skip_ws s = [] then Some ary else None)
   }"

text \<open>\<open>/^\s*rgba...(?:,\s*(\d+(?:\.\d+)?)\s*)\)\s*$/i\<close>\<close>

definition eat_fraction :: "jsstring \<Rightarrow> jsstring \<times> jsstring" where
  "eat_fraction s =
     (case s of
        c # t \<Rightarrow>
          (if c = 46 \<and> takeWhile is_digit t \<noteq> []
           then (c # takeWhile is_digit t, dropWhile is_digit t) else ([], s))
      | [] \<Rightarrow> ([], s))"

definition match_rgba :: "jsstring \<Rightarrow> jsstring list option" where
  "match_rgba s = do {
     s \<leftarrow> eat_lit (js ''rgba'') (skip_ws s);
     (ary, s) \<leftarrow> eat_components s;
     s \<leftarrow> eat_lit (js '','') s;
     (a, s) \<leftarrow> eat_digits (length s) (skip_ws s);
     s' \<leftarrow> eat_lit (js '')'') (skip_ws (snd (eat_fraction s)));
     (if skip_ws s' = [] then Some (ary @ [a @ fst (eat_fraction s)]) else None)
   }"

section \<open>Operations\<close>

text \<open>\<open>color.startsWith('rgba')\<close> does not ignore case, the patterns do.\<close>

definition crackRGB :: "jsstring \<Rightarrow> jsstring list option" where
  "crackRGB color =
     (if take 4 color = js ''rgba'' then match_rgba color
      else map_option (\<lambda>ary. ary @ [js ''1'']) (match_rgb color))"

text \<open>An array of any other length than three is read as one of four.\<close>

definition arrayToRGBA :: "jsstring list \<Rightarrow> jsstring" where
  "arrayToRGBA ary =
     (if length ary = 3
      then js ''rgb('' @ ary ! 0 @ js '', '' @ ary ! 1 @ js '', '' @ ary ! 2 @ js '')''
      else js ''rgba('' @ ary ! 0 @ js '', '' @ ary ! 1 @ js '', '' @ ary ! 2 @ js '', ''
        @ ary ! 3 @ js '')'')"

text \<open>\<open>ary[3] = ...\<close> on a \<open>null\<close> throws.\<close>

definition setAlpha :: "jsstring \<Rightarrow> jsstring \<Rightarrow> jsstring option" where
  "setAlpha rgb alpha = do {
     ary \<leftarrow> crackRGB rgb;
     Some (arrayToRGBA (ary[3 := alpha]))
   }"

section \<open>Reading back what was written\<close>

definition component :: "jsstring \<Rightarrow> bool" where
  "component s \<longleftrightarrow> s \<noteq> [] \<and> (\<forall>c \<in> set s. is_digit c)"

lemma digit_not_ws [simp]: "is_digit c \<Longrightarrow> \<not> is_ws c"
  by (auto simp: is_digit_def is_ws_def)

lemma skip_ws_digits [simp]: "component s \<Longrightarrow> skip_ws (s @ t) = s @ t"
  by (cases s) (simp_all add: skip_ws_def component_def)

lemma skip_ws_Cons [simp]: "\<not> is_ws c \<Longrightarrow> skip_ws (c # t) = c # t" "skip_ws [] = []"
  by (simp_all add: skip_ws_def)

lemma skip_ws_blank [simp]: "skip_ws (32 # t) = skip_ws t"
  by (simp add: skip_ws_def is_ws_def)

lemma not_ws [simp]: "\<not> is_ws 40" "\<not> is_ws 41" "\<not> is_ws 44" "\<not> is_ws 114"
  by (simp_all add: is_ws_def)

lemma eat_lit_append [simp]:
  "map lower_ascii l = l \<Longrightarrow> eat_lit l (l @ t) = Some t"
  by (simp add: eat_lit_def)

lemma eat_lit_unit [simp]:
  "eat_lit [c] (d # t) = (if lower_ascii d = c then Some t else None)"
  by (simp add: eat_lit_def)

lemma lower_ascii_delim [simp]:
  "lower_ascii 40 = 40" "lower_ascii 41 = 41" "lower_ascii 44 = 44"
  by (simp_all add: lower_ascii_def)

lemma eat_digits_component:
  assumes "component s" and "\<not> is_digit c"
  shows "eat_digits n (s @ c # t) =
    (if n = 0 then None else Some (take n s, drop n s @ c # t))"
proof -
  have run: "takeWhile is_digit (take n (s @ c # t)) = take n s"
  proof (cases "n \<le> length s")
    case True
    then show ?thesis using assms(1)
      by (simp add: component_def) (meson in_set_takeD takeWhile_eq_all_conv)
  next
    case False
    then show ?thesis using assms
      by (cases "n - length s") (simp_all add: component_def)
  qed
  show ?thesis
    unfolding eat_digits_def Let_def run
    using assms(1) by (cases "n \<le> length s") (auto simp: component_def)
qed

lemma not_digit [simp]: "\<not> is_digit 40" "\<not> is_digit 41" "\<not> is_digit 44" "\<not> is_digit 46"
  by (simp_all add: is_digit_def)

lemma skip_ws_component_drop:
  "component s \<Longrightarrow> skip_ws (drop n s @ t) = (if n < length s then drop n s @ t else skip_ws t)"
proof -
  assume s: "component s"
  have "component (drop n s)" if "n < length s"
    using s that by (auto simp: component_def dest: in_set_dropD)
  then show ?thesis by auto
qed

lemma digit_lower [simp]: "is_digit c \<Longrightarrow> lower_ascii c = c"
  by (simp add: is_digit_def lower_ascii_def)

text \<open>A digit run of more than three digits leaves a digit where the delimiter should be.\<close>

lemma eat_lit_after_digits:
  assumes "component s" and "c \<in> {41, 44}"
  shows "eat_lit [c] (skip_ws (drop 3 s @ c # t)) = (if length s \<le> 3 then Some t else None)"
proof (cases "length s \<le> 3")
  case True
  then show ?thesis using assms by (auto simp: skip_ws_component_drop)
next
  case False
  then obtain d u where d: "drop 3 s = d # u" by (cases "drop 3 s") auto
  then have "is_digit d" using assms(1) by (metis component_def in_set_dropD list.set_intros(1))
  with False d assms show ?thesis
    by (auto simp: skip_ws_component_drop)
qed

lemma eat_components_written:
  assumes "component r" and "component g" and "component b" and "\<not> is_digit c"
  shows "eat_components (40 # r @ 44 # 32 # g @ 44 # 32 # b @ c # t) =
    (if length r \<le> 3 \<and> length g \<le> 3
     then Some ([r, g, take 3 b], skip_ws (drop 3 b @ c # t)) else None)"
proof -
  have r: "eat_lit [44] (skip_ws (drop 3 r @ 44 # 32 # g @ 44 # 32 # b @ c # t)) =
      (if length r \<le> 3 then Some (32 # g @ 44 # 32 # b @ c # t) else None)"
    by (rule eat_lit_after_digits) (simp_all add: assms)
  have g: "eat_lit [44] (skip_ws (drop 3 g @ 44 # 32 # b @ c # t)) =
      (if length g \<le> 3 then Some (32 # b @ c # t) else None)"
    by (rule eat_lit_after_digits) (simp_all add: assms)
  show ?thesis
    using assms by (simp add: eat_components_def eat_digits_component r g)
qed

lemma crackRGB_written:
  assumes "component r" and "component g" and "component b"
  shows "crackRGB (js ''rgb('' @ r @ js '', '' @ g @ js '', '' @ b @ js '')'') =
    (if length r \<le> 3 \<and> length g \<le> 3 \<and> length b \<le> 3 then Some [r, g, b, js ''1''] else None)"
proof -
  have b: "eat_lit [41] (skip_ws (drop 3 b @ [41])) = (if length b \<le> 3 then Some [] else None)"
    by (rule eat_lit_after_digits) (simp_all add: assms)
  have lit: "eat_lit [114, 103, 98] (114 # 103 # 98 # s) = Some s" for s
    by (simp add: eat_lit_def lower_ascii_def)
  show ?thesis
    using assms b by (simp add: crackRGB_def match_rgb_def eat_components_written lit)
qed

end
