(* ===== verification/TextAttributes.thy ===== *)
theory TextAttributes
  imports WcWidth Colors
begin

text \<open>
  \<open>hterm.TextAttributes\<close> (hterm_all-1.91.js): the current text attributes, the DOM
  containers they create and match, the colors they resolve to, the width and the pieces of
  a node in columns, and the split of a string into runs of narrow characters and single
  wide ones. Shown: which containers the attributes that created them accept again, that
  \<open>syncColors\<close> is idempotent, what inverse and invisible text look like and when it throws, and
  between which graphemes a string is split.

  A DOM node is the data the code reads back from it: its text and, for a span, the style
  properties and the expando properties \<open>createContainer\<close> sets.
\<close>

section \<open>What the browser and the libraries supply\<close>

text \<open>
  \<open>css_color\<close> is what reading a color property of a \<open>style\<close> object gives after assigning a
  string to it (the empty string when the value does not parse), \<open>graphemes\<close> is
  \<open>Intl.Segmenter\<close>, \<open>wc\<close> the width module's variables.
\<close>

record env =
  wc :: wc_config
  css_color :: "jsstring \<Rightarrow> jsstring"
  graphemes :: "jsstring \<Rightarrow> jsstring list"

text \<open>Documented behaviour: segments are not empty and make up the string.\<close>

definition segmenter_ok :: "env \<Rightarrow> bool" where
  "segmenter_ok E \<longleftrightarrow> (\<forall>s. concat (graphemes E s) = s \<and> [] \<notin> set (graphemes E s))"

section \<open>Attributes\<close>

datatype color_source = SRC_DEFAULT | Palette int | Rgb jsstring

datatype color = DEFAULT_COLOR | Css jsstring

record tattrs =
  foregroundSource :: color_source
  backgroundSource :: color_source
  underlineSource :: color_source
  foreground :: color
  background :: color
  underlineColor :: color
  bold :: bool
  faint :: bool
  italic :: bool
  blink :: bool
  underline :: "jsstring option"
  strikethrough :: bool
  inverse :: bool
  invisible :: bool
  wcNode :: bool
  asciiNode :: bool
  tileData :: "jsstring option"
  uri :: "jsstring option"
  uriId :: "jsstring option"
  colorPaletteOverrides :: "int \<rightharpoonup> jsstring"
  enableBold :: bool
  enableBoldAsBright :: bool

definition defaultForeground :: jsstring where
  "defaultForeground = js ''rgb(var(--hterm-foreground-color))''"

definition defaultBackground :: jsstring where
  "defaultBackground = js ''rgb(var(--hterm-background-color))''"

text \<open>The constructor, with the two flags of the prototype.\<close>

definition new_tattrs :: tattrs where
  "new_tattrs = \<lparr>foregroundSource = SRC_DEFAULT, backgroundSource = SRC_DEFAULT,
     underlineSource = SRC_DEFAULT, foreground = DEFAULT_COLOR, background = DEFAULT_COLOR,
     underlineColor = DEFAULT_COLOR, bold = False, faint = False, italic = False,
     blink = False, underline = None, strikethrough = False, inverse = False,
     invisible = False, wcNode = False, asciiNode = True, tileData = None, uri = None,
     uriId = None, colorPaletteOverrides = Map.empty, enableBold = True,
     enableBoldAsBright = True\<rparr>"

text \<open>\<open>reset\<close> leaves the tile data, the palette and the two flags.\<close>

definition reset_attrs :: "tattrs \<Rightarrow> tattrs" where
  "reset_attrs ta = ta\<lparr>foregroundSource := SRC_DEFAULT, backgroundSource := SRC_DEFAULT,
     underlineSource := SRC_DEFAULT, foreground := DEFAULT_COLOR, background := DEFAULT_COLOR,
     underlineColor := DEFAULT_COLOR, bold := False, faint := False, italic := False,
     blink := False, underline := None, strikethrough := False, inverse := False,
     invisible := False, wcNode := False, asciiNode := True, uri := None, uriId := None\<rparr>"

text \<open>The code does not look at the underline color here.\<close>

definition isDefault :: "tattrs \<Rightarrow> bool" where
  "isDefault ta \<longleftrightarrow> foregroundSource ta = SRC_DEFAULT \<and> backgroundSource ta = SRC_DEFAULT \<and>
     \<not> bold ta \<and> \<not> faint ta \<and> \<not> italic ta \<and> \<not> blink ta \<and> underline ta = None \<and>
     \<not> strikethrough ta \<and> \<not> inverse ta \<and> \<not> invisible ta \<and> \<not> wcNode ta \<and>
     asciiNode ta \<and> tileData ta = None \<and> uri ta = None"

section \<open>Containers\<close>

text \<open>
  A span: the style, with \<open>[]\<close> for a property that is not set, then the properties the code
  adds to the element. \<open>None\<close> is a property that was never assigned (or \<open>null\<close>, which the
  code only compares with \<open>==\<close>); \<open>span_underline\<close> is \<open>false\<close> or a line style once
  assigned. \<open>span_clicks\<close> lists the links the click listeners open.
\<close>

record span =
  style_color :: jsstring
  style_backgroundColor :: jsstring
  style_display :: jsstring
  style_fontWeight :: jsstring
  style_fontStyle :: jsstring
  style_textDecorationStyle :: jsstring
  style_textDecorationColor :: jsstring
  style_textDecorationLine :: jsstring
  span_faint :: bool
  span_blinkNode :: bool
  span_underline :: "jsstring option option"
  span_strikethrough :: bool
  span_wcNode :: bool
  span_asciiNode :: "bool option"
  span_tileNode :: bool
  span_uriId :: "jsstring option"
  span_title :: jsstring
  span_className :: jsstring
  span_clicks :: "jsstring list"

text \<open>A text node has an \<open>asciiNode\<close> property only where \<open>createContainer\<close> made it.\<close>

datatype dnode = TextNode jsstring "bool option" | SpanNode jsstring span

fun textContent :: "dnode \<Rightarrow> jsstring" where
  "textContent (TextNode s a) = s"
| "textContent (SpanNode s p) = s"

fun set_textContent :: "jsstring \<Rightarrow> dnode \<Rightarrow> dnode" where
  "set_textContent t (TextNode s a) = TextNode t a"
| "set_textContent t (SpanNode s p) = SpanNode t p"

fun isTextNode :: "dnode \<Rightarrow> bool" where
  "isTextNode (TextNode s a) = True"
| "isTextNode (SpanNode s p) = False"

text \<open>\<open>createTextNode\<close> and \<open>createElement\<close>, and what \<open>cloneNode(false)\<close> keeps: the
  attributes of the element, not the properties and listeners scripts add to it.\<close>

definition createTextNode :: "jsstring \<Rightarrow> dnode" where
  "createTextNode s = TextNode s None"

definition new_span :: span where
  "new_span = \<lparr>style_color = [], style_backgroundColor = [], style_display = [],
     style_fontWeight = [], style_fontStyle = [], style_textDecorationStyle = [],
     style_textDecorationColor = [], style_textDecorationLine = [], span_faint = False,
     span_blinkNode = False, span_underline = None, span_strikethrough = False,
     span_wcNode = False, span_asciiNode = None, span_tileNode = False, span_uriId = None,
     span_title = [], span_className = [], span_clicks = []\<rparr>"

fun cloneNode :: "dnode \<Rightarrow> dnode" where
  "cloneNode (TextNode s a) = TextNode s None"
| "cloneNode (SpanNode s p) = SpanNode [] (p\<lparr>span_faint := False, span_blinkNode := False,
     span_underline := None, span_strikethrough := False, span_wcNode := False,
     span_asciiNode := None, span_tileNode := False, span_uriId := None, span_clicks := []\<rparr>)"

fun join_classes :: "jsstring list \<Rightarrow> jsstring" where
  "join_classes [] = []"
| "join_classes [c] = c"
| "join_classes (c # d # cs) = c @ js '' '' @ join_classes (d # cs)"

fun color_value :: "env \<Rightarrow> color \<Rightarrow> jsstring" where
  "color_value E DEFAULT_COLOR = []"
| "color_value E (Css s) = css_color E s"

text \<open>
  \<open>if (this.uri)\<close> is false for the empty string. The browser drops the blank with which
  \<open>textDecorationLine\<close> begins.
\<close>

definition has_uri :: "tattrs \<Rightarrow> bool" where
  "has_uri ta = (case uri ta of None \<Rightarrow> False | Some u \<Rightarrow> u \<noteq> [])"

definition decoration_line :: "tattrs \<Rightarrow> jsstring" where
  "decoration_line ta = drop 1
     ((if underline ta \<noteq> None then js '' underline'' else []) @
      (if strikethrough ta then js '' line-through'' else []))"

definition container_classes :: "tattrs \<Rightarrow> jsstring list" where
  "container_classes ta =
     (if blink ta then [js ''blink-node''] else []) @
     (if wcNode ta then [js ''wc-node''] else []) @
     (case tileData ta of None \<Rightarrow> [] | Some d \<Rightarrow> [js ''tile'', js ''tile_'' @ d]) @
     (if has_uri ta then [js ''uri-node''] else [])"

definition container_span :: "env \<Rightarrow> tattrs \<Rightarrow> span" where
  "container_span E ta = new_span\<lparr>
     style_color := color_value E (foreground ta),
     style_backgroundColor := color_value E (background ta),
     style_display := (if background ta \<noteq> DEFAULT_COLOR then js ''inline-block'' else []),
     style_fontWeight := (if enableBold ta \<and> bold ta then js ''bold'' else []),
     style_fontStyle := (if italic ta then js ''italic'' else []),
     style_textDecorationStyle := (case underline ta of None \<Rightarrow> [] | Some u \<Rightarrow> u),
     style_textDecorationColor := color_value E (underlineColor ta),
     style_textDecorationLine := decoration_line ta,
     span_faint := faint ta, span_blinkNode := blink ta,
     span_underline := Some (underline ta), span_strikethrough := strikethrough ta,
     span_wcNode := wcNode ta, span_asciiNode := Some (asciiNode ta),
     span_tileNode := (tileData ta \<noteq> None),
     span_uriId := (if has_uri ta then uriId ta else None),
     span_title := (if has_uri ta then the (uri ta) else []),
     span_className := join_classes (container_classes ta),
     span_clicks := (if has_uri ta then [the (uri ta)] else [])\<rparr>"

definition createContainer :: "env \<Rightarrow> tattrs \<Rightarrow> jsstring \<Rightarrow> dnode" where
  "createContainer E ta s =
     (if isDefault ta then TextNode s (Some True) else SpanNode s (container_span E ta))"

definition matchesSpan :: "tattrs \<Rightarrow> span \<Rightarrow> bool" where
  "matchesSpan ta p \<longleftrightarrow>
     \<not> (wcNode ta \<or> span_wcNode p) \<and>
     Some (asciiNode ta) = span_asciiNode p \<and>
     \<not> (tileData ta \<noteq> None \<or> span_tileNode p) \<and>
     uriId ta = span_uriId p \<and>
     (foreground ta = DEFAULT_COLOR \<and> style_color p = []) \<and>
     (background ta = DEFAULT_COLOR \<and> style_backgroundColor p = []) \<and>
     (underlineColor ta = DEFAULT_COLOR \<and> style_textDecorationColor p = []) \<and>
     (enableBold ta \<and> bold ta) = (style_fontWeight p \<noteq> []) \<and>
     blink ta = span_blinkNode p \<and>
     italic ta = (style_fontStyle p \<noteq> []) \<and>
     Some (underline ta) = span_underline p \<and>
     strikethrough ta = span_strikethrough p"

fun matchesContainer :: "tattrs \<Rightarrow> dnode \<Rightarrow> bool" where
  "matchesContainer ta (TextNode s a) = isDefault ta"
| "matchesContainer ta (SpanNode s p) = matchesSpan ta p"

text \<open>
  The two static tests. A string counts as a text node: \<open>None\<close>. The shorthand
  \<open>textDecoration\<close> is determined by the three properties compared after it.
\<close>

definition containerIsDefault :: "dnode option \<Rightarrow> bool" where
  "containerIsDefault obj \<longleftrightarrow> (case obj of None \<Rightarrow> True | Some n \<Rightarrow> isTextNode n)"

fun containersMatch :: "dnode option \<Rightarrow> dnode option \<Rightarrow> bool" where
  "containersMatch None obj2 = containerIsDefault obj2"
| "containersMatch (Some (TextNode s a)) (Some (TextNode t b)) = True"
| "containersMatch (Some (SpanNode s p)) (Some (SpanNode t q)) =
     (style_color p = style_color q \<and>
      style_backgroundColor p = style_backgroundColor q \<and>
      style_fontWeight p = style_fontWeight q \<and>
      style_fontStyle p = style_fontStyle q \<and>
      style_textDecorationColor p = style_textDecorationColor q \<and>
      style_textDecorationStyle p = style_textDecorationStyle q \<and>
      style_textDecorationLine p = style_textDecorationLine q)"
| "containersMatch (Some n) obj2 = False"

section \<open>Colors\<close>

definition getBrightIndex :: "int \<Rightarrow> int" where
  "getBrightIndex i = (if i < 8 then i + 8 else i)"

fun colorFromSource :: "color_source \<Rightarrow> color" where
  "colorFromSource SRC_DEFAULT = DEFAULT_COLOR"
| "colorFromSource (Palette i) = Css (js ''rgb(var(--hterm-color-'' @ js_of_int i @ js ''))'')"
| "colorFromSource (Rgb s) = Css s"

fun getDefaultColor :: "color \<Rightarrow> jsstring \<Rightarrow> color" where
  "getDefaultColor DEFAULT_COLOR d = Css d"
| "getDefaultColor (Css s) d = Css s"

fun bright_source :: "color_source \<Rightarrow> color_source" where
  "bright_source (Palette i) = Palette (getBrightIndex i)"
| "bright_source s = s"

fun faint_color :: "color_source \<Rightarrow> color option" where
  "faint_color SRC_DEFAULT = Some (Css (js ''rgba(var(--hterm-foreground-color), 0.67)''))"
| "faint_color (Palette i) =
     Some (Css (js ''rgba(var(--hterm-color-'' @ js_of_int i @ js ''), 0.67)''))"
| "faint_color (Rgb s) = map_option Css (setAlpha s (js ''0.67''))"

text \<open>\<open>None\<close> is the exception of \<open>setAlpha\<close> on a color \<open>crackRGB\<close> does not read.\<close>

definition syncColors :: "tattrs \<Rightarrow> tattrs option" where
  "syncColors ta = do {
     let src = (if enableBoldAsBright ta \<and> bold ta then bright_source (foregroundSource ta)
                else foregroundSource ta);
     fg \<leftarrow> (if faint ta then faint_color src else Some (colorFromSource src));
     let bg = colorFromSource (backgroundSource ta);
     let swp = getDefaultColor fg defaultForeground;
     let fg = (if inverse ta then getDefaultColor bg defaultBackground else fg);
     let bg = (if inverse ta then swp else bg);
     let fg = (if invisible ta then bg else fg);
     Some (ta\<lparr>foregroundSource := src, foreground := fg, background := bg,
       underlineColor := colorFromSource (underlineSource ta)\<rparr>)
   }"

section \<open>The columns of a node\<close>

fun is_ascii_node :: "dnode \<Rightarrow> bool" where
  "is_ascii_node (TextNode s a) = (a = Some True)"
| "is_ascii_node (SpanNode s p) = (span_asciiNode p = Some True)"

definition nodeWidth :: "env \<Rightarrow> dnode \<Rightarrow> int" where
  "nodeWidth E n =
     (if \<not> is_ascii_node n then strWidth (wc E) (textContent n)
      else int (length (textContent n)))"

definition nodeSubstr :: "env \<Rightarrow> dnode \<Rightarrow> int \<Rightarrow> int option \<Rightarrow> jsstring" where
  "nodeSubstr E n start width =
     (if \<not> is_ascii_node n then wc_substr (wc E) (textContent n) start width
      else js_substr (textContent n) start width)"

definition nodeSubstring :: "env \<Rightarrow> dnode \<Rightarrow> int \<Rightarrow> int \<Rightarrow> jsstring" where
  "nodeSubstring E n start stop =
     (if \<not> is_ascii_node n then wc_substring (wc E) (textContent n) start stop
      else js_substring (textContent n) start stop)"

section \<open>Splitting a string\<close>

record wtoken =
  tok_str :: jsstring
  tok_wcNode :: bool
  tok_asciiNode :: bool
  tok_wcStrWidth :: int

text \<open>\<open>asciiRegex\<close> is \<open>^[\u0020-\u007f]*$\<close>: the DEL character is in it.\<close>

definition asciiRegex :: "jsstring \<Rightarrow> bool" where
  "asciiRegex s \<longleftrightarrow> (\<forall>c \<in> set s. 0x20 \<le> c \<and> c \<le> 0x7f)"

text \<open>One step of the loop; the tokens are kept last one first.\<close>

definition split_step :: "env \<Rightarrow> wtoken list \<Rightarrow> jsstring \<Rightarrow> wtoken list" where
  "split_step E rv grapheme =
     (let isAscii = asciiRegex grapheme;
          width = (if isAscii then 1 else strWidth (wc E) grapheme);
          isWideChar = (if isAscii then False
                        else charWidth (wc E) (codePointAt grapheme) = 2);
          tok = \<lparr>tok_str = grapheme, tok_wcNode = isWideChar, tok_asciiNode = isAscii,
                 tok_wcStrWidth = width\<rparr>
      in case rv of
           prev # done \<Rightarrow>
             (if \<not> isWideChar \<and> \<not> tok_wcNode prev
              then prev\<lparr>tok_str := tok_str prev @ grapheme,
                     tok_wcStrWidth := tok_wcStrWidth prev + width,
                     tok_asciiNode := tok_asciiNode prev \<and> isAscii\<rparr> # done
              else tok # prev # done)
         | [] \<Rightarrow> [tok])"

definition splitWidecharString :: "env \<Rightarrow> jsstring \<Rightarrow> wtoken list" where
  "splitWidecharString E str =
     (if asciiRegex str
      then [\<lparr>tok_str = str, tok_wcNode = False, tok_asciiNode = True,
             tok_wcStrWidth = int (length str)\<rparr>]
      else rev (foldl (split_step E) [] (graphemes E str)))"

section \<open>Lemmas on containers\<close>

lemma textContent_set [simp]: "textContent (set_textContent t n) = t"
  by (cases n) simp_all

lemma isTextNode_set [simp]: "isTextNode (set_textContent t n) = isTextNode n"
  by (cases n) simp_all

lemma is_ascii_set [simp]: "is_ascii_node (set_textContent t n) = is_ascii_node n"
  by (cases n) simp_all

lemma matchesContainer_set [simp]: "matchesContainer ta (set_textContent t n) = matchesContainer ta n"
  by (cases n) simp_all

lemma textContent_create [simp]: "textContent (createContainer E ta s) = s"
  "textContent (createTextNode s) = s"
  by (simp_all add: createContainer_def createTextNode_def)

lemma is_ascii_create [simp]: "is_ascii_node (createContainer E ta s) = asciiNode ta"
  "\<not> is_ascii_node (createTextNode s)"
  by (auto simp: createContainer_def container_span_def new_span_def isDefault_def
      createTextNode_def)

text \<open>Nodes of printable ASCII have as many columns as code units, whatever flag they carry.\<close>

definition plain :: "dnode \<Rightarrow> bool" where
  "plain n \<longleftrightarrow> printable_str (textContent n)"

lemma plain_create [simp]: "plain (createContainer E ta s) = printable_str s"
  "plain (createTextNode s) = printable_str s" "plain (set_textContent s n) = printable_str s"
  by (simp_all add: plain_def)

lemma nodeWidth_plain [simp]: "plain n \<Longrightarrow> nodeWidth E n = int (length (textContent n))"
  by (simp add: nodeWidth_def plain_def)

lemma nodeSubstr_plain [simp]:
  assumes "plain n" and "0 \<le> i"
  shows "nodeSubstr E n i None = drop (nat i) (textContent n)"
    and "nodeSubstr E n i (Some w) = take (nat w) (drop (nat i) (textContent n))"
  using assms by (simp_all add: nodeSubstr_def plain_def)

text \<open>A concrete browser: every code unit is a segment, every color parses.\<close>

definition unit_env :: env where
  "unit_env = \<lparr>wc = wc_default, css_color = id, graphemes = map (\<lambda>c. [c])\<rparr>"

lemma unit_env_ok: "segmenter_ok unit_env"
proof -
  have "concat (map (\<lambda>c. [c]) s) = s" for s :: jsstring by (induction s) simp_all
  then show ?thesis by (auto simp: segmenter_ok_def unit_env_def)
qed

section \<open>Properties\<close>

text \<open>
  Which containers the attributes that created them accept again: those without any
  color of their own that hold neither a wide character nor a tile, and whose link, if the
  attributes name one, is not empty. Colored text therefore always gets a new span.
\<close>

theorem matches_own_container:
  assumes "enableBold ta"
  shows "matchesContainer ta (createContainer E ta s) \<longleftrightarrow>
    isDefault ta \<or>
    foreground ta = DEFAULT_COLOR \<and> background ta = DEFAULT_COLOR \<and>
    underlineColor ta = DEFAULT_COLOR \<and> \<not> wcNode ta \<and> tileData ta = None \<and>
    (has_uri ta \<or> uriId ta = None)"
  using assms
  by (auto simp: createContainer_def container_span_def new_span_def matchesSpan_def)

lemma matches_own_container_witness:
  "matchesContainer (new_tattrs\<lparr>bold := True\<rparr>)
     (createContainer unit_env (new_tattrs\<lparr>bold := True\<rparr>) (js ''x'')) \<and>
   \<not> matchesContainer (new_tattrs\<lparr>foregroundSource := Palette 1, foreground := Css (js ''red'')\<rparr>)
     (createContainer unit_env (new_tattrs\<lparr>foregroundSource := Palette 1, foreground := Css (js ''red'')\<rparr>)
       (js ''x''))"
  by (subst (1 2) matches_own_container) (simp_all add: new_tattrs_def isDefault_def)

text \<open>
  Two links without an id: text of the second is put into the span of the first, whose
  click listener opens the first link only. The identity test compares the id and never the
  address, and an OSC 8 sequence without an id parameter sets the empty one.
\<close>

theorem link_without_id_joins_previous:
  assumes "uri1 \<noteq> []" and "uri2 \<noteq> []"
  defines "ta1 \<equiv> new_tattrs\<lparr>uri := Some uri1, uriId := Some []\<rparr>"
    and "ta2 \<equiv> new_tattrs\<lparr>uri := Some uri2, uriId := Some []\<rparr>"
  shows "matchesContainer ta2 (createContainer E ta1 s) \<and>
    (\<exists>p. createContainer E ta1 s = SpanNode s p \<and> span_clicks p = [uri1] \<and> span_title p = uri1)"
  using assms(1,2) unfolding ta1_def ta2_def
  by (simp add: createContainer_def container_span_def new_span_def matchesSpan_def
      isDefault_def new_tattrs_def has_uri_def)

lemma link_without_id_joins_previous_witness:
  "matchesContainer (new_tattrs\<lparr>uri := Some (js ''http://b''), uriId := Some []\<rparr>)
     (createContainer unit_env (new_tattrs\<lparr>uri := Some (js ''http://a''), uriId := Some []\<rparr>) (js ''x''))"
  using link_without_id_joins_previous [of "js ''http://a''" "js ''http://b''" unit_env "js ''x''"] by simp

lemma bright_bright: "\<forall>i. src = Palette i \<longrightarrow> 0 \<le> i \<Longrightarrow>
    bright_source (bright_source src) = bright_source src"
  by (cases src) (auto simp: getBrightIndex_def)

lemma sync_again:
  assumes "\<forall>i. foregroundSource ta = Palette i \<longrightarrow> 0 \<le> i" and "syncColors ta = Some ta'"
  shows "syncColors ta' = Some ta'"
proof -
  define src where "src = (if enableBoldAsBright ta \<and> bold ta
    then bright_source (foregroundSource ta) else foregroundSource ta)"
  have src: "(if enableBoldAsBright ta \<and> bold ta then bright_source src else src) = src"
    using bright_bright [OF assms(1)] by (simp add: src_def)
  obtain fg where fg: "(if faint ta then faint_color src else Some (colorFromSource src)) = Some fg"
    using assms(2) by (cases "if faint ta then faint_color src else Some (colorFromSource src)")
      (simp_all add: syncColors_def Let_def flip: src_def)
  show ?thesis
    using assms(2) src fg by (auto simp: syncColors_def Let_def simp flip: src_def)
qed

lemma sync_bright:
  assumes "foregroundSource ta = Palette i" and "i < 8" and "bold ta" and "enableBoldAsBright ta"
    and "syncColors ta = Some ta'"
  shows "\<exists>ta''. syncColors (ta'\<lparr>bold := False, faint := False\<rparr>) = Some ta'' \<and>
    foregroundSource ta'' = Palette (i + 8)"
  using assms
  by (cases "faint ta") (auto simp: syncColors_def Let_def getBrightIndex_def)

lemma sync_exchange:
  assumes "syncColors ta = Some ta'" and "\<not> inverse ta" and "\<not> invisible ta"
  shows "\<exists>ti. syncColors (ta\<lparr>inverse := True\<rparr>) = Some ti \<and>
    foreground ti = getDefaultColor (background ta') defaultBackground \<and>
    background ti = getDefaultColor (foreground ta') defaultForeground"
  using assms by (auto simp: syncColors_def Let_def split: bind_splits)

lemma sync_invisible:
  assumes "syncColors ta = Some ta'"
  shows "\<exists>tv. syncColors (ta\<lparr>invisible := True\<rparr>) = Some tv \<and>
    foreground tv = background ta' \<and> background tv = background ta'"
  using assms by (auto simp: syncColors_def Let_def split: bind_splits)

lemma sync_plain:
  assumes "syncColors ta = Some ta'"
  shows "ta' = ta\<lparr>foregroundSource := foregroundSource ta', foreground := foreground ta',
      background := background ta', underlineColor := colorFromSource (underlineSource ta)\<rparr>"
    and "\<not> inverse ta \<Longrightarrow> background ta' = colorFromSource (backgroundSource ta)"
    and "\<not> inverse ta \<Longrightarrow> \<not> invisible ta \<Longrightarrow> \<not> faint ta \<Longrightarrow>
      foreground ta' = colorFromSource (foregroundSource ta')"
  using assms by (auto simp: syncColors_def Let_def split: bind_splits)

text \<open>
  C4. \<open>syncColors\<close> computes the colors from the sources and the flags. Where it returns, for
  any source of the foreground (a palette index is not negative), calling it again changes
  nothing, and only the foreground's source and the three colors have changed. The colors
  are those of the sources for plain text; inverse video exchanges foreground and
  background, the default colors taking their concrete values; invisible text has the
  background's color as its foreground, whatever the other flags are. It is not a
  function of what was selected, though: the bright index that bold text takes replaces the
  selected one, so the color stays bright when bold is switched off again.
\<close>

theorem syncColors_settles:
  assumes "\<forall>i. foregroundSource ta = Palette i \<longrightarrow> 0 \<le> i" and "syncColors ta = Some ta'"
  shows "syncColors ta' = Some ta' \<and>
    ta' = ta\<lparr>foregroundSource := foregroundSource ta', foreground := foreground ta',
      background := background ta', underlineColor := colorFromSource (underlineSource ta)\<rparr> \<and>
    (\<not> inverse ta \<longrightarrow> background ta' = colorFromSource (backgroundSource ta)) \<and>
    (\<not> inverse ta \<and> \<not> invisible ta \<and> \<not> faint ta \<longrightarrow>
      foreground ta' = colorFromSource (foregroundSource ta')) \<and>
    (\<not> inverse ta \<and> \<not> invisible ta \<longrightarrow>
      (\<exists>ti. syncColors (ta\<lparr>inverse := True\<rparr>) = Some ti \<and>
        foreground ti = getDefaultColor (background ta') defaultBackground \<and>
        background ti = getDefaultColor (foreground ta') defaultForeground)) \<and>
    (\<exists>tv. syncColors (ta\<lparr>invisible := True\<rparr>) = Some tv \<and>
      foreground tv = background ta' \<and> background tv = background ta') \<and>
    (\<forall>i. foregroundSource ta = Palette i \<and> i < 8 \<and> bold ta \<and> enableBoldAsBright ta \<longrightarrow>
      (\<exists>ta''. syncColors (ta'\<lparr>bold := False, faint := False\<rparr>) = Some ta'' \<and>
        foregroundSource ta'' = Palette (i + 8)))"
  using sync_again [OF assms] sync_plain [OF assms(2)] sync_exchange [OF assms(2)]
    sync_invisible [OF assms(2)] sync_bright [OF _ _ _ _ assms(2)] by blast

lemma syncColors_settles_witness:
  "\<exists>ta' ti. syncColors (new_tattrs\<lparr>foregroundSource := Palette 1, bold := True\<rparr>) = Some ta' \<and>
    syncColors ta' = Some ta' \<and> foregroundSource ta' = Palette 9 \<and>
    syncColors (new_tattrs\<lparr>foregroundSource := Palette 1, bold := True, inverse := True\<rparr>) = Some ti \<and>
    foreground ti = Css defaultBackground \<and> background ti = foreground ta'"
proof -
  let ?ta = "new_tattrs\<lparr>foregroundSource := Palette 1, bold := True\<rparr>"
  obtain ta' where ta': "syncColors ?ta = Some ta'" "foregroundSource ta' = Palette 9"
      "background ta' = DEFAULT_COLOR" "\<exists>c. foreground ta' = Css c"
    by (simp add: syncColors_def new_tattrs_def getBrightIndex_def)
  have "\<forall>i. foregroundSource ?ta = Palette i \<longrightarrow> 0 \<le> i" by simp
  from syncColors_settles [OF this ta'(1)] ta' show ?thesis
    by (auto simp: new_tattrs_def)
qed

lemma js_of_int_component [simp]: "0 \<le> i \<Longrightarrow> component (js_of_int i)"
  using js_of_int_digits by (simp add: component_def)

lemma length_nat_digits: "length (nat_digits 10 n) \<le> Suc k \<longleftrightarrow> n < 10 ^ Suc k"
proof (induction k arbitrary: n)
  case 0
  then show ?case
    by (cases "n < 10") (simp_all add: nat_digits.simps [of 10 n])
next
  case (Suc k)
  show ?case
  proof (cases "n < 10")
    case True
    have "(10::nat) \<le> 10 ^ Suc (Suc k)" by simp
    with True have "n < 10 ^ Suc (Suc k)" by linarith
    with True show ?thesis by (simp add: nat_digits.simps [of 10 n])
  next
    case False
    then have "length (nat_digits 10 n) \<le> Suc (Suc k) \<longleftrightarrow> length (nat_digits 10 (n div 10)) \<le> Suc k"
      by (simp add: nat_digits.simps [of 10 n])
    also have "\<dots> \<longleftrightarrow> n div 10 < 10 ^ Suc k" by (rule Suc)
    also have "\<dots> \<longleftrightarrow> n < 10 ^ Suc (Suc k)" by (simp add: div_less_iff_less_mult mult.commute)
    finally show ?thesis .
  qed
qed

lemma length_js_of_int: "0 \<le> i \<Longrightarrow> length (js_of_int i) \<le> 3 \<longleftrightarrow> i \<le> 999"
  using length_nat_digits [of "nat i" 2] by (auto simp: js_of_int_def numeral_3_eq_3)

definition rgb_string :: "int \<Rightarrow> int \<Rightarrow> int \<Rightarrow> jsstring" where
  "rgb_string r g b =
     js ''rgb('' @ js_of_int r @ js '', '' @ js_of_int g @ js '', '' @ js_of_int b @ js '')''"

lemma setAlpha_rgb_string:
  assumes "0 \<le> r" and "0 \<le> g" and "0 \<le> b"
  shows "setAlpha (rgb_string r g b) a = None \<longleftrightarrow> \<not> (r \<le> 999 \<and> g \<le> 999 \<and> b \<le> 999)"
  using assms by (simp add: setAlpha_def rgb_string_def crackRGB_written length_js_of_int
      del: js_Cons js_Nil)

text \<open>
  Faint text in a color given by its three components makes \<open>syncColors\<close> throw exactly
  when a component has more than three digits: \<open>crackRGB\<close> does not read it back and
  \<open>setAlpha\<close> assigns into \<open>null\<close>. Text that is not faint, or has a palette color, never does.
\<close>

theorem syncColors_throws_iff:
  assumes "0 \<le> r" and "0 \<le> g" and "0 \<le> b"
  shows "syncColors (ta\<lparr>foregroundSource := Rgb (rgb_string r g b)\<rparr>) = None \<longleftrightarrow>
      faint ta \<and> (r > 999 \<or> g > 999 \<or> b > 999)"
  using setAlpha_rgb_string [OF assms, of "js ''0.67''"]
  by (cases "faint ta") (auto simp: syncColors_def Let_def split: option.splits)

lemma syncColors_throws_iff_witness:
  "syncColors (new_tattrs\<lparr>faint := True, foregroundSource := Rgb (rgb_string 1000 0 0)\<rparr>) = None"
  using syncColors_throws_iff [of 1000 0 0 "new_tattrs\<lparr>faint := True\<rparr>"] by simp

fun no_narrow_pair :: "wtoken list \<Rightarrow> bool" where
  "no_narrow_pair (t # u # ts) \<longleftrightarrow> (tok_wcNode t \<or> tok_wcNode u) \<and> no_narrow_pair (u # ts)"
| "no_narrow_pair ts \<longleftrightarrow> True"

lemma no_narrow_pair_append:
  "no_narrow_pair (ts @ [t, u]) \<longleftrightarrow> no_narrow_pair (ts @ [t]) \<and> (tok_wcNode t \<or> tok_wcNode u)"
  by (induction ts rule: no_narrow_pair.induct) auto

lemma no_narrow_pair_rev [simp]:
  "no_narrow_pair (rev (t # u # ts)) \<longleftrightarrow>
    (tok_wcNode t \<or> tok_wcNode u) \<and> no_narrow_pair (rev (u # ts))"
  using no_narrow_pair_append [of "rev ts" u t] by auto

lemma no_narrow_pair_last:
  "tok_wcNode t = tok_wcNode u \<Longrightarrow> no_narrow_pair (ts @ [t]) = no_narrow_pair (ts @ [u])"
  by (induction ts rule: no_narrow_pair.induct) auto

lemma asciiRegex_append [simp]: "asciiRegex (s @ t) \<longleftrightarrow> asciiRegex s \<and> asciiRegex t"
  by (auto simp: asciiRegex_def)

lemma asciiRegex_concat: "asciiRegex (concat gs) \<longleftrightarrow> (\<forall>g \<in> set gs. asciiRegex g)"
  by (auto simp: asciiRegex_def)

text \<open>A grapheme that takes two columns, the columns of one, and the token for a run of them.\<close>

definition takes_two :: "env \<Rightarrow> jsstring \<Rightarrow> bool" where
  "takes_two E g \<longleftrightarrow> \<not> asciiRegex g \<and> charWidth (wc E) (codePointAt g) = 2"

definition grapheme_columns :: "env \<Rightarrow> jsstring \<Rightarrow> int" where
  "grapheme_columns E g = (if asciiRegex g then 1 else strWidth (wc E) g)"

definition token_of :: "env \<Rightarrow> wtoken \<Rightarrow> jsstring list \<Rightarrow> bool" where
  "token_of E t gs \<longleftrightarrow> tok_str t = concat gs \<and> (tok_asciiNode t \<longleftrightarrow> asciiRegex (tok_str t)) \<and>
     (if tok_wcNode t then \<exists>g. gs = [g] \<and> takes_two E g else \<forall>g \<in> set gs. \<not> takes_two E g)"

definition token_columns :: "env \<Rightarrow> wtoken \<Rightarrow> jsstring list \<Rightarrow> bool" where
  "token_columns E t gs \<longleftrightarrow> tok_wcStrWidth t = sum_list (map (grapheme_columns E) gs)"

definition tokens_ok :: "env \<Rightarrow> wtoken list \<Rightarrow> jsstring list list \<Rightarrow> bool" where
  "tokens_ok E rv gss \<longleftrightarrow> no_narrow_pair (rev rv) \<and> list_all2 (token_of E) rv gss \<and>
     list_all2 (token_columns E) rv gss"

lemma split_step_ok:
  assumes "tokens_ok E rv gss"
  shows "\<exists>gss'. tokens_ok E (split_step E rv g) gss' \<and> concat (rev gss') = concat (rev gss) @ [g]"
proof (cases "rv \<noteq> [] \<and> \<not> takes_two E g \<and> \<not> tok_wcNode (hd rv)")
  case True
  then obtain prev rest gs hs where rv: "rv = prev # rest" and gss: "gss = gs # hs"
    using assms by (cases rv; cases gss) (auto simp: tokens_ok_def)
  define t where "t = prev\<lparr>tok_str := tok_str prev @ g,
    tok_wcStrWidth := tok_wcStrWidth prev + grapheme_columns E g,
    tok_asciiNode := tok_asciiNode prev \<and> asciiRegex g\<rparr>"
  have step: "split_step E rv g = t # rest"
    using True by (auto simp: split_step_def Let_def rv t_def takes_two_def grapheme_columns_def)
  have "no_narrow_pair (rev rest @ [t])"
    using assms no_narrow_pair_last [of prev t "rev rest"] by (simp add: tokens_ok_def rv t_def)
  moreover have "token_of E t (gs @ [g])" and "token_columns E t (gs @ [g])"
    using assms True by (auto simp: tokens_ok_def rv gss token_of_def token_columns_def t_def)
  ultimately have "tokens_ok E (split_step E rv g) ((gs @ [g]) # hs)"
    using assms unfolding step by (simp add: tokens_ok_def rv gss)
  then show ?thesis by (intro exI [of _ "(gs @ [g]) # hs"]) (simp add: gss)
next
  case False
  define t where "t = \<lparr>tok_str = g, tok_wcNode = takes_two E g, tok_asciiNode = asciiRegex g,
    tok_wcStrWidth = grapheme_columns E g\<rparr>"
  have step: "split_step E rv g = t # rv"
    using False by (cases rv) (auto simp: split_step_def Let_def t_def takes_two_def grapheme_columns_def)
  have "token_of E t [g]" and "token_columns E t [g]"
    by (simp_all add: token_of_def token_columns_def t_def)
  moreover have "no_narrow_pair (rev (t # rv))"
    using assms False by (cases rv) (auto simp: tokens_ok_def t_def no_narrow_pair_append)
  ultimately have "tokens_ok E (split_step E rv g) ([g] # gss)"
    using assms unfolding step by (simp add: tokens_ok_def del: rev.simps)
  then show ?thesis by (intro exI [of _ "[g] # gss"]) simp
qed

lemma split_fold_ok:
  "\<exists>gss. tokens_ok E (foldl (split_step E) [] gs) gss \<and> concat (rev gss) = gs"
proof (induction gs rule: rev_induct)
  case Nil
  show ?case by (intro exI [of _ "[]"]) (simp add: tokens_ok_def)
next
  case (snoc g gs)
  then obtain gss where gss: "tokens_ok E (foldl (split_step E) [] gs) gss" "concat (rev gss) = gs"
    by blast
  from split_step_ok [OF gss(1), of g] gss(2) show ?case by auto
qed

lemma token_of_concat: "list_all2 (token_of E) ts gss \<Longrightarrow> concat (map tok_str ts) = concat (concat gss)"
  by (induction ts gss rule: list_all2_induct) (simp_all add: token_of_def)

lemma token_of_wide:
  "list_all2 (token_of E) ts gss \<Longrightarrow>
    map tok_str (filter tok_wcNode ts) = filter (takes_two E) (concat gss)"
  by (induction ts gss rule: list_all2_induct) (auto simp: token_of_def filter_empty_conv)

text \<open>
  C5. \<open>splitWidecharString\<close> cuts a string between its graphemes: the tokens are the
  concatenations of consecutive groups of them, none lost and none moved. A grapheme that is
  not ASCII and begins with a character of two columns, and no other, is a token of its own
  marked as wide, so the wide tokens are exactly those graphemes in their order; a token not
  marked holds none of them, and no two such tokens are neighbours. A token is marked as ASCII
  exactly when it is; unless the whole string is ASCII, which is one token of its length, the
  columns of a token are the sum of those of its graphemes.
\<close>

theorem splitWidecharString_tokens:
  assumes "segmenter_ok E"
  shows "concat (map tok_str (splitWidecharString E str)) = str \<and>
    no_narrow_pair (splitWidecharString E str) \<and>
    map tok_str (filter tok_wcNode (splitWidecharString E str)) =
      filter (takes_two E) (graphemes E str) \<and>
    (\<exists>gss. concat gss = graphemes E str \<and> list_all2 (token_of E) (splitWidecharString E str) gss \<and>
      (\<not> asciiRegex str \<longrightarrow> list_all2 (token_columns E) (splitWidecharString E str) gss)) \<and>
    (asciiRegex str \<longrightarrow> map tok_wcStrWidth (splitWidecharString E str) = [int (length str)])"
proof -
  have str: "concat (graphemes E str) = str" using assms by (simp add: segmenter_ok_def)
  have "\<exists>gss. concat gss = graphemes E str \<and> list_all2 (token_of E) (splitWidecharString E str) gss \<and>
      (\<not> asciiRegex str \<longrightarrow> list_all2 (token_columns E) (splitWidecharString E str) gss) \<and>
      no_narrow_pair (splitWidecharString E str)"
  proof (cases "asciiRegex str")
    case True
    then have "\<forall>g \<in> set (graphemes E str). asciiRegex g" using str asciiRegex_concat by metis
    with True str show ?thesis
      by (intro exI [of _ "[graphemes E str]"])
        (auto simp: splitWidecharString_def token_of_def takes_two_def)
  next
    case False
    obtain gss where gss: "tokens_ok E (foldl (split_step E) [] (graphemes E str)) gss"
        "concat (rev gss) = graphemes E str"
      using split_fold_ok by blast
    then show ?thesis using False
      by (intro exI [of _ "rev gss"])
        (simp add: splitWidecharString_def tokens_ok_def list_all2_rev1)
  qed
  then obtain gss where gss: "concat gss = graphemes E str"
      "list_all2 (token_of E) (splitWidecharString E str) gss"
      "\<not> asciiRegex str \<longrightarrow> list_all2 (token_columns E) (splitWidecharString E str) gss"
      "no_narrow_pair (splitWidecharString E str)" by blast
  have "concat (map tok_str (splitWidecharString E str)) = concat (concat gss)"
    by (rule token_of_concat [OF gss(2)])
  with gss str token_of_wide [OF gss(2)] show ?thesis
    by (auto simp: splitWidecharString_def)
qed

lemma splitWidecharString_tokens_witness:
  "concat (map tok_str (splitWidecharString unit_env [0x61, 0x4e2d, 0xe9])) = [0x61, 0x4e2d, 0xe9] \<and>
   length (splitWidecharString unit_env [0x61, 0x4e2d, 0xe9]) = 3"
proof
  show "concat (map tok_str (splitWidecharString unit_env [0x61, 0x4e2d, 0xe9])) = [0x61, 0x4e2d, 0xe9]"
    using splitWidecharString_tokens [OF unit_env_ok] by blast
  show "length (splitWidecharString unit_env [0x61, 0x4e2d, 0xe9]) = 3"
    by code_simp
qed

end
