(* ===== verification/CharacterMap.thy ===== *)
theory CharacterMap
  imports Prelude "HOL-Library.AList"
begin

text \<open>
  \<open>hterm.VT.CharacterMap\<close> and \<open>hterm.VT.CharacterMaps\<close> (hterm_all-1.91.js): the translation
  of received characters under a national or graphic character set, the overrides a user
  can lay over it, and the table of sets with its defaults. Shown: a shipped set translates
  unit by unit and keeps the length, overrides last until reset, and what goes wrong for an
  override of a character above U+00FF.
\<close>

section \<open>One map\<close>

text \<open>A JavaScript object from characters to characters, in the order of its keys.\<close>

type_synonym glmap = "(jsstring \<times> jsstring) list"

text \<open>\<open>glmap\<close> is \<open>None\<close> where the property \<open>glmap_\<close> was deleted.\<close>

record charmap =
  description :: jsstring
  glmapBase :: "glmap option"
  glmap_now :: "glmap option"

text \<open>\<open>Object.assign({}, base, over)\<close>, \<open>null\<close> counting as no keys.\<close>

definition assign_maps :: "glmap option \<Rightarrow> glmap \<Rightarrow> glmap" where
  "assign_maps base over =
     fold (\<lambda>(k, v). AList.update k v) over (case base of None \<Rightarrow> [] | Some b \<Rightarrow> b)"

definition sync_map :: "charmap \<Rightarrow> glmap option \<Rightarrow> charmap" where
  "sync_map m gl =
     (if glmapBase m = None \<and> gl = None then m\<lparr>glmap_now := None\<rparr>
      else case gl of
        Some g \<Rightarrow> m\<lparr>glmap_now := Some (assign_maps (glmapBase m) g)\<rparr>
      | None \<Rightarrow> m\<lparr>glmap_now := glmapBase m\<rparr>)"

definition new_charmap :: "jsstring \<Rightarrow> glmap option \<Rightarrow> charmap" where
  "new_charmap d gl = sync_map \<lparr>description = d, glmapBase = gl, glmap_now = None\<rparr> None"

definition reset_map :: "charmap \<Rightarrow> charmap" where
  "reset_map m = (if glmap_now m \<noteq> glmapBase m then sync_map m None else m)"

definition setOverrides_map :: "charmap \<Rightarrow> glmap \<Rightarrow> charmap" where
  "setOverrides_map m gl = sync_map m (Some gl)"

definition clone_map :: "charmap \<Rightarrow> charmap" where
  "clone_map m =
     (let c = new_charmap (description m) (glmapBase m)
      in case glmap_now m of
           Some g \<Rightarrow> (if glmap_now m \<noteq> glmapBase m then setOverrides_map c g else c)
         | None \<Rightarrow> c)"

text \<open>
  The members of the class \<open>glre_\<close>: each key contributes \<open>\x\<close> and the hexadecimal digits of
  its first code unit, at least two. The expression reads two digits as the character and
  any further digit as a character of its own.
\<close>

definition class_of_key :: "jsstring \<Rightarrow> jsstring" where
  "class_of_key key =
     (case key of
        [] \<Rightarrow> js ''xNaN''
      | c # _ \<Rightarrow>
          (let ds = nat_digits 16 (nat c);
               ds = (if length ds < 2 then 0 # ds else ds)
           in int (16 * ds ! 0 + ds ! 1) # map digit_unit (drop 2 ds)))"

definition glre :: "glmap \<Rightarrow> code_unit set" where
  "glre gl = set (concat (map (class_of_key \<circ> fst) gl))"

text \<open>\<open>str.replace(this.glre_, (ch) => this.glmap_[ch])\<close>; a missing entry is \<open>undefined\<close>, which
  \<open>replace\<close> turns into text.\<close>

definition replace_unit :: "glmap \<Rightarrow> code_unit \<Rightarrow> jsstring" where
  "replace_unit gl c =
     (if c \<in> glre gl then (case map_of gl [c] of Some v \<Rightarrow> v | None \<Rightarrow> js ''undefined'')
      else [c])"

text \<open>The method \<open>GL\<close>, \<open>None\<close> where it is \<open>null\<close>.\<close>

definition GL_map :: "charmap \<Rightarrow> (jsstring \<Rightarrow> jsstring) option" where
  "GL_map m = map_option (\<lambda>gl str. concat (map (replace_unit gl) str)) (glmap_now m)"

section \<open>The shipped maps\<close>

definition map_graphic :: glmap where
  "map_graphic = [
     ([0x60], [0x25c6]), ([0x61], [0x2592]), ([0x62], [0x2409]), ([0x63], [0x240c]),
     ([0x64], [0x240d]), ([0x65], [0x240a]), ([0x66], [0x00b0]), ([0x67], [0x00b1]),
     ([0x68], [0x2424]), ([0x69], [0x240b]), ([0x6a], [0x2518]), ([0x6b], [0x2510]),
     ([0x6c], [0x250c]), ([0x6d], [0x2514]), ([0x6e], [0x253c]), ([0x6f], [0x23ba]),
     ([0x70], [0x23bb]), ([0x71], [0x2500]), ([0x72], [0x23bc]), ([0x73], [0x23bd]),
     ([0x74], [0x251c]), ([0x75], [0x2524]), ([0x76], [0x2534]), ([0x77], [0x252c]),
     ([0x78], [0x2502]), ([0x79], [0x2264]), ([0x7a], [0x2265]), ([0x7b], [0x03c0]),
     ([0x7c], [0x2260]), ([0x7d], [0x00a3]), ([0x7e], [0x00b7])]"

definition map_british :: glmap where
  "map_british = [
     ([0x23], [0x00a3])]"

definition map_dutch :: glmap where
  "map_dutch = [
     ([0x23], [0x00a3]), ([0x40], [0x00be]), ([0x5b], [0x0132]), ([0x5c], [0x00bd]),
     ([0x5d], [0x007c]), ([0x7b], [0x00a8]), ([0x7c], [0x0066]), ([0x7d], [0x00bc]),
     ([0x7e], [0x00b4])]"

definition map_finnish :: glmap where
  "map_finnish = [
     ([0x5b], [0x00c4]), ([0x5c], [0x00d6]), ([0x5d], [0x00c5]), ([0x5e], [0x00dc]),
     ([0x60], [0x00e9]), ([0x7b], [0x00e4]), ([0x7c], [0x00f6]), ([0x7d], [0x00e5]),
     ([0x7e], [0x00fc])]"

definition map_french :: glmap where
  "map_french = [
     ([0x23], [0x00a3]), ([0x40], [0x00e0]), ([0x5b], [0x00b0]), ([0x5c], [0x00e7]),
     ([0x5d], [0x00a7]), ([0x7b], [0x00e9]), ([0x7c], [0x00f9]), ([0x7d], [0x00e8]),
     ([0x7e], [0x00a8])]"

definition map_french_canadian :: glmap where
  "map_french_canadian = [
     ([0x40], [0x00e0]), ([0x5b], [0x00e2]), ([0x5c], [0x00e7]), ([0x5d], [0x00ea]),
     ([0x5e], [0x00ee]), ([0x60], [0x00f4]), ([0x7b], [0x00e9]), ([0x7c], [0x00f9]),
     ([0x7d], [0x00e8]), ([0x7e], [0x00fb])]"

definition map_german :: glmap where
  "map_german = [
     ([0x40], [0x00a7]), ([0x5b], [0x00c4]), ([0x5c], [0x00d6]), ([0x5d], [0x00dc]),
     ([0x7b], [0x00e4]), ([0x7c], [0x00f6]), ([0x7d], [0x00fc]), ([0x7e], [0x00df])]"

definition map_italian :: glmap where
  "map_italian = [
     ([0x23], [0x00a3]), ([0x40], [0x00a7]), ([0x5b], [0x00b0]), ([0x5c], [0x00e7]),
     ([0x5d], [0x00e9]), ([0x60], [0x00f9]), ([0x7b], [0x00e0]), ([0x7c], [0x00f2]),
     ([0x7d], [0x00e8]), ([0x7e], [0x00ec])]"

definition map_norwegian_danish :: glmap where
  "map_norwegian_danish = [
     ([0x40], [0x00c4]), ([0x5b], [0x00c6]), ([0x5c], [0x00d8]), ([0x5d], [0x00c5]),
     ([0x5e], [0x00dc]), ([0x60], [0x00e4]), ([0x7b], [0x00e6]), ([0x7c], [0x00f8]),
     ([0x7d], [0x00e5]), ([0x7e], [0x00fc])]"

definition map_spanish :: glmap where
  "map_spanish = [
     ([0x23], [0x00a3]), ([0x40], [0x00a7]), ([0x5b], [0x00a1]), ([0x5c], [0x00d1]),
     ([0x5d], [0x00bf]), ([0x7b], [0x00b0]), ([0x7c], [0x00f1]), ([0x7d], [0x00e7])]"

definition map_swedish :: glmap where
  "map_swedish = [
     ([0x40], [0x00c9]), ([0x5b], [0x00c4]), ([0x5c], [0x00d6]), ([0x5d], [0x00c5]),
     ([0x5e], [0x00dc]), ([0x60], [0x00e9]), ([0x7b], [0x00e4]), ([0x7c], [0x00f6]),
     ([0x7d], [0x00e5]), ([0x7e], [0x00fc])]"

definition map_swiss :: glmap where
  "map_swiss = [
     ([0x23], [0x00f9]), ([0x40], [0x00e0]), ([0x5b], [0x00e9]), ([0x5c], [0x00e7]),
     ([0x5d], [0x00ea]), ([0x5e], [0x00ee]), ([0x5f], [0x00e8]), ([0x60], [0x00f4]),
     ([0x7b], [0x00e4]), ([0x7c], [0x00f6]), ([0x7d], [0x00fc]), ([0x7e], [0x00fb])]"

definition DefaultMaps :: "(jsstring \<times> charmap) list" where
  "DefaultMaps = [
     (js ''0'', new_charmap (js ''graphic'') (Some map_graphic)),
     (js ''A'', new_charmap (js ''british'') (Some map_british)),
     (js ''B'', new_charmap (js ''us'') None),
     (js ''4'', new_charmap (js ''dutch'') (Some map_dutch)),
     (js ''C'', new_charmap (js ''finnish'') (Some map_finnish)),
     (js ''5'', new_charmap (js ''finnish'') (Some map_finnish)),
     (js ''R'', new_charmap (js ''french'') (Some map_french)),
     (js ''Q'', new_charmap (js ''french canadian'') (Some map_french_canadian)),
     (js ''K'', new_charmap (js ''german'') (Some map_german)),
     (js ''Y'', new_charmap (js ''italian'') (Some map_italian)),
     (js ''E'', new_charmap (js ''norwegian/danish'') (Some map_norwegian_danish)),
     (js ''6'', new_charmap (js ''norwegian/danish'') (Some map_norwegian_danish)),
     (js ''Z'', new_charmap (js ''spanish'') (Some map_spanish)),
     (js ''7'', new_charmap (js ''swedish'') (Some map_swedish)),
     (js ''H'', new_charmap (js ''swedish'') (Some map_swedish)),
     (js ''='', new_charmap (js ''swiss'') (Some map_swiss))]"

section \<open>The table of maps\<close>

text \<open>
  \<open>maps_\<close> as a map from names. The code copies the table before the first change so that the
  defaults stay as they are; as values they always do.
\<close>

type_synonym charmaps = "jsstring \<rightharpoonup> charmap"

definition default_maps :: charmaps where
  "default_maps = map_of DefaultMaps"

definition getMap :: "charmaps \<Rightarrow> jsstring \<Rightarrow> charmap option" where
  "getMap ms name = ms name"

definition addMap :: "charmaps \<Rightarrow> jsstring \<Rightarrow> charmap \<Rightarrow> charmaps" where
  "addMap ms name m = ms(name \<mapsto> m)"

definition reset_maps :: "charmaps \<Rightarrow> charmaps" where
  "reset_maps ms = default_maps"

definition override_one :: "charmaps \<Rightarrow> jsstring \<times> glmap \<Rightarrow> charmaps" where
  "override_one ms nm =
     (case getMap ms (fst nm) of
        Some m \<Rightarrow> ms(fst nm \<mapsto> setOverrides_map (clone_map m) (snd nm))
      | None \<Rightarrow> addMap ms (fst nm) (new_charmap (js ''user '' @ fst nm) (Some (snd nm))))"

definition setOverrides_maps :: "charmaps \<Rightarrow> (jsstring \<times> glmap) list \<Rightarrow> charmaps" where
  "setOverrides_maps ms maps = foldl override_one ms maps"

section \<open>Translation by a map\<close>

text \<open>Keys of one character below U+0100: the class is exactly the set of the keys.\<close>

definition simple_keys :: "glmap \<Rightarrow> bool" where
  "simple_keys gl \<longleftrightarrow> (\<forall>(k, v) \<in> set gl. \<exists>c. k = [c] \<and> 0 \<le> c \<and> c < 0x100)"

lemma class_of_simple: "0 \<le> c \<Longrightarrow> c < 0x100 \<Longrightarrow> class_of_key [c] = [c]"
proof -
  assume c: "0 \<le> c" "c < 0x100"
  show ?thesis
  proof (cases "nat c < 16")
    case True
    then have "nat_digits 16 (nat c) = [nat c]" by (simp add: nat_digits.simps [of 16 "nat c"])
    then show ?thesis using c by (simp add: class_of_key_def)
  next
    case False
    have "nat c div 16 < 16" using c by (simp add: less_mult_imp_div_less nat_less_iff)
    then have "nat_digits 16 (nat c) = [nat c div 16, nat c mod 16]"
      using False
      by (simp add: nat_digits.simps [of 16 "nat c"] nat_digits.simps [of 16 "nat c div 16"])
    moreover have "16 * int (nat c div 16) + int (nat c mod 16) = int (nat c)"
      using arg_cong [where f = int, OF mult_div_mod_eq [of 16 "nat c"]] by linarith
    ultimately show ?thesis using c by (simp add: class_of_key_def)
  qed
qed

lemma glre_simple: "simple_keys gl \<Longrightarrow> c \<in> glre gl \<longleftrightarrow> map_of gl [c] \<noteq> None"
proof -
  assume s: "simple_keys gl"
  then have "(class_of_key \<circ> fst) p = fst p" if "p \<in> set gl" for p
    using that class_of_simple by (fastforce simp: simple_keys_def)
  then have "glre gl = set (concat (map fst gl))"
    by (simp add: glre_def)
  moreover have "c \<in> set (concat (map fst gl)) \<longleftrightarrow> [c] \<in> fst ` set gl"
    using s by (force simp: simple_keys_def)
  ultimately show ?thesis by (simp add: map_of_eq_None_iff)
qed

lemma replace_simple: "simple_keys gl \<Longrightarrow>
    replace_unit gl c = (case map_of gl [c] of Some v \<Rightarrow> v | None \<Rightarrow> [c])"
  by (auto simp: replace_unit_def glre_simple split: option.splits)


text \<open>One unit of output for each of input: what a map needs to keep the column arithmetic.\<close>

definition unit_map :: "glmap \<Rightarrow> bool" where
  "unit_map gl \<longleftrightarrow> simple_keys gl \<and> (\<forall>(k, v) \<in> set gl. \<exists>c. v = [c])"

definition translate_unit :: "glmap \<Rightarrow> code_unit \<Rightarrow> code_unit" where
  "translate_unit gl c = (case map_of gl [c] of Some [d] \<Rightarrow> d | _ \<Rightarrow> c)"

lemma replace_unit_map:
  assumes "unit_map gl"
  shows "replace_unit gl c = [translate_unit gl c]"
proof (cases "map_of gl [c]")
  case None
  with assms show ?thesis by (simp add: unit_map_def replace_simple translate_unit_def)
next
  case (Some v)
  with assms obtain d where "v = [d]"
    unfolding unit_map_def by (blast dest: map_of_SomeD)
  with Some assms show ?thesis by (simp add: unit_map_def replace_simple translate_unit_def)
qed

lemma concat_replace_unit_map:
  "unit_map gl \<Longrightarrow> concat (map (replace_unit gl) s) = map (translate_unit gl) s"
  by (induction s) (simp_all add: replace_unit_map)

fun unit_map_code :: "glmap \<Rightarrow> bool" where
  "unit_map_code [] = True"
| "unit_map_code ((k, v) # gl) =
     (case k of [c] \<Rightarrow> 0 \<le> c \<and> c < 0x100 \<and> length v = 1 \<and> unit_map_code gl | _ \<Rightarrow> False)"

lemma unit_map_codeD: "unit_map_code gl \<Longrightarrow> unit_map gl"
  by (induction gl rule: unit_map_code.induct)
    (auto simp: unit_map_def simple_keys_def length_Suc_conv split: list.splits)

lemma shipped_unit_maps:
  "\<forall>(name, m) \<in> set DefaultMaps. case glmap_now m of None \<Rightarrow> True | Some gl \<Rightarrow> unit_map_code gl"
  by code_simp

section \<open>Overrides\<close>

lemma map_of_fold_update:
  "map_of (fold (\<lambda>(k, v). AList.update k v) over base) = map_of base ++ map_of (rev over)"
proof (induction over arbitrary: base)
  case (Cons p over)
  then show ?case
    by (cases p) (simp add: update_conv' map_add_upd_left [symmetric] fun_eq_iff map_add_def
        split: option.splits)
qed simp

lemma map_of_assign_maps:
  "distinct (map fst over) \<Longrightarrow>
    map_of (assign_maps base over) = map_of (case base of None \<Rightarrow> [] | Some b \<Rightarrow> b) ++ map_of over"
  using map_of_inject_set [of "rev over" over]
  by (simp add: assign_maps_def map_of_fold_update rev_map [symmetric])

lemma set_update_subset: "set (AList.update k v b) \<subseteq> insert (k, v) (set b)"
  by (induction b) auto

lemma simple_keys_update:
  "simple_keys b \<Longrightarrow> simple_keys [(k, v)] \<Longrightarrow> simple_keys (AList.update k v b)"
proof -
  assume b: "simple_keys b" and kv: "simple_keys [(k, v)]"
  have "simple_keys ((k, v) # b)" using b kv by (simp add: simple_keys_def)
  then show ?thesis using set_update_subset [of k v b] by (auto simp: simple_keys_def)
qed

lemma simple_keys_assign:
  assumes "simple_keys over" and "\<forall>b. base = Some b \<longrightarrow> simple_keys b"
  shows "simple_keys (assign_maps base over)"
proof -
  have "simple_keys (fold (\<lambda>(k, v). AList.update k v) over b)" if "simple_keys b" for b
    using assms(1) that
  proof (induction over arbitrary: b)
    case (Cons p over)
    obtain k v where p: "p = (k, v)" by (cases p)
    have parts: "simple_keys [(k, v)]" "simple_keys over"
      using Cons.prems(1) by (simp_all add: simple_keys_def p)
    have "simple_keys (AList.update k v b)"
      by (rule simple_keys_update [OF Cons.prems(2) parts(1)])
    with Cons.IH [OF parts(2)] show ?case by (simp add: p)
  qed simp
  moreover have "simple_keys []" by (simp add: simple_keys_def)
  ultimately show ?thesis using assms(2) by (cases base) (simp_all add: assign_maps_def)
qed

section \<open>Properties\<close>

text \<open>
  C7. Every shipped character set translates text one code unit at a time and keeps its
  length, so that columns counted before and after the translation agree; a character the
  set does not name stays as it is.
\<close>

theorem shipped_map_unitwise:
  assumes "(name, m) \<in> set DefaultMaps" and "GL_map m = Some f" and "glmap_now m = Some gl"
  shows "f str = map (translate_unit gl) str \<and>
    (\<forall>c. map_of gl [c] = None \<longrightarrow> translate_unit gl c = c)"
proof -
  have "unit_map gl"
    using shipped_unit_maps assms(1,3) unit_map_codeD by fastforce
  then show ?thesis
    using assms(2,3) concat_replace_unit_map by (auto simp: GL_map_def translate_unit_def)
qed

lemma shipped_map_unitwise_witness:
  "\<exists>f. GL_map (new_charmap (js ''graphic'') (Some map_graphic)) = Some f \<and>
    f (js ''lqk'') = [0x250c, 0x2500, 0x2510]"
proof -
  let ?m = "new_charmap (js ''graphic'') (Some map_graphic)"
  have "(js ''0'', ?m) \<in> set DefaultMaps" by (simp add: DefaultMaps_def)
  moreover have now: "glmap_now ?m = Some map_graphic"
    by (simp add: new_charmap_def sync_map_def)
  moreover obtain f where f: "GL_map ?m = Some f" unfolding GL_map_def now by simp
  ultimately have "f (js ''lqk'') = map (translate_unit map_graphic) (js ''lqk'')"
    using shipped_map_unitwise [of "js ''0''" ?m f map_graphic "js ''lqk''"] by blast
  also have "\<dots> = [0x250c, 0x2500, 0x2510]" by code_simp
  finally show ?thesis using f by blast
qed

text \<open>
  Overrides of single characters below U+0100: the map then translates by the override
  where it has an entry and by the base elsewhere, a second call forgets the first one, and
  \<open>reset\<close> brings back the map as it was created.
\<close>

theorem setOverrides_then_reset:
  assumes "m = new_charmap d (Some base)" and "simple_keys base" and "simple_keys over"
    and "distinct (map fst over)"
  shows "(\<exists>f. GL_map (setOverrides_map m over) = Some f \<and>
      (\<forall>c. f [c] = (case (map_of base ++ map_of over) [c] of Some v \<Rightarrow> v | None \<Rightarrow> [c]))) \<and>
    setOverrides_map (setOverrides_map m first) over = setOverrides_map m over \<and>
    reset_map (setOverrides_map m over) = m"
proof -
  let ?gl = "assign_maps (Some base) over"
  have "simple_keys ?gl" using simple_keys_assign [OF assms(3)] assms(2) by simp
  then have "replace_unit ?gl c = (case (map_of base ++ map_of over) [c] of Some v \<Rightarrow> v | None \<Rightarrow> [c])" for c
    using replace_simple map_of_assign_maps [OF assms(4), of "Some base"] by simp
  then show ?thesis
    using assms(1)
    by (auto simp: setOverrides_map_def sync_map_def new_charmap_def GL_map_def reset_map_def)
qed

lemma setOverrides_then_reset_witness:
  "reset_map (setOverrides_map (new_charmap (js ''british'') (Some map_british))
      [(js ''a'', js ''A'')]) = new_charmap (js ''british'') (Some map_british)"
proof -
  have "simple_keys map_british" by (simp add: map_british_def simple_keys_def)
  moreover have "simple_keys [(js ''a'', js ''A'')]" by (simp add: simple_keys_def)
  ultimately show ?thesis
    using setOverrides_then_reset [OF refl, of map_british "[(js ''a'', js ''A'')]"] by simp
qed

text \<open>
  An override of U+0100, the first character above U+00FF: the class is built with
  \<open>\x100\<close>, which is U+0010 followed by the digit 0. The character itself is never translated,
  and every digit 0 of the text becomes the word \<open>undefined\<close>.
\<close>

theorem override_above_ff:
  "\<exists>f. GL_map (setOverrides_map (new_charmap d None) [([0x100], [0x41])]) = Some f \<and>
    f [0x100] = [0x100] \<and> f (js ''1024'') = js ''1undefined24''"
proof -
  let ?gl = "[([0x100], [0x41])] :: glmap"
  have "replace_unit ?gl 0x100 = [0x100]" "replace_unit ?gl 0x30 = js ''undefined''"
    "replace_unit ?gl 0x31 = [0x31]" "replace_unit ?gl 0x32 = [0x32]" "replace_unit ?gl 0x34 = [0x34]"
    by code_simp+
  moreover have "glmap_now (setOverrides_map (new_charmap d None) [([0x100], [0x41])]) = Some ?gl"
    by (simp add: setOverrides_map_def sync_map_def new_charmap_def assign_maps_def)
  ultimately show ?thesis by (simp add: GL_map_def)
qed

end
