(* ===== verification/Screen.thy ===== *)
theory Screen
  imports TextAttributes CharacterMap
begin

text \<open>
  \<open>hterm.Screen\<close> (hterm_all-1.91.js), with the records \<open>hterm.Size\<close> and \<open>hterm.RowCol\<close>: the
  rows a screen shows, its cursor, and the operations on rows and on the text at the cursor.

  Rows are DOM elements that move between the screen, the scrollback and nowhere, so they
  live in a store: a \<open>rowid\<close> is the identity of an \<open>x-row\<close> element and a \<open>dom\<close> gives its
  child nodes and properties. The cursor node is a child of the cursor row; it is kept as its
  index there. \<open>None\<close> is an exception, as on a cursor row or node that is \<open>null\<close>.
\<close>

section \<open>Sizes, positions, rows\<close>

record size =
  width :: int
  height :: int

record rowcol =
  rc_row :: int
  rc_column :: int
  rc_overflow :: bool

definition RowCol :: "int \<Rightarrow> int \<Rightarrow> rowcol" where
  "RowCol r c = \<lparr>rc_row = r, rc_column = c, rc_overflow = False\<rparr>"

type_synonym rowid = nat

record xrow =
  childNodes :: "dnode list"
  rowIndex :: int
  line_overflow :: bool

type_synonym dom = "rowid \<Rightarrow> xrow"

text \<open>The character sets of the interpreter that a saved cursor remembers.\<close>

record gsets =
  GL :: jsstring
  GR :: jsstring
  G0 :: charmap
  G1 :: charmap
  G2 :: charmap
  G3 :: charmap

text \<open>\<open>hterm.Screen.CursorState\<close>: \<open>None\<close> is the \<open>null\<close> of a state never saved.\<close>

record cursor_state =
  cs_cursor :: "rowcol option"
  cs_textAttributes :: "tattrs option"
  cs_sets :: "gsets option"

definition new_cursor_state :: cursor_state where
  "new_cursor_state = \<lparr>cs_cursor = None, cs_textAttributes = None, cs_sets = None\<rparr>"

record screen =
  rowsArray :: "rowid list"
  columnCount :: int
  textAttributes :: tattrs
  cursorPosition :: rowcol
  cursorState :: cursor_state
  cursorRowNode :: "rowid option"
  cursorNode :: "nat option"
  cursorOffset :: int

definition new_screen :: "int \<Rightarrow> screen" where
  "new_screen cols = \<lparr>rowsArray = [], columnCount = cols, textAttributes = new_tattrs,
     cursorPosition = RowCol 0 0, cursorState = new_cursor_state, cursorRowNode = None,
     cursorNode = None, cursorOffset = 0\<rparr>"

definition getSize :: "screen \<Rightarrow> size" where
  "getSize s = \<lparr>width = columnCount s, height = int (length (rowsArray s))\<rparr>"

definition getHeight :: "screen \<Rightarrow> int" where
  "getHeight s = int (length (rowsArray s))"

definition getWidth :: "screen \<Rightarrow> int" where
  "getWidth s = columnCount s"

section \<open>Rows in and out\<close>

text \<open>The removed rows come first in the results; \<open>undefined\<close>, of an empty screen, is \<open>None\<close>.\<close>

definition shiftRows :: "int \<Rightarrow> screen \<Rightarrow> rowid list \<times> screen" where
  "shiftRows cnt s =
     (let (out, keep) = js_splice (rowsArray s) 0 cnt [] in (out, s\<lparr>rowsArray := keep\<rparr>))"

definition first_of :: "rowid list \<times> screen \<Rightarrow> rowid option \<times> screen" where
  "first_of p = ((case fst p of [] \<Rightarrow> None | r # _ \<Rightarrow> Some r), snd p)"

definition shiftRow :: "screen \<Rightarrow> rowid option \<times> screen" where
  "shiftRow s = first_of (shiftRows 1 s)"

definition unshiftRow :: "rowid \<Rightarrow> screen \<Rightarrow> screen" where
  "unshiftRow r s = s\<lparr>rowsArray := snd (js_splice (rowsArray s) 0 0 [r])\<rparr>"

definition unshiftRows :: "rowid list \<Rightarrow> screen \<Rightarrow> screen" where
  "unshiftRows rs s = s\<lparr>rowsArray := rs @ rowsArray s\<rparr>"

definition popRows :: "int \<Rightarrow> screen \<Rightarrow> rowid list \<times> screen" where
  "popRows cnt s =
     (let (out, keep) = js_splice (rowsArray s) (int (length (rowsArray s)) - cnt) cnt []
      in (out, s\<lparr>rowsArray := keep\<rparr>))"

definition popRow :: "screen \<Rightarrow> rowid option \<times> screen" where
  "popRow s = first_of (popRows 1 s)"

definition pushRow :: "rowid \<Rightarrow> screen \<Rightarrow> screen" where
  "pushRow r s = s\<lparr>rowsArray := rowsArray s @ [r]\<rparr>"

definition pushRows :: "rowid list \<Rightarrow> screen \<Rightarrow> screen" where
  "pushRows rs s = s\<lparr>rowsArray := rowsArray s @ rs\<rparr>"

definition insertRow :: "int \<Rightarrow> rowid \<Rightarrow> screen \<Rightarrow> screen" where
  "insertRow index r s = s\<lparr>rowsArray := snd (js_splice (rowsArray s) index 0 [r])\<rparr>"

text \<open>The loop of \<open>insertRows\<close>: row \<open>i\<close> goes to \<open>index + i\<close>.\<close>

fun insertRows_from :: "int \<Rightarrow> rowid list \<Rightarrow> rowid list \<Rightarrow> rowid list" where
  "insertRows_from at [] xs = xs"
| "insertRows_from at (r # rs) xs = insertRows_from (at + 1) rs (snd (js_splice xs at 0 [r]))"

definition insertRows :: "int \<Rightarrow> rowid list \<Rightarrow> screen \<Rightarrow> screen" where
  "insertRows index rs s = s\<lparr>rowsArray := insertRows_from index rs (rowsArray s)\<rparr>"

definition removeRows :: "int \<Rightarrow> int \<Rightarrow> screen \<Rightarrow> rowid list \<times> screen" where
  "removeRows index cnt s =
     (let (out, keep) = js_splice (rowsArray s) index cnt [] in (out, s\<lparr>rowsArray := keep\<rparr>))"

definition removeRow :: "int \<Rightarrow> screen \<Rightarrow> rowid option \<times> screen" where
  "removeRow index s = first_of (removeRows index 1 s)"

section \<open>The cursor\<close>

definition move_rc :: "int \<Rightarrow> int \<Rightarrow> rowcol \<Rightarrow> rowcol" where
  "move_rc r c rc = \<lparr>rc_row = r, rc_column = c, rc_overflow = False\<rparr>"

definition invalidateCursorPosition :: "screen \<Rightarrow> screen" where
  "invalidateCursorPosition s = s\<lparr>cursorPosition := move_rc 0 0 (cursorPosition s),
     cursorRowNode := None, cursorNode := None, cursorOffset := 0\<rparr>"

text \<open>
  The loop over the nodes from index \<open>i\<close>, \<open>off\<close> columns before the target: the node that holds
  the column, or the last one. \<open>None\<close> where there is no node to begin with.
\<close>

fun find_node :: "env \<Rightarrow> dnode list \<Rightarrow> nat \<Rightarrow> int \<Rightarrow> (nat \<times> int) option" where
  "find_node E [] i off = None"
| "find_node E (n # ns) i off =
     (if ns = [] \<or> nodeWidth E n > off then Some (i, off)
      else find_node E ns (Suc i) (off - nodeWidth E n))"

definition clamp_index :: "int \<Rightarrow> int \<Rightarrow> int" where
  "clamp_index v n = (if v \<ge> n then n - 1 else if v < 0 then 0 else v)"

definition set_overflow :: "bool \<Rightarrow> screen \<Rightarrow> screen" where
  "set_overflow b s = s\<lparr>cursorPosition := (cursorPosition s)\<lparr>rc_overflow := b\<rparr>\<rparr>"

definition setCursorPosition :: "env \<Rightarrow> int \<Rightarrow> int \<Rightarrow> dom \<times> screen \<Rightarrow> dom \<times> screen" where
  "setCursorPosition E row0 column0 ds =
     (let d = fst ds; s = snd ds in
      if rowsArray s = [] then (d, s)
      else
        let rw = clamp_index row0 (int (length (rowsArray s)));
            column = clamp_index column0 (columnCount s);
            rowNode = rowsArray s ! nat rw;
            nodes = (if childNodes (d rowNode) = [] then [createTextNode []]
                     else childNodes (d rowNode));
            d = d(rowNode := (d rowNode)\<lparr>childNodes := nodes\<rparr>);
            at_cursor = rc_column (cursorPosition s) - cursorOffset s;
            (start, currentColumn) =
              (if cursorRowNode s = Some rowNode \<and> column \<ge> at_cursor
               then (case cursorNode s of Some i \<Rightarrow> i | None \<Rightarrow> length nodes, at_cursor)
               else (0, 0));
            s = s\<lparr>cursorRowNode := Some rowNode,
                  cursorPosition := move_rc rw column (cursorPosition s)\<rparr>
        in case find_node E (drop start nodes) start (column - currentColumn) of
             None \<Rightarrow> (d, s)
           | Some (i, off) \<Rightarrow> (d, s\<lparr>cursorNode := Some i, cursorOffset := off\<rparr>))"

definition setColumnCount :: "env \<Rightarrow> int \<Rightarrow> dom \<times> screen \<Rightarrow> dom \<times> screen" where
  "setColumnCount E cnt ds =
     (let s = (snd ds)\<lparr>columnCount := cnt\<rparr> in
      if rc_column (cursorPosition s) \<ge> cnt
      then setCursorPosition E (rc_row (cursorPosition s)) (cnt - 1) (fst ds, s)
      else (fst ds, s))"

text \<open>\<open>repeat\<close> throws on a negative count, \<open>syncColors\<close> as it says.\<close>

definition sync_screen :: "screen \<Rightarrow> screen option" where
  "sync_screen s = do {
     ta \<leftarrow> syncColors (textAttributes s);
     Some (s\<lparr>textAttributes := ta\<rparr>)
   }"

definition set_inverse :: "bool \<Rightarrow> screen \<Rightarrow> screen" where
  "set_inverse b s = s\<lparr>textAttributes := (textAttributes s)\<lparr>inverse := b\<rparr>\<rparr>"

definition clearCursorRow :: "env \<Rightarrow> dom \<times> screen \<Rightarrow> (dom \<times> screen) option" where
  "clearCursorRow E ds = do {
     let d = fst ds; let s = snd ds;
     r \<leftarrow> cursorRowNode s;
     let s = s\<lparr>cursorOffset := 0,
       cursorPosition := (cursorPosition s)\<lparr>rc_column := 0, rc_overflow := False\<rparr>\<rparr>;
     txt \<leftarrow> (if isDefault (textAttributes s) then Some []
              else if columnCount s < 0 then None else Some (js_repeat 32 (columnCount s)));
     let inv = inverse (textAttributes s);
     s \<leftarrow> sync_screen (set_inverse False s);
     let node = createContainer E (textAttributes s) txt;
     let d = d(r := (d r)\<lparr>childNodes := [node], line_overflow := False\<rparr>);
     s \<leftarrow> sync_screen (set_inverse inv (s\<lparr>cursorNode := Some 0\<rparr>));
     Some (d, s)
   }"

definition commitLineOverflow :: "dom \<times> screen \<Rightarrow> (dom \<times> screen) option" where
  "commitLineOverflow ds = do {
     r \<leftarrow> cursorRowNode (snd ds);
     Some ((fst ds)(r := (fst ds r)\<lparr>line_overflow := True\<rparr>), snd ds)
   }"

section \<open>Text at the cursor\<close>

definition insert_at :: "nat \<Rightarrow> dnode \<Rightarrow> dnode list \<Rightarrow> dnode list" where
  "insert_at i n nodes = take i nodes @ n # drop i nodes"

text \<open>
  \<open>splitNode_\<close> on the node at index \<open>i\<close>: the nodes, and the index of the node that was split,
  \<open>None\<close> when nothing is left of it and it is removed.
\<close>

definition splitNode :: "env \<Rightarrow> dnode list \<Rightarrow> nat \<Rightarrow> int \<Rightarrow> dnode list \<times> nat option" where
  "splitNode E nodes i offset =
     (let n = nodes ! i;
          front = nodeSubstr E n 0 (Some offset);
          after = wc_substr (wc E) (textContent n) offset None;
          afters = (if after = [] then [] else [set_textContent after (cloneNode n)])
      in if front = [] then (take i nodes @ afters @ drop (Suc i) nodes, None)
         else (take i nodes @ set_textContent front n # afters @ drop (Suc i) nodes, Some i))"

text \<open>A row has no \<open>asciiNode\<close> property, so its width is that of its text.\<close>

definition row_content :: "dnode list \<Rightarrow> jsstring" where
  "row_content nodes = concat (map textContent nodes)"

definition maybeClipCurrentRow :: "env \<Rightarrow> dom \<times> screen \<Rightarrow> (dom \<times> screen) option" where
  "maybeClipCurrentRow E ds = do {
     r \<leftarrow> cursorRowNode (snd ds);
     let wd = strWidth (wc E) (row_content (childNodes (fst ds r)));
     let pos = cursorPosition (snd ds);
     let cols = columnCount (snd ds);
     (if wd \<le> cols then
        (if rc_column pos \<ge> cols then
           let ds = setCursorPosition E (rc_row pos) (cols - 1) ds
           in Some (fst ds, set_overflow True (snd ds))
         else Some ds)
      else do {
        let currentColumn = rc_column pos;
        let (d, s) = setCursorPosition E (rc_row pos) (cols - 1) ds;
        rowNode \<leftarrow> cursorRowNode s;
        i \<leftarrow> cursorNode s;
        let n = childNodes (d rowNode) ! i;
        let n = (if cursorOffset s < nodeWidth E n - 1
                 then set_textContent (nodeSubstr E n 0 (Some (cursorOffset s + 1))) n else n);
        let d = d(rowNode := (d rowNode)\<lparr>childNodes := take i (childNodes (d rowNode)) @ [n]\<rparr>);
        (if currentColumn < cols
         then Some (setCursorPosition E (rc_row (cursorPosition s)) currentColumn (d, s))
         else Some (d, set_overflow True s))
      })
   }"

text \<open>
  \<open>insertString\<close> first supplies the blanks between the end of the cursor node and a cursor
  beyond it. \<open>textAttributes.background\<close> is a symbol or a color, true unless it is empty.
  The shorthand \<open>style.textDecoration\<close> is only set where the line is.
\<close>

definition spaces_join_text :: "tattrs \<Rightarrow> bool" where
  "spaces_join_text ta \<longleftrightarrow> \<not> (underline ta \<noteq> None \<or> strikethrough ta \<or> background ta \<noteq> Css [] \<or>
     wcNode ta \<or> \<not> asciiNode ta \<or> tileData ta \<noteq> None)"

fun holds_spaces :: "dnode \<Rightarrow> bool" where
  "holds_spaces (TextNode s a) = True"
| "holds_spaces (SpanNode s p) = (\<not> (span_wcNode p \<or> span_asciiNode p \<noteq> Some True \<or>
     span_tileNode p \<or> style_textDecorationStyle p \<noteq> [] \<or> style_textDecorationLine p \<noteq> [] \<or>
     style_backgroundColor p \<noteq> []))"

definition supply_spaces ::
  "env \<Rightarrow> tattrs \<Rightarrow> dnode list \<Rightarrow> nat \<Rightarrow> int \<Rightarrow> jsstring \<Rightarrow>
   dnode list \<times> nat \<times> int \<times> jsstring \<times> int" where
  "supply_spaces E ta nodes i offset str =
     (let n = nodes ! i; reverseOffset = nodeWidth E n - offset in
      if reverseOffset < 0 then
        let ws = js_repeat 32 (- reverseOffset) in
        if spaces_join_text ta then (nodes, i, offset, ws @ str, 0)
        else if holds_spaces n
        then (nodes[i := set_textContent (textContent n @ ws) n], i, offset, str, 0)
        else (insert_at (Suc i) (createTextNode ws) nodes, Suc i, - reverseOffset, str, 0)
      else (nodes, i, offset, str, reverseOffset))"

text \<open>The placement: the nodes, the cursor node and its offset. \<open>wd\<close> is \<open>wcwidth\<close>.\<close>

definition place_string ::
  "env \<Rightarrow> tattrs \<Rightarrow> int \<Rightarrow> dnode list \<times> nat \<times> int \<times> jsstring \<times> int \<Rightarrow> dnode list \<times> nat \<times> int" where
  "place_string E ta wd p =
     (let (nodes, i, offset, str, reverseOffset) = p;
          n = nodes ! i; newNode = createContainer E ta str
      in
      if matchesContainer ta n then
        (nodes[i := set_textContent
           (if reverseOffset = 0 then textContent n @ str
            else if offset = 0 then str @ textContent n
            else nodeSubstr E n 0 (Some offset) @ str @ nodeSubstr E n offset None) n],
         i, offset + wd)
      else if offset = 0 then
        (if i > 0 \<and> matchesContainer ta (nodes ! (i - 1))
         then let t = textContent (nodes ! (i - 1)) @ str
              in (nodes[i - 1 := set_textContent t (nodes ! (i - 1))], i - 1, strWidth (wc E) t)
         else (insert_at i newNode nodes, i, wd))
      else if reverseOffset = 0 then
        (if Suc i < length nodes \<and> matchesContainer ta (nodes ! Suc i)
         then (nodes[Suc i := set_textContent (str @ textContent (nodes ! Suc i)) (nodes ! Suc i)],
               Suc i, strWidth (wc E) str)
         else (insert_at (Suc i) newNode nodes, Suc i, nodeWidth E newNode))
      else
        (case splitNode E nodes i offset of
           (nodes', Some j) \<Rightarrow> (insert_at (Suc j) newNode nodes', Suc j, wd)
         | (nodes', None) \<Rightarrow> (nodes' @ [newNode], length nodes', wd)))"

definition string_width :: "env \<Rightarrow> jsstring \<Rightarrow> int option \<Rightarrow> int" where
  "string_width E str wcwidth = (case wcwidth of None \<Rightarrow> strWidth (wc E) str | Some w \<Rightarrow> w)"

definition insertString ::
  "env \<Rightarrow> jsstring \<Rightarrow> int option \<Rightarrow> dom \<times> screen \<Rightarrow> (dom \<times> screen) option" where
  "insertString E str wcwidth ds = do {
     let d = fst ds; let s = snd ds;
     i \<leftarrow> cursorNode s;
     r \<leftarrow> cursorRowNode s;
     let wd = string_width E str wcwidth;
     let (nodes, j, offset) = place_string E (textAttributes s) wd
       (supply_spaces E (textAttributes s) (childNodes (d r)) i (cursorOffset s) str);
     let pos = cursorPosition s;
     Some (d(r := (d r)\<lparr>childNodes := nodes, line_overflow := False\<rparr>),
       s\<lparr>cursorPosition := pos\<lparr>rc_column := rc_column pos + wd\<rparr>, cursorNode := Some j,
         cursorOffset := offset\<rparr>)
   }"

section \<open>Deleting and overwriting\<close>

fun is_wcNode :: "dnode \<Rightarrow> bool" where
  "is_wcNode (TextNode s a) = False"
| "is_wcNode (SpanNode s p) = span_wcNode p"

definition cut_node :: "env \<Rightarrow> int \<Rightarrow> int \<Rightarrow> dnode \<Rightarrow> dnode" where
  "cut_node E offset cnt n = set_textContent
     (nodeSubstr E n 0 (Some offset) @ nodeSubstr E n (offset + cnt) None) n"

text \<open>A wide character of which one column is to go: nothing went, or all of it did.\<close>

definition splits_wide :: "env \<Rightarrow> int \<Rightarrow> int \<Rightarrow> dnode \<Rightarrow> bool" where
  "splits_wide E offset cnt n \<longleftrightarrow>
     (let startLength = nodeWidth E n; endLength = nodeWidth E (cut_node E offset cnt n)
      in is_wcNode n \<and> offset < startLength \<and>
        (endLength \<noteq> 0 \<and> startLength = endLength \<or> endLength = 0 \<and> offset = 1))"

text \<open>
  The loop of \<open>deleteChars\<close> on the nodes from the current one: what becomes of them, and by how
  much the cursor node moves to the right. \<open>is_cursor\<close> says the current node is the cursor
  node, which stays even when it is empty.
\<close>

function delete_loop ::
  "env \<Rightarrow> tattrs \<Rightarrow> bool \<Rightarrow> int \<Rightarrow> int \<Rightarrow> dnode list \<Rightarrow> nat \<times> dnode list" where
  "delete_loop E ta is_cursor offset cnt [] = (0, [])"
| "delete_loop E ta is_cursor offset cnt (n # ns) =
     (if cnt \<le> 0 then (0, n # ns)
      else
        let n' = cut_node E offset cnt n in
        if splits_wide E offset cnt n then
          let spaceNode = createContainer E ta (js '' '');
              kept = (if is_cursor then [set_textContent [] n'] else [])
          in if offset \<noteq> 0
             then (if is_cursor then 1 else 0,
                   spaceNode # kept @ snd (delete_loop E ta False 0 (cnt - 1) ns))
             else (0, kept @ snd (delete_loop E ta False 0 (cnt - 1) (spaceNode # ns)))
        else
          (0, (if nodeWidth E n' = 0 \<and> \<not> is_cursor then [] else [n'])
             @ snd (delete_loop E ta False 0 (cnt - (nodeWidth E n - nodeWidth E n')) ns)))"
  by pat_completeness auto
termination
  by (relation "measures [\<lambda>(E, ta, b, off, cnt, ns). length ns, \<lambda>(E, ta, b, off, cnt, ns). nat cnt]")
    auto

text \<open>An empty cursor node that is not a text node goes, and a neighbour takes its place.\<close>

definition drop_empty_cursor :: "env \<Rightarrow> dnode list \<Rightarrow> nat \<Rightarrow> int \<Rightarrow> dnode list \<times> nat \<times> int" where
  "drop_empty_cursor E nodes i offset =
     (let n = nodes ! i; rest = take i nodes @ drop (Suc i) nodes in
      if isTextNode n \<or> textContent n \<noteq> [] then (nodes, i, offset)
      else if i > 0 then (rest, i - 1, nodeWidth E (nodes ! (i - 1)))
      else if Suc i < length nodes then (rest, i, 0)
      else (rest @ [createTextNode []], i, 0))"

definition deleteChars :: "env \<Rightarrow> int \<Rightarrow> dom \<times> screen \<Rightarrow> (int \<times> dom \<times> screen) option" where
  "deleteChars E count0 ds =
     (let d = fst ds; s = snd ds;
          cnt = min count0 (columnCount s - rc_column (cursorPosition s))
      in if cnt = 0 then Some (0, ds)
         else do {
           i \<leftarrow> cursorNode s;
           r \<leftarrow> cursorRowNode s;
           let nodes = childNodes (d r);
           let (shift, rest) =
             delete_loop E (textAttributes s) True (cursorOffset s) cnt (drop i nodes);
           let (nodes, j, offset) =
             drop_empty_cursor E (take i nodes @ rest) (i + shift) (cursorOffset s);
           Some (cnt, d(r := (d r)\<lparr>childNodes := nodes\<rparr>),
             s\<lparr>cursorNode := Some j, cursorOffset := offset\<rparr>)
         })"

definition overwriteString ::
  "env \<Rightarrow> jsstring \<Rightarrow> int option \<Rightarrow> dom \<times> screen \<Rightarrow> (dom \<times> screen) option" where
  "overwriteString E str wcwidth ds =
     (let s = snd ds; maxLength = columnCount s - rc_column (cursorPosition s) in
      if maxLength = 0 then Some ds
      else do {
        let wd = string_width E str wcwidth;
        i \<leftarrow> cursorNode s;
        r \<leftarrow> cursorRowNode s;
        let n = childNodes (fst ds r) ! i;
        (if matchesContainer (textAttributes s) n \<and>
            js_substr (textContent n) (cursorOffset s) None = str
         then let pos = cursorPosition s in
           Some (fst ds, s\<lparr>cursorOffset := cursorOffset s + wd,
             cursorPosition := pos\<lparr>rc_column := rc_column pos + wd\<rparr>\<rparr>)
         else do {
           (_, ds) \<leftarrow> deleteChars E (min wd maxLength) ds;
           insertString E str (Some wd) ds
         })
      })"

section \<open>Lines across rows\<close>

text \<open>The row at the start of a line, and a line's text, over the rows in document order.\<close>

fun getLineStartRow :: "dom \<Rightarrow> rowid list \<Rightarrow> nat \<Rightarrow> nat" where
  "getLineStartRow d rows 0 = 0"
| "getLineStartRow d rows (Suc i) =
     (if line_overflow (d (rows ! i)) then getLineStartRow d rows i else Suc i)"

fun getLineText :: "dom \<Rightarrow> rowid list \<Rightarrow> jsstring" where
  "getLineText d [] = []"
| "getLineText d (r # rows) = row_content (childNodes (d r)) @
     (if line_overflow (d r) then getLineText d rows else [])"

section \<open>The cursor among the nodes\<close>

definition nodes_width :: "env \<Rightarrow> dnode list \<Rightarrow> int" where
  "nodes_width E nodes = sum_list (map (nodeWidth E) nodes)"

lemma nodes_width_simps [simp]:
  "nodes_width E [] = 0"
  "nodes_width E (n # ns) = nodeWidth E n + nodes_width E ns"
  "nodes_width E (ms @ ns) = nodes_width E ms + nodes_width E ns"
  by (simp_all add: nodes_width_def)

lemma nodeWidth_nonneg [simp]: "wc_ok (wc E) \<Longrightarrow> 0 \<le> nodeWidth E n"
  by (simp add: nodeWidth_def)

lemma nodes_width_nonneg [simp]: "wc_ok (wc E) \<Longrightarrow> 0 \<le> nodes_width E ns"
  by (induction ns) simp_all

text \<open>Node \<open>i\<close> and offset \<open>off\<close> are where column \<open>col\<close> is; only the last node may be too short.\<close>

definition cursor_ok :: "env \<Rightarrow> dnode list \<Rightarrow> nat \<Rightarrow> int \<Rightarrow> int \<Rightarrow> bool" where
  "cursor_ok E nodes i off col \<longleftrightarrow> i < length nodes \<and> 0 \<le> off \<and>
     col = nodes_width E (take i nodes) + off \<and>
     (Suc i < length nodes \<longrightarrow> off \<le> nodeWidth E (nodes ! i))"

lemma cursor_okE:
  assumes "cursor_ok E nodes i off col"
  obtains A n B where "nodes = A @ n # B" "i = length A" "0 \<le> off"
    "col = nodes_width E A + off" "B \<noteq> [] \<longrightarrow> off \<le> nodeWidth E n"
proof -
  have i: "i < length nodes" using assms by (simp add: cursor_ok_def)
  then have "nodes = take i nodes @ nodes ! i # drop (Suc i) nodes"
    by (rule id_take_nth_drop)
  with that [of "take i nodes" "nodes ! i" "drop (Suc i) nodes"] assms i
  show thesis by (auto simp: cursor_ok_def)
qed

lemma cursor_ok_zipper [simp]:
  "cursor_ok E (A @ n # B) (length A) off col \<longleftrightarrow>
    0 \<le> off \<and> col = nodes_width E A + off \<and> (B \<noteq> [] \<longrightarrow> off \<le> nodeWidth E n)"
  by (auto simp: cursor_ok_def nth_append)

lemma cursor_ok_zipper_Suc [simp]:
  "cursor_ok E (A @ m # n # B) (Suc (length A)) off col \<longleftrightarrow>
    0 \<le> off \<and> col = nodes_width E A + nodeWidth E m + off \<and> (B \<noteq> [] \<longrightarrow> off \<le> nodeWidth E n)"
  using cursor_ok_zipper [of E "A @ [m]" n B off col] by simp

lemma find_node_ok:
  assumes "ns \<noteq> []" and "0 \<le> off"
  shows "\<exists>i off'. find_node E ns (length A) off = Some (i, off') \<and>
    cursor_ok E (A @ ns) i off' (nodes_width E A + off) \<and>
    (Suc i < length (A @ ns) \<longrightarrow> off' < nodeWidth E ((A @ ns) ! i))"
  using assms
proof (induction ns arbitrary: A off)
  case (Cons n ns)
  show ?case
  proof (cases "ns = [] \<or> nodeWidth E n > off")
    case True
    with Cons.prems show ?thesis by (auto simp: nth_append)
  next
    case False
    with Cons.IH [of "off - nodeWidth E n" "A @ [n]"] show ?thesis by simp
  qed
qed simp

section \<open>Rows of narrow text\<close>

text \<open>
  Rows whose nodes hold printable ASCII and no wide character, in any number of nodes with any
  style, no span being empty: there the row is its text, and the operations are operations on
  strings.
\<close>

definition slim :: "dnode \<Rightarrow> bool" where
  "slim n \<longleftrightarrow> plain n \<and> \<not> is_wcNode n"

definition narrow :: "dnode \<Rightarrow> bool" where
  "narrow n \<longleftrightarrow> slim n \<and> (isTextNode n \<or> textContent n \<noteq> [])"

lemma slim_plain [simp]: "slim n \<Longrightarrow> plain n"
  by (simp add: slim_def)

lemma narrow_slim [simp]: "narrow n \<Longrightarrow> slim n"
  by (simp add: narrow_def)

lemma row_content_simps [simp]:
  "row_content [] = []"
  "row_content (n # ns) = textContent n @ row_content ns"
  "row_content (ms @ ns) = row_content ms @ row_content ns"
  by (simp_all add: row_content_def)

lemma nodes_width_plain:
  "\<forall>n \<in> set ns. plain n \<Longrightarrow> nodes_width E ns = int (length (row_content ns))"
  by (induction ns) simp_all

text \<open>Inserting at a column, supplying blanks up to it, and deleting columns.\<close>

definition text_insert :: "nat \<Rightarrow> jsstring \<Rightarrow> jsstring \<Rightarrow> jsstring" where
  "text_insert c str t = take c t @ replicate (c - length t) 32 @ str @ drop c t"

definition text_delete :: "nat \<Rightarrow> nat \<Rightarrow> jsstring \<Rightarrow> jsstring" where
  "text_delete c k t = take c t @ drop (c + k) t"

lemma text_insert_prefix:
  "text_insert (length p + c) str (p @ t) = p @ text_insert c str t"
  by (simp add: text_insert_def)

lemma text_insert_split:
  "c \<le> length t \<Longrightarrow> text_insert c str (t @ u) = take c t @ str @ drop c t @ u"
  by (simp add: text_insert_def)

lemma printable_blank [simp]: "printable 32"
  by (simp add: printable_def)

lemma text_insert_printable:
  "printable_str t \<Longrightarrow> printable_str str \<Longrightarrow> printable_str (text_insert c str t)"
  by (auto simp: text_insert_def dest: in_set_takeD in_set_dropD split: if_splits)

section \<open>Setting the cursor\<close>

lemma clamp_index_bounds: "0 < n \<Longrightarrow> 0 \<le> clamp_index v n \<and> clamp_index v n < n"
  by (simp add: clamp_index_def)

lemma clamp_index_id [simp]: "0 \<le> v \<Longrightarrow> v < n \<Longrightarrow> clamp_index v n = v"
  by (simp add: clamp_index_def)

definition with_nodes :: "dnode list \<Rightarrow> dnode list" where
  "with_nodes nodes = (if nodes = [] then [createTextNode []] else nodes)"

lemma with_nodes_not_empty [simp]: "with_nodes nodes \<noteq> []"
  "nodes \<noteq> [] \<Longrightarrow> with_nodes nodes = nodes"
  by (simp_all add: with_nodes_def)

text \<open>
  The cursor of a screen is consistent with a row when that row is not the cursor row, or
  the cursor node and offset are where the cursor column is.
\<close>

definition cursor_consistent :: "env \<Rightarrow> dom \<Rightarrow> screen \<Rightarrow> rowid \<Rightarrow> bool" where
  "cursor_consistent E d s r \<longleftrightarrow> (cursorRowNode s = Some r \<longrightarrow>
     (\<exists>i. cursorNode s = Some i \<and>
       cursor_ok E (childNodes (d r)) i (cursorOffset s) (rc_column (cursorPosition s))))"

lemma setCursorPosition_result:
  fixes E :: env and d :: dom and s :: screen and row0 column0 :: int
  assumes wc: "wc_ok (wc E)" and rows: "rowsArray s \<noteq> []" and cols: "0 < columnCount s"
  defines "r \<equiv> clamp_index row0 (int (length (rowsArray s)))"
    and "c \<equiv> clamp_index column0 (columnCount s)"
  defines "R \<equiv> rowsArray s ! nat r"
  assumes cur: "cursor_consistent E d s R"
  obtains i off where
    "setCursorPosition E row0 column0 (d, s) =
      (d(R := (d R)\<lparr>childNodes := with_nodes (childNodes (d R))\<rparr>),
       s\<lparr>cursorPosition := RowCol r c, cursorRowNode := Some R, cursorNode := Some i,
         cursorOffset := off\<rparr>)"
    and "cursor_ok E (with_nodes (childNodes (d R))) i off c"
    and "Suc i < length (with_nodes (childNodes (d R))) \<longrightarrow>
      off < nodeWidth E (with_nodes (childNodes (d R)) ! i)"
proof -
  define nodes where "nodes = with_nodes (childNodes (d R))"
  have c: "0 \<le> c" using clamp_index_bounds [OF cols] by (simp add: c_def)
  define at where "at = rc_column (cursorPosition s) - cursorOffset s"
  define p where "p = (if cursorRowNode s = Some R \<and> c \<ge> at
    then (case cursorNode s of Some i \<Rightarrow> i | None \<Rightarrow> length nodes, at) else (0, 0))"
  obtain start cc where start: "p = (start, cc)" "start < length nodes"
    "cc = nodes_width E (take start nodes)" "cc \<le> c"
  proof (cases "cursorRowNode s = Some R \<and> c \<ge> at")
    case True
    then obtain i where i: "cursorNode s = Some i"
      "cursor_ok E (childNodes (d R)) i (cursorOffset s) (rc_column (cursorPosition s))"
      using cur by (auto simp: cursor_consistent_def)
    then have "childNodes (d R) \<noteq> []" by (auto simp: cursor_ok_def)
    with i True show thesis
      using that [of i at] by (simp add: p_def nodes_def at_def cursor_ok_def)
  next
    case False
    have "0 < length nodes" by (simp add: nodes_def)
    with False c show thesis using that [of 0 0] by (auto simp: p_def)
  qed
  have drop: "drop start nodes \<noteq> []" and split: "nodes = take start nodes @ drop start nodes"
    using start(2) by simp_all
  obtain i off where found: "find_node E (drop start nodes) start (c - cc) = Some (i, off)"
    and ok: "cursor_ok E nodes i off c" "Suc i < length nodes \<longrightarrow> off < nodeWidth E (nodes ! i)"
    using find_node_ok [OF drop, of "c - cc" E "take start nodes"] start by auto
  have "setCursorPosition E row0 column0 (d, s) =
      (d(R := (d R)\<lparr>childNodes := nodes\<rparr>),
       s\<lparr>cursorPosition := RowCol r c, cursorRowNode := Some R, cursorNode := Some i,
         cursorOffset := off\<rparr>)"
    unfolding setCursorPosition_def Let_def fst_conv snd_conv r_def [symmetric] c_def [symmetric]
      R_def [symmetric] fun_upd_same with_nodes_def [symmetric] nodes_def [symmetric]
      at_def [symmetric] p_def [symmetric] move_rc_def RowCol_def
    using rows found start(1) by simp
  with ok show thesis using that by (simp add: nodes_def)
qed

section \<open>Inserting a string\<close>

lemma span_wcNode_container: "span_wcNode (container_span E ta) = wcNode ta"
  by (simp add: container_span_def)

lemma is_wcNode_create: "\<not> wcNode ta \<Longrightarrow> \<not> is_wcNode (createContainer E ta str)"
  by (simp add: createContainer_def span_wcNode_container)

lemma narrow_create:
  "printable_str str \<Longrightarrow> str \<noteq> [] \<Longrightarrow> \<not> wcNode ta \<Longrightarrow> narrow (createContainer E ta str)"
  by (simp add: narrow_def slim_def is_wcNode_create)

lemma slim_set [simp]: "slim n \<Longrightarrow> slim (set_textContent t n) \<longleftrightarrow> printable_str t"
  by (cases n) (simp_all add: slim_def plain_def)

lemma narrow_set [simp]:
  "narrow n \<Longrightarrow> narrow (set_textContent t n) \<longleftrightarrow> printable_str t \<and> (isTextNode n \<or> t \<noteq> [])"
  by (simp add: narrow_def)

lemma narrow_clone [simp]:
  "narrow (set_textContent t (cloneNode n)) \<longleftrightarrow> printable_str t \<and> (isTextNode n \<or> t \<noteq> [])"
  by (cases n) (simp_all add: narrow_def slim_def plain_def)

lemma narrow_text [simp]: "narrow (createTextNode t) \<longleftrightarrow> printable_str t"
  by (simp add: narrow_def slim_def createTextNode_def plain_def)

lemma slim_printable: "slim n \<Longrightarrow> printable_str (textContent n)"
  by (simp add: slim_def plain_def)

lemma narrow_printable: "narrow n \<Longrightarrow> printable_str (textContent n)"
  using slim_printable narrow_slim by blast

lemma insert_at_zipper [simp]:
  "insert_at (length A) m (A @ ns) = A @ m # ns"
  "insert_at (Suc (length A)) m (A @ n # ns) = A @ n # m # ns"
  by (simp_all add: insert_at_def)

lemma list_update_zipper [simp]: "(A @ n # B)[length A := m] = A @ m # B"
  "(A @ n # k # B)[Suc (length A) := m] = A @ n # m # B"
  by (simp_all add: list_update_append)

lemma splitNode_narrow:
  assumes "narrow n" and "0 < off" and "off < int (length (textContent n))"
  shows "splitNode E (A @ n # B) (length A) off =
    (A @ set_textContent (take (nat off) (textContent n)) n #
       set_textContent (drop (nat off) (textContent n)) (cloneNode n) # B, Some (length A))"
proof -
  have "take (nat off) (textContent n) \<noteq> []" "drop (nat off) (textContent n) \<noteq> []"
    using assms(2,3) by auto
  then show ?thesis
    using assms narrow_printable [OF assms(1)] by (simp add: splitNode_def Let_def nth_append)
qed

text \<open>
  Placing \<open>str\<close> at position \<open>p\<close> of the cursor node. The offset is \<open>p\<close>, except where blanks were
  put in front of the string itself: there it is still the column past the end.
\<close>

lemma place_string_narrow:
  fixes E :: env and wd :: int
  assumes narrow: "\<forall>m \<in> set (A @ n # B). narrow m" and str: "printable_str str" "str \<noteq> []"
    and ta: "\<not> wcNode ta"
    and p: "0 \<le> p" "p \<le> int (length (textContent n))"
    and rv: "rv = 0 \<longrightarrow> p = int (length (textContent n))" "rv \<noteq> 0 \<longrightarrow> p = off \<and> off < int (length (textContent n))"
    and off: "0 \<le> off" "off = 0 \<longrightarrow> p = 0" "off + wd = p + int (length str)"
  defines "col \<equiv> nodes_width E A + p + int (length str)"
  obtains nodes j off' where
    "place_string E ta wd (A @ n # B, length A, off, str, rv) = (nodes, j, off')"
    "row_content nodes = row_content A @ take (nat p) (textContent n) @ str @
       drop (nat p) (textContent n) @ row_content B"
    "\<forall>m \<in> set nodes. narrow m" "cursor_ok E nodes j off' col"
proof -
  let ?t = "textContent n" and ?new = "createContainer E ta str"
  have n: "narrow n" "plain n" "printable_str ?t" using narrow narrow_printable by auto
  have new: "narrow ?new" "plain ?new" using narrow_create [OF str ta, of E] str by simp_all
  have parts: "printable_str (take k ?t)" "printable_str (drop k ?t)" for k
    using n(3) by (meson in_set_takeD in_set_dropD)+
  note place = place_string_def Let_def nth_append
  consider (match) "matchesContainer ta n"
    | (prev) A' m where "\<not> matchesContainer ta n" "off = 0" "A = A' @ [m]" "matchesContainer ta m"
    | (front) "\<not> matchesContainer ta n" "off = 0"
        "\<not> (length A > 0 \<and> matchesContainer ta ((A @ n # B) ! (length A - 1)))"
    | (after) k B' where "\<not> matchesContainer ta n" "off \<noteq> 0" "rv = 0" "B = k # B'"
        "matchesContainer ta k"
    | (behind) "\<not> matchesContainer ta n" "off \<noteq> 0" "rv = 0"
        "\<not> (Suc (length A) < length (A @ n # B) \<and> matchesContainer ta ((A @ n # B) ! Suc (length A)))"
    | (middle) "\<not> matchesContainer ta n" "off \<noteq> 0" "rv \<noteq> 0"
    by (cases "A = []"; cases A rule: rev_cases; cases B) (auto simp: nth_append split: if_splits)
  then show thesis
  proof cases
    case match
    define t where "t = take (nat p) ?t @ str @ drop (nat p) ?t"
    have "(if rv = 0 then ?t @ str else if off = 0 then str @ ?t
        else nodeSubstr E n 0 (Some off) @ str @ nodeSubstr E n off None) = t"
      using rv off n p by (auto simp: t_def)
    then have "place_string E ta wd (A @ n # B, length A, off, str, rv) =
        (A @ set_textContent t n # B, length A, off + wd)"
      using match by (cases "rv = 0"; cases "off = 0") (simp_all add: place)
    moreover have "printable_str t" using parts str by (auto simp: t_def)
    ultimately show thesis
      using that narrow n str off p rv by (simp add: col_def t_def)
  next
    case prev
    then have "place_string E ta wd (A @ n # B, length A, off, str, rv) =
        (A' @ set_textContent (textContent m @ str) m # n # B, length A',
         strWidth (wc E) (textContent m @ str))"
      by (simp add: place list_update_append)
    moreover have "printable_str (textContent m @ str)"
      using narrow narrow_printable [of m] prev(3) str by auto
    ultimately show thesis
      using that narrow prev off str by (simp add: col_def)
  next
    case front
    then have "place_string E ta wd (A @ n # B, length A, off, str, rv) =
        (A @ ?new # n # B, length A, wd)"
      by (auto simp: place split: if_splits)
    then show thesis using that narrow new front off by (simp add: col_def)
  next
    case (after k B')
    then have "place_string E ta wd (A @ n # B, length A, off, str, rv) =
        (A @ n # set_textContent (str @ textContent k) k # B', Suc (length A), strWidth (wc E) str)"
      by (simp add: place)
    moreover have "printable_str (str @ textContent k)"
      using narrow narrow_printable [of k] after(4) str by auto
    ultimately show thesis
      using that narrow after rv str n by (simp add: col_def)
  next
    case behind
    then have "place_string E ta wd (A @ n # B, length A, off, str, rv) =
        (A @ n # ?new # B, Suc (length A), nodeWidth E ?new)"
      by (auto simp: place split: if_splits)
    then show thesis using that narrow new behind rv n by (simp add: col_def)
  next
    case middle
    then have "place_string E ta wd (A @ n # B, length A, off, str, rv) =
        (A @ set_textContent (take (nat off) ?t) n # ?new #
           set_textContent (drop (nat off) ?t) (cloneNode n) # B, Suc (length A), wd)"
      using rv off by (simp add: place splitNode_narrow [OF n(1)])
    moreover have less: "nat off < length ?t" using middle rv off by linarith
    then have "int (min (length ?t) (nat off)) = off" using off by simp
    moreover have "take (nat off) ?t \<noteq> []" "drop (nat off) ?t \<noteq> []"
      using middle off less by auto
    ultimately show thesis
      using that narrow new middle rv off n parts by (simp add: col_def)
  qed
qed

text \<open>The row, and where the cursor ends up, after both steps.\<close>

lemma insert_narrow:
  assumes narrow: "\<forall>m \<in> set nodes. narrow m" and str: "printable_str str" "str \<noteq> []"
    and ta: "\<not> wcNode ta" and cur: "cursor_ok E nodes i off col"
  obtains nodes' j off' where
    "place_string E ta (int (length str)) (supply_spaces E ta nodes i off str) = (nodes', j, off')"
    "row_content nodes' = text_insert (nat col) str (row_content nodes)"
    "\<forall>m \<in> set nodes'. narrow m" "cursor_ok E nodes' j off' (col + int (length str))"
proof -
  obtain A n B where N: "nodes = A @ n # B" "i = length A" and off: "0 \<le> off"
    and col: "col = nodes_width E A + off" and last: "B \<noteq> [] \<longrightarrow> off \<le> nodeWidth E n"
    using cursor_okE [OF cur] by metis
  let ?t = "textContent n" and ?a = "row_content A"
  have n: "narrow n" "plain n" "printable_str ?t" using narrow narrow_printable N by auto
  have A: "nodes_width E A = int (length ?a)"
    using narrow N by (intro nodes_width_plain) auto
  have cols: "nat col = length ?a + nat off" using A col off by simp
  show thesis
  proof (cases "off \<le> int (length ?t)")
    case True
    have "supply_spaces E ta nodes i off str = (A @ n # B, length A, off, str, int (length ?t) - off)"
      using True n by (simp add: supply_spaces_def N nth_append)
    moreover obtain nodes' j off' where
      "place_string E ta (int (length str)) (A @ n # B, length A, off, str, int (length ?t) - off)
        = (nodes', j, off')"
      "row_content nodes' = ?a @ take (nat off) ?t @ str @ drop (nat off) ?t @ row_content B"
      "\<forall>m \<in> set nodes'. narrow m"
      "cursor_ok E nodes' j off' (nodes_width E A + off + int (length str))"
      by (rule place_string_narrow [of A n B str ta off "int (length ?t) - off" off "int (length str)" E])
        (use narrow N str ta True off in auto)
    moreover have "text_insert (nat col) str (row_content nodes) =
        ?a @ take (nat off) ?t @ str @ drop (nat off) ?t @ row_content B"
      using True off by (simp add: cols N text_insert_prefix text_insert_split)
    ultimately show thesis using that col by simp
  next
    case False
    then have B: "B = []" using last n by auto
    define ws where "ws = js_repeat 32 (off - int (length ?t))"
    have ws: "printable_str ws" "int (length ws) = off - int (length ?t)"
      using False by (simp_all add: ws_def)
    have goal: "text_insert (nat col) str (row_content nodes) = ?a @ ?t @ ws @ str"
      using False by (simp add: cols N B text_insert_prefix ws_def js_repeat_def)
        (simp add: text_insert_def nat_diff_distrib')
    have neg: "int (length ?t) - off < 0" "- (int (length ?t) - off) = off - int (length ?t)"
      using False by simp_all
    consider (join) "spaces_join_text ta" | (hold) "\<not> spaces_join_text ta" "holds_spaces n"
      | (new) "\<not> spaces_join_text ta" "\<not> holds_spaces n" by blast
    then show thesis
    proof cases
      case join
      then have sup: "supply_spaces E ta nodes i off str = (A @ n # B, length A, off, ws @ str, 0)"
        using neg n by (simp add: supply_spaces_def N nth_append ws_def)
      obtain nodes' j off' where
        "place_string E ta (int (length str)) (A @ n # B, length A, off, ws @ str, 0) = (nodes', j, off')"
        "row_content nodes' = ?a @ take (nat (int (length ?t))) ?t @ (ws @ str) @
           drop (nat (int (length ?t))) ?t @ row_content B"
        "\<forall>m \<in> set nodes'. narrow m"
        "cursor_ok E nodes' j off' (nodes_width E A + int (length ?t) + int (length (ws @ str)))"
        by (rule place_string_narrow [of A n B "ws @ str" ta "int (length ?t)" 0 off "int (length str)" E])
          (use narrow N str ta ws neg in auto)
      then show thesis using that sup goal ws col B by (simp add: add.assoc)
    next
      case hold
      let ?m = "set_textContent (?t @ ws) n"
      have sup: "supply_spaces E ta nodes i off str = (A @ ?m # B, length A, off, str, 0)"
        using hold neg n by (simp add: supply_spaces_def N nth_append ws_def)
      obtain nodes' j off' where
        "place_string E ta (int (length str)) (A @ ?m # B, length A, off, str, 0) = (nodes', j, off')"
        "row_content nodes' = ?a @ take (nat off) (textContent ?m) @ str @
           drop (nat off) (textContent ?m) @ row_content B"
        "\<forall>m \<in> set nodes'. narrow m"
        "cursor_ok E nodes' j off' (nodes_width E A + off + int (length str))"
        by (rule place_string_narrow [of A ?m B str ta off 0 off "int (length str)" E])
          (use narrow N str ta ws neg n off in auto)
      moreover have "nat off = length (?t @ ws)" using ws off by simp
      ultimately show thesis using that sup goal col B by simp
    next
      case new
      let ?m = "createTextNode ws"
      have sup: "supply_spaces E ta nodes i off str =
          ((A @ [n]) @ ?m # [], length (A @ [n]), off - int (length ?t), str, 0)"
        using new neg n by (simp add: supply_spaces_def N nth_append ws_def B)
      obtain nodes' j off' where
        "place_string E ta (int (length str))
          ((A @ [n]) @ ?m # [], length (A @ [n]), off - int (length ?t), str, 0) = (nodes', j, off')"
        "row_content nodes' = row_content (A @ [n]) @ take (nat (int (length ws))) (textContent ?m) @ str @
           drop (nat (int (length ws))) (textContent ?m) @ row_content []"
        "\<forall>m \<in> set nodes'. narrow m"
        "cursor_ok E nodes' j off' (nodes_width E (A @ [n]) + int (length ws) + int (length str))"
        by (rule place_string_narrow [of "A @ [n]" ?m "[]" str ta "int (length ws)" 0
              "off - int (length ?t)" "int (length str)" E])
          (use narrow N str ta ws neg n B in auto)
      then show thesis using that sup goal col ws n by simp
    qed
  qed
qed

section \<open>Deleting columns\<close>

declare delete_loop.simps [simp del]

lemma cut_node_narrow:
  fixes E :: env
  assumes "slim n" and "0 \<le> off" and "0 \<le> cnt"
  shows "textContent (cut_node E off cnt n) = text_delete (nat off) (nat cnt) (textContent n)"
    and "slim (cut_node E off cnt n)"
proof -
  show cut: "textContent (cut_node E off cnt n) = text_delete (nat off) (nat cnt) (textContent n)"
    using assms by (simp add: cut_node_def text_delete_def nat_add_distrib)
  have "printable_str (text_delete (nat off) (nat cnt) (textContent n))"
    using slim_printable [OF assms(1)]
    by (auto simp: text_delete_def dest: in_set_takeD in_set_dropD)
  then show "slim (cut_node E off cnt n)"
    using assms(1) cut by (simp add: cut_node_def)
qed

lemma delete_loop_narrow_Cons:
  fixes E :: env
  assumes "slim n" and "0 < cnt" and "0 \<le> off"
  defines "n' \<equiv> cut_node E off cnt n"
  shows "delete_loop E ta b off cnt (n # ns) =
    (0, (if textContent n' = [] \<and> \<not> b then [] else [n']) @
      snd (delete_loop E ta False 0
        (cnt - (int (length (textContent n)) - int (length (textContent n')))) ns))"
proof -
  have "\<not> splits_wide E off cnt n"
    using assms(1) by (simp add: splits_wide_def slim_def)
  moreover have "plain n'" "plain n"
    using cut_node_narrow(2) [OF assms(1), of off cnt E] assms by simp_all
  ultimately show ?thesis
    using assms(2) by (subst delete_loop.simps) (simp add: n'_def [symmetric] Let_def)
qed

lemma delete_loop_rest:
  "\<forall>m \<in> set ns. narrow m \<Longrightarrow>
    row_content (snd (delete_loop E ta False 0 cnt ns)) = drop (nat cnt) (row_content ns) \<and>
    (\<forall>m \<in> set (snd (delete_loop E ta False 0 cnt ns)). narrow m)"
proof (induction ns arbitrary: cnt)
  case Nil
  then show ?case by (simp add: delete_loop.simps)
next
  case (Cons n ns)
  show ?case
  proof (cases "cnt \<le> 0")
    case True
    with Cons.prems show ?thesis by (simp add: delete_loop.simps)
  next
    case False
    let ?t = "textContent n" and ?n' = "cut_node E 0 cnt n"
    have n: "slim n" using Cons.prems by simp
    have n': "textContent ?n' = drop (nat cnt) ?t" "slim ?n'"
      using cut_node_narrow [OF n, of 0 cnt E] False by (simp_all add: text_delete_def)
    define left where "left = cnt - (int (length ?t) - int (length (textContent ?n')))"
    have left: "nat left = nat cnt - length ?t"
      using False by (simp add: left_def n'(1))
    have step: "delete_loop E ta False 0 cnt (n # ns) =
        (0, (if textContent ?n' = [] then [] else [?n']) @ snd (delete_loop E ta False 0 left ns))"
      (is "_ = (0, ?l @ ?r)") using delete_loop_narrow_Cons [OF n, of cnt 0 E ta False ns] False by (simp add: left_def)
    have nar: "\<forall>m \<in> set ?l. narrow m" using n'(2) by (simp add: narrow_def)
    have IH: "row_content ?r = drop (nat left) (row_content ns)" "\<forall>m \<in> set ?r. narrow m"
      using Cons.IH [of left] Cons.prems by simp_all
    show ?thesis
      using IH n'(1) nar unfolding step snd_conv
      by (cases "textContent ?n' = []") (simp_all add: left)
  qed
qed

lemma delete_loop_cursor:
  assumes narrow: "\<forall>m \<in> set (n # ns). narrow m" and cnt: "0 < cnt" and off: "0 \<le> off"
    and last: "ns \<noteq> [] \<longrightarrow> off \<le> int (length (textContent n))"
  obtains ns' where
    "delete_loop E ta True off cnt (n # ns) = (0, cut_node E off cnt n # ns')"
    "row_content (cut_node E off cnt n # ns') =
      text_delete (nat off) (nat cnt) (row_content (n # ns))"
    "\<forall>m \<in> set ns'. narrow m"
proof -
  let ?t = "textContent n" and ?n' = "cut_node E off cnt n"
  have n: "slim n" using narrow by simp
  note n' = cut_node_narrow [OF n off, of cnt E]
  define left where "left = cnt - (int (length ?t) - int (length (textContent ?n')))"
  define ns' where "ns' = snd (delete_loop E ta False 0 left ns)"
  have step: "delete_loop E ta True off cnt (n # ns) = (0, ?n' # ns')"
    using delete_loop_narrow_Cons [OF n cnt off, of E ta True ns] by (simp add: left_def ns'_def)
  have rest: "row_content ns' = drop (nat left) (row_content ns)" "\<forall>m \<in> set ns'. narrow m"
    using delete_loop_rest [of ns E ta left] narrow by (simp_all add: ns'_def)
  have "row_content (?n' # ns') = text_delete (nat off) (nat cnt) (row_content (n # ns))"
  proof (cases "ns = []")
    case True
    then show ?thesis using rest n'(1) cnt by simp
  next
    case False
    then have "off \<le> int (length ?t)" using last by simp
    then have "nat left = nat off + nat cnt - length ?t"
      using off cnt n'(1) by (simp add: left_def text_delete_def)
    then show ?thesis
      using rest(1) n'(1) cnt \<open>off \<le> int (length ?t)\<close> by (simp add: text_delete_def)
  qed
  with that step n'(2) rest(2) cnt show thesis by simp
qed


text \<open>Removing an empty cursor span keeps the text and the column.\<close>

lemma drop_empty_cursor_slim:
  fixes E :: env
  assumes rest: "\<forall>m \<in> set A. narrow m" "\<forall>m \<in> set B. narrow m" and n: "slim n"
    and off: "0 \<le> off" and empty: "isTextNode n \<or> textContent n \<noteq> [] \<or> off = 0"
    and last: "B \<noteq> [] \<longrightarrow> off \<le> nodeWidth E n"
  obtains nodes j off' where
    "drop_empty_cursor E (A @ n # B) (length A) off = (nodes, j, off')"
    "row_content nodes = row_content (A @ n # B)" "\<forall>m \<in> set nodes. narrow m"
    "cursor_ok E nodes j off' (nodes_width E A + off)"
proof -
  consider (keep) "isTextNode n \<or> textContent n \<noteq> []"
    | (prev) A' m where "\<not> isTextNode n" "textContent n = []" "A = A' @ [m]"
    | (succ) k B' where "\<not> isTextNode n" "textContent n = []" "A = []" "B = k # B'"
    | (alone) "\<not> isTextNode n" "textContent n = []" "A = []" "B = []"
    by (cases A rule: rev_cases; cases B) auto
  then show thesis
  proof cases
    case keep
    then have "drop_empty_cursor E (A @ n # B) (length A) off = (A @ n # B, length A, off)"
      by (simp add: drop_empty_cursor_def Let_def nth_append)
    moreover have "narrow n" using keep n by (simp add: narrow_def)
    ultimately show thesis using that [of "A @ n # B" "length A" off] rest off last by auto
  next
    case prev
    then have "drop_empty_cursor E (A @ n # B) (length A) off =
        (A' @ m # B, length A', nodeWidth E m)"
      by (simp add: drop_empty_cursor_def Let_def nth_append)
    then show thesis using that rest prev empty by (simp add: ball_Un)
  next
    case succ
    then have "drop_empty_cursor E (A @ n # B) (length A) off = ([] @ k # B', length ([] :: dnode list), 0)"
      by (simp add: drop_empty_cursor_def Let_def)
    moreover have "nodeWidth E k \<ge> 0" using rest(2) succ(4) by simp
    ultimately show thesis using that rest succ empty cursor_ok_zipper [of E "[]" k B' 0 0] by simp
  next
    case alone
    then have "drop_empty_cursor E (A @ n # B) (length A) off = ([createTextNode []], 0, 0)"
      by (simp add: drop_empty_cursor_def Let_def)
    then show thesis using that alone empty cursor_ok_zipper [of E "[]" "createTextNode []" "[]" 0 0]
      by simp
  qed
qed

section \<open>Screens\<close>

text \<open>The cursor is on a row of the screen, at a column of it, with its node and offset there.\<close>

definition screen_ok :: "env \<Rightarrow> dom \<Rightarrow> screen \<Rightarrow> bool" where
  "screen_ok E d s \<longleftrightarrow> wc_ok (wc E) \<and> 0 < columnCount s \<and>
     0 \<le> rc_row (cursorPosition s) \<and> nat (rc_row (cursorPosition s)) < length (rowsArray s) \<and>
     0 \<le> rc_column (cursorPosition s) \<and>
     cursorRowNode s = Some (rowsArray s ! nat (rc_row (cursorPosition s))) \<and>
     (\<exists>i. cursorNode s = Some i \<and>
       cursor_ok E (childNodes (d (rowsArray s ! nat (rc_row (cursorPosition s))))) i
         (cursorOffset s) (rc_column (cursorPosition s)))"

definition cursor_row :: "screen \<Rightarrow> rowid" where
  "cursor_row s = rowsArray s ! nat (rc_row (cursorPosition s))"

definition narrow_row :: "dom \<Rightarrow> rowid \<Rightarrow> bool" where
  "narrow_row d r \<longleftrightarrow> (\<forall>n \<in> set (childNodes (d r)). narrow n)"

definition row_text :: "dom \<Rightarrow> rowid \<Rightarrow> jsstring" where
  "row_text d r = row_content (childNodes (d r))"

definition cursor_column :: "screen \<Rightarrow> nat" where
  "cursor_column s = nat (rc_column (cursorPosition s))"

text \<open>Nothing changes but the cursor row's nodes and the cursor within it.\<close>

definition same_rest :: "dom \<times> screen \<Rightarrow> dom \<times> screen \<Rightarrow> bool" where
  "same_rest ds ds' \<longleftrightarrow>
     (\<forall>r. r \<noteq> cursor_row (snd ds) \<longrightarrow> fst ds' r = fst ds r) \<and>
     rowIndex (fst ds' (cursor_row (snd ds))) = rowIndex (fst ds (cursor_row (snd ds))) \<and>
     rowsArray (snd ds') = rowsArray (snd ds) \<and> columnCount (snd ds') = columnCount (snd ds) \<and>
     textAttributes (snd ds') = textAttributes (snd ds) \<and>
     rc_row (cursorPosition (snd ds')) = rc_row (cursorPosition (snd ds)) \<and>
     cursorState (snd ds') = cursorState (snd ds)"

lemma same_rest_refl [simp]: "same_rest ds ds"
  by (simp add: same_rest_def)

lemma same_rest_row: "same_rest ds ds' \<Longrightarrow> cursor_row (snd ds') = cursor_row (snd ds)"
  by (simp add: same_rest_def cursor_row_def)

lemma same_rest_trans [trans]:
  "same_rest ds ds' \<Longrightarrow> same_rest ds' ds'' \<Longrightarrow> same_rest ds ds''"
  by (auto simp: same_rest_def cursor_row_def)

lemma screen_okD:
  assumes "screen_ok E d s"
  obtains i where "cursorRowNode s = Some (cursor_row s)" "cursorNode s = Some i"
    "cursor_ok E (childNodes (d (cursor_row s))) i (cursorOffset s) (rc_column (cursorPosition s))"
    "0 \<le> rc_column (cursorPosition s)" "wc_ok (wc E)" "0 < columnCount s"
  using assms by (auto simp: screen_ok_def cursor_row_def)

text \<open>
  Inserting printable text into a row of narrow text: the string goes in at the cursor column,
  after the blanks that are missing up to it, whatever nodes the row is made of and whatever
  attributes are current.
\<close>

lemma insertString_spec:
  assumes ok: "screen_ok E d s" and narrow: "narrow_row d (cursor_row s)"
    and str: "printable_str str" "str \<noteq> []" and ta: "\<not> wcNode (textAttributes s)"
    and w: "w = None \<or> w = Some (int (length str))"
  obtains d' s' where "insertString E str w (d, s) = Some (d', s')"
    "row_text d' (cursor_row s) = text_insert (cursor_column s) str (row_text d (cursor_row s))"
    "rc_column (cursorPosition s') = rc_column (cursorPosition s) + int (length str)"
    "\<not> line_overflow (d' (cursor_row s))"
    "narrow_row d' (cursor_row s)" "screen_ok E d' s'" "same_rest (d, s) (d', s')"
proof -
  obtain i where cur: "cursorRowNode s = Some (cursor_row s)" "cursorNode s = Some i"
    "cursor_ok E (childNodes (d (cursor_row s))) i (cursorOffset s) (rc_column (cursorPosition s))"
    using screen_okD [OF ok] .
  let ?r = "cursor_row s" and ?n = "int (length str)"
  have width: "string_width E str w = ?n" using w str by (auto simp: string_width_def)
  obtain nodes j off where placed:
    "place_string E (textAttributes s) ?n (supply_spaces E (textAttributes s) (childNodes (d ?r)) i
       (cursorOffset s) str) = (nodes, j, off)"
    "row_content nodes = text_insert (cursor_column s) str (row_text d ?r)"
    "\<forall>m \<in> set nodes. narrow m"
    "cursor_ok E nodes j off (rc_column (cursorPosition s) + ?n)"
    using insert_narrow [OF narrow [unfolded narrow_row_def] str ta cur(3)]
    by (auto simp: row_text_def cursor_column_def)
  define d' where "d' = d(?r := (d ?r)\<lparr>childNodes := nodes, line_overflow := False\<rparr>)"
  define s' where "s' = s\<lparr>cursorPosition := (cursorPosition s)\<lparr>rc_column := rc_column (cursorPosition s) + ?n\<rparr>,
    cursorNode := Some j, cursorOffset := off\<rparr>"
  have "insertString E str w (d, s) = Some (d', s')"
    using cur(1,2) placed(1) by (simp add: insertString_def Let_def width d'_def s'_def)
  moreover have "screen_ok E d' s'"
    using ok placed(4) by (simp add: screen_ok_def s'_def d'_def cursor_row_def)
  moreover have "same_rest (d, s) (d', s')"
    by (simp add: same_rest_def d'_def s'_def)
  ultimately show thesis
    using that [of d' s'] placed(2,3) by (simp add: d'_def s'_def row_text_def narrow_row_def)
qed

text \<open>Deleting: the columns from the cursor on are gone, the cursor stays.\<close>

lemma deleteChars_spec:
  assumes ok: "screen_ok E d s" and narrow: "narrow_row d (cursor_row s)" and k: "0 \<le> k"
    and col: "rc_column (cursorPosition s) \<le> columnCount s"
  defines "n \<equiv> min k (columnCount s - rc_column (cursorPosition s))"
  obtains d' s' where "deleteChars E k (d, s) = Some (n, d', s')"
    "row_text d' (cursor_row s) = text_delete (cursor_column s) (nat n) (row_text d (cursor_row s))"
    "cursorPosition s' = cursorPosition s"
    "line_overflow (d' (cursor_row s)) = line_overflow (d (cursor_row s))"
    "narrow_row d' (cursor_row s)" "screen_ok E d' s'" "same_rest (d, s) (d', s')"
proof (cases "n = 0")
  case True
  then have "deleteChars E k (d, s) = Some (n, d, s)"
    by (simp add: deleteChars_def n_def Let_def)
  with that [of d s] True ok narrow show thesis by (simp add: text_delete_def)
next
  case False
  then have n: "0 < n" using k col by (auto simp: n_def)
  obtain i where cur: "cursorRowNode s = Some (cursor_row s)" "cursorNode s = Some i"
    "cursor_ok E (childNodes (d (cursor_row s))) i (cursorOffset s) (rc_column (cursorPosition s))"
    using screen_okD [OF ok] .
  let ?r = "cursor_row s" and ?off = "cursorOffset s"
  obtain A m B where N: "childNodes (d ?r) = A @ m # B" "i = length A" and off: "0 \<le> ?off"
    and c: "rc_column (cursorPosition s) = nodes_width E A + ?off"
    and last: "B \<noteq> [] \<longrightarrow> ?off \<le> nodeWidth E m"
    using cursor_okE [OF cur(3)] by metis
  have nar: "\<forall>x \<in> set A. narrow x" "\<forall>x \<in> set (m # B). narrow x"
    using narrow N by (auto simp: narrow_row_def)
  then have m: "narrow m" "plain m" by auto
  let ?m' = "cut_node E ?off n m"
  obtain B' where loop: "delete_loop E (textAttributes s) True ?off n (m # B) = (0, ?m' # B')"
    "row_content (?m' # B') = text_delete (nat ?off) (nat n) (row_content (m # B))"
    "\<forall>x \<in> set B'. narrow x"
    by (rule delete_loop_cursor [of m B n ?off E "textAttributes s"]) (use nar n off last m in auto)
  note m' = cut_node_narrow [of m ?off n E]
  have slim: "slim ?m'" using m' m off n by simp
  have empty: "isTextNode ?m' \<or> textContent ?m' \<noteq> [] \<or> ?off = 0"
    using m m'(1) off n by (auto simp: narrow_def cut_node_def text_delete_def)
  have fits: "B' \<noteq> [] \<longrightarrow> ?off \<le> nodeWidth E ?m'"
  proof
    assume "B' \<noteq> []"
    then have "B \<noteq> []" using loop(1) delete_loop_narrow_Cons [of m n ?off E "textAttributes s" True B] m n off
      by (auto simp: delete_loop.simps)
    then show "?off \<le> nodeWidth E ?m'"
      using last m m'(1) off n slim by (simp add: text_delete_def)
  qed
  obtain nodes j off' where dropped:
    "drop_empty_cursor E (A @ ?m' # B') (length A) ?off = (nodes, j, off')"
    "row_content nodes = row_content (A @ ?m' # B')" "\<forall>x \<in> set nodes. narrow x"
    "cursor_ok E nodes j off' (nodes_width E A + ?off)"
    by (rule drop_empty_cursor_slim [OF nar(1) loop(3) slim off empty fits])
  have A: "nodes_width E A = int (length (row_content A))"
    using nar(1) by (intro nodes_width_plain) auto
  define d' where "d' = d(?r := (d ?r)\<lparr>childNodes := nodes\<rparr>)"
  define s' where "s' = s\<lparr>cursorNode := Some j, cursorOffset := off'\<rparr>"
  have "deleteChars E k (d, s) = Some (n, d', s')"
    using cur(1,2) loop(1) dropped(1) False N n_def
    by (simp add: deleteChars_def Let_def d'_def s'_def)
  moreover have "row_content nodes = text_delete (cursor_column s) (nat n) (row_text d ?r)"
    using dropped(2) loop(2) A c off
    by (simp add: row_text_def N text_delete_def cursor_column_def nat_add_distrib)
  moreover have "screen_ok E d' s'"
    using ok dropped(4) c by (simp add: screen_ok_def s'_def d'_def cursor_row_def)
  moreover have "same_rest (d, s) (d', s')"
    by (simp add: same_rest_def d'_def s'_def)
  ultimately show thesis
    using that [of d' s'] dropped(3) by (simp add: d'_def s'_def row_text_def narrow_row_def)
qed

text \<open>Overwriting: the columns the string takes are deleted, then it goes in.\<close>

lemma overwriteString_spec:
  assumes ok: "screen_ok E d s" and narrow: "narrow_row d (cursor_row s)"
    and str: "printable_str str" "str \<noteq> []" and ta: "\<not> wcNode (textAttributes s)"
    and w: "w = None \<or> w = Some (int (length str))"
    and col: "rc_column (cursorPosition s) < columnCount s"
  defines "n \<equiv> min (int (length str)) (columnCount s - rc_column (cursorPosition s))"
  obtains d' s' where "overwriteString E str w (d, s) = Some (d', s')"
    "int (length (row_text d (cursor_row s))) \<le> columnCount s \<Longrightarrow> row_text d' (cursor_row s) =
      text_insert (cursor_column s) str (text_delete (cursor_column s) (nat n) (row_text d (cursor_row s)))"
    "rc_column (cursorPosition s') = rc_column (cursorPosition s) + int (length str)"
    "narrow_row d' (cursor_row s)" "screen_ok E d' s'" "same_rest (d, s) (d', s')"
proof -
  obtain i where cur: "cursorRowNode s = Some (cursor_row s)" "cursorNode s = Some i"
    "cursor_ok E (childNodes (d (cursor_row s))) i (cursorOffset s) (rc_column (cursorPosition s))"
    using screen_okD [OF ok] .
  let ?r = "cursor_row s" and ?off = "cursorOffset s" and ?n = "int (length str)"
  have width: "string_width E str w = ?n" using w str by (auto simp: string_width_def)
  obtain A m B where N: "childNodes (d ?r) = A @ m # B" "i = length A" and off: "0 \<le> ?off"
    and c: "rc_column (cursorPosition s) = nodes_width E A + ?off"
    and last: "B \<noteq> [] \<longrightarrow> ?off \<le> nodeWidth E m"
    using cursor_okE [OF cur(3)] by metis
  have nar: "\<forall>x \<in> set A. narrow x" "narrow m"
    using narrow N by (auto simp: narrow_row_def)
  have A: "nodes_width E A = int (length (row_content A))"
    using nar(1) by (intro nodes_width_plain) auto
  show thesis
  proof (cases "matchesContainer (textAttributes s) m \<and> drop (nat ?off) (textContent m) = str")
    case True
    define s' where "s' = s\<lparr>cursorOffset := ?off + ?n,
      cursorPosition := (cursorPosition s)\<lparr>rc_column := rc_column (cursorPosition s) + ?n\<rparr>\<rparr>"
    have lm: "?off + ?n = int (length (textContent m))"
      using True str(2) off by auto
    have "overwriteString E str w (d, s) = Some (d, s')"
      using cur(1,2) True col N off
      by (simp add: overwriteString_def Let_def width s'_def)
    moreover have "row_text d ?r = text_insert (cursor_column s) str
        (text_delete (cursor_column s) (nat n) (row_text d ?r))"
      if fits: "int (length (row_text d ?r)) \<le> columnCount s"
    proof -
      have "nat n = length str"
        using fits lm N A c by (simp add: n_def row_text_def)
      moreover have "cursor_column s = length (row_content A) + nat ?off"
        using A c off by (simp add: cursor_column_def nat_add_distrib)
      moreover have "length (textContent m) = nat ?off + length str" using lm off by linarith
      ultimately show ?thesis
        using True append_take_drop_id [of "nat ?off" "textContent m"]
        by (simp add: row_text_def N text_delete_def text_insert_def)
    qed
    moreover have "screen_ok E d s'"
      using ok cur(2) lm c off nar(2) N by (auto simp: screen_ok_def s'_def cursor_row_def [symmetric])
    ultimately show thesis
      using that [of d s'] narrow by (simp add: s'_def same_rest_def)
  next
    case False
    have nonneg: "0 \<le> min ?n (columnCount s - rc_column (cursorPosition s))" using col by simp
    obtain d1 s1 where del: "deleteChars E (min ?n (columnCount s - rc_column (cursorPosition s))) (d, s) = Some (n, d1, s1)"
      "row_text d1 ?r = text_delete (cursor_column s) (nat n) (row_text d ?r)"
      "cursorPosition s1 = cursorPosition s" "narrow_row d1 ?r" "screen_ok E d1 s1"
      "same_rest (d, s) (d1, s1)"
      by (rule deleteChars_spec [OF ok narrow nonneg less_imp_le [OF col]]) (use n_def in auto)
    have row: "cursor_row s1 = ?r" and ta1: "\<not> wcNode (textAttributes s1)"
      and cc: "cursor_column s1 = cursor_column s"
      using same_rest_row [OF del(6)] del(3,6) ta by (simp_all add: same_rest_def cursor_column_def)
    obtain d2 s2 where ins: "insertString E str (Some ?n) (d1, s1) = Some (d2, s2)"
      "row_text d2 ?r = text_insert (cursor_column s) str (row_text d1 ?r)"
      "rc_column (cursorPosition s2) = rc_column (cursorPosition s) + ?n"
      "narrow_row d2 ?r" "screen_ok E d2 s2" "same_rest (d1, s1) (d2, s2)"
      by (rule insertString_spec [OF del(5) _ str ta1, of "Some ?n"]) (use del(3,4) row cc in auto)
    have "overwriteString E str w (d, s) = Some (d2, s2)"
      using cur(1,2) False col N off del(1) ins(1)
      by (auto simp: overwriteString_def Let_def width)
    then show thesis
      using that [of d2 s2] ins del(2) same_rest_trans [OF del(6) ins(6)] by simp
  qed
qed

text \<open>Moving the cursor within its own row.\<close>

lemma screen_ok_consistent: "screen_ok E d s \<Longrightarrow> cursor_consistent E d s (cursor_row s)"
  by (auto simp: screen_ok_def cursor_consistent_def cursor_row_def)

lemma setCursor_same_row:
  assumes ok: "screen_ok E d s" and c: "0 \<le> c" "c < columnCount s"
  obtains i off where
    "setCursorPosition E (rc_row (cursorPosition s)) c (d, s) =
      (d, s\<lparr>cursorPosition := RowCol (rc_row (cursorPosition s)) c, cursorNode := Some i,
            cursorOffset := off\<rparr>)"
    "cursor_ok E (childNodes (d (cursor_row s))) i off c"
    "Suc i < length (childNodes (d (cursor_row s))) \<longrightarrow>
      off < nodeWidth E (childNodes (d (cursor_row s)) ! i)"
    "screen_ok E d (s\<lparr>cursorPosition := RowCol (rc_row (cursorPosition s)) c,
      cursorNode := Some i, cursorOffset := off\<rparr>)"
proof -
  let ?r = "rc_row (cursorPosition s)"
  have rows: "rowsArray s \<noteq> []" "0 \<le> ?r" "?r < int (length (rowsArray s))"
    using ok by (auto simp: screen_ok_def)
  obtain i where i: "cursor_ok E (childNodes (d (cursor_row s))) i (cursorOffset s)
      (rc_column (cursorPosition s))" "wc_ok (wc E)" "0 < columnCount s"
    "cursorRowNode s = Some (cursor_row s)"
    using screen_okD [OF ok] .
  have nodes: "childNodes (d (cursor_row s)) \<noteq> []" using i(1) by (auto simp: cursor_ok_def)
  have row: "rowsArray s ! nat (clamp_index ?r (int (length (rowsArray s)))) = cursor_row s"
    using rows by (simp add: cursor_row_def)
  obtain j off where set:
    "setCursorPosition E ?r c (d, s) =
      (d(cursor_row s := (d (cursor_row s))\<lparr>childNodes := childNodes (d (cursor_row s))\<rparr>),
       s\<lparr>cursorPosition := RowCol ?r c, cursorRowNode := Some (cursor_row s),
         cursorNode := Some j, cursorOffset := off\<rparr>)"
    "cursor_ok E (childNodes (d (cursor_row s))) j off c"
    "Suc j < length (childNodes (d (cursor_row s))) \<longrightarrow>
      off < nodeWidth E (childNodes (d (cursor_row s)) ! j)"
    by (rule setCursorPosition_result [OF i(2) rows(1) i(3), where ?row0.0 = ?r and ?column0.0 = c and d = d])
      (use screen_ok_consistent [OF ok] row rows c nodes in auto)
  have same: "s\<lparr>cursorPosition := p, cursorRowNode := Some (cursor_row s), cursorNode := n,
      cursorOffset := k\<rparr> = s\<lparr>cursorPosition := p, cursorNode := n, cursorOffset := k\<rparr>" for p n k
    using i(4) by simp
  have "screen_ok E d (s\<lparr>cursorPosition := RowCol ?r c, cursorNode := Some j, cursorOffset := off\<rparr>)"
    using ok set(2) c by (simp add: screen_ok_def RowCol_def cursor_row_def [symmetric])
  then show thesis using that set same by simp
qed

text \<open>Clipping: what is beyond the last column goes, and a cursor beyond it overflows.\<close>

lemma maybeClipCurrentRow_spec:
  assumes ok: "screen_ok E d s" and narrow: "narrow_row d (cursor_row s)"
  defines "c \<equiv> rc_column (cursorPosition s)" and "n \<equiv> columnCount s"
  obtains d' s' where "maybeClipCurrentRow E (d, s) = Some (d', s')"
    "row_text d' (cursor_row s) = take (nat n) (row_text d (cursor_row s))"
    "rc_column (cursorPosition s') = min c (n - 1)"
    "c \<ge> n \<Longrightarrow> rc_overflow (cursorPosition s')"
    "c < n \<Longrightarrow> \<not> rc_overflow (cursorPosition s) \<Longrightarrow> \<not> rc_overflow (cursorPosition s')"
    "narrow_row d' (cursor_row s)" "screen_ok E d' s'" "same_rest (d, s) (d', s')"
proof -
  let ?r = "cursor_row s" and ?row = "rc_row (cursorPosition s)"
  have row: "cursorRowNode s = Some ?r" "0 < n" "0 \<le> c" using ok
    by (auto simp: screen_ok_def cursor_row_def n_def c_def)
  have wd: "strWidth (wc E) (row_content (childNodes (d ?r))) = int (length (row_text d ?r))"
  proof -
    have "printable_str (row_content (childNodes (d ?r)))"
      using narrow narrow_printable by (fastforce simp: narrow_row_def row_content_def)
    then show ?thesis by (simp add: row_text_def)
  qed
  obtain i off where set: "setCursorPosition E ?row (n - 1) (d, s) =
      (d, s\<lparr>cursorPosition := RowCol ?row (n - 1), cursorNode := Some i, cursorOffset := off\<rparr>)"
    "cursor_ok E (childNodes (d ?r)) i off (n - 1)"
    "Suc i < length (childNodes (d ?r)) \<longrightarrow> off < nodeWidth E (childNodes (d ?r) ! i)"
    and set_ok: "screen_ok E d (s\<lparr>cursorPosition := RowCol ?row (n - 1), cursorNode := Some i,
      cursorOffset := off\<rparr>)"
    by (rule setCursor_same_row [OF ok, of "n - 1"]) (use row n_def in auto)
  define s1 where "s1 = s\<lparr>cursorPosition := RowCol ?row (n - 1), cursorNode := Some i, cursorOffset := off\<rparr>"
  show thesis
  proof (cases "int (length (row_text d ?r)) \<le> n")
    case True
    show thesis
    proof (cases "c \<ge> n")
      case over: True
      have "maybeClipCurrentRow E (d, s) = Some (d, set_overflow True s1)"
        using row wd True over set(1)
        by (simp add: maybeClipCurrentRow_def Let_def c_def [symmetric] n_def [symmetric] s1_def)
      moreover have "screen_ok E d (set_overflow True s1)"
        using set_ok by (simp add: s1_def screen_ok_def set_overflow_def)
      ultimately show thesis
        using that [of d "set_overflow True s1"] True over row narrow
        by (simp add: s1_def set_overflow_def RowCol_def same_rest_def)
    next
      case inside: False
      have "maybeClipCurrentRow E (d, s) = Some (d, s)"
        using row wd True inside
        by (simp add: maybeClipCurrentRow_def Let_def c_def [symmetric] n_def [symmetric])
      then show thesis
        using that [of d s] True inside row narrow ok by (simp add: c_def)
    qed
  next
    case False
    obtain A m B where N: "childNodes (d ?r) = A @ m # B" "i = length A" and off: "0 \<le> off"
      and col: "n - 1 = nodes_width E A + off" and strict: "B \<noteq> [] \<longrightarrow> off < nodeWidth E m"
      by (rule cursor_okE [OF set(2)]) (use set(3) in auto)
    have nar: "\<forall>x \<in> set A. narrow x" "narrow m" "plain m"
      using narrow N by (auto simp: narrow_row_def)
    have A: "nodes_width E A = int (length (row_content A))"
      using nar(1) by (intro nodes_width_plain) auto
    have less: "off < int (length (textContent m))"
      using strict nar(3) False A col by (cases "B = []") (auto simp: row_text_def N)
    define m' where "m' = (if off < nodeWidth E m - 1
      then set_textContent (nodeSubstr E m 0 (Some (off + 1))) m else m)"
    have m': "textContent m' = take (nat off + 1) (textContent m)"
      using less off nar(3) by (auto simp: m'_def nat_add_distrib)
    have "take (nat off + 1) (textContent m) \<noteq> []" using less off by auto
    moreover have "printable_str (take (nat off + 1) (textContent m))"
      using narrow_printable [OF nar(2)] by (meson in_set_takeD)
    ultimately have "narrow m'" using nar m' off by (simp add: m'_def split: if_splits)
    define d1 where "d1 = d(?r := (d ?r)\<lparr>childNodes := A @ [m']\<rparr>)"
    have d1: "row_text d1 ?r = take (nat n) (row_text d ?r)" "narrow_row d1 ?r"
    proof -
      have "nat n = length (row_content A) + (nat off + 1)" using col A off by linarith
      moreover have "nat off + 1 \<le> length (textContent m)" using less off by linarith
      ultimately show "row_text d1 ?r = take (nat n) (row_text d ?r)"
        by (simp add: row_text_def d1_def N m')
      show "narrow_row d1 ?r" using nar(1) \<open>narrow m'\<close> by (simp add: narrow_row_def d1_def)
    qed
    have ok1: "screen_ok E d1 s1"
      using ok off col row by (simp add: screen_ok_def s1_def d1_def N RowCol_def
          cursor_row_def [symmetric] n_def)
    have cut: "maybeClipCurrentRow E (d, s) = (if c < n
        then Some (setCursorPosition E ?row c (d1, s1)) else Some (d1, set_overflow True s1))"
      using row wd False set(1)
      by (simp add: maybeClipCurrentRow_def Let_def c_def [symmetric] n_def [symmetric] s1_def
          N nth_append d1_def m'_def RowCol_def)
    have rest1: "same_rest (d, s) (d1, s1)"
      by (simp add: same_rest_def d1_def s1_def RowCol_def)
    show thesis
    proof (cases "c < n")
      case True
      have facts: "rc_row (cursorPosition s1) = ?row" "cursor_row s1 = ?r" "c < columnCount s1"
        using True by (simp_all add: s1_def RowCol_def cursor_row_def n_def)
      obtain j off' where again: "setCursorPosition E ?row c (d1, s1) =
          (d1, s1\<lparr>cursorPosition := RowCol ?row c, cursorNode := Some j, cursorOffset := off'\<rparr>)"
        "screen_ok E d1 (s1\<lparr>cursorPosition := RowCol ?row c, cursorNode := Some j, cursorOffset := off'\<rparr>)"
        by (rule setCursor_same_row [OF ok1 row(3)]) (use row facts in auto)
      moreover have "same_rest (d, s) (d1, s1\<lparr>cursorPosition := RowCol ?row c, cursorNode := Some j,
          cursorOffset := off'\<rparr>)"
        using rest1 by (simp add: same_rest_def s1_def RowCol_def)
      ultimately show thesis
        using that [of d1 "s1\<lparr>cursorPosition := RowCol ?row c, cursorNode := Some j, cursorOffset := off'\<rparr>"]
          True cut d1 row by (simp add: RowCol_def)
    next
      case over: False
      have "screen_ok E d1 (set_overflow True s1)"
        using ok1 by (simp add: screen_ok_def set_overflow_def)
      moreover have "same_rest (d, s) (d1, set_overflow True s1)"
        using rest1 by (simp add: same_rest_def set_overflow_def)
      ultimately show thesis
        using that [of d1 "set_overflow True s1"] over cut d1 row
        by (simp add: set_overflow_def s1_def RowCol_def)
    qed
  qed
qed

section \<open>The edit operations as one interface\<close>

text \<open>
  What the terminal relies on from an operation on the cursor row: where its precondition
  holds on a screen of narrow rows it does not throw, keeps the screen consistent and the row
  narrow, and touches nothing else. Such operations compose.
\<close>

definition narrow_rows :: "dom \<times> screen \<Rightarrow> bool" where
  "narrow_rows ds \<longleftrightarrow> (\<forall>r \<in> set (rowsArray (snd ds)). narrow_row (fst ds) r)"

lemma screen_ok_cursor_row: "screen_ok E d s \<Longrightarrow> cursor_row s \<in> set (rowsArray s)"
  by (auto simp: screen_ok_def cursor_row_def)

locale row_edit =
  fixes E :: env and pre :: "dom \<times> screen \<Rightarrow> bool" and edit :: "dom \<times> screen \<Rightarrow> (dom \<times> screen) option"
  assumes edits: "screen_ok E d s \<Longrightarrow> narrow_row d (cursor_row s) \<Longrightarrow> pre (d, s) \<Longrightarrow>
    \<exists>d' s'. edit (d, s) = Some (d', s') \<and> screen_ok E d' s' \<and> narrow_row d' (cursor_row s) \<and>
      same_rest (d, s) (d', s')"
begin

lemma defined: "screen_ok E d s \<Longrightarrow> narrow_row d (cursor_row s) \<Longrightarrow> pre (d, s) \<Longrightarrow> edit (d, s) \<noteq> None"
  using edits by fastforce

lemma keeps:
  assumes "screen_ok E d s" and "narrow_rows (d, s)" and "pre (d, s)" and "edit (d, s) = Some ds'"
  shows "screen_ok E (fst ds') (snd ds') \<and> narrow_rows ds' \<and> same_rest (d, s) ds'"
proof -
  have "narrow_row d (cursor_row s)"
    using assms(1,2) screen_ok_cursor_row by (simp add: narrow_rows_def)
  then obtain d' s' where ds': "ds' = (d', s')" "screen_ok E d' s'" "narrow_row d' (cursor_row s)"
    "same_rest (d, s) (d', s')"
    using edits [OF assms(1) _ assms(3)] assms(4) by auto
  have "narrow_row d' r" if "r \<in> set (rowsArray s')" for r
    using ds'(3,4) assms(2) that by (cases "r = cursor_row s")
      (auto simp: narrow_rows_def narrow_row_def same_rest_def)
  with ds' show ?thesis by (simp add: narrow_rows_def)
qed

end

definition insertable :: "jsstring \<Rightarrow> int option \<Rightarrow> dom \<times> screen \<Rightarrow> bool" where
  "insertable str w ds \<longleftrightarrow> printable_str str \<and> str \<noteq> [] \<and>
     \<not> wcNode (textAttributes (snd ds)) \<and> (w = None \<or> w = Some (int (length str)))"

definition overwritable :: "jsstring \<Rightarrow> int option \<Rightarrow> dom \<times> screen \<Rightarrow> bool" where
  "overwritable str w ds \<longleftrightarrow> insertable str w ds \<and>
     rc_column (cursorPosition (snd ds)) < columnCount (snd ds)"

definition deletable :: "int \<Rightarrow> dom \<times> screen \<Rightarrow> bool" where
  "deletable k ds \<longleftrightarrow> 0 \<le> k \<and> rc_column (cursorPosition (snd ds)) \<le> columnCount (snd ds)"

interpretation ins: row_edit E "insertable str w" "insertString E str w" for E str w
proof
  fix d s
  assume "screen_ok E d s" "narrow_row d (cursor_row s)" "insertable str w (d, s)"
  then show "\<exists>d' s'. insertString E str w (d, s) = Some (d', s') \<and> screen_ok E d' s' \<and>
      narrow_row d' (cursor_row s) \<and> same_rest (d, s) (d', s')"
    unfolding insertable_def by (elim conjE) (rule insertString_spec [of E d s str w]; auto)
qed

interpretation over: row_edit E "overwritable str w" "overwriteString E str w" for E str w
proof
  fix d s
  assume "screen_ok E d s" "narrow_row d (cursor_row s)" "overwritable str w (d, s)"
  then show "\<exists>d' s'. overwriteString E str w (d, s) = Some (d', s') \<and> screen_ok E d' s' \<and>
      narrow_row d' (cursor_row s) \<and> same_rest (d, s) (d', s')"
    unfolding overwritable_def insertable_def
    by (elim conjE) (rule overwriteString_spec [of E d s str w]; auto)
qed

interpretation del: row_edit E "deletable k" "\<lambda>ds. map_option snd (deleteChars E k ds)" for E k
proof
  fix d s
  assume "screen_ok E d s" "narrow_row d (cursor_row s)" "deletable k (d, s)"
  then show "\<exists>d' s'. map_option snd (deleteChars E k (d, s)) = Some (d', s') \<and> screen_ok E d' s' \<and>
      narrow_row d' (cursor_row s) \<and> same_rest (d, s) (d', s')"
    unfolding deletable_def by (elim conjE) (rule deleteChars_spec [of E d s k]; auto)
qed

interpretation clip: row_edit E "\<lambda>ds. True" "maybeClipCurrentRow E" for E
proof
  fix d s
  assume "screen_ok E d s" "narrow_row d (cursor_row s)"
  then show "\<exists>d' s'. maybeClipCurrentRow E (d, s) = Some (d', s') \<and> screen_ok E d' s' \<and>
      narrow_row d' (cursor_row s) \<and> same_rest (d, s) (d', s')"
    by (rule maybeClipCurrentRow_spec [of E d s]) auto
qed

section \<open>Properties\<close>

text \<open>
  \<open>setCursorPosition\<close> on a screen with rows moves the cursor to the row and column asked
  for, clamped to the screen, out of the overflow state, and leaves the cursor node and offset
  at that column of that row, creating a node where the row has none.
\<close>

theorem setCursorPosition_places:
  assumes "wc_ok (wc E)" and "rowsArray s \<noteq> []" and "0 < columnCount s"
    and "\<forall>r \<in> set (rowsArray s). cursor_consistent E d s r"
  shows "\<exists>d' s' i. setCursorPosition E r0 c0 (d, s) = (d', s') \<and>
    cursorPosition s' = RowCol (clamp_index r0 (int (length (rowsArray s)))) (clamp_index c0 (columnCount s)) \<and>
    0 \<le> rc_row (cursorPosition s') \<and> rc_row (cursorPosition s') < int (length (rowsArray s)) \<and>
    0 \<le> rc_column (cursorPosition s') \<and> rc_column (cursorPosition s') < columnCount s \<and>
    screen_ok E d' s' \<and> row_text d' (cursor_row s') = row_text d (cursor_row s')"
proof -
  let ?r = "clamp_index r0 (int (length (rowsArray s)))" and ?c = "clamp_index c0 (columnCount s)"
  let ?R = "rowsArray s ! nat ?r"
  have r: "0 \<le> ?r" "?r < int (length (rowsArray s))" and c: "0 \<le> ?c" "?c < columnCount s"
    using clamp_index_bounds assms(2,3) by auto
  have "cursor_consistent E d s ?R" using assms(4) r by simp
  then obtain i off where set: "setCursorPosition E r0 c0 (d, s) =
      (d(?R := (d ?R)\<lparr>childNodes := with_nodes (childNodes (d ?R))\<rparr>),
       s\<lparr>cursorPosition := RowCol ?r ?c, cursorRowNode := Some ?R, cursorNode := Some i,
         cursorOffset := off\<rparr>)" (is "_ = (?d', ?s')")
    and ok: "cursor_ok E (with_nodes (childNodes (d ?R))) i off ?c"
    using setCursorPosition_result [OF assms(1-3), where ?row0.0 = r0 and ?column0.0 = c0 and d = d]
    by metis
  have row: "cursor_row ?s' = ?R" by (simp add: cursor_row_def RowCol_def)
  have "screen_ok E ?d' ?s'"
    using assms(1,3) r c ok by (simp add: screen_ok_def RowCol_def)
  moreover have "row_text ?d' (cursor_row ?s') = row_text d (cursor_row ?s')"
    unfolding row by (simp add: row_text_def with_nodes_def)
  ultimately show ?thesis
    using r c unfolding set by (auto simp: RowCol_def)
qed

definition two_rows :: "dom \<times> screen" where
  "two_rows = ((\<lambda>r. \<lparr>childNodes = [TextNode (js ''some'') (Some True), TextNode (js ''text'') None],
       rowIndex = int r, line_overflow = False\<rparr>),
     (new_screen 20)\<lparr>rowsArray := [0, 1]\<rparr>)"

lemma two_rows_consistent: "cursor_consistent E (fst two_rows) (snd two_rows) r"
  by (simp add: cursor_consistent_def two_rows_def new_screen_def)

lemma two_rows_narrow: "narrow_row (fst two_rows) r"
  by (simp add: two_rows_def narrow_row_def narrow_def slim_def plain_def printable_def)

lemma setCursorPosition_places_witness:
  "\<exists>d' s'. setCursorPosition unit_env 7 5 two_rows = (d', s') \<and>
    cursorPosition s' = RowCol 1 5 \<and> screen_ok unit_env d' s'"
  using setCursorPosition_places [of unit_env "snd two_rows" "fst two_rows" 7 5]
    two_rows_consistent
  by (auto simp: two_rows_def new_screen_def clamp_index_def unit_env_def)

text \<open>
  C8. Inserting printable text at the cursor of a row of narrow text: for every division of
  the row into nodes and every style, the text goes in at the cursor's column, after the
  blanks missing up to it, the cursor moves behind it, and the rest of the screen stays.
\<close>

theorem insertString_inserts:
  assumes "screen_ok E d s" and "narrow_row d (cursor_row s)"
    and "printable_str str" and "str \<noteq> []" and "\<not> wcNode (textAttributes s)"
  shows "\<exists>d' s'. insertString E str None (d, s) = Some (d', s') \<and>
    row_text d' (cursor_row s) = text_insert (cursor_column s) str (row_text d (cursor_row s)) \<and>
    rc_column (cursorPosition s') = rc_column (cursorPosition s) + int (length str) \<and>
    screen_ok E d' s' \<and> narrow_row d' (cursor_row s) \<and> same_rest (d, s) (d', s')"
  by (rule insertString_spec [OF assms, of None]) auto

definition two_rows_at :: "int \<Rightarrow> dom \<times> screen" where
  "two_rows_at c = setCursorPosition unit_env 1 c two_rows"

lemma two_rows_at_ok:
  "screen_ok unit_env (fst (two_rows_at c)) (snd (two_rows_at c)) \<and>
   row_text (fst (two_rows_at c)) (cursor_row (snd (two_rows_at c))) = js ''sometext''"
  using setCursorPosition_places [of unit_env "snd two_rows" "fst two_rows" 1 c]
    two_rows_consistent
  by (auto simp: two_rows_at_def two_rows_def new_screen_def unit_env_def row_text_def)

lemma two_rows_at_narrow:
  "narrow_row (fst (two_rows_at c)) (cursor_row (snd (two_rows_at c)))"
proof -
  have "childNodes (fst (two_rows_at c) r) = childNodes (fst two_rows r)" for r
    by (auto simp: two_rows_at_def setCursorPosition_def two_rows_def Let_def
        split: option.splits prod.splits)
  then show ?thesis using two_rows_narrow by (simp add: narrow_row_def)
qed

lemma two_rows_at_column:
  "0 \<le> c \<Longrightarrow> c < 20 \<Longrightarrow> rc_column (cursorPosition (snd (two_rows_at c))) = c"
  "columnCount (snd (two_rows_at c)) = 20" "\<not> wcNode (textAttributes (snd (two_rows_at c)))"
  by (auto simp: two_rows_at_def setCursorPosition_def two_rows_def Let_def new_screen_def
      new_tattrs_def clamp_index_def move_rc_def split: option.splits prod.splits)

lemma insertString_inserts_witness:
  "\<exists>d' s'. insertString unit_env (js ''!'') None (two_rows_at 10) = Some (d', s') \<and>
    row_text d' (cursor_row (snd (two_rows_at 10))) = js ''sometext  !''"
proof -
  have "\<exists>d' s'. insertString unit_env (js ''!'') None (fst (two_rows_at 10), snd (two_rows_at 10)) = Some (d', s') \<and>
    row_text d' (cursor_row (snd (two_rows_at 10))) =
      text_insert (cursor_column (snd (two_rows_at 10))) (js ''!'')
        (row_text (fst (two_rows_at 10)) (cursor_row (snd (two_rows_at 10))))"
    using insertString_inserts [of unit_env "fst (two_rows_at 10)" "snd (two_rows_at 10)" "js ''!''"]
      two_rows_at_ok two_rows_at_narrow two_rows_at_column [of 10] by (auto simp: printable_def)
  then show ?thesis
    using two_rows_at_ok [of 10] two_rows_at_column(1) [of 10]
    by (simp add: cursor_column_def text_insert_def eval_nat_numeral)
qed

text \<open>
  C9. Deleting columns at the cursor of a row of narrow text: exactly the columns asked for,
  but none beyond the screen's last one, are gone, the text behind them moves left, the cursor
  stays, and the number of deleted columns is returned.
\<close>

theorem deleteChars_deletes:
  assumes "screen_ok E d s" and "narrow_row d (cursor_row s)" and "0 \<le> k"
    and "rc_column (cursorPosition s) \<le> columnCount s"
  shows "\<exists>n d' s'. deleteChars E k (d, s) = Some (n, d', s') \<and>
    n = min k (columnCount s - rc_column (cursorPosition s)) \<and>
    row_text d' (cursor_row s) = text_delete (cursor_column s) (nat n) (row_text d (cursor_row s)) \<and>
    cursorPosition s' = cursorPosition s \<and>
    screen_ok E d' s' \<and> narrow_row d' (cursor_row s) \<and> same_rest (d, s) (d', s')"
  by (rule deleteChars_spec [OF assms]) auto

lemma deleteChars_deletes_witness:
  "\<exists>d' s'. deleteChars unit_env 3 (two_rows_at 2) = Some (3, d', s') \<and>
    row_text d' (cursor_row (snd (two_rows_at 2))) = js ''soext''"
  using deleteChars_deletes [of unit_env "fst (two_rows_at 2)" "snd (two_rows_at 2)" 3]
    two_rows_at_ok [of 2] two_rows_at_narrow [of 2] two_rows_at_column [of 2]
  by (auto simp: cursor_column_def text_delete_def eval_nat_numeral)

text \<open>
  C10. Overwriting and clipping, the way text is printed: the columns from the cursor on show
  the new text, cut at the last column, the rest of the row stays where it is, the row never
  gets wider than the screen, and a cursor pushed beyond the last column stays there in the
  overflow state.
\<close>

theorem overwriteString_then_clip:
  assumes "screen_ok E d s" and "narrow_row d (cursor_row s)"
    and "printable_str str" and "str \<noteq> []" and "\<not> wcNode (textAttributes s)"
    and "rc_column (cursorPosition s) < columnCount s"
    and "int (length (row_text d (cursor_row s))) \<le> columnCount s"
  shows "\<exists>d' s'. (overwriteString E str None (d, s) \<bind> maybeClipCurrentRow E) = Some (d', s') \<and>
    row_text d' (cursor_row s) = take (nat (columnCount s))
      (text_insert (cursor_column s) str
        (text_delete (cursor_column s)
          (min (length str) (nat (columnCount s) - cursor_column s)) (row_text d (cursor_row s)))) \<and>
    rc_column (cursorPosition s') =
      min (rc_column (cursorPosition s) + int (length str)) (columnCount s - 1) \<and>
    (rc_column (cursorPosition s) + int (length str) \<ge> columnCount s \<longrightarrow>
      rc_overflow (cursorPosition s')) \<and>
    screen_ok E d' s' \<and> narrow_row d' (cursor_row s) \<and> same_rest (d, s) (d', s')"
proof -
  let ?r = "cursor_row s"
  define n where "n = min (int (length str)) (columnCount s - rc_column (cursorPosition s))"
  have n: "nat n = min (length str) (nat (columnCount s) - cursor_column s)"
    using assms(1,6) by (auto simp: n_def cursor_column_def screen_ok_def min_def)
  obtain d1 s1 where 1: "overwriteString E str None (d, s) = Some (d1, s1)"
    "row_text d1 ?r = text_insert (cursor_column s) str
       (text_delete (cursor_column s) (nat n) (row_text d ?r))"
    "rc_column (cursorPosition s1) = rc_column (cursorPosition s) + int (length str)"
    "narrow_row d1 ?r" "screen_ok E d1 s1" "same_rest (d, s) (d1, s1)"
    by (rule overwriteString_spec [OF assms(1-5) _ assms(6), of None]) (use n_def assms(7) in auto)
  have row: "cursor_row s1 = ?r" "columnCount s1 = columnCount s"
    using same_rest_row [OF 1(6)] 1(6) by (simp_all add: same_rest_def)
  obtain d2 s2 where 2: "maybeClipCurrentRow E (d1, s1) = Some (d2, s2)"
    "row_text d2 ?r = take (nat (columnCount s)) (row_text d1 ?r)"
    "rc_column (cursorPosition s2) =
       min (rc_column (cursorPosition s) + int (length str)) (columnCount s - 1)"
    "rc_column (cursorPosition s) + int (length str) \<ge> columnCount s \<longrightarrow> rc_overflow (cursorPosition s2)"
    "narrow_row d2 ?r" "screen_ok E d2 s2" "same_rest (d1, s1) (d2, s2)"
    by (rule maybeClipCurrentRow_spec [OF 1(5)]) (use 1(3,4) row in auto)
  show ?thesis
    using 1(1,2) 2 same_rest_trans [OF 1(6) 2(7)] by (simp add: n)
qed

lemma overwriteString_then_clip_witness:
  "\<exists>d' s'. (overwriteString unit_env (js ''XY'') None (two_rows_at 3) \<bind> maybeClipCurrentRow unit_env)
      = Some (d', s') \<and>
    row_text d' (cursor_row (snd (two_rows_at 3))) = js ''somXYext''"
  using overwriteString_then_clip [of unit_env "fst (two_rows_at 3)" "snd (two_rows_at 3)" "js ''XY''"]
    two_rows_at_ok [of 3] two_rows_at_narrow [of 3] two_rows_at_column [of 3]
  by (auto simp: cursor_column_def text_delete_def text_insert_def eval_nat_numeral printable_def)

text \<open>
  Inserting with the cursor on the second column of a wide character: the split leaves
  nothing of the node before the cursor, so the node is removed, and the new text goes to the
  end of the row, behind everything that followed the cursor.
\<close>

theorem insertString_inside_wide:
  assumes "cursorRowNode s = Some r" and "childNodes (d r) = A @ SpanNode [c] p # B"
    and "cursorNode s = Some (length A)" and "cursorOffset s = 1"
    and "span_wcNode p" and "span_asciiNode p = Some False"
    and "charWidth (wc E) c = 2" and "c \<le> 0xffff"
  shows "\<exists>d' s'. insertString E str None (d, s) = Some (d', s') \<and>
    row_text d' r = row_content A @ [c] @ row_content B @ str"
proof -
  let ?n = "SpanNode [c] p"
  have wide: "nodeWidth E ?n = 2" "nodeSubstr E ?n 0 (Some 1) = []"
    "wc_substr (wc E) [c] 1 None = [c]"
    using assms(6-8)
    by (simp_all add: nodeWidth_def nodeSubstr_def strWidth_def wc_substr_def Let_def unit_count_def
        js_substring_def js_substr_def)
  have split: "splitNode E (A @ ?n # B) (length A) 1 =
      (A @ set_textContent [c] (cloneNode ?n) # B, None)"
    using wide by (simp add: splitNode_def Let_def nth_append)
  have "\<not> matchesContainer (textAttributes s) ?n"
    using assms(5) by (simp add: matchesSpan_def)
  then have place: "place_string E (textAttributes s) w (A @ ?n # B, length A, 1, str, 1) =
      ((A @ set_textContent [c] (cloneNode ?n) # B) @ [createContainer E (textAttributes s) str],
       length (A @ set_textContent [c] (cloneNode ?n) # B), w)" for w
    by (simp add: place_string_def Let_def nth_append split)
  have "supply_spaces E (textAttributes s) (A @ ?n # B) (length A) 1 str = (A @ ?n # B, length A, 1, str, 1)"
    using wide(1) by (simp add: supply_spaces_def Let_def nth_append)
  with place show ?thesis
    using assms(1-4) by (simp add: insertString_def Let_def row_text_def)
qed

definition wide_row :: "dom \<times> screen" where
  "wide_row = ((\<lambda>r. \<lparr>childNodes = [SpanNode [0x4e2d]
       (new_span\<lparr>span_wcNode := True, span_asciiNode := Some False\<rparr>), TextNode (js ''abc'') None],
       rowIndex = 0, line_overflow = False\<rparr>),
     (new_screen 20)\<lparr>rowsArray := [0], cursorPosition := RowCol 0 1, cursorRowNode := Some 0,
       cursorNode := Some 0, cursorOffset := 1\<rparr>)"

lemma insertString_inside_wide_witness:
  "\<exists>d' s'. insertString unit_env (js ''x'') None wide_row = Some (d', s') \<and>
    row_text d' 0 = [0x4e2d] @ js ''abcx''"
proof -
  have "charWidth (wc unit_env) 0x4e2d = 2" by code_simp
  then show ?thesis
    using insertString_inside_wide [of "snd wide_row" 0 "fst wide_row" "[]" "0x4e2d"
        "new_span\<lparr>span_wcNode := True, span_asciiNode := Some False\<rparr>"
        "[TextNode (js ''abc'') None]" unit_env "js ''x''"]
    by (simp add: wide_row_def)
qed

section \<open>Clearing the cursor row\<close>

text \<open>
  Attributes as they are between calls: the colors are synchronized with their sources, and the
  flags for wide and ASCII text are at rest.
\<close>

definition attrs_ok :: "tattrs \<Rightarrow> bool" where
  "attrs_ok ta \<longleftrightarrow> \<not> wcNode ta \<and> asciiNode ta \<and> syncColors ta = Some ta"

lemma attrs_okD:
  assumes "attrs_ok ta"
  shows "\<not> wcNode ta" "asciiNode ta" "syncColors ta = Some ta"
  using assms by (simp_all add: attrs_ok_def)

lemma sync_fixed:
  assumes "syncColors ta = Some ta"
  defines "src \<equiv> (if enableBoldAsBright ta \<and> bold ta then bright_source (foregroundSource ta)
    else foregroundSource ta)"
  obtains fg where "(if faint ta then faint_color src else Some (colorFromSource src)) = Some fg"
    and "foregroundSource ta = src" and "underlineColor ta = colorFromSource (underlineSource ta)"
proof -
  obtain fg where fg: "(if faint ta then faint_color src else Some (colorFromSource src)) = Some fg"
    using assms(1) by (cases "if faint ta then faint_color src else Some (colorFromSource src)")
      (simp_all add: syncColors_def Let_def flip: src_def)
  obtain fg' bg' where "ta\<lparr>foregroundSource := src, foreground := fg', background := bg',
      underlineColor := colorFromSource (underlineSource ta)\<rparr> = ta"
    using assms(1) fg unfolding syncColors_def Let_def src_def [symmetric] by simp
  from arg_cong [OF this, of foregroundSource] arg_cong [OF this, of underlineColor] fg that
  show thesis by simp
qed

text \<open>Switching inverse video and back again restores synchronized attributes.\<close>

lemma sync_inverse:
  assumes "syncColors ta = Some ta"
  obtains ta' where "syncColors (ta\<lparr>inverse := b\<rparr>) = Some ta'"
    "wcNode ta' = wcNode ta" "asciiNode ta' = asciiNode ta"
    "syncColors (ta'\<lparr>inverse := inverse ta\<rparr>) = Some ta"
proof -
  define src where "src = foregroundSource ta"
  obtain fg where fg: "(if faint ta then faint_color src else Some (colorFromSource src)) = Some fg"
    and src: "(if enableBoldAsBright ta \<and> bold ta then bright_source src else src) = src"
    using sync_fixed [OF assms] unfolding src_def by metis
  obtain fg' bg' un' where sync: "syncColors (ta\<lparr>inverse := b\<rparr>) = Some (ta\<lparr>inverse := b,
      foregroundSource := src, foreground := fg', background := bg', underlineColor := un'\<rparr>)"
    using fg src by (simp add: syncColors_def Let_def src_def cong: if_cong)
  have "syncColors (ta\<lparr>inverse := b, foregroundSource := src, foreground := fg', background := bg',
      underlineColor := un'\<rparr>\<lparr>inverse := inverse ta\<rparr>) = syncColors ta"
    using fg src by (simp add: syncColors_def Let_def src_def cong: if_cong)
  then show thesis
    using that [OF sync] assms by simp
qed

lemma isDefault_inverse: "isDefault ta \<Longrightarrow> ta\<lparr>inverse := False\<rparr> = ta"
  by (cases ta) (simp add: isDefault_def)

lemma js_repeat_blank [simp]: "printable_str (js_repeat 32 n)"
  by (simp add: js_repeat_def)

lemma clearCursorRow_result:
  assumes ok: "attrs_ok (textAttributes s)" and row: "cursorRowNode s = Some r" and cols: "0 < columnCount s"
  obtains node where
    "clearCursorRow E (d, s) = Some (d(r := (d r)\<lparr>childNodes := [node], line_overflow := False\<rparr>),
       s\<lparr>cursorPosition := (cursorPosition s)\<lparr>rc_column := 0, rc_overflow := False\<rparr>,
         cursorNode := Some 0, cursorOffset := 0\<rparr>)"
    "narrow node"
    "textContent node = (if isDefault (textAttributes s) then [] else js_repeat 32 (columnCount s))"
proof -
  let ?ta = "textAttributes s"
  obtain ta' where ta': "syncColors (?ta\<lparr>inverse := False\<rparr>) = Some ta'"
    "wcNode ta' = wcNode ?ta" "asciiNode ta' = asciiNode ?ta"
    "syncColors (ta'\<lparr>inverse := inverse ?ta\<rparr>) = Some ?ta"
    using sync_inverse [OF attrs_okD(3) [OF ok]] by metis
  let ?txt = "if isDefault ?ta then [] else js_repeat 32 (columnCount s)"
  let ?node = "createContainer E ta' ?txt"
  have "narrow ?node"
  proof (cases "isDefault ?ta")
    case True
    then have "ta' = ?ta" using ta'(1) isDefault_inverse attrs_okD(3) [OF ok] by simp
    with True show ?thesis by (simp add: createContainer_def narrow_def slim_def plain_def)
  next
    case False
    have "js_repeat 32 (columnCount s) \<noteq> []" using cols by (simp add: js_repeat_def)
    with False show ?thesis using ta'(2) attrs_okD(1) [OF ok] by (auto intro: narrow_create)
  qed
  moreover have "clearCursorRow E (d, s) = Some (d(r := (d r)\<lparr>childNodes := [?node], line_overflow := False\<rparr>),
       s\<lparr>cursorPosition := (cursorPosition s)\<lparr>rc_column := 0, rc_overflow := False\<rparr>,
         cursorNode := Some 0, cursorOffset := 0\<rparr>)"
    using row cols ta'(1,4)
    by (simp add: clearCursorRow_def Let_def sync_screen_def set_inverse_def)
  ultimately show thesis
    using that [of ?node] by simp
qed

definition clearable :: "dom \<times> screen \<Rightarrow> bool" where
  "clearable ds \<longleftrightarrow> attrs_ok (textAttributes (snd ds))"

interpretation clear: row_edit E clearable "clearCursorRow E" for E
proof
  fix d s
  assume ok: "screen_ok E d s" and "clearable (d, s)"
  then have ta: "attrs_ok (textAttributes s)" and row: "cursorRowNode s = Some (cursor_row s)"
    and cols: "0 < columnCount s"
    by (auto simp: clearable_def elim: screen_okD)
  obtain node where "clearCursorRow E (d, s) =
      Some (d(cursor_row s := (d (cursor_row s))\<lparr>childNodes := [node], line_overflow := False\<rparr>),
       s\<lparr>cursorPosition := (cursorPosition s)\<lparr>rc_column := 0, rc_overflow := False\<rparr>,
         cursorNode := Some 0, cursorOffset := 0\<rparr>)" (is "_ = Some (?d', ?s')")
    and node: "narrow node"
    by (rule clearCursorRow_result [OF ta row cols, of E d])
  moreover have "screen_ok E ?d' ?s'"
    using ok by (simp add: screen_ok_def cursor_row_def cursor_ok_def)
  moreover have "narrow_row ?d' (cursor_row s)"
    using node by (simp add: narrow_row_def)
  moreover have "same_rest (d, s) (?d', ?s')"
    by (simp add: same_rest_def)
  ultimately show "\<exists>d' s'. clearCursorRow E (d, s) = Some (d', s') \<and> screen_ok E d' s' \<and>
      narrow_row d' (cursor_row s) \<and> same_rest (d, s) (d', s')"
    by blast
qed

lemma attrs_ok_new [simp]: "attrs_ok new_tattrs"
  by (simp add: attrs_ok_def new_tattrs_def syncColors_def)

end
