(* ===== verification/Terminal.thy ===== *)
theory Terminal
  imports Screen
begin

text \<open>
  \<open>hterm.Terminal\<close> (hterm_all-1.91.js) without its user interface, and \<open>hterm.Options\<close>: the two
  screens, the scrollback, the scroll region, tab stops, sizes and modes, and the operations
  the escape sequence interpreter calls. \<open>None\<close> is an exception.

  The state is the store of rows with the next unused row, the screens and which of them is the
  current one, and the fields of the terminal that these operations read or write. The calls
  that only notify the scroll port, the find bar and the accessibility reader, or restyle the
  cursor element, change none of it and are left out.
\<close>

section \<open>State\<close>

record options =
  wraparound :: bool
  reverseWraparound :: bool
  originMode :: bool
  autoCarriageReturn :: bool
  cursorVisible :: bool
  cursorBlink :: bool
  insertMode :: bool
  reverseVideo :: bool
  bracketedPaste :: bool

text \<open>\<open>new hterm.Options()\<close>; with an argument the constructor copies it field by field.\<close>

definition new_options :: options where
  "new_options = \<lparr>wraparound = True, reverseWraparound = False, originMode = False,
     autoCarriageReturn = False, cursorVisible = False, cursorBlink = False,
     insertMode = False, reverseVideo = False, bracketedPaste = False\<rparr>"

record terminal =
  rows_dom :: dom
  next_row :: rowid
  primaryScreen :: screen
  alternateScreen :: screen
  on_alternate :: bool
  screenSize :: size
  scrollbackRows :: "rowid list"
  tabStops :: "int list"
  defaultTabStops :: bool
  vtScrollTop :: "int option"
  vtScrollBottom :: "int option"
  options :: options

definition tabWidth :: int where
  "tabWidth = 8"

definition current :: "terminal \<Rightarrow> screen" where
  "current t = (if on_alternate t then alternateScreen t else primaryScreen t)"

definition set_current :: "screen \<Rightarrow> terminal \<Rightarrow> terminal" where
  "set_current s t =
     (if on_alternate t then t\<lparr>alternateScreen := s\<rparr> else t\<lparr>primaryScreen := s\<rparr>)"

text \<open>Running an operation of the current screen.\<close>

definition edit :: "(dom \<times> screen \<Rightarrow> (dom \<times> screen) option) \<Rightarrow> terminal \<Rightarrow> terminal option" where
  "edit f t = do {
     (d, s) \<leftarrow> f (rows_dom t, current t);
     Some (set_current s (t\<lparr>rows_dom := d\<rparr>))
   }"

definition edit_total :: "(dom \<times> screen \<Rightarrow> dom \<times> screen) \<Rightarrow> terminal \<Rightarrow> terminal" where
  "edit_total f t =
     (let (d, s) = f (rows_dom t, current t) in set_current s (t\<lparr>rows_dom := d\<rparr>))"

definition on_screen :: "(screen \<Rightarrow> screen) \<Rightarrow> terminal \<Rightarrow> terminal" where
  "on_screen f t = set_current (f (current t)) t"

definition clamp :: "int \<Rightarrow> int \<Rightarrow> int \<Rightarrow> int" where
  "clamp v lo hi = (if v < lo then lo else if v > hi then hi else v)"

abbreviation cursor :: "terminal \<Rightarrow> rowcol" where
  "cursor t \<equiv> cursorPosition (current t)"

definition saveCursor :: "terminal \<Rightarrow> rowcol" where
  "saveCursor t = cursor t"

definition clearCursorOverflow :: "terminal \<Rightarrow> terminal" where
  "clearCursorOverflow t = on_screen (set_overflow False) t"

section \<open>Cursor movement\<close>

text \<open>\<open>Screen.setCursorPosition\<close> on the current screen.\<close>

definition place_cursor :: "env \<Rightarrow> int \<Rightarrow> int \<Rightarrow> terminal \<Rightarrow> terminal" where
  "place_cursor E r c t = edit_total (setCursorPosition E r c) t"

definition restoreCursor :: "env \<Rightarrow> rowcol \<Rightarrow> terminal \<Rightarrow> terminal" where
  "restoreCursor E cur t =
     (let r = clamp (rc_row cur) 0 (height (screenSize t) - 1);
          c = clamp (rc_column cur) 0 (width (screenSize t) - 1);
          t = place_cursor E r c t
      in if rc_column cur > c \<or> rc_column cur = c \<and> rc_overflow cur
         then on_screen (set_overflow True) t else t)"

definition getVTScrollTop :: "terminal \<Rightarrow> int" where
  "getVTScrollTop t = (case vtScrollTop t of Some r \<Rightarrow> r | None \<Rightarrow> 0)"

definition getVTScrollBottom :: "terminal \<Rightarrow> int" where
  "getVTScrollBottom t =
     (case vtScrollBottom t of Some r \<Rightarrow> r | None \<Rightarrow> height (screenSize t) - 1)"

definition setRelativeCursorPosition :: "env \<Rightarrow> int \<Rightarrow> int \<Rightarrow> terminal \<Rightarrow> terminal" where
  "setRelativeCursorPosition E r c t =
     place_cursor E
       (clamp (r + getVTScrollTop t) (getVTScrollTop t) (getVTScrollBottom t))
       (clamp c 0 (width (screenSize t) - 1)) t"

definition setAbsoluteCursorPosition :: "env \<Rightarrow> int \<Rightarrow> int \<Rightarrow> terminal \<Rightarrow> terminal" where
  "setAbsoluteCursorPosition E r c t =
     place_cursor E (clamp r 0 (height (screenSize t) - 1))
       (clamp c 0 (width (screenSize t) - 1)) t"

definition terminal_setCursorPosition :: "env \<Rightarrow> int \<Rightarrow> int \<Rightarrow> terminal \<Rightarrow> terminal" where
  "terminal_setCursorPosition E r c t =
     (if originMode (options t) then setRelativeCursorPosition E r c t
      else setAbsoluteCursorPosition E r c t)"

definition setCursorColumn :: "env \<Rightarrow> int \<Rightarrow> terminal \<Rightarrow> terminal" where
  "setCursorColumn E c t = setAbsoluteCursorPosition E (rc_row (cursor t)) c t"

definition setAbsoluteCursorRow :: "env \<Rightarrow> int \<Rightarrow> terminal \<Rightarrow> terminal" where
  "setAbsoluteCursorRow E r t = setAbsoluteCursorPosition E r (rc_column (cursor t)) t"

definition getCursorColumn :: "terminal \<Rightarrow> int" where
  "getCursorColumn t = rc_column (cursor t)"

definition getCursorRow :: "terminal \<Rightarrow> int" where
  "getCursorRow t = rc_row (cursor t)"

text \<open>\<open>count || 1\<close>\<close>

definition or_one :: "int \<Rightarrow> int" where
  "or_one n = (if n = 0 then 1 else n)"

definition cursorDown :: "env \<Rightarrow> int \<Rightarrow> terminal \<Rightarrow> terminal" where
  "cursorDown E cnt t =
     (let lo = (if originMode (options t) then getVTScrollTop t else 0);
          hi = (if originMode (options t) then getVTScrollBottom t else height (screenSize t) - 1)
      in setAbsoluteCursorRow E (clamp (rc_row (cursor t) + or_one cnt) lo hi) t)"

definition cursorUp :: "env \<Rightarrow> int \<Rightarrow> terminal \<Rightarrow> terminal" where
  "cursorUp E cnt t = cursorDown E (- or_one cnt) t"

text \<open>The remainder of the language has the sign of the dividend.\<close>

definition js_rem :: "int \<Rightarrow> int \<Rightarrow> int" where
  "js_rem a b = sgn a * (\<bar>a\<bar> mod \<bar>b\<bar>)"

definition wrap_left :: "env \<Rightarrow> int \<Rightarrow> terminal \<Rightarrow> terminal" where
  "wrap_left E cnt t =
     (let w = width (screenSize t); h = height (screenSize t);
          newRow = rc_row (cursor t);
          newColumn = rc_column (cursor t) - cnt;
          newRow' = newRow - cnt div w - 1;
          newRow = (if newColumn < 0 then
                      (if newRow' < 0 then h + js_rem newRow' h else newRow')
                    else newRow);
          newColumn = (if newColumn < 0 then w + js_rem newColumn w else newColumn)
      in terminal_setCursorPosition E (max newRow 0) newColumn t)"

definition cursorLeft :: "env \<Rightarrow> int \<Rightarrow> terminal \<Rightarrow> terminal" where
  "cursorLeft E cnt t =
     (let cnt = or_one cnt in
      if cnt < 1 then t
      else if reverseWraparound (options t) then
        (if rc_overflow (cursor t) then
           (if cnt - 1 = 0 then clearCursorOverflow t
            else wrap_left E (cnt - 1) (clearCursorOverflow t))
         else wrap_left E cnt t)
      else setCursorColumn E (max (rc_column (cursor t) - cnt) 0) t)"

definition cursorRight :: "env \<Rightarrow> int \<Rightarrow> terminal \<Rightarrow> terminal" where
  "cursorRight E cnt t =
     (let cnt = or_one cnt in
      if cnt < 1 then t
      else setCursorColumn E
        (clamp (rc_column (cursor t) + cnt) 0 (width (screenSize t) - 1)) t)"

section \<open>Tab stops\<close>

text \<open>\<open>setTabStop\<close> looks for the place from the last stop backwards.\<close>

fun insert_stop_rev :: "int \<Rightarrow> int list \<Rightarrow> int list" where
  "insert_stop_rev column [] = [column]"
| "insert_stop_rev column (x # xs) =
     (if x = column then x # xs
      else if x < column then column # x # xs
      else x # insert_stop_rev column xs)"

definition insert_stop :: "int \<Rightarrow> int list \<Rightarrow> int list" where
  "insert_stop column stops = rev (insert_stop_rev column (rev stops))"

definition setTabStop :: "int \<Rightarrow> terminal \<Rightarrow> terminal" where
  "setTabStop column t = t\<lparr>tabStops := insert_stop column (tabStops t)\<rparr>"

fun remove_first :: "int \<Rightarrow> int list \<Rightarrow> int list" where
  "remove_first x [] = []"
| "remove_first x (y # ys) = (if x = y then ys else y # remove_first x ys)"

definition clearTabStopAtCursor :: "terminal \<Rightarrow> terminal" where
  "clearTabStopAtCursor t = t\<lparr>tabStops := remove_first (rc_column (cursor t)) (tabStops t)\<rparr>"

definition clearAllTabStops :: "terminal \<Rightarrow> terminal" where
  "clearAllTabStops t = t\<lparr>tabStops := [], defaultTabStops := False\<rparr>"

function default_stops :: "int \<Rightarrow> int \<Rightarrow> int list \<Rightarrow> int list" where
  "default_stops i w stops =
     (if i < w then default_stops (i + tabWidth) w (insert_stop i stops) else stops)"
  by pat_completeness auto
termination
  by (relation "measure (\<lambda>(i, w, stops). nat (w - i))") (auto simp: tabWidth_def)

definition setDefaultTabStops :: "int \<Rightarrow> terminal \<Rightarrow> terminal" where
  "setDefaultTabStops start t =
     (let start = start - 1 - js_rem (start - 1) tabWidth + tabWidth
      in t\<lparr>tabStops := default_stops start (width (screenSize t)) (tabStops t),
           defaultTabStops := True\<rparr>)"

definition forwardTabStop :: "env \<Rightarrow> terminal \<Rightarrow> terminal" where
  "forwardTabStop E t =
     (case filter (\<lambda>x. x > rc_column (cursor t)) (tabStops t) of
        x # _ \<Rightarrow> setCursorColumn E x t
      | [] \<Rightarrow> on_screen (set_overflow (rc_overflow (cursor t)))
                (setCursorColumn E (width (screenSize t) - 1) t))"

definition backwardTabStop :: "env \<Rightarrow> terminal \<Rightarrow> terminal" where
  "backwardTabStop E t =
     (case filter (\<lambda>x. x < rc_column (cursor t)) (rev (tabStops t)) of
        x # _ \<Rightarrow> setCursorColumn E x t
      | [] \<Rightarrow> setCursorColumn E 1 t)"

section \<open>Rows\<close>

definition getRowNode :: "int \<Rightarrow> terminal \<Rightarrow> rowid option" where
  "getRowNode index t =
     (let sb = scrollbackRows t; rows = rowsArray (current t) in
      if index < int (length sb)
      then (if 0 \<le> index then Some (sb ! nat index) else None)
      else (if index - int (length sb) < int (length rows)
            then Some (rows ! nat (index - int (length sb))) else None))"

definition getRowText :: "int \<Rightarrow> terminal \<Rightarrow> jsstring option" where
  "getRowText index t = do {
     r \<leftarrow> getRowNode index t;
     Some (row_text (rows_dom t) r)
   }"

definition getRowCount :: "terminal \<Rightarrow> int" where
  "getRowCount t = int (length (scrollbackRows t)) + int (length (rowsArray (current t)))"

text \<open>The loop of \<open>getRowsText\<close> from \<open>i\<close>, for \<open>n\<close> rows more.\<close>

fun rows_text_from :: "nat \<Rightarrow> int \<Rightarrow> terminal \<Rightarrow> jsstring option" where
  "rows_text_from 0 i t = Some []"
| "rows_text_from (Suc n) i t = do {
     r \<leftarrow> getRowNode i t;
     rest \<leftarrow> rows_text_from n (i + 1) t;
     Some (row_text (rows_dom t) r @
       (if n > 0 \<and> \<not> line_overflow (rows_dom t r) then [10] else []) @ rest)
   }"

definition getRowsText :: "int \<Rightarrow> int \<Rightarrow> terminal \<Rightarrow> jsstring option" where
  "getRowsText start stop t = rows_text_from (nat (stop - start)) start t"

text \<open>\<open>renumberRows_\<close>; an index with no row throws.\<close>

definition renumber_dom :: "int \<Rightarrow> int \<Rightarrow> int \<Rightarrow> rowid list \<Rightarrow> dom \<Rightarrow> dom option" where
  "renumber_dom offset start stop rows d =
     (if start < stop \<and> (start < 0 \<or> stop > int (length rows)) then None
      else Some (fold (\<lambda>i d. d(rows ! i := (d (rows ! i))\<lparr>rowIndex := offset + int i\<rparr>))
             [nat start..<nat stop] d))"

definition renumberRows :: "int \<Rightarrow> int \<Rightarrow> terminal \<Rightarrow> terminal option" where
  "renumberRows start stop t = do {
     d \<leftarrow> renumber_dom (int (length (scrollbackRows t))) start stop (rowsArray (current t))
           (rows_dom t);
     Some (t\<lparr>rows_dom := d\<rparr>)
   }"

definition moveRows :: "int \<Rightarrow> int \<Rightarrow> int \<Rightarrow> terminal \<Rightarrow> terminal option" where
  "moveRows fromIndex cnt toIndex t =
     (let (ary, s) = removeRows fromIndex cnt (current t);
          t = set_current (insertRows toIndex ary s) t
      in if fromIndex < toIndex then renumberRows fromIndex (toIndex + cnt) t
         else renumberRows toIndex (fromIndex + cnt) t)"

text \<open>\<open>createElement('x-row')\<close> with an empty text node in it.\<close>

definition new_row :: "int \<Rightarrow> terminal \<Rightarrow> rowid \<times> terminal" where
  "new_row index t =
     (next_row t,
      t\<lparr>rows_dom := (rows_dom t)(next_row t :=
           \<lparr>childNodes = [createTextNode []], rowIndex = index, line_overflow = False\<rparr>),
        next_row := Suc (next_row t)\<rparr>)"

fun push_new_rows :: "nat \<Rightarrow> int \<Rightarrow> terminal \<Rightarrow> terminal" where
  "push_new_rows 0 index t = t"
| "push_new_rows (Suc n) index t =
     (let (r, t) = new_row index t in push_new_rows n (index + 1) (on_screen (pushRow r) t))"

definition to_scrollback :: "int \<Rightarrow> terminal \<Rightarrow> terminal" where
  "to_scrollback cnt t =
     (let (ary, s) = shiftRows cnt (current t)
      in set_current s (t\<lparr>scrollbackRows := scrollbackRows t @ ary\<rparr>))"

definition appendRows :: "env \<Rightarrow> int \<Rightarrow> terminal \<Rightarrow> terminal" where
  "appendRows E cnt t =
     (let cursorRow = getHeight (current t);
          t = push_new_rows (nat cnt) (int (length (scrollbackRows t)) + cursorRow) t;
          extraRows = getHeight (current t) - height (screenSize t);
          t = (if extraRows > 0 then to_scrollback extraRows t else t);
          cursorRow = (if cursorRow \<ge> getHeight (current t) then getHeight (current t) - 1
                       else cursorRow)
      in setAbsoluteCursorPosition E cursorRow 0 t)"

text \<open>\<open>shiftRow\<close> has a row to return: an empty screen, which no caller has, is \<open>None\<close>.\<close>

definition insertRow_at_cursor :: "env \<Rightarrow> terminal \<Rightarrow> terminal option" where
  "insertRow_at_cursor E t = do {
     let (r, t) = new_row 0 t;
     let (top, s) = shiftRow (current t);
     top \<leftarrow> top;
     let t = set_current s (t\<lparr>scrollbackRows := scrollbackRows t @ [top]\<rparr>);
     let cursorRow = rc_row (cursor t);
     let t = on_screen (insertRow cursorRow r) t;
     t \<leftarrow> renumberRows cursorRow (getHeight (current t)) t;
     Some (setAbsoluteCursorPosition E cursorRow 0 t)
   }"

section \<open>Sizes\<close>

definition setVTScrollRegion :: "int option \<Rightarrow> int option \<Rightarrow> terminal \<Rightarrow> terminal" where
  "setVTScrollRegion scrollTop scrollBottom t =
     (if scrollBottom = Some (height (screenSize t) - 1)
      then t\<lparr>vtScrollTop := (if scrollTop = Some 0 then None else scrollTop),
             vtScrollBottom := None\<rparr>
      else t\<lparr>vtScrollTop := scrollTop, vtScrollBottom := scrollBottom\<rparr>)"

definition realizeWidth :: "env \<Rightarrow> int \<Rightarrow> terminal \<Rightarrow> terminal option" where
  "realizeWidth E cols t =
     (if cols \<le> 0 then None
      else
        let deltaColumns = cols - getWidth (current t) in
        if deltaColumns = 0 then Some t
        else
          let t = t\<lparr>screenSize := (screenSize t)\<lparr>width := cols\<rparr>\<rparr>;
              t = edit_total (setColumnCount E cols) t;
              t = (if deltaColumns > 0 then
                     (if defaultTabStops t then setDefaultTabStops (cols - deltaColumns) t else t)
                   else t\<lparr>tabStops := rev (dropWhile (\<lambda>x. \<not> x < cols) (rev (tabStops t)))\<rparr>)
          in Some (edit_total (setColumnCount E cols) t))"

text \<open>Dropping empty rows below the cursor, \<open>n\<close> at most: how many are still to go.\<close>

fun pop_blank_rows :: "nat \<Rightarrow> rowcol \<Rightarrow> terminal \<Rightarrow> (nat \<times> terminal) option" where
  "pop_blank_rows 0 cur t = Some (0, t)"
| "pop_blank_rows (Suc n) cur t =
     (let lastRow = getRowCount t - 1 in
      if lastRow - int (length (scrollbackRows t)) = rc_row cur then Some (Suc n, t)
      else do {
        txt \<leftarrow> getRowText lastRow t;
        (if txt \<noteq> [] then Some (Suc n, t)
         else pop_blank_rows n cur (on_screen (snd \<circ> popRow) t))
      })"

definition realizeHeight :: "env \<Rightarrow> int \<Rightarrow> terminal \<Rightarrow> terminal option" where
  "realizeHeight E rows t =
     (if rows \<le> 0 then None
      else
        let deltaRows = rows - getHeight (current t) in
        if deltaRows = 0 then Some t
        else do {
          let t = t\<lparr>screenSize := (screenSize t)\<lparr>height := rows\<rparr>\<rparr>;
          let cur = saveCursor t;
          (cur, t) \<leftarrow>
            (if deltaRows < 0 then do {
               (n, t) \<leftarrow> pop_blank_rows (nat (- deltaRows)) cur t;
               Some (cur\<lparr>rc_row := max (rc_row cur - int n) 0\<rparr>, to_scrollback (int n) t)
             }
             else
               let back = scrollbackRows t; k = int (length back) in
               if deltaRows \<le> k then
                 Some (cur\<lparr>rc_row := rc_row cur + deltaRows\<rparr>,
                   on_screen (unshiftRows (drop (nat (k - deltaRows)) back))
                     (t\<lparr>scrollbackRows := take (nat (k - deltaRows)) back\<rparr>))
               else Some (cur, appendRows E deltaRows t));
          Some (restoreCursor E cur (setVTScrollRegion None None t))
        })"

definition realizeSize :: "env \<Rightarrow> int \<Rightarrow> int \<Rightarrow> terminal \<Rightarrow> terminal option" where
  "realizeSize E cols rows t = do {
     t \<leftarrow> (if cols \<noteq> width (screenSize t) then realizeWidth E cols t else Some t);
     (if rows \<noteq> height (screenSize t) then realizeHeight E rows t else Some t)
   }"

definition setAlternateMode :: "env \<Rightarrow> bool \<Rightarrow> terminal \<Rightarrow> terminal option" where
  "setAlternateMode E state t =
     (if state = on_alternate t then Some t
      else do {
        let cur = saveCursor t;
        let t = t\<lparr>on_alternate := state\<rparr>;
        let rows = rowsArray (current t);
        t \<leftarrow> (if rows \<noteq> [] \<and> rowIndex (rows_dom t (rows ! 0)) \<noteq> int (length (scrollbackRows t))
              then renumberRows 0 (int (length rows)) t else Some t);
        t \<leftarrow> realizeWidth E (width (screenSize t)) t;
        t \<leftarrow> realizeHeight E (height (screenSize t)) t;
        Some (restoreCursor E cur t)
      })"

section \<open>Saving and restoring the cursor state\<close>

text \<open>
  \<open>CursorState.save\<close> stores the current screen's cursor, whichever screen it belongs to, with
  that screen's attributes and the interpreter's character sets.
\<close>

definition save_state :: "gsets \<Rightarrow> rowcol \<Rightarrow> screen \<Rightarrow> screen" where
  "save_state sets cur s = s\<lparr>cursorState := \<lparr>cs_cursor = Some cur,
     cs_textAttributes = Some (textAttributes s), cs_sets = Some sets\<rparr>\<rparr>"

definition saveCursorAndState :: "bool \<Rightarrow> gsets \<Rightarrow> terminal \<Rightarrow> terminal" where
  "saveCursorAndState both sets t =
     (let cur = saveCursor t in
      if both then t\<lparr>primaryScreen := save_state sets cur (primaryScreen t),
                     alternateScreen := save_state sets cur (alternateScreen t)\<rparr>
      else on_screen (save_state sets cur) t)"

text \<open>\<open>CursorState.restore\<close>, before the attributes go to the screen the state belongs to.\<close>

definition restore_state :: "env \<Rightarrow> screen \<Rightarrow> terminal \<Rightarrow> (gsets \<times> tattrs \<times> terminal) option" where
  "restore_state E s t = do {
     cur \<leftarrow> cs_cursor (cursorState s);
     let t = restoreCursor E cur t;
     ta \<leftarrow> cs_textAttributes (cursorState s);
     ta \<leftarrow> syncColors (ta\<lparr>colorPaletteOverrides := colorPaletteOverrides (textAttributes s)\<rparr>);
     sets \<leftarrow> cs_sets (cursorState s);
     Some (sets, ta, t)
   }"

definition restoreCursorAndState :: "env \<Rightarrow> bool \<Rightarrow> terminal \<Rightarrow> (gsets \<times> terminal) option" where
  "restoreCursorAndState E both t =
     (if both then do {
        (sets, ta, t) \<leftarrow> restore_state E (primaryScreen t) t;
        let t = t\<lparr>primaryScreen := (primaryScreen t)\<lparr>textAttributes := ta\<rparr>\<rparr>;
        (sets, ta, t) \<leftarrow> restore_state E (alternateScreen t) t;
        Some (sets, t\<lparr>alternateScreen := (alternateScreen t)\<lparr>textAttributes := ta\<rparr>\<rparr>)
      }
      else do {
        (sets, ta, t) \<leftarrow> restore_state E (current t) t;
        Some (sets, on_screen (\<lambda>s. s\<lparr>textAttributes := ta\<rparr>) t)
      })"

section \<open>Erasing\<close>

text \<open>\<open>' '.repeat(n)\<close>, which throws on a negative count.\<close>

definition blanks :: "int \<Rightarrow> jsstring option" where
  "blanks n = (if n < 0 then None else Some (js_repeat 32 n))"

definition overwrite_blanks :: "env \<Rightarrow> int \<Rightarrow> terminal \<Rightarrow> terminal option" where
  "overwrite_blanks E cnt t = do {
     ws \<leftarrow> blanks cnt;
     edit (overwriteString E ws (Some cnt)) t
   }"

definition eraseToLeft :: "env \<Rightarrow> terminal \<Rightarrow> terminal option" where
  "eraseToLeft E t = do {
     let cur = saveCursor t;
     t \<leftarrow> overwrite_blanks E (rc_column cur + 1) (setCursorColumn E 0 t);
     Some (restoreCursor E cur t)
   }"

text \<open>A row below the array of rows is \<open>undefined\<close>, and \<open>nodeWidth\<close> throws on it.\<close>

definition cursor_row_width :: "env \<Rightarrow> terminal \<Rightarrow> int option" where
  "cursor_row_width E t =
     (let s = current t; r = rc_row (cursorPosition s) in
      if 0 \<le> r \<and> r < int (length (rowsArray s))
      then Some (strWidth (wc E) (row_text (rows_dom t) (rowsArray s ! nat r))) else None)"

definition delete_on_screen :: "env \<Rightarrow> int \<Rightarrow> terminal \<Rightarrow> (int \<times> terminal) option" where
  "delete_on_screen E cnt t = do {
     (n, d, s) \<leftarrow> Screen.deleteChars E cnt (rows_dom t, current t);
     Some (n, set_current s (t\<lparr>rows_dom := d\<rparr>))
   }"

definition erase_overwriting :: "env \<Rightarrow> int \<Rightarrow> terminal \<Rightarrow> terminal option" where
  "erase_overwriting E cnt t = do {
     let cur = saveCursor t;
     t \<leftarrow> overwrite_blanks E cnt t;
     Some (clearCursorOverflow (restoreCursor E cur t))
   }"

definition eraseToRight :: "env \<Rightarrow> int option \<Rightarrow> terminal \<Rightarrow> terminal option" where
  "eraseToRight E count0 t =
     (if rc_overflow (cursor t) then Some t
      else
        let maxCount = width (screenSize t) - rc_column (cursor t);
            cnt = (case count0 of None \<Rightarrow> maxCount
                   | Some c \<Rightarrow> if c \<noteq> 0 then min c maxCount else maxCount)
        in if background (textAttributes (current t)) = DEFAULT_COLOR then do {
             wd \<leftarrow> cursor_row_width E t;
             (if wd \<le> rc_column (cursor t) + cnt then do {
                (_, t) \<leftarrow> delete_on_screen E cnt t;
                Some (clearCursorOverflow t)
              }
              else erase_overwriting E cnt t)
           }
           else erase_overwriting E cnt t)"

definition eraseLine :: "env \<Rightarrow> terminal \<Rightarrow> terminal option" where
  "eraseLine E t = do {
     let cur = saveCursor t;
     t \<leftarrow> edit (clearCursorRow E) t;
     Some (clearCursorOverflow (restoreCursor E cur t))
   }"

text \<open>The loops that clear \<open>n\<close> rows from row \<open>r\<close> on, in the order of the rows.\<close>

fun clear_rows :: "env \<Rightarrow> nat \<Rightarrow> int \<Rightarrow> terminal \<Rightarrow> terminal option" where
  "clear_rows E 0 r t = Some t"
| "clear_rows E (Suc n) r t = do {
     t \<leftarrow> edit (clearCursorRow E) (setAbsoluteCursorPosition E r 0 t);
     clear_rows E n (r + 1) t
   }"

definition eraseAbove :: "env \<Rightarrow> terminal \<Rightarrow> terminal option" where
  "eraseAbove E t = do {
     let cur = saveCursor t;
     t \<leftarrow> eraseToLeft E t;
     t \<leftarrow> clear_rows E (nat (rc_row cur)) 0 t;
     Some (clearCursorOverflow (restoreCursor E cur t))
   }"

definition eraseBelow :: "env \<Rightarrow> terminal \<Rightarrow> terminal option" where
  "eraseBelow E t = do {
     let cur = saveCursor t;
     t \<leftarrow> eraseToRight E None t;
     let bottom = height (screenSize t) - 1;
     t \<leftarrow> clear_rows E (nat (bottom - rc_row cur)) (rc_row cur + 1) t;
     Some (clearCursorOverflow (restoreCursor E cur t))
   }"

text \<open>The cells of \<open>fill\<close>, row by row.\<close>

fun fill_cells :: "env \<Rightarrow> jsstring \<Rightarrow> (int \<times> int) list \<Rightarrow> terminal \<Rightarrow> terminal option" where
  "fill_cells E ch [] t = Some t"
| "fill_cells E ch ((r, c) # cells) t = do {
     t \<leftarrow> edit (overwriteString E ch (Some 1)) (setAbsoluteCursorPosition E r c t);
     fill_cells E ch cells t
   }"

definition terminal_fill :: "env \<Rightarrow> jsstring \<Rightarrow> terminal \<Rightarrow> terminal option" where
  "terminal_fill E ch t = do {
     let cur = saveCursor t;
     let cells = [(r, c). r \<leftarrow> [0..height (screenSize t) - 1],
                          c \<leftarrow> [0..width (screenSize t) - 1]];
     t \<leftarrow> fill_cells E ch cells (setAbsoluteCursorPosition E 0 0 t);
     Some (restoreCursor E cur t)
   }"

text \<open>\<open>clearHome\<close> and \<open>clear\<close> work on any screen.\<close>

fun clear_screen_rows :: "env \<Rightarrow> nat \<Rightarrow> int \<Rightarrow> dom \<times> screen \<Rightarrow> (dom \<times> screen) option" where
  "clear_screen_rows E 0 i ds = Some ds"
| "clear_screen_rows E (Suc n) i ds = do {
     ds \<leftarrow> clearCursorRow E (setCursorPosition E i 0 ds);
     clear_screen_rows E n (i + 1) ds
   }"

definition clearHome :: "env \<Rightarrow> dom \<times> screen \<Rightarrow> (dom \<times> screen) option" where
  "clearHome E ds =
     (let bottom = length (rowsArray (snd ds)) in
      if bottom = 0 then Some ds
      else do {
        ds \<leftarrow> clear_screen_rows E bottom 0 ds;
        Some (setCursorPosition E 0 0 ds)
      })"

definition clear_screen :: "env \<Rightarrow> dom \<times> screen \<Rightarrow> (dom \<times> screen) option" where
  "clear_screen E ds = do {
     let cur = cursorPosition (snd ds);
     ds \<leftarrow> clearHome E ds;
     Some (setCursorPosition E (rc_row cur) (rc_column cur) ds)
   }"

definition clearHome_both :: "env \<Rightarrow> terminal \<Rightarrow> terminal option" where
  "clearHome_both E t = do {
     (d, s) \<leftarrow> clearHome E (rows_dom t, primaryScreen t);
     let t = t\<lparr>rows_dom := d, primaryScreen := s\<rparr>;
     (d, s) \<leftarrow> clearHome E (rows_dom t, alternateScreen t);
     Some (t\<lparr>rows_dom := d, alternateScreen := s\<rparr>)
   }"

definition clearScrollback :: "terminal \<Rightarrow> terminal option" where
  "clearScrollback t = do {
     let t = t\<lparr>scrollbackRows := []\<rparr>;
     d \<leftarrow> renumber_dom 0 0 (getHeight (primaryScreen t)) (rowsArray (primaryScreen t)) (rows_dom t);
     d \<leftarrow> renumber_dom 0 0 (getHeight (alternateScreen t)) (rowsArray (alternateScreen t)) d;
     Some (t\<lparr>rows_dom := d\<rparr>)
   }"

definition wipeContents :: "env \<Rightarrow> terminal \<Rightarrow> terminal option" where
  "wipeContents E t = clearHome_both E t \<bind> clearScrollback"

section \<open>Inserting and deleting lines and characters\<close>

text \<open>The rows are cleared from the last one up.\<close>

fun clear_rows_down :: "env \<Rightarrow> nat \<Rightarrow> int \<Rightarrow> terminal \<Rightarrow> terminal option" where
  "clear_rows_down E 0 r t = Some t"
| "clear_rows_down E (Suc n) r t = do {
     t \<leftarrow> edit (clearCursorRow E) (setAbsoluteCursorPosition E (r + int n) 0 t);
     clear_rows_down E n r t
   }"

definition insertLines :: "env \<Rightarrow> int \<Rightarrow> terminal \<Rightarrow> terminal option" where
  "insertLines E count0 t = do {
     let cursorRow = rc_row (cursor t);
     let bottom = getVTScrollBottom t;
     let cnt = min count0 (bottom - cursorRow);
     let moveCount = bottom - cursorRow - cnt + 1;
     t \<leftarrow> (if moveCount \<noteq> 0 then moveRows cursorRow moveCount (cursorRow + cnt) t else Some t);
     clear_rows_down E (nat cnt) cursorRow t
   }"

definition deleteLines :: "env \<Rightarrow> int \<Rightarrow> terminal \<Rightarrow> terminal option" where
  "deleteLines E count0 t = do {
     let cur = saveCursor t;
     let top = rc_row cur;
     let bottom = getVTScrollBottom t;
     let maxCount = bottom - top + 1;
     let cnt = min count0 maxCount;
     let moveStart = bottom - cnt + 1;
     t \<leftarrow> (if cnt \<noteq> maxCount then moveRows top cnt moveStart t else Some t);
     t \<leftarrow> clear_rows E (nat cnt) moveStart t;
     Some (clearCursorOverflow (restoreCursor E cur t))
   }"

definition insertSpace :: "env \<Rightarrow> int \<Rightarrow> terminal \<Rightarrow> terminal option" where
  "insertSpace E cnt t = do {
     let cur = saveCursor t;
     ws \<leftarrow> blanks (or_one cnt);
     t \<leftarrow> edit (insertString E ws (Some (or_one cnt))) t;
     t \<leftarrow> edit (maybeClipCurrentRow E) t;
     Some (clearCursorOverflow (restoreCursor E cur t))
   }"

definition terminal_deleteChars :: "env \<Rightarrow> int \<Rightarrow> terminal \<Rightarrow> terminal option" where
  "terminal_deleteChars E cnt t = do {
     (deleted, t) \<leftarrow> delete_on_screen E cnt t;
     t \<leftarrow> (if deleted \<noteq> 0 \<and> \<not> isDefault (textAttributes (current t)) then do {
             let cur = saveCursor t;
             let t = setCursorColumn E (width (screenSize t) - deleted) t;
             ws \<leftarrow> blanks deleted;
             t \<leftarrow> edit (insertString E ws None) t;
             Some (restoreCursor E cur t)
           }
           else Some t);
     Some (clearCursorOverflow t)
   }"

definition vtScrollUp :: "env \<Rightarrow> int \<Rightarrow> terminal \<Rightarrow> terminal option" where
  "vtScrollUp E cnt t = do {
     let cur = saveCursor t;
     t \<leftarrow> deleteLines E cnt (setAbsoluteCursorRow E (getVTScrollTop t) t);
     Some (restoreCursor E cur t)
   }"

definition vtScrollDown :: "env \<Rightarrow> int \<Rightarrow> terminal \<Rightarrow> terminal option" where
  "vtScrollDown E cnt t = do {
     let cur = saveCursor t;
     t \<leftarrow> insertLines E cnt (setAbsoluteCursorPosition E (getVTScrollTop t) 0 t);
     Some (restoreCursor E cur t)
   }"

section \<open>Lines\<close>

definition newLine :: "env \<Rightarrow> terminal \<Rightarrow> terminal option" where
  "newLine E t =
     (let cursorAtEndOfScreen = (rc_row (cursor t) = getHeight (current t) - 1);
          cursorAtEndOfVTRegion = (rc_row (cursor t) = getVTScrollBottom t)
      in if vtScrollTop t \<noteq> None \<and> cursorAtEndOfVTRegion then do {
           t \<leftarrow> vtScrollUp E 1 t;
           Some (setAbsoluteCursorPosition E (rc_row (cursor t)) 0 t)
         }
         else if cursorAtEndOfScreen then Some (appendRows E 1 t)
         else if cursorAtEndOfVTRegion then insertRow_at_cursor E t
         else Some (setAbsoluteCursorPosition E (rc_row (cursor t) + 1) 0 t))"

definition lineFeed :: "env \<Rightarrow> terminal \<Rightarrow> terminal option" where
  "lineFeed E t = do {
     let column = rc_column (cursor t);
     t \<leftarrow> newLine E t;
     Some (setCursorColumn E column t)
   }"

definition formFeed :: "env \<Rightarrow> terminal \<Rightarrow> terminal option" where
  "formFeed E t = (if autoCarriageReturn (options t) then newLine E t else lineFeed E t)"

definition reverseLineFeed :: "env \<Rightarrow> terminal \<Rightarrow> terminal option" where
  "reverseLineFeed E t =
     (let scrollTop = getVTScrollTop t; currentRow = rc_row (cursor t) in
      if currentRow = scrollTop then insertLines E 1 t
      else Some (setAbsoluteCursorRow E (currentRow - 1) t))"

section \<open>Printing\<close>

definition set_token_attrs :: "bool \<Rightarrow> bool \<Rightarrow> terminal \<Rightarrow> terminal" where
  "set_token_attrs w a t = on_screen (\<lambda>s. s\<lparr>textAttributes :=
     (textAttributes s)\<lparr>wcNode := w, asciiNode := a\<rparr>\<rparr>) t"

definition print_token :: "env \<Rightarrow> wtoken \<Rightarrow> terminal \<Rightarrow> terminal option" where
  "print_token E tok t = do {
     let t = set_token_attrs (tok_wcNode tok) (tok_asciiNode tok) t;
     t \<leftarrow> edit (if insertMode (options t)
               then insertString E (tok_str tok) (Some (tok_wcStrWidth tok))
               else overwriteString E (tok_str tok) (Some (tok_wcStrWidth tok))) t;
     Some (set_token_attrs False True t)
   }"

fun print_tokens :: "env \<Rightarrow> wtoken list \<Rightarrow> terminal \<Rightarrow> terminal option" where
  "print_tokens E [] t = Some t"
| "print_tokens E (tok # toks) t = print_token E tok t \<bind> print_tokens E toks"

text \<open>The pending wrap at the start of a turn of the loop.\<close>

definition print_wrap :: "env \<Rightarrow> terminal \<Rightarrow> terminal option" where
  "print_wrap E t =
     (if wraparound (options t) \<and> rc_overflow (cursor t)
      then edit commitLineOverflow t \<bind> newLine E else Some t)"

text \<open>What one turn prints, and by how much the offset grows.\<close>

definition print_piece :: "env \<Rightarrow> jsstring \<Rightarrow> int \<Rightarrow> int \<Rightarrow> terminal \<Rightarrow> jsstring \<times> int" where
  "print_piece E str swidth startOffset t =
     (let cnt = swidth - startOffset;
          room = width (screenSize t) - rc_column (cursor t)
      in if cnt \<ge> room then
           (if \<not> wraparound (options t)
            then (wc_substr (wc E) str startOffset (Some (room - 1)) @
                  wc_substr (wc E) str (swidth - 1) None, swidth)
            else (wc_substr (wc E) str startOffset (Some room), room))
         else (wc_substr (wc E) str startOffset (Some cnt), cnt))"

text \<open>
  The loop. It ends when the offset reaches the width; with a cursor on the screen each turn
  adds at least one. \<open>None\<close> is an exception, or a loop that does not end.
\<close>

partial_function (option) print_loop ::
  "env \<Rightarrow> jsstring \<Rightarrow> int \<Rightarrow> int \<Rightarrow> terminal \<Rightarrow> terminal option" where
  "print_loop E str swidth startOffset t =
     (if startOffset < swidth then do {
        t \<leftarrow> print_wrap E t;
        let piece = print_piece E str swidth startOffset t;
        t \<leftarrow> print_tokens E (splitWidecharString E (fst piece)) t;
        t \<leftarrow> edit (maybeClipCurrentRow E) t;
        print_loop E str swidth (startOffset + snd piece) t
      }
      else Some t)"

declare print_loop.simps [code]

definition terminal_print :: "env \<Rightarrow> jsstring \<Rightarrow> terminal \<Rightarrow> terminal option" where
  "terminal_print E str t =
     (let w = strWidth (wc E) str;
          w = (if w = 0 \<and> str \<noteq> [] then 1 else w)
      in print_loop E str w 0 t)"

section \<open>Modes\<close>

definition set_options :: "(options \<Rightarrow> options) \<Rightarrow> terminal \<Rightarrow> terminal" where
  "set_options f t = t\<lparr>options := f (options t)\<rparr>"

definition setOriginMode :: "env \<Rightarrow> bool \<Rightarrow> terminal \<Rightarrow> terminal" where
  "setOriginMode E state t =
     terminal_setCursorPosition E 0 0 (set_options (\<lambda>opts. opts\<lparr>originMode := state\<rparr>) t)"

definition setInsertMode :: "bool \<Rightarrow> terminal \<Rightarrow> terminal" where
  "setInsertMode state = set_options (\<lambda>opts. opts\<lparr>insertMode := state\<rparr>)"

definition setAutoCarriageReturn :: "bool \<Rightarrow> terminal \<Rightarrow> terminal" where
  "setAutoCarriageReturn state = set_options (\<lambda>opts. opts\<lparr>autoCarriageReturn := state\<rparr>)"

definition setWraparound :: "bool \<Rightarrow> terminal \<Rightarrow> terminal" where
  "setWraparound state = set_options (\<lambda>opts. opts\<lparr>wraparound := state\<rparr>)"

definition setReverseWraparound :: "bool \<Rightarrow> terminal \<Rightarrow> terminal" where
  "setReverseWraparound state = set_options (\<lambda>opts. opts\<lparr>reverseWraparound := state\<rparr>)"

definition setReverseVideo :: "bool \<Rightarrow> terminal \<Rightarrow> terminal" where
  "setReverseVideo state = set_options (\<lambda>opts. opts\<lparr>reverseVideo := state\<rparr>)"

definition setBracketedPaste :: "bool \<Rightarrow> terminal \<Rightarrow> terminal" where
  "setBracketedPaste state = set_options (\<lambda>opts. opts\<lparr>bracketedPaste := state\<rparr>)"

definition setCursorVisible :: "bool \<Rightarrow> terminal \<Rightarrow> terminal" where
  "setCursorVisible state = set_options (\<lambda>opts. opts\<lparr>cursorVisible := state\<rparr>)"

definition setCursorBlink :: "bool \<Rightarrow> terminal \<Rightarrow> terminal" where
  "setCursorBlink state = set_options (\<lambda>opts. opts\<lparr>cursorBlink := state\<rparr>)"

text \<open>
  The constructor, up to the sizes and tab stops: \<open>realizeSize_(80, 24)\<close> and
  \<open>setDefaultTabStops()\<close>, with the character sets of a new interpreter.
\<close>

definition bare_terminal :: "gsets \<Rightarrow> terminal" where
  "bare_terminal sets = saveCursorAndState True sets
     \<lparr>rows_dom = (\<lambda>_. \<lparr>childNodes = [], rowIndex = 0, line_overflow = False\<rparr>), next_row = 0,
      primaryScreen = new_screen 0, alternateScreen = new_screen 0, on_alternate = False,
      screenSize = \<lparr>width = 0, height = 0\<rparr>, scrollbackRows = [], tabStops = [],
      defaultTabStops = True, vtScrollTop = None, vtScrollBottom = None,
      options = new_options\<rparr>"

definition new_terminal :: "env \<Rightarrow> gsets \<Rightarrow> terminal option" where
  "new_terminal E sets = do {
     t \<leftarrow> realizeSize E 80 24 (bare_terminal sets);
     Some (setDefaultTabStops 0 t)
   }"

end
