(* ===== verification/TerminalInv.thy ===== *)
theory TerminalInv
  imports Terminal
begin

text \<open>
  The invariant of the terminal and what keeps it. \<open>term_ok\<close>: the sizes agree, no row is in
  two places, row \<open>i\<close> of scrollback and screen has row index \<open>i\<close>, the cursor is on the
  screen with its node where its column is, the scroll region and the tab stops are within
  the screen, and the other screen is ready to be switched to. The lemmas: moving the cursor
  (\<open>moved\<close>), editing the cursor row (\<open>edited\<close>), and moving rows between the screen, the
  scrollback and nowhere.
\<close>

section \<open>The other screen, and frames\<close>

definition other :: "terminal \<Rightarrow> screen" where
  "other t = (if on_alternate t then primaryScreen t else alternateScreen t)"

lemma current_set_current [simp]: "current (set_current s t) = s"
  by (simp add: current_def set_current_def)

lemma set_current_fields [simp]:
  "rows_dom (set_current s t) = rows_dom t" "next_row (set_current s t) = next_row t"
  "on_alternate (set_current s t) = on_alternate t" "screenSize (set_current s t) = screenSize t"
  "scrollbackRows (set_current s t) = scrollbackRows t" "tabStops (set_current s t) = tabStops t"
  "defaultTabStops (set_current s t) = defaultTabStops t"
  "vtScrollTop (set_current s t) = vtScrollTop t"
  "vtScrollBottom (set_current s t) = vtScrollBottom t" "options (set_current s t) = options t"
  "other (set_current s t) = other t"
  by (simp_all add: set_current_def other_def)

lemma current_update [simp]:
  "current (t\<lparr>rows_dom := d\<rparr>) = current t" "current (t\<lparr>next_row := n\<rparr>) = current t"
  "current (t\<lparr>screenSize := z\<rparr>) = current t" "current (t\<lparr>scrollbackRows := rs\<rparr>) = current t"
  "current (t\<lparr>tabStops := ts\<rparr>) = current t" "current (t\<lparr>defaultTabStops := b\<rparr>) = current t"
  "current (t\<lparr>vtScrollTop := a\<rparr>) = current t" "current (t\<lparr>vtScrollBottom := a\<rparr>) = current t"
  "current (t\<lparr>options := os\<rparr>) = current t"
  by (simp_all add: current_def)

lemma other_update [simp]:
  "other (t\<lparr>rows_dom := d\<rparr>) = other t" "other (t\<lparr>next_row := n\<rparr>) = other t"
  "other (t\<lparr>screenSize := z\<rparr>) = other t" "other (t\<lparr>scrollbackRows := rs\<rparr>) = other t"
  "other (t\<lparr>tabStops := ts\<rparr>) = other t" "other (t\<lparr>defaultTabStops := b\<rparr>) = other t"
  "other (t\<lparr>vtScrollTop := a\<rparr>) = other t" "other (t\<lparr>vtScrollBottom := a\<rparr>) = other t"
  "other (t\<lparr>options := os\<rparr>) = other t"
  by (simp_all add: other_def)

section \<open>The invariant\<close>

definition cursor_node_ok :: "env \<Rightarrow> dom \<Rightarrow> rowid \<Rightarrow> screen \<Rightarrow> bool" where
  "cursor_node_ok E d n s \<longleftrightarrow> (\<forall>r. cursor_consistent E d s r) \<and> (\<forall>r. cursorRowNode s = Some r \<longrightarrow> r < n)"

text \<open>Row \<open>i\<close> of the scrollback followed by the screen has the row index \<open>i\<close>.\<close>

definition all_rows :: "terminal \<Rightarrow> rowid list" where
  "all_rows t = scrollbackRows t @ rowsArray (current t)"

definition numbered :: "dom \<Rightarrow> int \<Rightarrow> rowid list \<Rightarrow> bool" where
  "numbered d start rows \<longleftrightarrow> (\<forall>i < length rows. rowIndex (d (rows ! i)) = start + int i)"

lemma numbered_Nil [simp]: "numbered d k []"
  by (simp add: numbered_def)

lemma numbered_Cons [simp]: "numbered d k (r # rows) \<longleftrightarrow> rowIndex (d r) = k \<and> numbered d (k + 1) rows"
  unfolding numbered_def
proof (intro iffI conjI allI impI)
  fix i
  assume "rowIndex (d r) = k \<and> (\<forall>i < length rows. rowIndex (d (rows ! i)) = k + 1 + int i)"
    and "i < length (r # rows)"
  then show "rowIndex (d ((r # rows) ! i)) = k + int i" by (cases i) auto
next
  assume *: "\<forall>i < length (r # rows). rowIndex (d ((r # rows) ! i)) = k + int i"
  show "rowIndex (d r) = k" using * by force
  show "rowIndex (d (rows ! i)) = k + 1 + int i" if "i < length rows" for i
    using * [rule_format, of "Suc i"] that by simp
qed

lemma numbered_append [simp]:
  "numbered d k (xs @ ys) \<longleftrightarrow> numbered d k xs \<and> numbered d (k + int (length xs)) ys"
  by (induction xs arbitrary: k) (simp_all add: algebra_simps)

lemma numbered_cong: "(\<And>r. r \<in> set rows \<Longrightarrow> rowIndex (d' r) = rowIndex (d r)) \<Longrightarrow> numbered d' k rows = numbered d k rows"
  by (simp add: numbered_def)

definition region_ok :: "terminal \<Rightarrow> bool" where
  "region_ok t \<longleftrightarrow> 0 \<le> getVTScrollTop t \<and> getVTScrollTop t \<le> getVTScrollBottom t \<and>
     getVTScrollBottom t < height (screenSize t)"

definition tabs_ok :: "int \<Rightarrow> int list \<Rightarrow> bool" where
  "tabs_ok w stops \<longleftrightarrow> sorted_wrt (<) stops \<and> (\<forall>x \<in> set stops. 0 \<le> x \<and> x < w)"

definition other_ok :: "env \<Rightarrow> terminal \<Rightarrow> bool" where
  "other_ok E t \<longleftrightarrow> attrs_ok (textAttributes (other t)) \<and>
     (\<forall>r. cursorRowNode (other t) = Some r \<longrightarrow> r \<in> set (rowsArray (other t))) \<and>
     (\<forall>r \<in> set (rowsArray (other t)). narrow_row (rows_dom t) r) \<and>
     cursor_node_ok E (rows_dom t) (next_row t) (other t) \<and>
     (\<exists>k. numbered (rows_dom t) k (rowsArray (other t))) \<and> 0 \<le> columnCount (other t)"

text \<open>What also holds between the steps of an operation that moves rows.\<close>

definition store_wf :: "env \<Rightarrow> terminal \<Rightarrow> bool" where
  "store_wf E t \<longleftrightarrow>
     wc_ok (wc E) \<and> 0 < width (screenSize t) \<and>
     attrs_ok (textAttributes (current t)) \<and>
     (\<forall>r \<in> set (all_rows t). narrow_row (rows_dom t) r) \<and>
     cursor_node_ok E (rows_dom t) (next_row t) (current t) \<and>
     distinct (all_rows t @ rowsArray (other t)) \<and>
     (\<forall>r \<in> set (all_rows t) \<union> set (rowsArray (other t)). r < next_row t) \<and>
     tabs_ok (width (screenSize t)) (tabStops t) \<and> other_ok E t"

definition term_wf :: "env \<Rightarrow> terminal \<Rightarrow> bool" where
  "term_wf E t \<longleftrightarrow> store_wf E t \<and> 0 < height (screenSize t) \<and>
     columnCount (current t) = width (screenSize t) \<and>
     int (length (rowsArray (current t))) = height (screenSize t) \<and>
     numbered (rows_dom t) 0 (all_rows t) \<and> region_ok t"

definition term_ok :: "env \<Rightarrow> terminal \<Rightarrow> bool" where
  "term_ok E t \<longleftrightarrow> term_wf E t \<and> screen_ok E (rows_dom t) (current t) \<and>
     rc_column (cursor t) < width (screenSize t)"

lemma term_ok_wf [simp]: "term_ok E t \<Longrightarrow> term_wf E t"
  by (simp add: term_ok_def)

lemma term_wf_store [simp]: "term_wf E t \<Longrightarrow> store_wf E t"
  by (simp add: term_wf_def)

lemma store_wfD:
  assumes "store_wf E t"
  shows "wc_ok (wc E)" "0 < width (screenSize t)"
    "attrs_ok (textAttributes (current t))"
    "\<forall>r \<in> set (all_rows t). narrow_row (rows_dom t) r"
    "cursor_node_ok E (rows_dom t) (next_row t) (current t)"
    "distinct (all_rows t @ rowsArray (other t))"
    "\<forall>r \<in> set (all_rows t) \<union> set (rowsArray (other t)). r < next_row t"
    "tabs_ok (width (screenSize t)) (tabStops t)" "other_ok E t"
  using assms by (simp_all add: store_wf_def)

lemma term_wfD:
  assumes "term_wf E t"
  shows "0 < width (screenSize t)" "0 < height (screenSize t)"
    "columnCount (current t) = width (screenSize t)"
    "int (length (rowsArray (current t))) = height (screenSize t)"
    "numbered (rows_dom t) 0 (all_rows t)" "region_ok t"
  using assms by (simp_all add: term_wf_def store_wf_def)

lemma clamp_bounds: "lo \<le> hi \<Longrightarrow> lo \<le> clamp v lo hi \<and> clamp v lo hi \<le> hi"
  by (simp add: clamp_def)

lemma clamp_id [simp]: "lo \<le> v \<Longrightarrow> v \<le> hi \<Longrightarrow> clamp v lo hi = v"
  by (simp add: clamp_def)

lemma scroll_set_current [simp]:
  "getVTScrollTop (set_current s t) = getVTScrollTop t"
  "getVTScrollBottom (set_current s t) = getVTScrollBottom t"
  by (simp_all add: getVTScrollTop_def getVTScrollBottom_def cong: option.case_cong)

lemma scroll_update [simp]:
  "getVTScrollTop (t\<lparr>rows_dom := d\<rparr>) = getVTScrollTop t"
  "getVTScrollBottom (t\<lparr>rows_dom := d\<rparr>) = getVTScrollBottom t"
  "getVTScrollTop (t\<lparr>next_row := n\<rparr>) = getVTScrollTop t"
  "getVTScrollBottom (t\<lparr>next_row := n\<rparr>) = getVTScrollBottom t"
  "getVTScrollTop (t\<lparr>scrollbackRows := rs\<rparr>) = getVTScrollTop t"
  "getVTScrollBottom (t\<lparr>scrollbackRows := rs\<rparr>) = getVTScrollBottom t"
  by (simp_all add: getVTScrollTop_def getVTScrollBottom_def cong: option.case_cong)

text \<open>
  A change of the store and the current screen that leaves the other screen's rows and all row
  indices alone, and does not change which rows the screen has.
\<close>

lemma store_wf_edit:
  assumes wf: "store_wf E t"
    and rest: "\<forall>r. r \<notin> set (rowsArray (current t)) \<longrightarrow> d' r = rows_dom t r"
    and idx: "\<forall>r. rowIndex (d' r) = rowIndex (rows_dom t r)"
    and nar: "\<forall>r \<in> set (rowsArray (current t)). narrow_row d' r"
    and s': "rowsArray s' = rowsArray (current t)"
      "attrs_ok (textAttributes s')" "cursor_node_ok E d' (next_row t) s'"
  shows "store_wf E (set_current s' (t\<lparr>rows_dom := d'\<rparr>))"
proof -
  note wfD = store_wfD [OF wf]
  have rest': "d' r = rows_dom t r" if "r \<in> set (rowsArray (other t))" for r
    using wfD(6) rest that by (auto simp: all_rows_def)
  have "cursor_consistent E d' (other t) r" for r
    using wfD(9) rest' by (auto simp: other_ok_def cursor_node_ok_def cursor_consistent_def)
  moreover have "narrow_row d' r" if "r \<in> set (rowsArray (other t))" for r
    using wfD(9) rest' [OF that] that by (auto simp: other_ok_def narrow_row_def)
  ultimately have "other_ok E (set_current s' (t\<lparr>rows_dom := d'\<rparr>))"
    using wfD(9) idx by (simp add: other_ok_def cursor_node_ok_def numbered_def)
  moreover have "narrow_row d' r" if "r \<in> set (all_rows t)" for r
    using wfD(4) nar rest that by (cases "r \<in> set (rowsArray (current t))") (auto simp: narrow_row_def)
  ultimately show ?thesis
    using wfD s' by (simp add: store_wf_def all_rows_def)
qed

lemma term_wf_edit:
  assumes "term_wf E t"
    and "\<forall>r. r \<notin> set (rowsArray (current t)) \<longrightarrow> d' r = rows_dom t r"
    and "\<forall>r. rowIndex (d' r) = rowIndex (rows_dom t r)"
    and "\<forall>r \<in> set (rowsArray (current t)). narrow_row d' r"
    and "rowsArray s' = rowsArray (current t)" "columnCount s' = columnCount (current t)"
      "attrs_ok (textAttributes s')" "cursor_node_ok E d' (next_row t) s'"
  shows "term_wf E (set_current s' (t\<lparr>rows_dom := d'\<rparr>))"
  using assms store_wf_edit [OF term_wf_store [OF assms(1)] assms(2-5,7,8)]
  by (simp add: term_wf_def all_rows_def numbered_def region_ok_def)

section \<open>Placing the cursor\<close>

text \<open>What a change of the cursor, or of the text of rows, leaves as it is.\<close>

definition same_frame :: "terminal \<Rightarrow> terminal \<Rightarrow> bool" where
  "same_frame t t' \<longleftrightarrow> screenSize t' = screenSize t \<and> options t' = options t \<and>
     vtScrollTop t' = vtScrollTop t \<and> vtScrollBottom t' = vtScrollBottom t \<and>
     tabStops t' = tabStops t \<and> defaultTabStops t' = defaultTabStops t \<and>
     on_alternate t' = on_alternate t \<and> other t' = other t"

definition same_rows :: "terminal \<Rightarrow> terminal \<Rightarrow> bool" where
  "same_rows t t' \<longleftrightarrow> rowsArray (current t') = rowsArray (current t) \<and>
     scrollbackRows t' = scrollbackRows t \<and> next_row t' = next_row t"

definition same_text :: "terminal \<Rightarrow> terminal \<Rightarrow> bool" where
  "same_text t t' \<longleftrightarrow> (\<forall>r. row_text (rows_dom t') r = row_text (rows_dom t) r \<and>
     line_overflow (rows_dom t' r) = line_overflow (rows_dom t r) \<and>
     rowIndex (rows_dom t' r) = rowIndex (rows_dom t r))"

lemma same_frame_refl [simp]: "same_frame t t"
  by (simp add: same_frame_def)

lemma same_frame_trans [trans]: "same_frame t t' \<Longrightarrow> same_frame t' t'' \<Longrightarrow> same_frame t t''"
  by (simp add: same_frame_def)

lemma same_frame_set_current [simp]:
  "same_frame t (set_current s t') \<longleftrightarrow> same_frame t t'"
  by (simp add: same_frame_def)

lemma same_frame_update [simp]:
  "same_frame t (t'\<lparr>rows_dom := d\<rparr>) \<longleftrightarrow> same_frame t t'"
  "same_frame t (t'\<lparr>next_row := n\<rparr>) \<longleftrightarrow> same_frame t t'"
  "same_frame t (t'\<lparr>scrollbackRows := rs\<rparr>) \<longleftrightarrow> same_frame t t'"
  by (simp_all add: same_frame_def)

lemma same_frame_scroll:
  "same_frame t t' \<Longrightarrow> getVTScrollTop t' = getVTScrollTop t"
  "same_frame t t' \<Longrightarrow> getVTScrollBottom t' = getVTScrollBottom t"
  by (simp_all add: same_frame_def getVTScrollTop_def getVTScrollBottom_def cong: option.case_cong)

lemma same_rows_refl [simp]: "same_rows t t" "same_text t t"
  by (simp_all add: same_rows_def same_text_def)

lemma same_rows_trans [trans]: "same_rows t t' \<Longrightarrow> same_rows t' t'' \<Longrightarrow> same_rows t t''"
  by (simp add: same_rows_def)

lemma place_cursor_result:
  fixes r c :: int
  assumes wf: "store_wf E t" and rows: "rowsArray (current t) \<noteq> []" "0 < columnCount (current t)"
  defines "r' \<equiv> clamp_index r (int (length (rowsArray (current t))))"
    and "c' \<equiv> clamp_index c (columnCount (current t))"
  shows "store_wf E (place_cursor E r c t)"
    and "screen_ok E (rows_dom (place_cursor E r c t)) (current (place_cursor E r c t))"
    and "cursor (place_cursor E r c t) = RowCol r' c'"
    and "same_frame t (place_cursor E r c t)" and "same_rows t (place_cursor E r c t)"
    and "same_text t (place_cursor E r c t)"
    and "columnCount (current (place_cursor E r c t)) = columnCount (current t)"
    and "textAttributes (current (place_cursor E r c t)) = textAttributes (current t)"
proof -
  note wfD = store_wfD [OF wf]
  let ?s = "current t" and ?d = "rows_dom t"
  let ?R = "rowsArray ?s ! nat r'"
  have r': "0 \<le> r'" "r' < int (length (rowsArray ?s))" and c': "0 \<le> c'" "c' < columnCount ?s"
    using clamp_index_bounds rows by (auto simp: r'_def c'_def)
  have R: "?R \<in> set (rowsArray ?s)" using r' by simp
  obtain i off where set: "setCursorPosition E r c (?d, ?s) =
      (?d(?R := (?d ?R)\<lparr>childNodes := with_nodes (childNodes (?d ?R))\<rparr>),
       ?s\<lparr>cursorPosition := RowCol r' c', cursorRowNode := Some ?R, cursorNode := Some i,
         cursorOffset := off\<rparr>)" (is "_ = (?d', ?s')")
    and ok: "cursor_ok E (with_nodes (childNodes (?d ?R))) i off c'"
    unfolding r'_def c'_def
    by (rule setCursorPosition_result [OF wfD(1) rows, where ?row0.0 = r and ?column0.0 = c and d = ?d])
      (use wfD(5) in \<open>auto simp: cursor_node_ok_def\<close>)
  have place: "place_cursor E r c t = set_current ?s' (t\<lparr>rows_dom := ?d'\<rparr>)"
    unfolding place_cursor_def edit_total_def set by simp
  have narrow: "narrow_row ?d' q" if "q \<in> set (rowsArray ?s)" for q
    using wfD(4) that by (auto simp: narrow_row_def with_nodes_def all_rows_def)
  have cons: "cursor_node_ok E ?d' (next_row t) ?s'"
    using ok wfD(7) R by (simp add: cursor_node_ok_def cursor_consistent_def RowCol_def all_rows_def)
  show "store_wf E (place_cursor E r c t)"
    unfolding place using R narrow cons wfD(3) by (intro store_wf_edit [OF wf]) auto
  show "screen_ok E (rows_dom (place_cursor E r c t)) (current (place_cursor E r c t))"
    using wfD(1) rows r' c' ok by (simp add: place screen_ok_def RowCol_def)
  show "cursor (place_cursor E r c t) = RowCol r' c'"
    "same_frame t (place_cursor E r c t)" "same_rows t (place_cursor E r c t)"
    "columnCount (current (place_cursor E r c t)) = columnCount (current t)"
    "textAttributes (current (place_cursor E r c t)) = textAttributes (current t)"
    by (simp_all add: place same_rows_def)
  show "same_text t (place_cursor E r c t)"
    by (simp add: place same_text_def row_text_def with_nodes_def)
qed

lemma numbered_same_text: "same_text t t' \<Longrightarrow> numbered (rows_dom t') k rows = numbered (rows_dom t) k rows"
  by (simp add: numbered_def same_text_def)

lemma place_cursor_ok:
  fixes r c :: int
  assumes wf: "term_wf E t"
  defines "r' \<equiv> clamp_index r (height (screenSize t))" and "c' \<equiv> clamp_index c (width (screenSize t))"
  shows "term_ok E (place_cursor E r c t)" and "cursor (place_cursor E r c t) = RowCol r' c'"
    and "same_frame t (place_cursor E r c t)" and "same_rows t (place_cursor E r c t)"
    and "same_text t (place_cursor E r c t)"
    and "textAttributes (current (place_cursor E r c t)) = textAttributes (current t)"
proof -
  note wfD = term_wfD [OF wf]
  have "rowsArray (current t) \<noteq> []" using wfD(2,4) by auto
  moreover have "0 < columnCount (current t)" using wfD(1,3) by simp
  ultimately have place: "store_wf E (place_cursor E r c t)"
    "screen_ok E (rows_dom (place_cursor E r c t)) (current (place_cursor E r c t))"
    "cursor (place_cursor E r c t) = RowCol r' c'"
    "same_frame t (place_cursor E r c t)" "same_rows t (place_cursor E r c t)"
    "same_text t (place_cursor E r c t)"
    "columnCount (current (place_cursor E r c t)) = columnCount (current t)"
    "textAttributes (current (place_cursor E r c t)) = textAttributes (current t)"
    using place_cursor_result [OF term_wf_store [OF wf], of r c] wfD(3,4)
    by (simp_all add: r'_def c'_def)
  have "c' < width (screenSize t)" using clamp_index_bounds [OF wfD(1)] by (simp add: c'_def)
  then show "term_ok E (place_cursor E r c t)"
    using place wfD numbered_same_text [OF place(6)] same_frame_scroll [OF place(4)]
    by (simp add: term_ok_def term_wf_def same_frame_def same_rows_def region_ok_def all_rows_def
        RowCol_def)
  show "cursor (place_cursor E r c t) = RowCol r' c'"
    "same_frame t (place_cursor E r c t)" "same_rows t (place_cursor E r c t)"
    "same_text t (place_cursor E r c t)"
    "textAttributes (current (place_cursor E r c t)) = textAttributes (current t)"
    using place by simp_all
qed

section \<open>Moving the cursor\<close>

text \<open>\<open>moved\<close>: only the cursor may differ, and the terminal is in order.\<close>

definition moved :: "env \<Rightarrow> terminal \<Rightarrow> terminal \<Rightarrow> bool" where
  "moved E t t' \<longleftrightarrow> term_ok E t' \<and> same_frame t t' \<and> same_rows t t' \<and> same_text t t' \<and>
     textAttributes (current t') = textAttributes (current t)"

lemma same_text_trans [trans]: "same_text t t' \<Longrightarrow> same_text t' t'' \<Longrightarrow> same_text t t''"
  by (simp add: same_text_def)

lemma moved_trans [trans]: "moved E t t' \<Longrightarrow> moved E t' t'' \<Longrightarrow> moved E t t''"
  unfolding moved_def
  by (metis same_frame_trans same_rows_trans same_text_trans)

lemma moved_refl [simp]: "moved E t t \<longleftrightarrow> term_ok E t"
  by (simp add: moved_def)

lemma movedD:
  assumes "moved E t t'"
  shows "term_ok E t'" "term_wf E t'" "same_frame t t'" "same_rows t t'" "same_text t t'"
    "textAttributes (current t') = textAttributes (current t)"
  using assms by (simp_all add: moved_def)

lemma moved_place [intro!]: "term_wf E t \<Longrightarrow> moved E t (place_cursor E r c t)"
  by (simp add: moved_def place_cursor_ok)

lemma cursor_on_screen [simp]: "cursor (on_screen f t) = cursorPosition (f (current t))"
  by (simp add: on_screen_def)

lemma set_overflow_fields [simp]:
  "rowsArray (set_overflow b s) = rowsArray s" "columnCount (set_overflow b s) = columnCount s"
  "textAttributes (set_overflow b s) = textAttributes s"
  "cursorRowNode (set_overflow b s) = cursorRowNode s" "cursorNode (set_overflow b s) = cursorNode s"
  "cursorOffset (set_overflow b s) = cursorOffset s"
  "rc_row (cursorPosition (set_overflow b s)) = rc_row (cursorPosition s)"
  "rc_column (cursorPosition (set_overflow b s)) = rc_column (cursorPosition s)"
  "rc_overflow (cursorPosition (set_overflow b s)) = b"
  by (simp_all add: set_overflow_def)

lemma same_dom_update [simp]: "t\<lparr>rows_dom := rows_dom t\<rparr> = t"
  by simp

lemma moved_overflow:
  assumes ok: "term_ok E t"
  shows "moved E t (on_screen (set_overflow b) t)"
proof -
  have wf: "term_wf E t" and scr: "screen_ok E (rows_dom t) (current t)"
    and col: "rc_column (cursor t) < width (screenSize t)" using ok by (simp_all add: term_ok_def)
  note wfD = store_wfD [OF term_wf_store [OF wf]]
  have "cursor_node_ok E (rows_dom t) (next_row t) (set_overflow b (current t))"
    using wfD(5) by (simp add: cursor_node_ok_def cursor_consistent_def)
  then have "term_wf E (set_current (set_overflow b (current t)) (t\<lparr>rows_dom := rows_dom t\<rparr>))"
    using wfD by (intro term_wf_edit [OF wf]) (auto simp: all_rows_def)
  moreover have "screen_ok E (rows_dom t) (set_overflow b (current t))"
    using scr by (simp add: screen_ok_def)
  ultimately show ?thesis
    using col by (simp add: moved_def term_ok_def on_screen_def same_rows_def same_text_def)
qed

lemma clamp_index_clamp [simp]: "0 < n \<Longrightarrow> clamp_index (clamp v 0 (n - 1)) n = clamp v 0 (n - 1)"
  by (simp add: clamp_index_def clamp_def)

lemma moved_absolute:
  assumes "term_wf E t"
  shows "moved E t (setAbsoluteCursorPosition E r c t)"
    and "cursor (setAbsoluteCursorPosition E r c t) =
      RowCol (clamp r 0 (height (screenSize t) - 1)) (clamp c 0 (width (screenSize t) - 1))"
  using moved_place [OF assms] place_cursor_ok(2) [OF assms] term_wfD [OF assms]
  by (simp_all add: setAbsoluteCursorPosition_def)

lemma region_clamp:
  assumes "region_ok t"
  shows "clamp_index (clamp v (getVTScrollTop t) (getVTScrollBottom t)) (height (screenSize t)) =
    clamp v (getVTScrollTop t) (getVTScrollBottom t)"
  using assms by (auto simp: region_ok_def clamp_index_def clamp_def)

lemma moved_relative:
  assumes "term_wf E t"
  shows "moved E t (setRelativeCursorPosition E r c t)"
    and "cursor (setRelativeCursorPosition E r c t) =
      RowCol (clamp (r + getVTScrollTop t) (getVTScrollTop t) (getVTScrollBottom t))
        (clamp c 0 (width (screenSize t) - 1))"
  using moved_place [OF assms] place_cursor_ok(2) [OF assms] term_wfD [OF assms]
    region_clamp [of t]
  by (simp_all add: setRelativeCursorPosition_def)

lemma moved_set:
  assumes "term_wf E t"
  shows "moved E t (terminal_setCursorPosition E r c t)"
  using moved_absolute [OF assms] moved_relative [OF assms]
  by (simp add: terminal_setCursorPosition_def)

lemma moved_column: "term_wf E t \<Longrightarrow> moved E t (setCursorColumn E c t)"
  and moved_row: "term_wf E t \<Longrightarrow> moved E t (setAbsoluteCursorRow E r t)"
  using moved_absolute by (simp_all add: setCursorColumn_def setAbsoluteCursorRow_def)

lemma moved_restore:
  assumes "term_wf E t"
  shows "moved E t (restoreCursor E cur t)"
    and "rc_row (cursor (restoreCursor E cur t)) = clamp (rc_row cur) 0 (height (screenSize t) - 1)"
    and "rc_column (cursor (restoreCursor E cur t)) =
      clamp (rc_column cur) 0 (width (screenSize t) - 1)"
proof -
  let ?t = "place_cursor E (clamp (rc_row cur) 0 (height (screenSize t) - 1))
    (clamp (rc_column cur) 0 (width (screenSize t) - 1)) t"
  have mv: "moved E t ?t" using assms by (rule moved_place)
  moreover have "moved E ?t (on_screen (set_overflow True) ?t)"
    using moved_overflow movedD(1) [OF mv] by simp
  ultimately show "moved E t (restoreCursor E cur t)"
    using moved_trans [of E t ?t] by (auto simp: restoreCursor_def Let_def)
  have "cursor ?t = RowCol (clamp (rc_row cur) 0 (height (screenSize t) - 1))
      (clamp (rc_column cur) 0 (width (screenSize t) - 1))"
    using place_cursor_ok(2) [OF assms] term_wfD [OF assms] by simp
  then show "rc_row (cursor (restoreCursor E cur t)) = clamp (rc_row cur) 0 (height (screenSize t) - 1)"
    and "rc_column (cursor (restoreCursor E cur t)) =
      clamp (rc_column cur) 0 (width (screenSize t) - 1)"
    by (simp_all add: restoreCursor_def Let_def RowCol_def)
qed

lemma moved_clear_overflow: "term_ok E t \<Longrightarrow> moved E t (clearCursorOverflow t)"
  by (simp add: clearCursorOverflow_def moved_overflow)

lemma moved_restore_clear:
  assumes "term_wf E t"
  shows "moved E t (clearCursorOverflow (restoreCursor E cur t))"
  using moved_trans [OF moved_restore(1) [OF assms] moved_clear_overflow]
    movedD(1) [OF moved_restore(1) [OF assms]] by simp

lemma moved_down: "term_wf E t \<Longrightarrow> moved E t (cursorDown E n t)"
  and moved_up: "term_wf E t \<Longrightarrow> moved E t (cursorUp E n t)"
  by (simp_all add: cursorUp_def cursorDown_def Let_def moved_row)

lemma moved_wrap_left: "term_wf E t \<Longrightarrow> moved E t (wrap_left E n t)"
  unfolding wrap_left_def Let_def by (rule moved_set)

lemma moved_left: "term_ok E t \<Longrightarrow> moved E t (cursorLeft E n t)"
  using moved_clear_overflow [of E t] moved_wrap_left [of E t] moved_column [of E t]
    moved_trans [OF moved_clear_overflow [of E t] moved_wrap_left [of E "clearCursorOverflow t"]]
  by (auto simp: cursorLeft_def Let_def dest: movedD)

lemma moved_right: "term_ok E t \<Longrightarrow> moved E t (cursorRight E n t)"
  using moved_column [of E t] by (simp add: cursorRight_def Let_def)

lemma moved_forward_tab: "term_ok E t \<Longrightarrow> moved E t (forwardTabStop E t)"
  and moved_backward_tab: "term_ok E t \<Longrightarrow> moved E t (backwardTabStop E t)"
proof -
  assume ok: "term_ok E t"
  then have col: "moved E t (setCursorColumn E c t)" for c by (simp add: moved_column)
  then have "moved E t (on_screen (set_overflow b) (setCursorColumn E c t))" for b c
    using moved_trans [OF col moved_overflow] movedD(1) [OF col] by simp
  with col show "moved E t (forwardTabStop E t)" "moved E t (backwardTabStop E t)"
    by (auto simp: forwardTabStop_def backwardTabStop_def split: list.split)
qed

lemmas moves = moved_absolute(1) moved_relative(1) moved_set moved_column moved_row
  moved_restore(1) moved_clear_overflow moved_restore_clear moved_down moved_up moved_left
  moved_right moved_forward_tab moved_backward_tab

section \<open>Editing the cursor row\<close>

text \<open>
  \<open>edited\<close>: the texts of rows may differ as well, and the cursor may be beyond the last column,
  as it is before the row is clipped.
\<close>

definition edited :: "env \<Rightarrow> terminal \<Rightarrow> terminal \<Rightarrow> bool" where
  "edited E t t' \<longleftrightarrow> term_wf E t' \<and> screen_ok E (rows_dom t') (current t') \<and> same_frame t t' \<and>
     same_rows t t' \<and> textAttributes (current t') = textAttributes (current t)"

lemma editedD:
  assumes "edited E t t'"
  shows "term_wf E t'" "screen_ok E (rows_dom t') (current t')" "same_frame t t'" "same_rows t t'"
    "textAttributes (current t') = textAttributes (current t)"
  using assms by (simp_all add: edited_def)

lemma moved_edited: "moved E t t' \<Longrightarrow> edited E t t'"
  by (simp add: moved_def edited_def term_ok_def)

lemma edited_trans [trans]: "edited E t t' \<Longrightarrow> edited E t' t'' \<Longrightarrow> edited E t t''"
  unfolding edited_def by (metis same_frame_trans same_rows_trans)

lemma edited_refl [simp]: "term_ok E t \<Longrightarrow> edited E t t"
  by (simp add: edited_def term_ok_def)

lemma edited_ok: "edited E t t' \<Longrightarrow> rc_column (cursor t') < width (screenSize t') \<Longrightarrow> term_ok E t'"
  by (simp add: edited_def term_ok_def)

lemma screen_ok_node:
  "screen_ok E d s \<Longrightarrow> cursor_row s < n \<Longrightarrow> cursor_node_ok E d n s"
  by (auto simp: screen_ok_def cursor_node_ok_def cursor_consistent_def cursor_row_def)

lemma edit_edited:
  assumes re: "row_edit E pre f" and wf: "term_wf E t" and scr: "screen_ok E (rows_dom t) (current t)"
    and pre: "pre (rows_dom t, current t)"
  obtains d s where "f (rows_dom t, current t) = Some (d, s)"
    "edit f t = Some (set_current s (t\<lparr>rows_dom := d\<rparr>))"
    "edited E t (set_current s (t\<lparr>rows_dom := d\<rparr>))"
    "same_rest (rows_dom t, current t) (d, s)"
proof -
  let ?d = "rows_dom t" and ?s = "current t"
  have nar: "narrow_rows (?d, ?s)"
    using store_wfD(4) [OF term_wf_store [OF wf]] by (simp add: narrow_rows_def all_rows_def)
  then have "narrow_row ?d (cursor_row ?s)"
    using screen_ok_cursor_row [OF scr] by (simp add: narrow_rows_def)
  then obtain d s where f: "f (?d, ?s) = Some (d, s)"
    using row_edit.edits [OF re scr _ pre] by blast
  have kept: "screen_ok E d s" "narrow_rows (d, s)" "same_rest (?d, ?s) (d, s)"
    using row_edit.keeps [OF re scr nar pre f] by simp_all
  have "rowIndex (d r) = rowIndex (?d r)" "r \<notin> set (rowsArray ?s) \<Longrightarrow> d r = ?d r" for r
    using kept(3) screen_ok_cursor_row [OF scr]
    by (cases "r = cursor_row ?s"; auto simp: same_rest_def)+
  moreover have "cursor_row s < next_row t"
    using store_wfD(7) [OF term_wf_store [OF wf]] screen_ok_cursor_row [OF kept(1)] kept(3)
    by (simp add: same_rest_def all_rows_def)
  ultimately have "term_wf E (set_current s (t\<lparr>rows_dom := d\<rparr>))"
    using kept store_wfD(3) [OF term_wf_store [OF wf]] screen_ok_node [OF kept(1)]
    by (intro term_wf_edit [OF wf]) (auto simp: same_rest_def narrow_rows_def)
  then show thesis
    using that [OF f] kept f by (simp add: edited_def edit_def same_rows_def same_rest_def)
qed

section \<open>Moving rows\<close>

text \<open>Other rows of the store in the scrollback and on the screen.\<close>

definition with_rows :: "rowid list \<Rightarrow> rowid list \<Rightarrow> terminal \<Rightarrow> terminal" where
  "with_rows sb rows t = set_current ((current t)\<lparr>rowsArray := rows\<rparr>) (t\<lparr>scrollbackRows := sb\<rparr>)"

lemma with_rows_fields [simp]:
  "scrollbackRows (with_rows sb rows t) = sb" "current (with_rows sb rows t) = (current t)\<lparr>rowsArray := rows\<rparr>"
  "other (with_rows sb rows t) = other t" "rows_dom (with_rows sb rows t) = rows_dom t"
  "next_row (with_rows sb rows t) = next_row t" "screenSize (with_rows sb rows t) = screenSize t"
  "tabStops (with_rows sb rows t) = tabStops t" "all_rows (with_rows sb rows t) = sb @ rows"
  "getVTScrollTop (with_rows sb rows t) = getVTScrollTop t"
  "getVTScrollBottom (with_rows sb rows t) = getVTScrollBottom t"
  "same_frame t' (with_rows sb rows t) = same_frame t' t"
  by (simp_all add: with_rows_def all_rows_def)

lemma store_wf_rows:
  assumes wf: "store_wf E t" and "distinct (sb @ rows)"
    and "\<forall>r \<in> set (sb @ rows). narrow_row (rows_dom t) r \<and> r < next_row t \<and> r \<notin> set (rowsArray (other t))"
  shows "store_wf E (with_rows sb rows t)"
proof -
  note wfD = store_wfD [OF wf]
  have "cursor_node_ok E (rows_dom t) (next_row t) ((current t)\<lparr>rowsArray := rows\<rparr>)"
    using wfD(5) by (simp add: cursor_node_ok_def cursor_consistent_def)
  moreover have "other_ok E (with_rows sb rows t)"
    using wfD(9) by (simp add: other_ok_def)
  ultimately show ?thesis
    using wfD assms(2,3) by (auto simp: store_wf_def)
qed

text \<open>The rows of the terminal in another division, or fewer of them.\<close>

lemma store_wf_rows_sub:
  assumes wf: "store_wf E t" and "distinct (sb @ rows)" and "set (sb @ rows) \<subseteq> set (all_rows t)"
  shows "store_wf E (with_rows sb rows t)"
  using assms(2,3) store_wfD(4,6,7) [OF wf] by (intro store_wf_rows [OF wf]) auto

lemma js_splice_remove:
  "0 \<le> start \<Longrightarrow> start \<le> int (length xs) \<Longrightarrow> 0 \<le> n \<Longrightarrow>
    js_splice xs start n [] = (take (nat n) (drop (nat start) xs), take (nat start) xs @ drop (nat start + nat n) xs)"
  by (auto simp: js_splice_def min_def Let_def nat_diff_distrib)

lemma js_splice_insert:
  "0 \<le> start \<Longrightarrow> start \<le> int (length xs) \<Longrightarrow>
    js_splice xs start 0 ys = ([], take (nat start) xs @ ys @ drop (nat start) xs)"
  by (auto simp: js_splice_def min_def)

lemma to_scrollback_rows:
  assumes "0 \<le> k"
  shows "to_scrollback k t =
    with_rows (scrollbackRows t @ take (nat k) (rowsArray (current t))) (drop (nat k) (rowsArray (current t))) t"
  using assms by (simp add: to_scrollback_def shiftRows_def js_splice_remove with_rows_def)

text \<open>A change of row indices.\<close>

definition reindexed :: "dom \<Rightarrow> dom \<Rightarrow> bool" where
  "reindexed d d' \<longleftrightarrow> (\<forall>r. childNodes (d' r) = childNodes (d r) \<and> line_overflow (d' r) = line_overflow (d r))"

lemma fold_renumber:
  fixes offset :: int and a b :: nat and d :: dom
  assumes "distinct rows" and "b \<le> length rows"
  defines "d' \<equiv> fold (\<lambda>i d. d(rows ! i := (d (rows ! i))\<lparr>rowIndex := offset + int i\<rparr>)) [a..<b] d"
  shows "reindexed d d'" and "\<forall>i. a \<le> i \<and> i < b \<longrightarrow> rowIndex (d' (rows ! i)) = offset + int i"
    and "\<forall>r. (\<forall>i. a \<le> i \<and> i < b \<longrightarrow> r \<noteq> rows ! i) \<longrightarrow> d' r = d r"
proof -
  have "b \<le> length rows \<Longrightarrow> (let d' = fold (\<lambda>i d. d(rows ! i := (d (rows ! i))\<lparr>rowIndex := offset + int i\<rparr>)) [a..<b] d in
      reindexed d d' \<and> (\<forall>i. a \<le> i \<and> i < b \<longrightarrow> rowIndex (d' (rows ! i)) = offset + int i) \<and>
      (\<forall>r. (\<forall>i. a \<le> i \<and> i < b \<longrightarrow> r \<noteq> rows ! i) \<longrightarrow> d' r = d r))"
  proof (induction b)
    case 0
    then show ?case by (simp add: reindexed_def)
  next
    case (Suc b)
    then show ?case
      using assms(1) by (cases "a \<le> b") (auto simp: Let_def reindexed_def less_Suc_eq nth_eq_iff_index_eq)
  qed
  with assms(2) show "reindexed d d'" "\<forall>i. a \<le> i \<and> i < b \<longrightarrow> rowIndex (d' (rows ! i)) = offset + int i"
    "\<forall>r. (\<forall>i. a \<le> i \<and> i < b \<longrightarrow> r \<noteq> rows ! i) \<longrightarrow> d' r = d r"
    by (simp_all add: Let_def d'_def)
qed

lemma renumber_dom_result:
  assumes "distinct rows" and "0 \<le> a" and "b \<le> int (length rows)"
  obtains d' where "renumber_dom offset a b rows d = Some d'" "reindexed d d'"
    "\<And>i. a \<le> int i \<Longrightarrow> int i < b \<Longrightarrow> rowIndex (d' (rows ! i)) = offset + int i"
    "\<And>r. (\<And>i. a \<le> int i \<Longrightarrow> int i < b \<Longrightarrow> r \<noteq> rows ! i) \<Longrightarrow> d' r = d r"
proof -
  let ?d = "fold (\<lambda>i d. d(rows ! i := (d (rows ! i))\<lparr>rowIndex := offset + int i\<rparr>)) [nat a..<nat b] d"
  have b: "nat b \<le> length rows" using assms(3) by simp
  have "renumber_dom offset a b rows d = Some ?d"
    using assms(2,3) by (simp add: renumber_dom_def)
  moreover note fold_renumber [OF assms(1) b, where a = "nat a" and d = d and offset = offset]
  ultimately show thesis
    using that [of ?d] assms(2) by (simp add: nat_le_iff nat_less_iff zless_nat_eq_int_zless)
qed

lemma store_wf_reindexed:
  assumes wf: "store_wf E t" and re: "reindexed (rows_dom t) d'"
    and rest: "\<forall>r \<in> set (rowsArray (other t)). d' r = rows_dom t r"
  shows "store_wf E (t\<lparr>rows_dom := d'\<rparr>)"
proof -
  note wfD = store_wfD [OF wf]
  have "narrow_row d' r = narrow_row (rows_dom t) r" for r
    using re by (simp add: narrow_row_def reindexed_def)
  moreover have "cursor_node_ok E d' (next_row t) s = cursor_node_ok E (rows_dom t) (next_row t) s" for s
    using re by (simp add: cursor_node_ok_def cursor_consistent_def reindexed_def)
  moreover have "numbered d' k (rowsArray (other t)) = numbered (rows_dom t) k (rowsArray (other t))" for k
    using rest by (simp add: numbered_def)
  ultimately show ?thesis
    using wfD by (simp add: store_wf_def other_ok_def all_rows_def)
qed

text \<open>New rows at the bottom.\<close>

definition blank_row :: "int \<Rightarrow> xrow" where
  "blank_row i = \<lparr>childNodes = [createTextNode []], rowIndex = i, line_overflow = False\<rparr>"

definition add_row :: "int \<Rightarrow> terminal \<Rightarrow> terminal" where
  "add_row i t = t\<lparr>rows_dom := (rows_dom t)(next_row t := blank_row i), next_row := Suc (next_row t)\<rparr>"

lemma new_row_add: "new_row i t = (next_row t, add_row i t)"
  by (simp add: new_row_def add_row_def blank_row_def)

lemma add_row_fields [simp]:
  "current (add_row i t) = current t" "other (add_row i t) = other t"
  "scrollbackRows (add_row i t) = scrollbackRows t" "next_row (add_row i t) = Suc (next_row t)"
  "screenSize (add_row i t) = screenSize t" "tabStops (add_row i t) = tabStops t"
  "rows_dom (add_row i t) = (rows_dom t)(next_row t := blank_row i)"
  "all_rows (add_row i t) = all_rows t"
  "getVTScrollTop (add_row i t) = getVTScrollTop t"
  "getVTScrollBottom (add_row i t) = getVTScrollBottom t"
  "same_frame t' (add_row i t) = same_frame t' t"
  by (simp_all add: add_row_def all_rows_def)

lemma add_row_back [simp]:
  "(add_row i t)\<lparr>scrollbackRows := scrollbackRows t\<rparr> = add_row i t"
  by (cases t) (simp add: add_row_def)

lemma store_wf_add_row:
  assumes wf: "store_wf E t"
  shows "store_wf E (add_row i t)"
proof -
  note wfD = store_wfD [OF wf]
  let ?d = "(rows_dom t)(next_row t := blank_row i)"
  have old: "?d r = rows_dom t r" if "r \<in> set (all_rows t) \<union> set (rowsArray (other t))" for r
    using wfD(7) that by auto
  have "cursor_node_ok E ?d (Suc (next_row t)) s" if "cursor_node_ok E (rows_dom t) (next_row t) s" for s
    using that by (auto simp: cursor_node_ok_def cursor_consistent_def)
  moreover have "narrow_row ?d r" if "r \<in> set (all_rows t) \<union> set (rowsArray (other t))" for r
    using wfD(4,9) old [OF that] that by (auto simp: narrow_row_def other_ok_def)
  moreover have "numbered ?d k (rowsArray (other t)) = numbered (rows_dom t) k (rowsArray (other t))" for k
    using old by (simp add: numbered_def)
  moreover have "\<forall>r \<in> set (all_rows t) \<union> set (rowsArray (other t)). r < Suc (next_row t)"
    using wfD(7) less_SucI by blast
  ultimately show ?thesis
    using wfD unfolding store_wf_def other_ok_def by simp
qed

lemma push_new_rows_result:
  assumes "store_wf E t" and "numbered (rows_dom t) 0 (all_rows t)" and "index = int (length (all_rows t))"
  shows "let t' = push_new_rows n index t in
    store_wf E t' \<and> numbered (rows_dom t') 0 (all_rows t') \<and> same_frame t t' \<and>
    scrollbackRows t' = scrollbackRows t \<and>
    (\<exists>s. current t' = s \<and> s = (current t)\<lparr>rowsArray := rowsArray (current t) @ [next_row t..<next_row t + n]\<rparr>) \<and>
    (\<forall>r < next_row t. rows_dom t' r = rows_dom t r) \<and>
    (\<forall>r. next_row t \<le> r \<and> r < next_row t + n \<longrightarrow> row_text (rows_dom t') r = [])"
  using assms
proof (induction n arbitrary: index t)
  case 0
  then show ?case by auto
next
  case (Suc n)
  let ?t = "add_row index t"
  let ?u = "with_rows (scrollbackRows t) (rowsArray (current t) @ [next_row t]) ?t"
  have u: "push_new_rows (Suc n) index t = push_new_rows n (index + 1) ?u"
    by (simp add: new_row_add on_screen_def pushRow_def with_rows_def)
  note wfD = store_wfD [OF Suc.prems(1)]
  have fresh: "next_row t \<notin> set (all_rows t)" "next_row t \<notin> set (rowsArray (other t))"
    using wfD(7) by auto
  have "store_wf E ?u"
    using fresh wfD store_wfD [OF store_wf_add_row [OF Suc.prems(1), of index]]
    by (intro store_wf_rows [OF store_wf_add_row [OF Suc.prems(1)]])
      (auto simp: all_rows_def narrow_row_def blank_row_def)
  moreover have "numbered (rows_dom ?u) 0 (all_rows t) = numbered (rows_dom t) 0 (all_rows t)"
    by (rule numbered_cong) (use fresh in auto)
  then have "numbered (rows_dom ?u) 0 (all_rows t @ [next_row t])"
    using Suc.prems(2,3) by (simp add: blank_row_def)
  then have "numbered (rows_dom ?u) 0 (all_rows ?u)"
    by (simp add: all_rows_def)
  moreover have "index + 1 = int (length (all_rows ?u))"
    using Suc.prems(3) by (simp add: all_rows_def)
  ultimately have IH: "let t' = push_new_rows n (index + 1) ?u in
    store_wf E t' \<and> numbered (rows_dom t') 0 (all_rows t') \<and> same_frame ?u t' \<and>
    scrollbackRows t' = scrollbackRows ?u \<and>
    (\<exists>s. current t' = s \<and> s = (current ?u)\<lparr>rowsArray := rowsArray (current ?u) @ [next_row ?u..<next_row ?u + n]\<rparr>) \<and>
    (\<forall>r < next_row ?u. rows_dom t' r = rows_dom ?u r) \<and>
    (\<forall>r. next_row ?u \<le> r \<and> r < next_row ?u + n \<longrightarrow> row_text (rows_dom t') r = [])"
    by (intro Suc.IH)
  then have "rows_dom (push_new_rows n (index + 1) ?u) (next_row t) = blank_row index"
    by (simp add: Let_def)
  then have "row_text (rows_dom (push_new_rows n (index + 1) ?u)) (next_row t) = []"
    by (simp add: row_text_def blank_row_def)
  moreover have "same_frame ?u t' \<Longrightarrow> same_frame t t'" for t'
    by (rule same_frame_trans [of t ?u]) simp_all
  moreover have "next_row t \<le> r \<longleftrightarrow> r = next_row t \<or> Suc (next_row t) \<le> r" for r
    by auto
  ultimately show ?case
    using IH unfolding u Let_def
    by (auto simp: upt_rec[of "next_row t"])
qed


text \<open>
  A terminal that fits its size up to missing rows at the bottom, on the way from one size or
  screen to another.
\<close>

definition term_short :: "env \<Rightarrow> terminal \<Rightarrow> bool" where
  "term_short E t \<longleftrightarrow> store_wf E t \<and> 0 < height (screenSize t) \<and>
     columnCount (current t) = width (screenSize t) \<and>
     int (length (rowsArray (current t))) \<le> height (screenSize t) \<and>
     numbered (rows_dom t) 0 (all_rows t) \<and> region_ok t"

lemma term_wf_short: "term_wf E t \<Longrightarrow> term_short E t"
  by (simp add: term_wf_def term_short_def)

text \<open>The rows below \<open>n\<close> keep what they hold.\<close>

definition kept_rows :: "rowid \<Rightarrow> terminal \<Rightarrow> terminal \<Rightarrow> bool" where
  "kept_rows n t t' \<longleftrightarrow> (\<forall>r < n. row_text (rows_dom t') r = row_text (rows_dom t) r \<and>
     line_overflow (rows_dom t' r) = line_overflow (rows_dom t r))"

lemma appendRows_result:
  assumes short: "term_short E t" and cnt: "0 \<le> cnt"
    and full: "height (screenSize t) \<le> int (length (rowsArray (current t))) + cnt"
  defines "t' \<equiv> appendRows E cnt t"
  shows "term_ok E t'" and "same_frame t t'"
    and "all_rows t' = all_rows t @ [next_row t..<next_row t + nat cnt]"
    and "kept_rows (next_row t) t t'"
    and "\<forall>r \<in> {next_row t..<next_row t + nat cnt}. row_text (rows_dom t') r = []"
    and "cursor t' = RowCol (min (int (length (rowsArray (current t)))) (height (screenSize t) - 1)) 0"
    and "textAttributes (current t') = textAttributes (current t)"
proof -
  let ?h = "height (screenSize t)" and ?len = "int (length (rowsArray (current t)))"
  have wf: "store_wf E t" and num: "numbered (rows_dom t) 0 (all_rows t)"
    and col: "columnCount (current t) = width (screenSize t)" and h: "0 < ?h" "?len \<le> ?h"
    and reg: "region_ok t"
    using short by (simp_all add: term_short_def)
  let ?new = "[next_row t..<next_row t + nat cnt]"
  define u where "u = push_new_rows (nat cnt) (int (length (scrollbackRows t)) + ?len) t"
  have idx: "int (length (scrollbackRows t)) + ?len = int (length (all_rows t))"
    by (simp add: all_rows_def)
  have u: "store_wf E u" "numbered (rows_dom u) 0 (all_rows u)" "same_frame t u"
    "scrollbackRows u = scrollbackRows t"
    "current u = (current t)\<lparr>rowsArray := rowsArray (current t) @ ?new\<rparr>"
    "\<forall>r < next_row t. rows_dom u r = rows_dom t r"
    "\<forall>r. next_row t \<le> r \<and> r < next_row t + nat cnt \<longrightarrow> row_text (rows_dom u) r = []"
    using push_new_rows_result [OF wf num idx, of "nat cnt"]
    by (simp_all add: Let_def flip: u_def)
  define k where "k = nat (?len + cnt - ?h)"
  define v where "v = with_rows (scrollbackRows u @ take k (rowsArray (current u)))
    (drop k (rowsArray (current u))) u"
  have "all_rows v = scrollbackRows u @ rowsArray (current u)" by (simp add: v_def)
  then have all: "all_rows v = all_rows t @ ?new" by (simp add: all_rows_def u(4,5))
  have size: "screenSize u = screenSize t" using u(3) by (simp add: same_frame_def)
  have v': "v = (if getHeight (current u) - ?h > 0 then to_scrollback (getHeight (current u) - ?h) u else u)"
  proof (cases "getHeight (current u) - ?h > 0")
    case True
    then show ?thesis using cnt by (simp add: v_def to_scrollback_rows getHeight_def u(5) k_def)
  next
    case False
    then have "k = 0" using cnt by (simp add: getHeight_def u(5) k_def)
    then have "v = u" by (simp add: v_def with_rows_def set_current_def current_def)
    with False show ?thesis by simp
  qed
  have "store_wf E v"
    unfolding v_def using store_wfD(6) [OF u(1)]
    by (intro store_wf_rows_sub [OF u(1)]) (auto simp: all_rows_def dest: in_set_takeD in_set_dropD)
  moreover have "int (length (rowsArray (current v))) = ?h"
    using cnt full h by (simp add: v_def u(5) k_def)
  moreover have "numbered (rows_dom v) 0 (all_rows v)"
    using u(2) by (simp add: v_def all_rows_def)
  moreover have "same_frame t v" using u(3) by (simp add: v_def)
  moreover have "columnCount (current v) = width (screenSize v)"
    using col size by (simp add: v_def u(5))
  ultimately have wf_v: "term_wf E v"
    using h reg same_frame_scroll [of t v]
    by (simp add: term_wf_def region_ok_def v_def size)
  have t': "t' = setAbsoluteCursorPosition E
      (if ?len \<ge> getHeight (current v) then getHeight (current v) - 1 else ?len) 0 v"
    unfolding t'_def appendRows_def Let_def getHeight_def [of "current t"] u_def [symmetric] size
      v' [symmetric] by simp
  note mv = moved_absolute [OF wf_v, of "if ?len \<ge> getHeight (current v) then getHeight (current v) - 1 else ?len" 0,
      folded t']
  show "term_ok E t'" using movedD [OF mv(1)] by simp
  show "same_frame t t'" using movedD(3) [OF mv(1)] \<open>same_frame t v\<close> same_frame_trans by blast
  have rows': "rowsArray (current t') = rowsArray (current v)" "scrollbackRows t' = scrollbackRows v"
    using movedD(4) [OF mv(1)] by (simp_all add: same_rows_def)
  then show "all_rows t' = all_rows t @ ?new"
    using all by (simp add: all_rows_def)
  have same: "row_text (rows_dom t') r = row_text (rows_dom u) r"
    "line_overflow (rows_dom t' r) = line_overflow (rows_dom u r)" for r
    using movedD(5) [OF mv(1)] by (simp_all add: same_text_def v_def)
  show "kept_rows (next_row t) t t'"
    using same u(6) by (simp add: kept_rows_def row_text_def)
  show "\<forall>r \<in> {next_row t..<next_row t + nat cnt}. row_text (rows_dom t') r = []"
    using same u(7) by simp
  have "getHeight (current v) = ?h"
    using \<open>int (length (rowsArray (current v))) = ?h\<close> by (simp add: getHeight_def)
  then show "cursor t' = RowCol (min ?len (?h - 1)) 0"
    using mv(2) h size term_wfD(1) [OF wf_v] by (auto simp: v_def min_def)
  show "textAttributes (current t') = textAttributes (current t)"
    using movedD(6) [OF mv(1)] by (simp add: v_def u(5))
qed

end
