(* ===== verification/TerminalOps.thy ===== *)
theory TerminalOps
  imports TerminalInv
begin

text \<open>
  What the terminal's operations do to its rows, and that each of them keeps the invariant and
  throws nothing (locale \<open>terminal_op\<close>, interpreted on the operations).
\<close>

section \<open>Moving and inserting rows\<close>

definition move_list :: "nat \<Rightarrow> nat \<Rightarrow> nat \<Rightarrow> 'a list \<Rightarrow> 'a list" where
  "move_list from n to xs =
     (let keep = take from xs @ drop (from + n) xs
      in take to keep @ take n (drop from xs) @ drop to keep)"

lemma length_move_list [simp]:
  "from + n \<le> length xs \<Longrightarrow> to + n \<le> length xs \<Longrightarrow> length (move_list from n to xs) = length xs"
  by (simp add: move_list_def Let_def)

lemma mset_move_list: "from + n \<le> length xs \<Longrightarrow> mset (move_list from n to xs) = mset xs"
proof -
  define keep where "keep = take from xs @ drop (from + n) xs"
  have "mset (take to keep) + mset (drop to keep) = mset keep"
    by (metis append_take_drop_id mset_append)
  moreover have "mset (take from xs) + mset (take n (drop from xs)) + mset (drop (from + n) xs) = mset xs"
    using take_middle [of "from" xs n] by (metis add.assoc mset_append)
  moreover have "mset (move_list from n to xs) =
      mset (take to keep) + mset (drop to keep) + mset (take n (drop from xs))"
    by (simp add: move_list_def Let_def flip: keep_def)
  moreover have "mset keep = mset (take from xs) + mset (drop (from + n) xs)"
    by (simp add: keep_def)
  ultimately show ?thesis by (simp add: ac_simps)
qed

lemma move_list_nth:
  assumes "from + n \<le> length xs" "to + n \<le> length xs" "i < length xs"
    and "i < min from to \<or> max from to + n \<le> i"
  shows "move_list from n to xs ! i = xs ! i"
proof (cases "i < min from to")
  case True
  then show ?thesis using assms(1,2) by (simp add: move_list_def Let_def nth_append)
next
  case False
  define keep where "keep = take from xs @ drop (from + n) xs"
  have i: "from + n \<le> i" "to + n \<le> i" using False assms(4) by auto
  have keep: "length keep = length xs - n" using assms(1) by (simp add: keep_def)
  have "length (take to keep @ take n (drop from xs)) = to + n"
    using assms(1,2) keep by simp
  then have "move_list from n to xs ! i = drop to keep ! (i - (to + n))"
    using i(2) unfolding move_list_def Let_def keep_def [symmetric]
    by (metis append_assoc nth_append leD)
  also have "\<dots> = keep ! (i - n)"
    using assms(2,3) i keep by simp
  also have "\<dots> = xs ! i"
  proof -
    have "\<not> i - n < from" using i by linarith
    then show ?thesis using assms(1,3) i by (simp add: keep_def nth_append)
  qed
  finally show ?thesis .
qed

lemma insertRows_from_list:
  "0 \<le> at \<Longrightarrow> at \<le> int (length xs) \<Longrightarrow> insertRows_from at rs xs = take (nat at) xs @ rs @ drop (nat at) xs"
proof (induction rs arbitrary: at xs)
  case (Cons r rs)
  have "nat (at + 1) = Suc (nat at)" using Cons.prems by simp
  then show ?case
    using Cons by (simp add: js_splice_insert min_def)
qed simp

lemma distinct_mset_eq: "mset xs = mset ys \<Longrightarrow> distinct xs = distinct ys"
  by (metis distinct_count_atmost_1 mset_eq_setD)

text \<open>The rows whose positions did not change keep their index; the others get a new one.\<close>

lemma renumber_rows_wf:
  assumes wf: "store_wf E t" and dist: "distinct (rowsArray (current t))" and "0 \<le> a" "a \<le> b"
    and b: "b \<le> int (length (rowsArray (current t)))"
    and sb: "numbered (rows_dom t) 0 (scrollbackRows t)"
    and outside: "\<And>i. i < length (rowsArray (current t)) \<Longrightarrow> int i < a \<or> b \<le> int i \<Longrightarrow>
      rowIndex (rows_dom t (rowsArray (current t) ! i)) = int (length (scrollbackRows t)) + int i"
  obtains d' where "renumberRows a b t = Some (t\<lparr>rows_dom := d'\<rparr>)" "reindexed (rows_dom t) d'"
    "store_wf E (t\<lparr>rows_dom := d'\<rparr>)" "numbered d' 0 (all_rows t)"
proof -
  let ?rows = "rowsArray (current t)" and ?off = "int (length (scrollbackRows t))"
  note wfD = store_wfD [OF wf]
  obtain d' where d': "renumber_dom ?off a b ?rows (rows_dom t) = Some d'" "reindexed (rows_dom t) d'"
    "\<And>i. a \<le> int i \<Longrightarrow> int i < b \<Longrightarrow> rowIndex (d' (?rows ! i)) = ?off + int i"
    "\<And>r. (\<And>i. a \<le> int i \<Longrightarrow> int i < b \<Longrightarrow> r \<noteq> ?rows ! i) \<Longrightarrow> d' r = rows_dom t r"
    using renumber_dom_result [OF dist \<open>0 \<le> a\<close> b, where offset = ?off and d = "rows_dom t"] by metis
  have other_rows: "d' r = rows_dom t r" if "r \<notin> set ?rows" for r
    using that b by (intro d'(4)) auto
  have "store_wf E (t\<lparr>rows_dom := d'\<rparr>)"
    using other_rows wfD(6) by (intro store_wf_reindexed [OF wf d'(2)]) (auto simp: all_rows_def)
  moreover have "numbered d' 0 (scrollbackRows t) = numbered (rows_dom t) 0 (scrollbackRows t)"
    by (rule numbered_cong, subst other_rows) (use wfD(6) in \<open>auto simp: all_rows_def\<close>)
  moreover have "numbered d' ?off ?rows"
    unfolding numbered_def
  proof (intro allI impI)
    fix i assume i: "i < length ?rows"
    show "rowIndex (d' (?rows ! i)) = ?off + int i"
    proof (cases "a \<le> int i \<and> int i < b")
      case True
      then show ?thesis using d'(3) by simp
    next
      case False
      have "d' (?rows ! i) = rows_dom t (?rows ! i)"
        using False i b by (intro d'(4)) (auto simp: nth_eq_iff_index_eq [OF dist])
      then show ?thesis using outside [OF i] False by auto
    qed
  qed
  ultimately show thesis
    using that d' sb by (simp add: renumberRows_def all_rows_def)
qed

lemma set_current_self [simp]: "set_current (current t) t = t"
  by (simp add: set_current_def current_def)

lemma scrollback_self [simp]: "t\<lparr>scrollbackRows := scrollbackRows t\<rparr> = t"
  by (cases t) simp

lemma moveRows_result:
  assumes wf: "term_wf E t" and pos: "0 \<le> from" "0 \<le> cnt" "0 \<le> to"
    and fits: "from + cnt \<le> height (screenSize t)" "to + cnt \<le> height (screenSize t)"
  obtains d' where "moveRows from cnt to t = Some (with_rows (scrollbackRows t)
      (move_list (nat from) (nat cnt) (nat to) (rowsArray (current t))) (t\<lparr>rows_dom := d'\<rparr>))"
    "reindexed (rows_dom t) d'"
    "term_wf E (with_rows (scrollbackRows t)
      (move_list (nat from) (nat cnt) (nat to) (rowsArray (current t))) (t\<lparr>rows_dom := d'\<rparr>))"
proof -
  let ?rows = "rowsArray (current t)" and ?h = "height (screenSize t)"
  let ?new = "move_list (nat from) (nat cnt) (nat to) ?rows"
  note wfD = term_wfD [OF wf] and stD = store_wfD [OF term_wf_store [OF wf]]
  have len: "nat from + nat cnt \<le> length ?rows" "nat to + nat cnt \<le> length ?rows"
    using pos fits wfD(4) by auto
  have ms: "mset ?new = mset ?rows" using mset_move_list [OF len(1)] .
  then have set: "set ?new = set ?rows" by (metis mset_eq_setD)
  have dist: "distinct ?new" using stD(6) distinct_mset_eq [OF ms] by (simp add: all_rows_def)
  let ?t = "with_rows (scrollbackRows t) ?new t"
  have "store_wf E ?t"
    using stD(6) dist set by (intro store_wf_rows_sub) (auto simp: wf all_rows_def)
  moreover have new: "rowsArray (current ?t) = ?new" by simp
  define a where "a = min from to"
  define b where "b = max from to + cnt"
  have "rowIndex (rows_dom ?t (?new ! i)) = int (length (scrollbackRows ?t)) + int i"
    if "i < length ?new" "int i < a \<or> b \<le> int i" for i
  proof -
    have "i < min (nat from) (nat to) \<or> max (nat from) (nat to) + nat cnt \<le> i"
      using that(2) pos unfolding a_def b_def by linarith
    then have "?new ! i = ?rows ! i"
      using that(1) len by (intro move_list_nth) simp_all
    then show ?thesis
      using wfD(5) that len by (simp add: all_rows_def numbered_def [of _ "int _"])
  qed
  moreover have "numbered (rows_dom ?t) 0 (scrollbackRows ?t)"
    using wfD(5) by (simp add: all_rows_def)
  moreover have "0 \<le> a" "a \<le> b" "b \<le> int (length ?new)"
    using pos len by (auto simp: a_def b_def)
  ultimately obtain d' where d': "renumberRows a b ?t = Some (?t\<lparr>rows_dom := d'\<rparr>)"
    "reindexed (rows_dom ?t) d'" "store_wf E (?t\<lparr>rows_dom := d'\<rparr>)" "numbered d' 0 (all_rows ?t)"
    using renumber_rows_wf [of E ?t a b] dist unfolding new by blast
  have removed: "removeRows from cnt (current t) =
      (take (nat cnt) (drop (nat from) ?rows),
       (current t)\<lparr>rowsArray := take (nat from) ?rows @ drop (nat from + nat cnt) ?rows\<rparr>)"
    using pos fits wfD(4) by (simp add: removeRows_def js_splice_remove)
  have "insertRows to (take (nat cnt) (drop (nat from) ?rows))
      ((current t)\<lparr>rowsArray := take (nat from) ?rows @ drop (nat from + nat cnt) ?rows\<rparr>) =
      (current t)\<lparr>rowsArray := ?new\<rparr>"
    using pos len by (simp add: insertRows_def insertRows_from_list move_list_def Let_def)
  then have "moveRows from cnt to t = renumberRows a b ?t"
    using pos by (simp add: moveRows_def removed with_rows_def a_def b_def min_def max_def Let_def)
  moreover have "with_rows (scrollbackRows t) ?new (t\<lparr>rows_dom := d'\<rparr>) = ?t\<lparr>rows_dom := d'\<rparr>"
    by (simp add: with_rows_def set_current_def)
  moreover have "term_wf E (?t\<lparr>rows_dom := d'\<rparr>)"
    using d'(3,4) wfD len by (simp add: term_wf_def region_ok_def all_rows_def)
  ultimately show thesis
    using that [of d'] d' by simp
qed

lemma set_current_twice [simp]: "set_current s (set_current s' t) = set_current s t"
  by (simp add: set_current_def)

lemma insertRow_at_cursor_result:
  assumes ok: "term_ok E t"
  defines "rows \<equiv> rowsArray (current t)" and "r \<equiv> nat (rc_row (cursor t))"
  obtains t' where "insertRow_at_cursor E t = Some t'" "term_ok E t'" "same_frame t t'"
    "scrollbackRows t' = scrollbackRows t @ [hd rows]"
    "rowsArray (current t') = take r (tl rows) @ [next_row t] @ drop r (tl rows)"
    "next_row t' = Suc (next_row t)"
    "kept_rows (next_row t) t t'" "row_text (rows_dom t') (next_row t) = []"
    "cursor t' = RowCol (rc_row (cursor t)) 0"
    "textAttributes (current t') = textAttributes (current t)"
proof -
  let ?h = "height (screenSize t)" and ?c = "rc_row (cursor t)"
  have wf: "term_wf E t" and scr: "screen_ok E (rows_dom t) (current t)"
    using ok by (simp_all add: term_ok_def)
  note wfD = term_wfD [OF wf] and stD = store_wfD [OF term_wf_store [OF wf]]
  have c: "0 \<le> ?c" "?c < ?h" using scr wfD(4) by (auto simp: screen_ok_def)
  obtain top rest where rows: "rows = top # rest"
    using wfD(2,4) by (cases rows) (auto simp: rows_def)
  have len: "int (length rest) = ?h - 1" using wfD(4) rows by (simp add: rows_def)
  let ?u = "add_row 0 t"
  let ?new = "take r rest @ [next_row t] @ drop r rest"
  let ?v = "with_rows (scrollbackRows t @ [top]) ?new ?u"
  note all = all_rows_def [of t] rows [unfolded rows_def]
  have fresh: "next_row t \<notin> set (all_rows t)" "next_row t \<notin> set (rowsArray (other t))"
    using stD(7) by auto
  have set: "set ?new = insert (next_row t) (set rest)"
    using set_append [of "take r rest" "drop r rest"] by auto
  have "distinct (take r rest @ drop r rest)" using stD(6) all by simp
  then have dist: "distinct ?new"
    using fresh all set_take_disj_set_drop_if_distinct [of rest r r] stD(6)
    by (auto dest: in_set_takeD in_set_dropD)
  have u: "store_wf E ?u" by (rule store_wf_add_row [OF term_wf_store [OF wf]])
  have v: "store_wf E ?v"
    using dist set fresh stD(6) all store_wfD(4,6,7) [OF u]
    by (intro store_wf_rows [OF u]) (auto simp: narrow_row_def blank_row_def)
  have old: "rowIndex (rows_dom ?v q) = rowIndex (rows_dom t q)" if "q \<in> set (all_rows t)" for q
    using fresh that by auto
  have "numbered (rows_dom ?v) 0 (scrollbackRows t @ [top] @ rest) = numbered (rows_dom t) 0 (scrollbackRows t @ [top] @ rest)"
    by (rule numbered_cong, rule old) (simp add: all)
  then have num: "numbered (rows_dom ?v) 0 (scrollbackRows ?v)"
    "numbered (rows_dom ?v) (int (length (scrollbackRows ?v))) rest"
    using wfD(5) all by (simp_all add: add.commute)
  have renum: "rowIndex (rows_dom ?v (?new ! i)) = int (length (scrollbackRows ?v)) + int i"
    if "i < length ?new" "int i < ?c \<or> ?h \<le> int i" for i
  proof -
    have i: "i < r" "r \<le> length rest" "i < length rest" using that c len by (auto simp: r_def)
    then have "?new ! i = rest ! i" by (simp add: nth_append)
    then show ?thesis using num(2) i(3) by (simp only: numbered_def)
  qed
  obtain d' where d': "renumberRows ?c ?h ?v = Some (?v\<lparr>rows_dom := d'\<rparr>)" "reindexed (rows_dom ?v) d'"
    "store_wf E (?v\<lparr>rows_dom := d'\<rparr>)" "numbered d' 0 (all_rows ?v)"
    by (rule renumber_rows_wf [OF v, of ?c ?h]) (use dist c len num renum in \<open>auto simp: r_def\<close>)
  let ?w = "?v\<lparr>rows_dom := d'\<rparr>"
  have len': "int (length ?new) = ?h"
  proof -
    have "r \<le> length rest" using len c by (simp add: r_def)
    then show ?thesis using len by simp
  qed
  have "shiftRow (current t) = (Some top, (current t)\<lparr>rowsArray := rest\<rparr>)"
    using rows by (simp add: shiftRow_def first_of_def shiftRows_def js_splice_remove rows_def)
  moreover have "insertRow ?c (next_row t) ((current t)\<lparr>rowsArray := rest\<rparr>) = (current t)\<lparr>rowsArray := ?new\<rparr>"
    using c len by (auto simp: insertRow_def js_splice_insert r_def)
  ultimately have step: "insertRow_at_cursor E t = Some (setAbsoluteCursorPosition E ?c 0 ?w)"
    using d'(1) len' unfolding insertRow_at_cursor_def new_row_add
    by (simp add: getHeight_def on_screen_def with_rows_def Let_def)
  have w: "term_wf E ?w"
    using d'(3,4) wfD len' by (simp add: term_wf_def region_ok_def all_rows_def)
  let ?t = "setAbsoluteCursorPosition E ?c 0 ?w"
  note mv = moved_absolute [OF w, of ?c 0]
  note mvD = movedD [OF mv(1)]
  have same: "row_text (rows_dom ?t) q = row_text (rows_dom ?v) q"
    "line_overflow (rows_dom ?t q) = line_overflow (rows_dom ?v q)" for q
    using mvD(5) d'(2) by (simp_all add: same_text_def reindexed_def row_text_def)
  show thesis
  proof (rule that [OF step mvD(1)])
    show "same_frame t ?t" using same_frame_trans [OF _ mvD(3)] by simp
    show "scrollbackRows ?t = scrollbackRows t @ [hd rows]"
      "rowsArray (current ?t) = take r (tl rows) @ [next_row t] @ drop r (tl rows)"
      "next_row ?t = Suc (next_row t)"
      using mvD(4) rows by (simp_all add: same_rows_def)
    show "kept_rows (next_row t) t ?t" "row_text (rows_dom ?t) (next_row t) = []"
      using same by (simp_all add: kept_rows_def row_text_def blank_row_def)
    show "cursor ?t = RowCol ?c 0" using mv(2) c wfD(1) by simp
    show "textAttributes (current ?t) = textAttributes (current t)" using mvD(6) by simp
  qed
qed

section \<open>Clearing rows\<close>

definition blank_text :: "terminal \<Rightarrow> jsstring" where
  "blank_text t = (if isDefault (textAttributes (current t)) then [] else js_repeat 32 (width (screenSize t)))"

definition screen_text :: "terminal \<Rightarrow> jsstring list" where
  "screen_text t = map (row_text (rows_dom t)) (rowsArray (current t))"

text \<open>\<open>erased rs\<close>: the rows in \<open>rs\<close> are cleared, nothing else changes but the cursor.\<close>

definition erased :: "env \<Rightarrow> rowid set \<Rightarrow> terminal \<Rightarrow> terminal \<Rightarrow> bool" where
  "erased E rs t t' \<longleftrightarrow> edited E t t' \<and> (\<forall>q. row_text (rows_dom t') q =
     (if q \<in> rs then blank_text t else row_text (rows_dom t) q))"

lemma blank_text_same:
  "same_frame t t' \<Longrightarrow> textAttributes (current t') = textAttributes (current t) \<Longrightarrow> blank_text t' = blank_text t"
  by (simp add: blank_text_def same_frame_def)

lemma erased_trans:
  assumes "erased E rs t t'" and "erased E rs' t' t''"
  shows "erased E (rs \<union> rs') t t''"
  using assms edited_trans blank_text_same [OF editedD(3,5), of E t t'] by (auto simp: erased_def)

lemma moved_erased: "moved E t t' \<Longrightarrow> erased E {} t t'"
  by (simp add: erased_def moved_edited moved_def same_text_def)

lemma erased_moved: "erased E rs t t' \<Longrightarrow> moved E t' t'' \<Longrightarrow> erased E rs t t''"
  using erased_trans [of E rs t t' "{}" t''] moved_erased by simp

lemma moved_then_erased: "moved E t t' \<Longrightarrow> erased E rs t' t'' \<Longrightarrow> erased E rs t t''"
  using erased_trans [of E "{}" t t' rs t''] moved_erased by simp

lemma term_ok_screen: "term_ok E t \<Longrightarrow> screen_ok E (rows_dom t) (current t)"
  by (simp add: term_ok_def)

lemma clear_current:
  assumes ok: "term_ok E t"
  obtains t' where "edit (clearCursorRow E) t = Some t'" "erased E {cursor_row (current t)} t t'"
    "term_ok E t'"
proof -
  have wf: "term_wf E t" and scr: "screen_ok E (rows_dom t) (current t)"
    using ok by (simp_all add: term_ok_def)
  note wfD = term_wfD [OF wf] and stD = store_wfD [OF term_wf_store [OF wf]]
  have pre: "clearable (rows_dom t, current t)" using stD(3) by (simp add: clearable_def)
  obtain d s where ds: "clearCursorRow E (rows_dom t, current t) = Some (d, s)"
    "edit (clearCursorRow E) t = Some (set_current s (t\<lparr>rows_dom := d\<rparr>))"
    "edited E t (set_current s (t\<lparr>rows_dom := d\<rparr>))"
    using edit_edited [OF clear.row_edit_axioms wf scr pre] by metis
  have row: "cursorRowNode (current t) = Some (cursor_row (current t))" and cols: "0 < columnCount (current t)"
    using screen_okD [OF scr] by metis+
  obtain node where node: "d = (rows_dom t)(cursor_row (current t) :=
      (rows_dom t (cursor_row (current t)))\<lparr>childNodes := [node], line_overflow := False\<rparr>)"
    "rc_column (cursorPosition s) = 0" "textContent node = blank_text t"
    by (rule clearCursorRow_result [OF stD(3) row cols, of E "rows_dom t"])
      (use that ds(1) wfD(3) in \<open>auto simp: blank_text_def\<close>)
  have "erased E {cursor_row (current t)} t (set_current s (t\<lparr>rows_dom := d\<rparr>))"
    using ds(3) node by (auto simp: erased_def row_text_def)
  moreover have "term_ok E (set_current s (t\<lparr>rows_dom := d\<rparr>))"
    using edited_ok [OF ds(3)] node(2) wfD(1) by simp
  ultimately show thesis using that ds(2) by blast
qed

lemma clear_at:
  assumes wf: "term_wf E t" and r: "0 \<le> r" "r < height (screenSize t)"
  obtains t' where "edit (clearCursorRow E) (setAbsoluteCursorPosition E r 0 t) = Some t'"
    "erased E {rowsArray (current t) ! nat r} t t'" "term_ok E t'"
proof -
  let ?u = "setAbsoluteCursorPosition E r 0 t"
  note mv = moved_absolute [OF wf, of r 0]
  obtain t' where t': "edit (clearCursorRow E) ?u = Some t'" "erased E {cursor_row (current ?u)} ?u t'" "term_ok E t'"
    using clear_current [OF movedD(1) [OF mv(1)]] .
  have "cursor_row (current ?u) = rowsArray (current t) ! nat r"
    using mv(2) r movedD(4) [OF mv(1)] by (simp add: cursor_row_def RowCol_def same_rows_def)
  then show thesis using that t' moved_then_erased [OF mv(1)] by simp
qed

lemma erased_rows: "erased E rs t t' \<Longrightarrow> rowsArray (current t') = rowsArray (current t)"
  and erased_size: "erased E rs t t' \<Longrightarrow> screenSize t' = screenSize t"
  by (simp_all add: erased_def edited_def same_rows_def same_frame_def)

definition row_range :: "terminal \<Rightarrow> int \<Rightarrow> nat \<Rightarrow> rowid set" where
  "row_range t r n = (\<lambda>i. rowsArray (current t) ! (nat r + i)) ` {..<n}"

lemma row_range_0 [simp]: "row_range t r 0 = {}"
  by (simp add: row_range_def)

lemma row_range_Suc: "0 \<le> r \<Longrightarrow>
    row_range t r (Suc n) = insert (rowsArray (current t) ! nat r) (row_range t (r + 1) n)"
  by (simp add: row_range_def lessThan_Suc_eq_insert_0 image_image nat_add_distrib)

lemma row_range_Suc': "row_range t r (Suc n) = insert (rowsArray (current t) ! (nat r + n)) (row_range t r n)"
  by (simp add: row_range_def lessThan_Suc)

lemma row_range_cong: "rowsArray (current t') = rowsArray (current t) \<Longrightarrow> row_range t' r n = row_range t r n"
  by (simp add: row_range_def)

lemma clear_rows_result:
  assumes "term_wf E t" and "0 \<le> r" and "r + int n \<le> height (screenSize t)" and "term_ok E t \<or> 0 < n"
  obtains t' where "clear_rows E n r t = Some t'" "erased E (row_range t r n) t t'" "term_ok E t'"
  using assms
proof (induction n arbitrary: r t thesis)
  case 0
  then show ?case using moved_erased [of E t t] by simp
next
  case (Suc n)
  obtain u where u: "edit (clearCursorRow E) (setAbsoluteCursorPosition E r 0 t) = Some u"
    "erased E {rowsArray (current t) ! nat r} t u" "term_ok E u"
    using clear_at [OF Suc.prems(2,3)] Suc.prems(4) by auto
  obtain t' where t': "clear_rows E n (r + 1) u = Some t'" "erased E (row_range u (r + 1) n) u t'" "term_ok E t'"
    using Suc.IH [of "r + 1" u] u(3) Suc.prems(3,4) erased_size [OF u(2)] by auto
  show ?case
    using Suc.prems(1) [of t'] u(1) t' erased_trans [OF u(2) t'(2)] Suc.prems(3)
    by (simp add: row_range_Suc row_range_cong [OF erased_rows [OF u(2)]])
qed

lemma clear_rows_down_result:
  assumes "term_wf E t" and "0 \<le> r" and "r + int n \<le> height (screenSize t)" and "term_ok E t \<or> 0 < n"
  obtains t' where "clear_rows_down E n r t = Some t'" "erased E (row_range t r n) t t'" "term_ok E t'"
  using assms
proof (induction n arbitrary: t thesis)
  case 0
  then show ?case using moved_erased [of E t t] by simp
next
  case (Suc n)
  obtain u where u: "edit (clearCursorRow E) (setAbsoluteCursorPosition E (r + int n) 0 t) = Some u"
    "erased E {rowsArray (current t) ! nat (r + int n)} t u" "term_ok E u"
    using clear_at [OF Suc.prems(2), of "r + int n"] Suc.prems(3,4) by auto
  obtain t' where t': "clear_rows_down E n r u = Some t'" "erased E (row_range u r n) u t'" "term_ok E t'"
    using Suc.IH [of u] u(3) Suc.prems(3,4) erased_size [OF u(2)] by auto
  show ?case
    using Suc.prems(1) [of t'] u(1) t' erased_trans [OF u(2) t'(2)] Suc.prems(3)
    by (simp add: row_range_Suc' row_range_cong [OF erased_rows [OF u(2)]] nat_add_distrib)
qed

section \<open>Inserting and deleting lines\<close>

lemma map_erase:
  assumes "distinct xs" and "a + k \<le> length xs"
  shows "map (\<lambda>q. if q \<in> (\<lambda>i. xs ! (a + i)) ` {..<k} then b else f q) xs =
    take a (map f xs) @ replicate k b @ drop (a + k) (map f xs)" (is "map ?g xs = ?ys")
proof (rule nth_equalityI)
  show "length (map ?g xs) = length ?ys" using assms(2) by simp
  fix i assume i: "i < length (map ?g xs)"
  have "xs ! i \<in> (\<lambda>i. xs ! (a + i)) ` {..<k} \<longleftrightarrow> a \<le> i \<and> i < a + k"
  proof
    assume "xs ! i \<in> (\<lambda>i. xs ! (a + i)) ` {..<k}"
    then obtain j where "j < k" "xs ! i = xs ! (a + j)" by auto
    then show "a \<le> i \<and> i < a + k" using i assms by (simp add: nth_eq_iff_index_eq)
  next
    assume "a \<le> i \<and> i < a + k"
    then show "xs ! i \<in> (\<lambda>i. xs ! (a + i)) ` {..<k}"
      by (intro image_eqI [of _ _ "i - a"]) auto
  qed
  then show "map ?g xs ! i = ?ys ! i"
    using i assms(2) by (auto simp: nth_append)
qed

lemma erased_screen_text:
  assumes "erased E (row_range t r n) t t'" and "distinct (rowsArray (current t))"
    and "0 \<le> r" and "nat r + n \<le> length (rowsArray (current t))"
  shows "screen_text t' = take (nat r) (screen_text t) @ replicate n (blank_text t) @ drop (nat r + n) (screen_text t)"
proof -
  have "screen_text t' = map (\<lambda>q. if q \<in> row_range t r n then blank_text t else row_text (rows_dom t) q)
      (rowsArray (current t))"
    using assms(1) erased_rows [OF assms(1)] by (simp add: screen_text_def erased_def)
  then show ?thesis
    using map_erase [OF assms(2,4), of "blank_text t" "row_text (rows_dom t)"]
    by (simp add: screen_text_def row_range_def)
qed

lemma moved_screen_text: "moved E t t' \<Longrightarrow> screen_text t' = screen_text t"
  by (simp add: screen_text_def moved_def same_rows_def same_text_def)

lemma map_move_list: "map f (move_list from n to xs) = move_list from n to (map f xs)"
  by (simp add: move_list_def Let_def take_map drop_map)

lemma move_list_down:
  assumes "c + k \<le> e" "e \<le> length xs"
  shows "take (e - k) (move_list c k (e - k) xs) = take c xs @ take (e - c - k) (drop (c + k) xs)"
    and "drop e (move_list c k (e - k) xs) = drop e xs"
proof -
  define keep where "keep = take c xs @ drop (c + k) xs"
  have "length (take (e - k) keep) = e - k" "length (take k (drop c xs)) = k"
    using assms by (simp_all add: keep_def)
  moreover have "take (e - k) keep = take c xs @ take (e - c - k) (drop (c + k) xs)"
    "drop (e - k) keep = drop e xs"
    using assms by (simp_all add: keep_def add.commute [of k c])
  moreover have "e - (e - k) - k = 0" "e - (e - k) = k" using assms by simp_all
  ultimately show "take (e - k) (move_list c k (e - k) xs) = take c xs @ take (e - c - k) (drop (c + k) xs)"
    and "drop e (move_list c k (e - k) xs) = drop e xs"
    unfolding move_list_def Let_def keep_def [symmetric] using assms(1)
    by (auto simp: add.commute [of k c])
qed

lemma move_list_up:
  assumes "c + m + k \<le> length xs"
  shows "take c (move_list c m (c + k) xs) = take c xs"
    and "drop (c + k) (move_list c m (c + k) xs) = take m (drop c xs) @ drop (c + m + k) xs"
proof -
  define keep where "keep = take c xs @ drop (c + m) xs"
  have "take c (take (c + k) keep) = take c xs" "length (take (c + k) keep) = c + k"
    "drop (c + k) keep = drop (c + m + k) xs"
    using assms by (simp_all add: keep_def add.commute add.left_commute)
  then show "take c (move_list c m (c + k) xs) = take c xs"
    and "drop (c + k) (move_list c m (c + k) xs) = take m (drop c xs) @ drop (c + m + k) xs"
    unfolding move_list_def Let_def keep_def [symmetric] by simp_all
qed

lemma move_list_same: "c + n \<le> length xs \<Longrightarrow> move_list c n c xs = xs"
  using take_middle [of c xs n] by (simp add: move_list_def)

lemma moveRows_text:
  assumes "term_wf E t" and "0 \<le> from" "0 \<le> cnt" "0 \<le> to"
    and "from + cnt \<le> height (screenSize t)" "to + cnt \<le> height (screenSize t)"
  obtains t' where "moveRows from cnt to t = Some t'" "term_wf E t'" "same_frame t t'"
    "screen_text t' = move_list (nat from) (nat cnt) (nat to) (screen_text t)"
    "scrollbackRows t' = scrollbackRows t" "next_row t' = next_row t" "cursor t' = cursor t"
    "textAttributes (current t') = textAttributes (current t)"
    "set (rowsArray (current t')) = set (rowsArray (current t))"
    "\<forall>q. row_text (rows_dom t') q = row_text (rows_dom t) q"
    "from = to \<Longrightarrow> term_ok E t \<Longrightarrow> term_ok E t'"
proof -
  let ?new = "move_list (nat from) (nat cnt) (nat to) (rowsArray (current t))"
  obtain d' where d': "moveRows from cnt to t = Some (with_rows (scrollbackRows t) ?new (t\<lparr>rows_dom := d'\<rparr>))"
    "reindexed (rows_dom t) d'" "term_wf E (with_rows (scrollbackRows t) ?new (t\<lparr>rows_dom := d'\<rparr>))"
    using moveRows_result [OF assms] .
  have txts: "row_text d' = row_text (rows_dom t)"
    using d'(2) by (simp add: fun_eq_iff row_text_def reindexed_def)
  have "mset ?new = mset (rowsArray (current t))"
    using assms term_wfD(4) [OF assms(1)] by (intro mset_move_list) linarith
  then have "set ?new = set (rowsArray (current t))" by (metis mset_eq_setD)
  moreover have "term_ok E (with_rows (scrollbackRows t) ?new (t\<lparr>rows_dom := d'\<rparr>))"
    if "from = to" "term_ok E t"
  proof -
    have "?new = rowsArray (current t)"
      using assms term_wfD(4) [OF assms(1)] \<open>from = to\<close> by (auto intro!: move_list_same)
    then show ?thesis
      using d'(2,3) \<open>term_ok E t\<close> by (simp add: term_ok_def screen_ok_def reindexed_def)
  qed
  ultimately show thesis
    using that [OF d'(1,3)] txts by (simp add: screen_text_def map_move_list)
qed

lemma term_wf_distinct: "term_wf E t \<Longrightarrow> distinct (rowsArray (current t))"
  using store_wfD(6) [OF term_wf_store] by (auto simp: all_rows_def)

lemma term_ok_cursor:
  assumes "term_ok E t"
  shows "0 \<le> rc_row (cursor t)" "rc_row (cursor t) < height (screenSize t)"
    "0 \<le> rc_column (cursor t)" "rc_column (cursor t) < width (screenSize t)"
  using assms term_wfD(4) [OF term_ok_wf [OF assms]] by (auto simp: term_ok_def screen_ok_def)

lemma length_screen_text: "term_wf E t \<Longrightarrow> int (length (screen_text t)) = height (screenSize t)"
  using term_wfD(4) by (simp add: screen_text_def)

lemma deleteLines_result:
  assumes ok: "term_ok E t" and n: "1 \<le> n" and reg: "rc_row (cursor t) \<le> getVTScrollBottom t"
  defines "c \<equiv> nat (rc_row (cursor t))" and "e \<equiv> nat (getVTScrollBottom t + 1)"
  defines "k \<equiv> min (nat n) (e - c)"
  obtains t' where "deleteLines E n t = Some t'" "term_ok E t'" "same_frame t t'"
    "screen_text t' = take c (screen_text t) @ take (e - c - k) (drop (c + k) (screen_text t)) @
       replicate k (blank_text t) @ drop e (screen_text t)"
    "scrollbackRows t' = scrollbackRows t" "next_row t' = next_row t"
    "rc_row (cursor t') = rc_row (cursor t)" "rc_column (cursor t') = rc_column (cursor t)"
    "set (rowsArray (current t')) = set (rowsArray (current t))"
    "\<forall>q. q \<notin> set (rowsArray (current t)) \<longrightarrow> row_text (rows_dom t') q = row_text (rows_dom t) q"
    "textAttributes (current t') = textAttributes (current t)"
proof -
  let ?cr = "rc_row (cursor t)" and ?b = "getVTScrollBottom t" and ?X = "screen_text t"
  have wf: "term_wf E t" using ok by simp
  note cur = term_ok_cursor [OF ok]
  have b: "?b < height (screenSize t)" using term_wfD(6) [OF wf] by (simp add: region_ok_def)
  have e: "e \<le> length ?X" using b reg cur length_screen_text [OF wf] by (simp add: e_def)
  have k: "0 < k" "c + k \<le> e" "int k = min n (?b - ?cr + 1)" "?b - int k + 1 = int (e - k)"
    using n reg cur by (auto simp: k_def e_def c_def min_def)
  obtain t1 where t1: "(if min n (?b - ?cr + 1) \<noteq> ?b - ?cr + 1 then moveRows ?cr (int k) (int (e - k)) t
      else Some t) = Some t1" "term_wf E t1" "same_frame t t1"
    "take (e - k) (screen_text t1) = take c ?X @ take (e - c - k) (drop (c + k) ?X)"
    "drop e (screen_text t1) = drop e ?X" "scrollbackRows t1 = scrollbackRows t"
    "next_row t1 = next_row t" "textAttributes (current t1) = textAttributes (current t)"
    "set (rowsArray (current t1)) = set (rowsArray (current t))"
    "\<forall>q. row_text (rows_dom t1) q = row_text (rows_dom t) q"
  proof (cases "min n (?b - ?cr + 1) = ?b - ?cr + 1")
    case True
    then have "e - k = c" "e - c - k = 0" using k(3) reg cur by (auto simp: e_def c_def)
    then show thesis using that [of t] True wf by simp
  next
    case False
    have fits: "?cr + int k \<le> height (screenSize t)" "int (e - k) + int k \<le> height (screenSize t)"
      using k(2) b cur reg by (auto simp: e_def c_def)
    obtain t1 where "moveRows ?cr (int k) (int (e - k)) t = Some t1" "term_wf E t1" "same_frame t t1"
      "screen_text t1 = move_list (nat ?cr) (nat (int k)) (nat (int (e - k))) ?X"
      "scrollbackRows t1 = scrollbackRows t" "next_row t1 = next_row t" "cursor t1 = cursor t"
      "textAttributes (current t1) = textAttributes (current t)"
      "set (rowsArray (current t1)) = set (rowsArray (current t))"
      "\<forall>q. row_text (rows_dom t1) q = row_text (rows_dom t) q"
      by (rule moveRows_text [OF wf cur(1) _ _ fits]) auto
    then show thesis
      using that [of t1] False move_list_down [OF k(2) e] by (simp add: c_def)
  qed
  have size: "screenSize t1 = screenSize t" using t1(3) by (simp add: same_frame_def)
  obtain u where u: "clear_rows E k (int (e - k)) t1 = Some u" "erased E (row_range t1 (int (e - k)) k) t1 u"
    "term_ok E u"
    by (rule clear_rows_result [OF t1(2), of "int (e - k)" k]) (use k b size in \<open>auto simp: e_def\<close>)
  let ?t = "clearCursorOverflow (restoreCursor E (cursor t) u)"
  have wf_u: "term_wf E u" using u(3) by simp
  note mv = moved_restore_clear [OF wf_u, of "cursor t"]
  have er: "erased E (row_range t1 (int (e - k)) k) t1 ?t" using erased_moved [OF u(2) mv] .
  have step: "deleteLines E n t = Some ?t"
    unfolding deleteLines_def saveCursor_def Let_def k(3) [symmetric] k(4)
      t1(1) [unfolded k(3) [symmetric]] using u(1) by simp
  have len: "nat (int (e - k)) + k \<le> length (rowsArray (current t1))"
    using k(2) e length_screen_text [OF wf] length_screen_text [OF t1(2)] size by (simp add: screen_text_def)
  have X: "screen_text ?t = take c ?X @ take (e - c - k) (drop (c + k) ?X) @
       replicate k (blank_text t) @ drop e ?X"
    using erased_screen_text [OF er term_wf_distinct [OF t1(2)] _ len, unfolded nat_int] t1(4,5) k(2)
      blank_text_same [OF t1(3,8)] by simp
  have ed: "edited E t1 ?t" using er by (simp add: erased_def)
  have size_u: "screenSize u = screenSize t" using erased_size [OF u(2)] size by simp
  have row: "rc_row (cursor ?t) = rc_row (cursor t)" "rc_column (cursor ?t) = rc_column (cursor t)"
    using moved_restore(2,3) [OF wf_u, of "cursor t"] cur size_u
    by (simp_all add: clearCursorOverflow_def)
  have "row_range t1 (int (e - k)) k \<subseteq> set (rowsArray (current t1))"
    using len by (auto simp: row_range_def)
  then have "\<forall>q. q \<notin> set (rowsArray (current t)) \<longrightarrow> row_text (rows_dom ?t) q = row_text (rows_dom t) q"
    using er t1(9,10) by (auto simp: erased_def)
  then show thesis
    using that [OF step movedD(1) [OF mv] same_frame_trans [OF t1(3) editedD(3) [OF ed]] X] t1 row
      editedD(4,5) [OF ed] by (simp add: same_rows_def)
qed

lemma insertLines_result:
  assumes ok: "term_ok E t" and n: "0 \<le> n" and reg: "rc_row (cursor t) \<le> getVTScrollBottom t"
  defines "c \<equiv> nat (rc_row (cursor t))" and "e \<equiv> nat (getVTScrollBottom t + 1)"
  defines "k \<equiv> min (nat n) (e - c - 1)"
  obtains t' where "insertLines E n t = Some t'" "term_ok E t'" "same_frame t t'"
    "screen_text t' = take c (screen_text t) @ replicate k (blank_text t) @
       take (e - c - k) (drop c (screen_text t)) @ drop e (screen_text t)"
    "scrollbackRows t' = scrollbackRows t" "next_row t' = next_row t"
    "set (rowsArray (current t')) = set (rowsArray (current t))"
    "\<forall>q. q \<notin> set (rowsArray (current t)) \<longrightarrow> row_text (rows_dom t') q = row_text (rows_dom t) q"
    "textAttributes (current t') = textAttributes (current t)"
proof -
  let ?cr = "rc_row (cursor t)" and ?b = "getVTScrollBottom t" and ?X = "screen_text t"
  have wf: "term_wf E t" using ok by simp
  note cur = term_ok_cursor [OF ok]
  have b: "?b < height (screenSize t)" using term_wfD(6) [OF wf] by (simp add: region_ok_def)
  have e: "e \<le> length ?X" using b reg cur length_screen_text [OF wf] by (simp add: e_def)
  have k: "c + k < e" "int k = min n (?b - ?cr)" "?b - ?cr - int k + 1 = int (e - c - k)" "int c = ?cr"
    using n reg cur by (auto simp: k_def e_def c_def min_def)
  have "?cr + int (e - c - k) \<le> height (screenSize t)" "?cr + int k + int (e - c - k) \<le> height (screenSize t)"
    using k b cur reg by (auto simp: e_def)
  then obtain t1 where t1: "moveRows ?cr (int (e - c - k)) (?cr + int k) t = Some t1" "term_wf E t1"
    "same_frame t t1" "screen_text t1 = move_list (nat ?cr) (nat (int (e - c - k))) (nat (?cr + int k)) ?X"
    "scrollbackRows t1 = scrollbackRows t" "next_row t1 = next_row t" "cursor t1 = cursor t"
    "textAttributes (current t1) = textAttributes (current t)"
    "set (rowsArray (current t1)) = set (rowsArray (current t))"
    "\<forall>q. row_text (rows_dom t1) q = row_text (rows_dom t) q"
    "?cr = ?cr + int k \<Longrightarrow> term_ok E t1"
    using moveRows_text [OF wf cur(1), of "int (e - c - k)" "?cr + int k"] cur(1) ok by auto
  have X1: "screen_text t1 = move_list c (e - c - k) (c + k) ?X"
    using t1(4) cur(1) by (simp add: c_def nat_add_distrib)
  have size: "screenSize t1 = screenSize t" using t1(3) by (simp add: same_frame_def)
  have ready: "term_ok E t1 \<or> 0 < k" using t1(11) by (cases k) auto
  obtain t' where t': "clear_rows_down E k ?cr t1 = Some t'" "erased E (row_range t1 ?cr k) t1 t'" "term_ok E t'"
    by (rule clear_rows_down_result [OF t1(2), of ?cr k]) (use k b cur size ready in auto)
  have step: "insertLines E n t = Some t'"
    unfolding insertLines_def Let_def k(2) [symmetric] k(3) t1(1) using t'(1) k(1) by (simp add: t1(1))
  have len: "nat ?cr + k \<le> length (rowsArray (current t1))"
    using k(1,4) e length_screen_text [OF wf] length_screen_text [OF t1(2)] size by (simp add: screen_text_def)
  have "c + (e - c - k) + k = e" using k(1) by simp
  then have X: "screen_text t' = take c ?X @ replicate k (blank_text t) @ take (e - c - k) (drop c ?X) @ drop e ?X"
    using erased_screen_text [OF t'(2) term_wf_distinct [OF t1(2)] cur(1) len] X1
      move_list_up [of c "e - c - k" k ?X] e blank_text_same [OF t1(3,8)] by (simp add: c_def)
  have ed: "edited E t1 t'" using t'(2) by (simp add: erased_def)
  have "row_range t1 ?cr k \<subseteq> set (rowsArray (current t1))"
    using len by (auto simp: row_range_def)
  then have "\<forall>q. q \<notin> set (rowsArray (current t)) \<longrightarrow> row_text (rows_dom t') q = row_text (rows_dom t) q"
    using t'(2) t1(9,10) by (auto simp: erased_def)
  then show thesis
    using that [OF step t'(3) same_frame_trans [OF t1(3) editedD(3) [OF ed]] X] t1
      editedD(4,5) [OF ed] by (simp add: same_rows_def)
qed

section \<open>The contract of an operation\<close>

text \<open>
  What the interpreter of escape sequences relies on: called on a terminal in order, where its
  condition holds, the operation returns, and leaves a terminal in order with the sizes, modes,
  tab stops and the other screen as they were.
\<close>

locale terminal_op =
  fixes E :: env and pre :: "terminal \<Rightarrow> bool" and run :: "terminal \<Rightarrow> terminal option"
  assumes runs: "term_ok E t \<Longrightarrow> pre t \<Longrightarrow> \<exists>t'. run t = Some t' \<and> term_ok E t' \<and> same_frame t t'"
begin

lemma keeps: "term_ok E t \<Longrightarrow> pre t \<Longrightarrow> run t = Some t' \<Longrightarrow> term_ok E t' \<and> same_frame t t'"
  using runs by fastforce

lemma never_throws: "term_ok E t \<Longrightarrow> pre t \<Longrightarrow> run t \<noteq> None"
  using runs by fastforce

lemma followed_by:
  assumes "term_ok E t" and "pre t" and "\<And>t'. term_ok E t' \<Longrightarrow> same_frame t t' \<Longrightarrow> run t = Some t' \<Longrightarrow>
    \<exists>t''. f t' = Some t'' \<and> term_ok E t'' \<and> same_frame t' t''"
  shows "\<exists>t''. run t \<bind> f = Some t'' \<and> term_ok E t'' \<and> same_frame t t''"
proof -
  obtain t' where t': "run t = Some t'" "term_ok E t'" "same_frame t t'" using runs assms(1,2) by blast
  with assms(3) [of t'] show ?thesis by (auto intro: same_frame_trans)
qed

lemma stays_on_screen: "term_ok E t \<Longrightarrow> pre t \<Longrightarrow> run t = Some t' \<Longrightarrow>
    0 \<le> rc_row (cursor t') \<and> rc_row (cursor t') < height (screenSize t) \<and>
    0 \<le> rc_column (cursor t') \<and> rc_column (cursor t') < width (screenSize t)"
  using keeps [of t t'] term_ok_cursor [of E t'] by (simp add: same_frame_def)

end

text \<open>Operations that only move the cursor.\<close>

locale terminal_move =
  fixes E :: env and move :: "terminal \<Rightarrow> terminal"
  assumes moving: "term_ok E t \<Longrightarrow> moved E t (move t)"
begin

lemma keeps_text: "term_ok E t \<Longrightarrow> screen_text (move t) = screen_text t"
  using moved_screen_text moving by blast

end

sublocale terminal_move \<subseteq> terminal_op E "\<lambda>t. True" "\<lambda>t. Some (move t)"
  by standard (use moving movedD in blast)

interpretation absolute: terminal_move E "setAbsoluteCursorPosition E r c" for E r c
  by standard (simp add: moves)

interpretation relative: terminal_move E "setRelativeCursorPosition E r c" for E r c
  by standard (simp add: moves)

interpretation set_cursor: terminal_move E "terminal_setCursorPosition E r c" for E r c
  by standard (simp add: moves)

interpretation set_column: terminal_move E "setCursorColumn E c" for E c
  by standard (simp add: moves)

interpretation set_row: terminal_move E "setAbsoluteCursorRow E r" for E r
  by standard (simp add: moves)

interpretation restore: terminal_move E "restoreCursor E cur" for E cur
  by standard (simp add: moves)

interpretation unflow: terminal_move E clearCursorOverflow for E
  by standard (simp add: moves)

interpretation down: terminal_move E "cursorDown E n" for E n
  by standard (simp add: moves)

interpretation up: terminal_move E "cursorUp E n" for E n
  by standard (simp add: moves)

interpretation left: terminal_move E "cursorLeft E n" for E n
  by standard (simp add: moves)

interpretation right: terminal_move E "cursorRight E n" for E n
  by standard (simp add: moves)

interpretation tab: terminal_move E "forwardTabStop E" for E
  by standard (simp add: moves)

interpretation backtab: terminal_move E "backwardTabStop E" for E
  by standard (simp add: moves)

section \<open>Erasing within a line\<close>

lemma overwrite_blanks_edited:
  assumes ok: "term_ok E t" and n: "1 \<le> n"
  obtains t' where "overwrite_blanks E n t = Some t'" "edited E t t'"
proof -
  have "insertable (js_repeat 32 n) (Some n) (rows_dom t, current t)"
    using n attrs_okD(1) [OF store_wfD(3)] term_wf_store [OF term_ok_wf [OF ok]]
    by (auto simp: insertable_def js_repeat_def)
  then have pre: "overwritable (js_repeat 32 n) (Some n) (rows_dom t, current t)"
    using term_ok_cursor [OF ok] term_wfD(3) [OF term_ok_wf [OF ok]] by (simp add: overwritable_def)
  obtain t' where "edit (overwriteString E (js_repeat 32 n) (Some n)) t = Some t'" "edited E t t'"
    using edit_edited [OF over.row_edit_axioms term_ok_wf [OF ok] term_ok_screen [OF ok] pre] by metis
  then show thesis using that n by (simp add: overwrite_blanks_def blanks_def)
qed

lemma restored:
  assumes "edited E t t'"
  shows "term_ok E (restoreCursor E cur t')" "same_frame t (restoreCursor E cur t')"
    "term_ok E (clearCursorOverflow (restoreCursor E cur t'))"
    "same_frame t (clearCursorOverflow (restoreCursor E cur t'))"
  using movedD [OF moved_restore(1) [OF editedD(1) [OF assms]]]
    movedD [OF moved_restore_clear [OF editedD(1) [OF assms]]] same_frame_trans editedD(3) [OF assms]
  by blast+

interpretation erase_left: terminal_op E "\<lambda>t. True" "eraseToLeft E" for E
proof
  fix t assume ok: "term_ok E t"
  have mv: "moved E t (setCursorColumn E 0 t)" using ok by (simp add: moves)
  have "1 \<le> rc_column (cursor t) + 1" using term_ok_cursor [OF ok] by simp
  then obtain t' where t': "overwrite_blanks E (rc_column (cursor t) + 1) (setCursorColumn E 0 t) = Some t'"
    "edited E (setCursorColumn E 0 t) t'"
    using overwrite_blanks_edited [OF movedD(1) [OF mv]] by blast
  then show "\<exists>t'. eraseToLeft E t = Some t' \<and> term_ok E t' \<and> same_frame t t'"
    using restored [OF edited_trans [OF moved_edited [OF mv] t'(2)]]
    by (simp add: eraseToLeft_def saveCursor_def)
qed

lemma erase_overwriting_ok:
  assumes "term_ok E t" and "1 \<le> n"
  shows "\<exists>t'. erase_overwriting E n t = Some t' \<and> term_ok E t' \<and> same_frame t t'"
  using overwrite_blanks_edited [OF assms] restored
  by (metis (no_types, lifting) erase_overwriting_def bind.bind_lunit saveCursor_def)

lemma delete_on_screen_ok:
  assumes ok: "term_ok E t" and k: "0 \<le> k"
  defines "n \<equiv> min k (width (screenSize t) - rc_column (cursor t))"
  obtains t' where "delete_on_screen E k t = Some (n, t')" "edited E t t'" "term_ok E t'"
    "cursor t' = cursor t"
    "row_text (rows_dom t') (cursor_row (current t)) =
      text_delete (cursor_column (current t)) (nat n) (row_text (rows_dom t) (cursor_row (current t)))"
    "\<forall>q. q \<noteq> cursor_row (current t) \<longrightarrow> rows_dom t' q = rows_dom t q"
proof -
  have wf: "term_wf E t" and scr: "screen_ok E (rows_dom t) (current t)"
    using ok by (simp_all add: term_ok_def)
  note wfD = term_wfD [OF wf] and cur = term_ok_cursor [OF ok]
  have col: "rc_column (cursor t) \<le> columnCount (current t)" using cur wfD(3) by simp
  have narrow: "narrow_row (rows_dom t) (cursor_row (current t))"
    using store_wfD(4) [OF term_wf_store [OF wf]] screen_ok_cursor_row [OF scr] by (simp add: all_rows_def)
  obtain d s where del: "deleteChars E k (rows_dom t, current t) = Some (n, d, s)"
    "row_text d (cursor_row (current t)) =
      text_delete (cursor_column (current t)) (nat n) (row_text (rows_dom t) (cursor_row (current t)))"
    "cursorPosition s = cursor t" "same_rest (rows_dom t, current t) (d, s)"
    by (rule deleteChars_spec [OF scr narrow k col]) (use wfD(3) n_def in auto)
  have pre: "deletable k (rows_dom t, current t)" using k col by (simp add: deletable_def)
  have ed: "edited E t (set_current s (t\<lparr>rows_dom := d\<rparr>))"
    by (rule edit_edited [OF del.row_edit_axioms wf scr pre]) (use del(1) in auto)
  then have "term_ok E (set_current s (t\<lparr>rows_dom := d\<rparr>))"
    using edited_ok [OF ed] del(3) cur by simp
  then show thesis
    using that [of "set_current s (t\<lparr>rows_dom := d\<rparr>)"] del ed
    by (simp add: delete_on_screen_def same_rest_def)
qed

lemma cursor_row_width_defined: "term_ok E t \<Longrightarrow> \<exists>w. cursor_row_width E t = Some w"
  using term_wfD(4) [OF term_ok_wf] term_ok_cursor [of E t] by (simp add: cursor_row_width_def Let_def)

definition right_count :: "int option \<Rightarrow> terminal \<Rightarrow> bool" where
  "right_count c t \<longleftrightarrow> (case c of None \<Rightarrow> True | Some n \<Rightarrow> 0 \<le> n)"

interpretation erase_right: terminal_op E "right_count c" "eraseToRight E c" for E c
proof
  fix t assume ok: "term_ok E t" and c: "right_count c t"
  let ?max = "width (screenSize t) - rc_column (cursor t)"
  define n where "n = (case c of None \<Rightarrow> ?max | Some c \<Rightarrow> if c \<noteq> 0 then min c ?max else ?max)"
  have n: "1 \<le> n" using term_ok_cursor [OF ok] c by (auto simp: n_def right_count_def split: option.splits)
  obtain w where w: "cursor_row_width E t = Some w" using cursor_row_width_defined [OF ok] by blast
  obtain m t' where t': "delete_on_screen E n t = Some (m, t')" "edited E t t'" "term_ok E t'"
    using delete_on_screen_ok [OF ok, of n] n by (metis (no_types, lifting) order_trans zero_le_one)
  have "term_ok E (clearCursorOverflow t')" "same_frame t (clearCursorOverflow t')"
    using movedD [OF moves(7) [OF t'(3)]] editedD(3) [OF t'(2)] same_frame_trans by blast+
  then show "\<exists>t'. eraseToRight E c t = Some t' \<and> term_ok E t' \<and> same_frame t t'"
    using ok erase_overwriting_ok [OF ok n] w t'(1)
    by (auto simp: eraseToRight_def Let_def simp flip: n_def)
qed

interpretation erase_line: terminal_op E "\<lambda>t. True" "eraseLine E" for E
proof
  fix t assume ok: "term_ok E t"
  obtain t' where t': "edit (clearCursorRow E) t = Some t'" "erased E {cursor_row (current t)} t t'"
    using clear_current [OF ok] .
  then show "\<exists>t'. eraseLine E t = Some t' \<and> term_ok E t' \<and> same_frame t t'"
    using restored [of E t t'] by (simp add: eraseLine_def saveCursor_def erased_def)
qed

lemma cleared_rows:
  assumes ok: "term_ok E t" and "0 \<le> r" and "r + int n \<le> height (screenSize t)"
  shows "\<exists>t'. (clear_rows E n r t \<bind> (\<lambda>t. Some (clearCursorOverflow (restoreCursor E cur t)))) = Some t' \<and>
    term_ok E t' \<and> same_frame t t'"
proof -
  obtain t' where "clear_rows E n r t = Some t'" "erased E (row_range t r n) t t'"
    using clear_rows_result [OF term_ok_wf [OF ok] assms(2,3)] ok by metis
  then show ?thesis using restored [of E t t' cur] by (simp add: erased_def)
qed

interpretation erase_above: terminal_op E "\<lambda>t. True" "eraseAbove E" for E
proof
  fix t assume ok: "term_ok E t"
  have "0 + int (nat (rc_row (cursor t))) \<le> height (screenSize t)" using term_ok_cursor [OF ok] by simp
  then show "\<exists>t'. eraseAbove E t = Some t' \<and> term_ok E t' \<and> same_frame t t'"
    unfolding eraseAbove_def saveCursor_def Let_def
    by (intro erase_left.followed_by [OF ok] cleared_rows) (simp_all add: same_frame_def [of t])
qed

interpretation erase_below: terminal_op E "\<lambda>t. True" "eraseBelow E" for E
proof
  fix t assume ok: "term_ok E t"
  note cur = term_ok_cursor [OF ok]
  show "\<exists>t'. eraseBelow E t = Some t' \<and> term_ok E t' \<and> same_frame t t'"
    unfolding eraseBelow_def saveCursor_def Let_def
    by (intro erase_right.followed_by [OF ok] cleared_rows)
      (use cur in \<open>simp_all add: right_count_def same_frame_def [of t]\<close>)
qed

section \<open>Characters and lines\<close>

lemma insert_blanks:
  assumes wf: "term_wf E t" and scr: "screen_ok E (rows_dom t) (current t)" and n: "1 \<le> n"
    and w: "w = None \<or> w = Some n"
  obtains t' where "edit (insertString E (js_repeat 32 n) w) t = Some t'" "edited E t t'"
proof -
  have "insertable (js_repeat 32 n) w (rows_dom t, current t)"
    using n w attrs_okD(1) [OF store_wfD(3) [OF term_wf_store [OF wf]]]
    by (auto simp: insertable_def js_repeat_def)
  then show thesis
    using that edit_edited [OF ins.row_edit_axioms wf scr] by metis
qed

lemma clip_edited:
  assumes wf: "term_wf E t" and scr: "screen_ok E (rows_dom t) (current t)"
  obtains t' where "edit (maybeClipCurrentRow E) t = Some t'" "edited E t t'" "term_ok E t'"
proof -
  have narrow: "narrow_row (rows_dom t) (cursor_row (current t))"
    using store_wfD(4) [OF term_wf_store [OF wf]] screen_ok_cursor_row [OF scr] by (simp add: all_rows_def)
  obtain d s where ds: "maybeClipCurrentRow E (rows_dom t, current t) = Some (d, s)"
    "edit (maybeClipCurrentRow E) t = Some (set_current s (t\<lparr>rows_dom := d\<rparr>))"
    "edited E t (set_current s (t\<lparr>rows_dom := d\<rparr>))"
    using edit_edited [OF clip.row_edit_axioms wf scr TrueI] by metis
  have "rc_column (cursorPosition s) = min (rc_column (cursor t)) (columnCount (current t) - 1)"
    by (rule maybeClipCurrentRow_spec [OF scr narrow]) (use ds(1) in auto)
  then have "term_ok E (set_current s (t\<lparr>rows_dom := d\<rparr>))"
    using edited_ok [OF ds(3)] term_wfD(3) [OF wf] by simp
  then show thesis using that ds by blast
qed

interpretation insert_space: terminal_op E "\<lambda>t. 0 \<le> n" "insertSpace E n" for E n
proof
  fix t assume ok: "term_ok E t" and "0 \<le> n"
  then have n: "1 \<le> or_one n" by (simp add: or_one_def)
  obtain u where u: "edit (insertString E (js_repeat 32 (or_one n)) (Some (or_one n))) t = Some u" "edited E t u"
    using insert_blanks [OF term_ok_wf [OF ok] term_ok_screen [OF ok] n] by blast
  obtain v where v: "edit (maybeClipCurrentRow E) u = Some v" "edited E u v"
    using clip_edited [OF editedD(1,2) [OF u(2)]] by blast
  show "\<exists>t'. insertSpace E n t = Some t' \<and> term_ok E t' \<and> same_frame t t'"
    using u(1) v(1) n restored [OF edited_trans [OF u(2) v(2)]]
    by (simp add: insertSpace_def saveCursor_def blanks_def)
qed

interpretation delete_chars: terminal_op E "\<lambda>t. 0 \<le> n" "terminal_deleteChars E n" for E n
proof
  fix t assume ok: "term_ok E t" and n: "0 \<le> n"
  obtain m u where u: "delete_on_screen E n t = Some (m, u)" "edited E t u" "term_ok E u"
    and m: "m = min n (width (screenSize t) - rc_column (cursor t))"
    using delete_on_screen_ok [OF ok n] by metis
  have frame: "same_frame t u" using editedD(3) [OF u(2)] .
  show "\<exists>t'. terminal_deleteChars E n t = Some t' \<and> term_ok E t' \<and> same_frame t t'"
  proof (cases "m \<noteq> 0 \<and> \<not> isDefault (textAttributes (current u))")
    case False
    then show ?thesis
      using u movedD [OF moves(7) [OF u(3)]] same_frame_trans [OF frame]
      by (auto simp: terminal_deleteChars_def)
  next
    case True
    then have m1: "1 \<le> m" using m n term_ok_cursor [OF ok] by auto
    let ?v = "setCursorColumn E (width (screenSize u) - m) u"
    have mv: "moved E u ?v" using u(3) by (simp add: moves)
    obtain w where w: "edit (insertString E (js_repeat 32 m) None) ?v = Some w" "edited E ?v w"
      using insert_blanks [OF movedD(2) [OF mv] term_ok_screen [OF movedD(1) [OF mv]] m1] by blast
    have "edited E t w"
      using edited_trans [OF edited_trans [OF u(2) moved_edited [OF mv]] w(2)] .
    from restored [OF this] show ?thesis
      using True u(1) w(1) m1 by (simp add: terminal_deleteChars_def saveCursor_def blanks_def)
  qed
qed

text \<open>The cursor is not below the scroll region.\<close>

definition in_region :: "terminal \<Rightarrow> bool" where
  "in_region t \<longleftrightarrow> rc_row (cursor t) \<le> getVTScrollBottom t"

interpretation delete_lines: terminal_op E "\<lambda>t. 1 \<le> n \<and> in_region t" "deleteLines E n" for E n
  by standard (auto simp: in_region_def elim: deleteLines_result)

interpretation insert_lines: terminal_op E "\<lambda>t. 0 \<le> n \<and> in_region t" "insertLines E n" for E n
  by standard (auto simp: in_region_def elim: insertLines_result)

lemma term_ok_region:
  assumes "term_ok E t"
  shows "0 \<le> getVTScrollTop t" "getVTScrollTop t \<le> getVTScrollBottom t"
    "getVTScrollBottom t < height (screenSize t)"
  using term_wfD(6) [OF term_ok_wf [OF assms]] by (simp_all add: region_ok_def)

lemma row_after_set:
  assumes ok: "term_ok E t" and "0 \<le> r" "r < height (screenSize t)"
  shows "rc_row (cursor (setAbsoluteCursorPosition E r c t)) = r"
    "rc_row (cursor (setAbsoluteCursorRow E r t)) = r"
    "rc_column (cursor (setAbsoluteCursorRow E r t)) = rc_column (cursor t)"
  using moved_absolute(2) [OF term_ok_wf [OF ok]] assms(2,3) term_ok_cursor [OF ok]
  by (simp_all add: setAbsoluteCursorRow_def RowCol_def)

text \<open>
  \<open>vtScrollUp\<close>: the rows of the region move up by \<open>n\<close>, the rows shifted out are lost, and the
  cursor stays where it is.
\<close>

lemma vtScrollUp_result:
  assumes ok: "term_ok E t" and n: "1 \<le> n"
  defines "c \<equiv> nat (getVTScrollTop t)" and "e \<equiv> nat (getVTScrollBottom t + 1)"
  defines "k \<equiv> min (nat n) (e - c)"
  obtains t' where "vtScrollUp E n t = Some t'" "term_ok E t'" "same_frame t t'"
    "screen_text t' = take c (screen_text t) @ take (e - c - k) (drop (c + k) (screen_text t)) @
       replicate k (blank_text t) @ drop e (screen_text t)"
    "scrollbackRows t' = scrollbackRows t" "next_row t' = next_row t"
    "rc_row (cursor t') = rc_row (cursor t)" "rc_column (cursor t') = rc_column (cursor t)"
    "set (rowsArray (current t')) = set (rowsArray (current t))"
    "\<forall>q. q \<notin> set (rowsArray (current t)) \<longrightarrow> row_text (rows_dom t') q = row_text (rows_dom t) q"
    "textAttributes (current t') = textAttributes (current t)"
proof -
  let ?u = "setAbsoluteCursorRow E (getVTScrollTop t) t"
  note reg = term_ok_region [OF ok] and cur = term_ok_cursor [OF ok]
  have mv: "moved E t ?u" using ok by (simp add: moves)
  note mvD = movedD [OF mv] and scr = same_frame_scroll [OF movedD(3) [OF mv]]
  have row: "rc_row (cursor ?u) = getVTScrollTop t" using row_after_set [OF ok] reg by simp
  have le: "rc_row (cursor ?u) \<le> getVTScrollBottom ?u" using row scr reg by simp
  obtain v where v: "deleteLines E n ?u = Some v" "term_ok E v" "same_frame ?u v"
    "screen_text v = take c (screen_text t) @ take (e - c - k) (drop (c + k) (screen_text t)) @
       replicate k (blank_text t) @ drop e (screen_text t)"
    "scrollbackRows v = scrollbackRows ?u" "next_row v = next_row ?u"
    "set (rowsArray (current v)) = set (rowsArray (current ?u))"
    "\<forall>q. q \<notin> set (rowsArray (current ?u)) \<longrightarrow> row_text (rows_dom v) q = row_text (rows_dom ?u) q"
    "textAttributes (current v) = textAttributes (current ?u)"
    by (rule deleteLines_result [OF mvD(1) n le])
      (use row scr blank_text_same [OF mvD(3,6)] moved_screen_text [OF mv] in
        \<open>auto simp: c_def e_def k_def\<close>)
  let ?t = "restoreCursor E (cursor t) v"
  have mv': "moved E v ?t" using v(2) by (simp add: moves)
  have "same_frame t v" using same_frame_trans [OF mvD(3) v(3)] .
  then have size: "screenSize v = screenSize t" by (simp add: same_frame_def)
  have step: "vtScrollUp E n t = Some ?t" using v(1) by (simp add: vtScrollUp_def saveCursor_def)
  have "rc_row (cursor ?t) = rc_row (cursor t)" "rc_column (cursor ?t) = rc_column (cursor t)"
    using moved_restore(2,3) [OF term_ok_wf [OF v(2)], of "cursor t"] cur size by simp_all
  then show thesis
    using that [OF step movedD(1) [OF mv'] same_frame_trans [OF \<open>same_frame t v\<close> movedD(3) [OF mv']]]
      moved_screen_text [OF mv'] v movedD(4-6) [OF mv'] mvD(4-6)
    by (simp add: same_rows_def same_text_def)
qed

interpretation vt_scroll_up: terminal_op E "\<lambda>t. 1 \<le> n" "vtScrollUp E n" for E n
  by standard (auto elim: vtScrollUp_result)

interpretation vt_scroll_down: terminal_op E "\<lambda>t. 0 \<le> n" "vtScrollDown E n" for E n
proof
  fix t assume ok: "term_ok E t" and n: "0 \<le> n"
  let ?u = "setAbsoluteCursorPosition E (getVTScrollTop t) 0 t"
  have mv: "moved E t ?u" using ok by (simp add: moves)
  have reg: "in_region ?u"
    using row_after_set [OF ok] term_ok_region [OF ok] same_frame_scroll [OF movedD(3) [OF mv]]
    by (simp add: in_region_def)
  have "\<exists>t'. (insertLines E n ?u \<bind> (\<lambda>v. Some (restoreCursor E (cursor t) v))) = Some t' \<and>
      term_ok E t' \<and> same_frame ?u t'"
    by (rule insert_lines.followed_by [OF movedD(1) [OF mv]])
      (use n reg restore.runs in auto)
  then show "\<exists>t'. vtScrollDown E n t = Some t' \<and> term_ok E t' \<and> same_frame t t'"
    using same_frame_trans [OF movedD(3) [OF mv]] by (auto simp: vtScrollDown_def saveCursor_def)
qed

section \<open>New lines\<close>

text \<open>
  The cases of \<open>newLine\<close>: the region scrolls, the screen scrolls into the scrollback, a row goes
  in above the rows below the region, or the cursor moves down.
\<close>

lemma newLine_cases:
  assumes ok: "term_ok E t"
  defines "r \<equiv> rc_row (cursor t)" and "h \<equiv> height (screenSize t)"
  shows "newLine E t =
    (if vtScrollTop t \<noteq> None \<and> r = getVTScrollBottom t
     then vtScrollUp E 1 t \<bind> (\<lambda>t. Some (setAbsoluteCursorPosition E (rc_row (cursor t)) 0 t))
     else if r = h - 1 then Some (appendRows E 1 t)
     else if r = getVTScrollBottom t then insertRow_at_cursor E t
     else Some (setAbsoluteCursorPosition E (r + 1) 0 t))"
  using term_wfD(4) [OF term_ok_wf [OF ok]]
  by (auto simp: newLine_def Let_def getHeight_def r_def h_def)

lemma append_one:
  assumes ok: "term_ok E t"
  shows "term_ok E (appendRows E 1 t)" "same_frame t (appendRows E 1 t)"
    "all_rows (appendRows E 1 t) = all_rows t @ [next_row t]"
    "kept_rows (next_row t) t (appendRows E 1 t)"
    "row_text (rows_dom (appendRows E 1 t)) (next_row t) = []"
    "cursor (appendRows E 1 t) = RowCol (height (screenSize t) - 1) 0"
proof -
  note wf = term_ok_wf [OF ok]
  have len: "height (screenSize t) \<le> int (length (rowsArray (current t))) + 1"
    using term_wfD(4) [OF wf] by simp
  note app = appendRows_result [OF term_wf_short [OF wf] _ len]
  show "term_ok E (appendRows E 1 t)" "same_frame t (appendRows E 1 t)"
    "all_rows (appendRows E 1 t) = all_rows t @ [next_row t]"
    "kept_rows (next_row t) t (appendRows E 1 t)"
    "row_text (rows_dom (appendRows E 1 t)) (next_row t) = []"
    "cursor (appendRows E 1 t) = RowCol (height (screenSize t) - 1) 0"
    using app term_wfD(4) [OF wf] by simp_all
qed

interpretation new_line: terminal_op E "\<lambda>t. True" "newLine E" for E
proof
  fix t assume ok: "term_ok E t"
  have "\<exists>t'. (vtScrollUp E 1 t \<bind> (\<lambda>t. Some (setAbsoluteCursorPosition E (rc_row (cursor t)) 0 t))) =
      Some t' \<and> term_ok E t' \<and> same_frame t t'"
    by (rule vt_scroll_up.followed_by [OF ok]) (use absolute.runs in auto)
  moreover have "\<exists>t'. insertRow_at_cursor E t = Some t' \<and> term_ok E t' \<and> same_frame t t'"
    using insertRow_at_cursor_result [OF ok] by metis
  ultimately show "\<exists>t'. newLine E t = Some t' \<and> term_ok E t' \<and> same_frame t t'"
    using append_one(1,2) [OF ok] absolute.runs [OF ok]
    unfolding newLine_cases [OF ok] by (auto split: if_splits)
qed

interpretation line_feed: terminal_op E "\<lambda>t. True" "lineFeed E" for E
proof
  fix t assume ok: "term_ok E t"
  show "\<exists>t'. lineFeed E t = Some t' \<and> term_ok E t' \<and> same_frame t t'"
    unfolding lineFeed_def Let_def
    by (rule new_line.followed_by [OF ok]) (use set_column.runs in auto)
qed

interpretation form_feed: terminal_op E "\<lambda>t. True" "formFeed E" for E
  by standard (simp add: formFeed_def new_line.runs line_feed.runs)

interpretation reverse_feed: terminal_op E "\<lambda>t. True" "reverseLineFeed E" for E
proof
  fix t assume ok: "term_ok E t"
  then have "in_region t" if "rc_row (cursor t) = getVTScrollTop t"
    using that term_ok_region [OF ok] by (simp add: in_region_def)
  then show "\<exists>t'. reverseLineFeed E t = Some t' \<and> term_ok E t' \<and> same_frame t t'"
    using insert_lines.runs [OF ok, of 1] set_row.runs [OF ok] by (auto simp: reverseLineFeed_def Let_def)
qed

section \<open>Printing\<close>

lemma printable_ascii: "printable_str str \<Longrightarrow> asciiRegex str"
  by (auto simp: asciiRegex_def printable_def)

lemma attrs_flags_self: "attrs_ok ta \<Longrightarrow> ta\<lparr>wcNode := False, asciiNode := True\<rparr> = ta"
  by (cases ta) (simp add: attrs_ok_def)

lemma attrs_self [simp]: "s\<lparr>textAttributes := textAttributes s\<rparr> = s"
  by (cases s) simp

lemma set_token_attrs_self: "attrs_ok (textAttributes (current t)) \<Longrightarrow> set_token_attrs False True t = t"
  by (simp add: set_token_attrs_def on_screen_def attrs_flags_self)

definition write_mode :: "terminal \<Rightarrow> env \<Rightarrow> jsstring \<Rightarrow> dom \<times> screen \<Rightarrow> (dom \<times> screen) option" where
  "write_mode t E str = (if insertMode (options t) then insertString E str (Some (int (length str)))
     else overwriteString E str (Some (int (length str))))"

lemma print_tokens_printable:
  assumes ok: "term_ok E t" and str: "printable_str str" "str \<noteq> []"
  obtains t' where "print_tokens E (splitWidecharString E str) t = Some t'" "edited E t t'"
    "edit (write_mode t E str) t = Some t'"
proof -
  have attrs: "attrs_ok (textAttributes (current t))"
    using store_wfD(3) term_wf_store [OF term_ok_wf [OF ok]] by blast
  have ins: "insertable str (Some (int (length str))) (rows_dom t, current t)"
    using str attrs_okD(1) [OF attrs] by (simp add: insertable_def)
  moreover have "overwritable str (Some (int (length str))) (rows_dom t, current t)"
    using ins term_ok_cursor [OF ok] term_wfD(3) [OF term_ok_wf [OF ok]] by (simp add: overwritable_def)
  ultimately obtain t' where t': "edit (write_mode t E str) t = Some t'" "edited E t t'"
    using edit_edited [OF ins.row_edit_axioms term_ok_wf [OF ok] term_ok_screen [OF ok]]
      edit_edited [OF over.row_edit_axioms term_ok_wf [OF ok] term_ok_screen [OF ok]]
    unfolding write_mode_def by (cases "insertMode (options t)") (simp_all, metis+)
  have "attrs_ok (textAttributes (current t'))" using attrs editedD(5) [OF t'(2)] by simp
  then have "print_tokens E (splitWidecharString E str) t = Some t'"
    using t'(1) attrs printable_ascii [OF str(1)]
    by (cases "insertMode (options t)")
      (simp_all add: splitWidecharString_def print_token_def set_token_attrs_self write_mode_def)
  then show thesis using that t' by blast
qed

interpretation commit: row_edit E "\<lambda>ds. True" commitLineOverflow for E
proof
  fix d s
  assume ok: "screen_ok E d s" and narrow: "narrow_row d (cursor_row s)"
  have "cursorRowNode s = Some (cursor_row s)" using screen_okD [OF ok] by metis
  moreover have "screen_ok E (d(cursor_row s := (d (cursor_row s))\<lparr>line_overflow := True\<rparr>)) s"
    using ok by (simp add: screen_ok_def cursor_row_def)
  ultimately show "\<exists>d' s'. commitLineOverflow (d, s) = Some (d', s') \<and> screen_ok E d' s' \<and>
      narrow_row d' (cursor_row s) \<and> same_rest (d, s) (d', s')"
    using narrow by (simp add: commitLineOverflow_def narrow_row_def same_rest_def)
qed

lemma commit_ok:
  assumes ok: "term_ok E t"
  shows "\<exists>t'. edit commitLineOverflow t = Some t' \<and> term_ok E t' \<and> same_frame t t'"
proof -
  obtain d s where ds: "commitLineOverflow (rows_dom t, current t) = Some (d, s)"
    "edit commitLineOverflow t = Some (set_current s (t\<lparr>rows_dom := d\<rparr>))"
    "edited E t (set_current s (t\<lparr>rows_dom := d\<rparr>))"
    using edit_edited [OF commit.row_edit_axioms term_ok_wf [OF ok] term_ok_screen [OF ok] TrueI]
    by metis
  have "cursorPosition s = cursor t"
    using ds(1) by (auto simp: commitLineOverflow_def split: Option.bind_splits)
  then show ?thesis
    using ds edited_ok [OF ds(3)] term_ok_cursor [OF ok] editedD(3) [OF ds(3)] by simp
qed

interpretation print_wrap: terminal_op E "\<lambda>t. True" "print_wrap E" for E
proof
  fix t assume ok: "term_ok E t"
  obtain u where u: "edit commitLineOverflow t = Some u" "term_ok E u" "same_frame t u"
    using commit_ok [OF ok] by blast
  obtain v where "newLine E u = Some v" "term_ok E v" "same_frame u v"
    using new_line.runs [OF u(2) TrueI] by blast
  then show "\<exists>t'. print_wrap E t = Some t' \<and> term_ok E t' \<and> same_frame t t'"
    using u ok same_frame_trans [OF u(3)] by (simp add: print_wrap_def)
qed

text \<open>The piece of a printable string that one turn prints.\<close>

lemma print_piece_printable:
  assumes ok: "term_ok E t" and str: "printable_str str" and start: "0 \<le> start" "start < int (length str)"
  defines "p \<equiv> print_piece E str (int (length str)) start t"
  shows "printable_str (fst p)" "fst p \<noteq> []" "1 \<le> snd p"
proof -
  have room: "1 \<le> width (screenSize t) - rc_column (cursor t)" using term_ok_cursor [OF ok] by simp
  have len: "nat start < length str" using start by linarith
  let ?tail = "drop (nat start) str"
  have tail: "?tail \<noteq> []" "set ?tail \<subseteq> set str" using len by (auto dest: in_set_dropD)
  have last: "drop (nat (int (length str) - 1)) str \<noteq> []" using len by auto
  show "1 \<le> snd p" using room start by (simp add: p_def print_piece_def Let_def)
  have "0 \<le> int (length str) - 1" using len by linarith
  note sub = substr_printable(1) [OF str this, of "wc E"]
  have p: "fst p \<in> {take (nat (width (screenSize t) - rc_column (cursor t) - 1)) ?tail @
        drop (nat (int (length str) - 1)) str,
      take (nat (width (screenSize t) - rc_column (cursor t))) ?tail,
      take (nat (int (length str) - start)) ?tail}"
    using sub str start room by (auto simp: p_def print_piece_def Let_def)
  then show "fst p \<noteq> []" using tail(1) last room start by auto
  show "printable_str (fst p)" using p str by (auto dest!: in_set_takeD in_set_dropD)
qed

text \<open>The loop ends: with fuel for the rest of the string, it returns.\<close>

lemma print_loop_ok:
  assumes ok: "term_ok E t" and str: "printable_str str" and start: "0 \<le> start"
  shows "\<exists>t'. print_loop E str (int (length str)) start t = Some t' \<and> term_ok E t' \<and> same_frame t t'"
  using ok start
proof (induction "nat (int (length str) - start)" arbitrary: start t rule: less_induct)
  case less
  show ?case
  proof (cases "start < int (length str)")
    case False
    then show ?thesis using less.prems by (simp add: print_loop.simps)
  next
    case True
    obtain u where u: "print_wrap E t = Some u" "term_ok E u" "same_frame t u"
      using print_wrap.runs [OF less.prems(1) TrueI] by blast
    let ?p = "print_piece E str (int (length str)) start u"
    note piece = print_piece_printable [OF u(2) str less.prems(2) True]
    obtain v where v: "print_tokens E (splitWidecharString E (fst ?p)) u = Some v" "edited E u v"
      using print_tokens_printable [OF u(2) piece(1,2)] by blast
    obtain w where w: "edit (maybeClipCurrentRow E) v = Some w" "edited E v w" "term_ok E w"
      using clip_edited [OF editedD(1,2) [OF v(2)]] by blast
    obtain t' where "print_loop E str (int (length str)) (start + snd ?p) w = Some t'" "term_ok E t'"
      "same_frame w t'"
      using less.hyps [OF _ w(3), of "start + snd ?p"] piece(3) less.prems(2) True by auto
    moreover have "same_frame t w"
      using u(3) editedD(3) [OF v(2)] editedD(3) [OF w(2)] same_frame_trans by metis
    ultimately show ?thesis
      using True u(1) v(1) w(1) same_frame_trans by (auto simp: print_loop.simps [of E str _ start])
  qed
qed

interpretation print_text: terminal_op E "\<lambda>t. printable_str str" "terminal_print E str" for E str
  by standard (use print_loop_ok in \<open>auto simp: terminal_print_def\<close>)

lemma fill_cells_ok:
  assumes "term_wf E t" and "printable_str ch" and "length ch = 1"
  shows "\<exists>t'. fill_cells E ch cells t = Some t' \<and> term_wf E t' \<and> same_frame t t'"
  using assms(1)
proof (induction cells arbitrary: t rule: list.induct)
  case Nil
  then show ?case by simp
next
  case (Cons cell cells)
  obtain r c where cell: "cell = (r, c)" by force
  let ?u = "setAbsoluteCursorPosition E r c t"
  have mv: "moved E t ?u" using Cons.prems by (simp add: moves)
  note ok = movedD(1) [OF mv] and wf = movedD(2) [OF mv]
  have "insertable ch (Some 1) (rows_dom ?u, current ?u)"
    using assms(2,3) attrs_okD(1) [OF store_wfD(3) [OF term_wf_store [OF wf]]]
    by (auto simp: insertable_def)
  then have pre: "overwritable ch (Some 1) (rows_dom ?u, current ?u)"
    using term_ok_cursor [OF ok] term_wfD(3) [OF wf] by (simp add: overwritable_def)
  obtain v where v: "edit (overwriteString E ch (Some 1)) ?u = Some v" "edited E ?u v"
    using edit_edited [OF over.row_edit_axioms wf term_ok_screen [OF ok] pre] by metis
  obtain t' where t': "fill_cells E ch cells v = Some t'" "term_wf E t'" "same_frame v t'"
    using Cons.IH [OF editedD(1) [OF v(2)]] by blast
  moreover have "same_frame t t'"
    using movedD(3) [OF mv] editedD(3) [OF v(2)] t'(3) same_frame_trans by metis
  ultimately show ?case using cell v(1) by simp
qed

interpretation fill_text: terminal_op E "\<lambda>t. printable_str ch \<and> length ch = 1" "terminal_fill E ch" for E ch
proof
  fix t assume ok: "term_ok E t" and ch: "printable_str ch \<and> length ch = 1"
  let ?u = "setAbsoluteCursorPosition E 0 0 t"
  have mv: "moved E t ?u" using ok by (simp add: moves)
  obtain v where v: "fill_cells E ch [(r, c). r \<leftarrow> [0..height (screenSize t) - 1],
      c \<leftarrow> [0..width (screenSize t) - 1]] ?u = Some v" "term_wf E v" "same_frame ?u v"
    using fill_cells_ok [OF movedD(2) [OF mv]] ch by blast
  have "moved E v (restoreCursor E (cursor t) v)" using v(2) by (rule moves)
  from movedD(1,3) [OF this] v show "\<exists>t'. terminal_fill E ch t = Some t' \<and> term_ok E t' \<and> same_frame t t'"
    using same_frame_trans [OF movedD(3) [OF mv] same_frame_trans] by (simp add: terminal_fill_def saveCursor_def)
qed

end
