(* ===== verification/TerminalSize.thy ===== *)
theory TerminalSize
  imports TerminalOps
begin

text \<open>
  Tab stops, changes of the terminal's size, switching between the two screens, clearing both
  of them, and the terminal as the constructor leaves it.
\<close>

section \<open>Tab stops\<close>

lemma insert_stop_rev_set: "set (insert_stop_rev c xs) = insert c (set xs)"
  by (induction xs) auto

lemma insert_stop_set [simp]: "set (insert_stop c xs) = insert c (set xs)"
  by (simp add: insert_stop_def insert_stop_rev_set)

lemma insert_stop_rev_sorted: "sorted_wrt (>) xs \<Longrightarrow> sorted_wrt (>) (insert_stop_rev c xs)"
  by (induction xs) (auto simp: insert_stop_rev_set)

lemma insert_stop_sorted:
  assumes "sorted_wrt (<) xs"
  shows "sorted_wrt (<) (insert_stop c xs)"
proof -
  have "sorted_wrt (>) (insert_stop_rev c (rev xs))"
    using assms by (intro insert_stop_rev_sorted) (simp add: sorted_wrt_rev)
  then show ?thesis by (simp add: insert_stop_def sorted_wrt_rev)
qed

lemma insert_stop_ok: "tabs_ok w xs \<Longrightarrow> 0 \<le> c \<Longrightarrow> c < w \<Longrightarrow> tabs_ok w (insert_stop c xs)"
  by (simp add: tabs_ok_def insert_stop_sorted)

declare default_stops.simps [simp del]

lemma default_stops_ok: "tabs_ok w xs \<Longrightarrow> 0 \<le> i \<Longrightarrow> tabs_ok w (default_stops i w xs)"
proof (induction i w xs rule: default_stops.induct)
  case (1 i w xs)
  then show ?case
    by (subst default_stops.simps) (simp add: insert_stop_ok tabWidth_def)
qed

lemma default_stops_set:
  "set (default_stops i w xs) = set xs \<union> {x. \<exists>k. x = i + int k * tabWidth \<and> x < w}"
proof (induction i w xs rule: default_stops.induct)
  case (1 i w xs)
  show ?case
  proof (cases "i < w")
    case False
    then have "\<not> i + int k * tabWidth < w" for k by (simp add: tabWidth_def)
    then show ?thesis using False by (subst default_stops.simps) auto
  next
    case True
    have "{x. \<exists>k. x = i + int k * tabWidth \<and> x < w} =
        insert i {x. \<exists>k. x = i + tabWidth + int k * tabWidth \<and> x < w}" (is "?A = insert i ?B")
    proof (rule set_eqI)
      fix x
      show "x \<in> ?A \<longleftrightarrow> x \<in> insert i ?B"
      proof
        assume "x \<in> ?A"
        then obtain k where k: "x = i + int k * tabWidth" "x < w" by blast
        then show "x \<in> insert i ?B" by (cases k) (auto simp: algebra_simps)
      next
        assume "x \<in> insert i ?B"
        then consider "x = i" | k where "x = i + tabWidth + int k * tabWidth" "x < w" by blast
        then show "x \<in> ?A"
        proof cases
          case 1
          then show ?thesis using True by (auto intro: exI [of _ 0])
        next
          case 2
          then have "x = i + int (Suc k) * tabWidth" by (simp add: algebra_simps)
          then show ?thesis using 2 by blast
        qed
      qed
    qed
    then show ?thesis
      using True 1 by (subst default_stops.simps) auto
  qed
qed

lemma default_start_nonneg: "0 \<le> start \<Longrightarrow> 0 \<le> start - 1 - js_rem (start - 1) tabWidth + tabWidth"
  using pos_mod_bound [of 8 "\<bar>start - 1\<bar>"] by (auto simp: js_rem_def tabWidth_def sgn_if)

section \<open>Sizes\<close>

text \<open>
  The part of \<open>store_wf\<close> that does not speak of the width, with the width to be.
\<close>

definition store_for :: "env \<Rightarrow> int \<Rightarrow> terminal \<Rightarrow> bool" where
  "store_for E cols t \<longleftrightarrow> store_wf E (t\<lparr>screenSize := (screenSize t)\<lparr>width := cols\<rparr>, tabStops := []\<rparr>)"

lemma all_rows_update [simp]:
  "all_rows (t\<lparr>screenSize := z\<rparr>) = all_rows t" "all_rows (t\<lparr>tabStops := ts\<rparr>) = all_rows t"
  "all_rows (t\<lparr>defaultTabStops := b\<rparr>) = all_rows t" "all_rows (t\<lparr>options := os\<rparr>) = all_rows t"
  "all_rows (t\<lparr>vtScrollTop := a\<rparr>) = all_rows t" "all_rows (t\<lparr>vtScrollBottom := a\<rparr>) = all_rows t"
  "all_rows (t\<lparr>rows_dom := d\<rparr>) = all_rows t" "all_rows (t\<lparr>next_row := n\<rparr>) = all_rows t"
  by (simp_all add: all_rows_def)

lemma other_ok_update [simp]:
  "other_ok E (t\<lparr>screenSize := z\<rparr>) = other_ok E t" "other_ok E (t\<lparr>tabStops := ts\<rparr>) = other_ok E t"
  "other_ok E (t\<lparr>defaultTabStops := b\<rparr>) = other_ok E t" "other_ok E (t\<lparr>options := os\<rparr>) = other_ok E t"
  "other_ok E (t\<lparr>vtScrollTop := a\<rparr>) = other_ok E t" "other_ok E (t\<lparr>vtScrollBottom := a\<rparr>) = other_ok E t"
  by (simp_all add: other_ok_def)

lemma tabs_ok_Nil [simp]: "tabs_ok w []"
  by (simp add: tabs_ok_def)

lemma store_for_wf:
  "store_wf E t \<longleftrightarrow> store_for E (width (screenSize t)) t \<and> tabs_ok (width (screenSize t)) (tabStops t)"
  unfolding store_for_def store_wf_def by auto

lemma store_for_size: "store_for E cols t \<Longrightarrow> 0 < cols' \<Longrightarrow> store_for E cols' t"
  by (simp add: store_for_def store_wf_def)

lemma store_for_update [simp]:
  "store_for E cols (t\<lparr>screenSize := z\<rparr>) = store_for E cols t"
  "store_for E cols (t\<lparr>tabStops := ts\<rparr>) = store_for E cols t"
  "store_for E cols (t\<lparr>defaultTabStops := b\<rparr>) = store_for E cols t"
  by (simp_all add: store_for_def store_wf_def)

lemma setColumnCount_result:
  assumes wf: "store_wf E t" and cols: "0 < cols"
  defines "t' \<equiv> edit_total (setColumnCount E cols) t"
  shows "store_wf E t'" "columnCount (current t') = cols" "same_frame t t'" "same_rows t t'" "same_text t t'"
    "screen_ok E (rows_dom t) (current t) \<Longrightarrow>
      screen_ok E (rows_dom t') (current t') \<and> rc_column (cursor t') < cols"
proof -
  define u where "u = on_screen (\<lambda>s. s\<lparr>columnCount := cols\<rparr>) t"
  note wfD = store_wfD [OF wf]
  have "cursor_node_ok E (rows_dom t) (next_row t) ((current t)\<lparr>columnCount := cols\<rparr>)"
    using wfD(5) by (simp add: cursor_node_ok_def cursor_consistent_def)
  then have u: "store_wf E u" "columnCount (current u) = cols" "same_frame t u" "same_rows t u" "same_text t u"
    using wf by (simp_all add: u_def on_screen_def store_wf_def all_rows_def other_ok_def same_rows_def
        same_text_def)
  have dom: "rows_dom u = rows_dom t" "current u = (current t)\<lparr>columnCount := cols\<rparr>" "set_current s u = set_current s t" for s
    by (simp_all add: u_def on_screen_def)
  have t': "t' = (if rc_column (cursor t) \<ge> cols then place_cursor E (rc_row (cursor t)) (cols - 1) u else u)"
    unfolding t'_def place_cursor_def edit_total_def setColumnCount_def Let_def
    by (simp add: dom split_def) (simp add: u_def on_screen_def set_current_def)
  have "place_cursor E r c u = u" if "rowsArray (current u) = []" for r c
    using that by (simp add: place_cursor_def edit_total_def setCursorPosition_def)
  note place = place_cursor_result [OF u(1) _ cols [folded u(2)], of "rc_row (cursor t)" "cols - 1"]
  note t' = t' and empty = \<open>\<And>r c. rowsArray (current u) = [] \<Longrightarrow> place_cursor E r c u = u\<close>
  show "store_wf E t'" "columnCount (current t') = cols" "same_frame t t'" "same_rows t t'" "same_text t t'"
    using t' empty place u same_frame_trans [OF u(3)] same_rows_trans [OF u(4)] same_text_trans [OF u(5)]
    by (cases "rowsArray (current u) = []"; simp)+
  show "screen_ok E (rows_dom t') (current t') \<and> rc_column (cursor t') < cols"
    if ok: "screen_ok E (rows_dom t) (current t)"
  proof (cases "rc_column (cursor t) \<ge> cols")
    case True
    have "rowsArray (current u) \<noteq> []" using ok by (auto simp: dom screen_ok_def)
    then show ?thesis
      using True t' place u(2) clamp_index_bounds [OF cols] by (simp add: RowCol_def)
  next
    case False
    then show ?thesis using ok t' cols by (simp add: dom screen_ok_def)
  qed
qed

lemma edit_total_tabs: "edit_total f (t\<lparr>tabStops := ts\<rparr>) = (edit_total f t)\<lparr>tabStops := ts\<rparr>"
  by (simp add: edit_total_def set_current_def split_def Let_def)

text \<open>What a change of the width leaves.\<close>

definition reflowed :: "terminal \<Rightarrow> terminal \<Rightarrow> bool" where
  "reflowed t t' \<longleftrightarrow> other t' = other t \<and> on_alternate t' = on_alternate t \<and> options t' = options t \<and>
     vtScrollTop t' = vtScrollTop t \<and> vtScrollBottom t' = vtScrollBottom t \<and>
     height (screenSize t') = height (screenSize t) \<and> same_rows t t' \<and> same_text t t'"

lemma reflowed_refl [simp]: "reflowed t t"
  by (simp add: reflowed_def)

lemma sorted_dropWhile:
  assumes "sorted_wrt (<) (xs :: int list)"
  shows "sorted_wrt (<) (rev (dropWhile (\<lambda>x. \<not> x < w) (rev xs)))"
    and "\<forall>x \<in> set (rev (dropWhile (\<lambda>x. \<not> x < w) (rev xs))). x < w \<and> x \<in> set xs"
proof -
  have rev: "sorted_wrt (>) (rev xs)" using assms by (simp add: sorted_wrt_rev)
  have "sorted_wrt (>) ys \<Longrightarrow> sorted_wrt (>) (dropWhile (\<lambda>x. \<not> x < w) ys)" for ys :: "int list"
    by (induction ys) auto
  from this [OF rev] show "sorted_wrt (<) (rev (dropWhile (\<lambda>x. \<not> x < w) (rev xs)))"
    by (simp add: sorted_wrt_rev)
  have "sorted_wrt (>) ys \<Longrightarrow> x \<in> set (dropWhile (\<lambda>x. \<not> x < w) ys) \<Longrightarrow> x < w" for ys :: "int list" and x
    by (induction ys) (auto split: if_splits)
  from this [OF rev] show "\<forall>x \<in> set (rev (dropWhile (\<lambda>x. \<not> x < w) (rev xs))). x < w \<and> x \<in> set xs"
    using set_dropWhileD [of _ "\<lambda>x. \<not> x < w" "rev xs"] unfolding set_rev by blast
qed

lemma tabs_self: "t\<lparr>tabStops := tabStops t\<rparr> = t"
  and default_self: "t\<lparr>tabStops := ts, defaultTabStops := defaultTabStops t\<rparr> = t\<lparr>tabStops := ts\<rparr>"
  by (cases t; simp)+

lemma realizeWidth_result:
  assumes wf: "store_for E cols t" and cols: "0 < cols"
    and tabs: "tabs_ok w (tabStops t)" and w: "columnCount (current t) \<le> cols \<Longrightarrow> w \<le> cols"
    and nonneg: "0 \<le> columnCount (current t)"
    and same: "columnCount (current t) = cols \<Longrightarrow> width (screenSize t) = cols"
  obtains t' where "realizeWidth E cols t = Some t'" "store_wf E t'" "width (screenSize t') = cols"
    "columnCount (current t') = cols" "reflowed t t'"
    "screen_ok E (rows_dom t) (current t) \<Longrightarrow> rc_column (cursor t) < columnCount (current t) \<Longrightarrow>
      screen_ok E (rows_dom t') (current t') \<and> rc_column (cursor t') < cols"
    "columnCount (current t) < cols \<Longrightarrow> defaultTabStops t \<Longrightarrow>
      tabStops t' = tabStops (setDefaultTabStops (columnCount (current t))
        (t\<lparr>screenSize := (screenSize t)\<lparr>width := cols\<rparr>\<rparr>))"
proof (cases "columnCount (current t) = cols")
  case True
  then have "realizeWidth E cols t = Some t" using cols by (simp add: realizeWidth_def getWidth_def)
  moreover have "store_wf E t"
    using wf same [OF True] tabs w True by (auto simp: store_for_wf tabs_ok_def)
  ultimately show thesis using that [of t] True same by simp
next
  case False
  let ?delta = "cols - columnCount (current t)"
  define t1 where "t1 = t\<lparr>screenSize := (screenSize t)\<lparr>width := cols\<rparr>\<rparr>"
  define t2 where "t2 = edit_total (setColumnCount E cols) t1"
  have "store_wf E (t1\<lparr>tabStops := []\<rparr>)" using wf by (simp add: store_for_def t1_def)
  note c2 = setColumnCount_result [OF this cols, unfolded edit_total_tabs, folded t2_def]
  have t2: "tabStops t2 = tabStops t" "defaultTabStops t2 = defaultTabStops t" "width (screenSize t2) = cols"
    by (simp_all add: t2_def t1_def edit_total_def split_def Let_def)
  define t3 where "t3 = (if ?delta > 0 then
      (if defaultTabStops t2 then setDefaultTabStops (cols - ?delta) t2 else t2)
    else t2\<lparr>tabStops := rev (dropWhile (\<lambda>x. \<not> x < cols) (rev (tabStops t2)))\<rparr>)"
  have tabs3: "tabs_ok cols (tabStops t3)"
  proof (cases "?delta > 0")
    case True
    then have "tabs_ok cols (tabStops t)" using tabs w by (auto simp: tabs_ok_def)
    then show ?thesis
      using True t2 default_stops_ok default_start_nonneg [OF nonneg]
      by (simp add: t3_def setDefaultTabStops_def Let_def)
  next
    case False
    then have "tabStops t3 = rev (dropWhile (\<lambda>x. \<not> x < cols) (rev (tabStops t)))"
      by (simp add: t3_def t2)
    moreover note sorted_dropWhile [of "tabStops t" cols]
    ultimately show ?thesis
      using tabs unfolding tabs_ok_def by metis
  qed
  obtain ts b where t3: "t3 = t2\<lparr>tabStops := ts, defaultTabStops := b\<rparr>"
  proof (cases "?delta > 0 \<and> defaultTabStops t2")
    case True
    then show thesis using that by (simp add: t3_def setDefaultTabStops_def Let_def)
  next
    case False
    then have "t3 = t2 \<or> t3 = t2\<lparr>tabStops := rev (dropWhile (\<lambda>x. \<not> x < cols) (rev (tabStops t2)))\<rparr>"
      unfolding t3_def by presburger
    then have "\<exists>ts. t3 = t2\<lparr>tabStops := ts\<rparr>"
      using tabs_self [of t2] by metis
    then obtain ts' where "t3 = t2\<lparr>tabStops := ts'\<rparr>" by blast
    then show thesis using that [where b = "defaultTabStops t2" and ts = ts'] default_self by simp
  qed
  have "store_for E cols t3"
    using c2(1) t2(3) by (subst t3) (simp add: store_for_wf)
  moreover have w3: "width (screenSize t3) = cols" using t2(3) by (subst t3) simp
  ultimately have wf3: "store_wf E t3" using tabs3 by (simp add: store_for_wf)
  note c4 = setColumnCount_result [OF wf3 cols]
  let ?t = "edit_total (setColumnCount E cols) t3"
  have step: "realizeWidth E cols t = Some ?t"
    using cols False by (simp add: realizeWidth_def getWidth_def Let_def t3_def t2_def t1_def)
  have "reflowed t t2"
    using c2(3-5) by (simp add: reflowed_def same_frame_def same_rows_def same_text_def t1_def)
  then have "reflowed t t3"
    by (subst t3) (simp add: reflowed_def same_rows_def same_text_def)
  then have "reflowed t ?t"
    using c4(3-5) by (simp add: reflowed_def same_frame_def same_rows_def same_text_def)
  moreover have "width (screenSize ?t) = cols" using c4(3) w3 by (simp add: same_frame_def)
  moreover have "screen_ok E (rows_dom ?t) (current ?t) \<and> rc_column (cursor ?t) < cols"
    if "screen_ok E (rows_dom t) (current t)"
  proof -
    have "screen_ok E (rows_dom t2) (current t2)" using c2(6) that by (simp add: t1_def)
    then have "screen_ok E (rows_dom t3) (current t3)" by (subst (1 2) t3) simp
    then show ?thesis using c4(6) by blast
  qed
  moreover have "tabStops ?t = tabStops (setDefaultTabStops (columnCount (current t))
      (t\<lparr>screenSize := (screenSize t)\<lparr>width := cols\<rparr>\<rparr>))"
    if "columnCount (current t) < cols" "defaultTabStops t"
  proof -
    have "tabStops ?t = tabStops t3" using c4(3) by (simp add: same_frame_def)
    also have "\<dots> = tabStops (setDefaultTabStops (columnCount (current t)) t2)"
      using that t2(2) by (simp add: t3_def)
    finally show ?thesis using t2 by (simp add: setDefaultTabStops_def Let_def)
  qed
  ultimately show thesis using that [OF step c4(1)] c4(2) by blast
qed

text \<open>
  Dropping blank rows: only rows at the end of the screen go, none of them with text, and never
  the last one that is left.
\<close>

lemma set_current_scrollback: "(set_current s t)\<lparr>scrollbackRows := rs\<rparr> = set_current s (t\<lparr>scrollbackRows := rs\<rparr>)"
  by (simp add: set_current_def)

lemma pop_blank_rows_result:
  assumes "store_wf E t" and "n < length (rowsArray (current t))"
  obtains m k where "m + k = n"
    "pop_blank_rows n cur t = Some (k, with_rows (scrollbackRows t)
      (take (length (rowsArray (current t)) - m) (rowsArray (current t))) t)"
    "\<forall>r \<in> set (drop (length (rowsArray (current t)) - m) (rowsArray (current t))). row_text (rows_dom t) r = []"
  using assms
proof (induction n arbitrary: t thesis)
  case 0
  have "pop_blank_rows 0 cur t = Some (0, with_rows (scrollbackRows t) (rowsArray (current t)) t)"
    by (simp add: with_rows_def)
  then show ?case using 0(1) [of 0 0] by simp
next
  case (Suc n)
  let ?rows = "rowsArray (current t)" and ?sb = "scrollbackRows t"
  have self: "t = with_rows ?sb (take (length ?rows - 0) ?rows) t" by (simp add: with_rows_def)
  have row: "getRowNode (getRowCount t - 1) t = Some (last ?rows)" and ne: "?rows \<noteq> []"
    using Suc.prems(3) by (auto simp: getRowNode_def getRowCount_def Let_def last_conv_nth nat_diff_distrib)
  show ?case
  proof (cases "getRowCount t - 1 - int (length ?sb) = rc_row cur \<or> row_text (rows_dom t) (last ?rows) \<noteq> []")
    case True
    then have "pop_blank_rows (Suc n) cur t = Some (Suc n, t)"
      using row by (auto simp: getRowText_def Let_def)
    then show ?thesis using Suc.prems(1) [of 0 "Suc n"] self by simp
  next
    case False
    let ?u = "with_rows ?sb (butlast ?rows) t"
    have "nat (int (length ?rows) - 1) = length ?rows - Suc 0" by linarith
    then have pop: "on_screen (snd \<circ> popRow) t = ?u"
      using ne by (simp add: on_screen_def popRow_def first_of_def popRows_def js_splice_remove
          with_rows_def butlast_conv_take Let_def split_def)
    have wf: "store_wf E ?u"
      using store_wfD(6) [OF Suc.prems(2)]
      by (intro store_wf_rows_sub [OF Suc.prems(2)]) (auto simp: all_rows_def distinct_butlast dest: in_set_butlastD)
    obtain m k where mk: "m + k = n" "pop_blank_rows n cur ?u = Some (k, with_rows ?sb
        (take (length (butlast ?rows) - m) (butlast ?rows)) ?u)"
      "\<forall>r \<in> set (drop (length (butlast ?rows) - m) (butlast ?rows)). row_text (rows_dom t) r = []"
      by (rule Suc.IH [OF _ wf]) (use Suc.prems(3) that in auto)
    have "pop_blank_rows (Suc n) cur t = pop_blank_rows n cur ?u"
      using False row by (simp add: getRowText_def Let_def pop)
    moreover have "with_rows ?sb xs ?u = with_rows ?sb xs t" for xs
      by (simp add: with_rows_def set_current_scrollback)
    moreover have "take (length (butlast ?rows) - m) (butlast ?rows) = take (length ?rows - Suc m) ?rows"
      by (simp add: butlast_conv_take)
    moreover have "drop (length ?rows - Suc m) ?rows = drop (length (butlast ?rows) - m) (butlast ?rows) @ [last ?rows]"
      using mk(1) Suc.prems(3) append_butlast_last_id [OF ne]
      by (metis (no_types, lifting) Suc_eq_plus1_left diff_diff_add drop_append diff_is_0_eq' diff_le_self drop0 length_butlast)
    ultimately show ?thesis
      using Suc.prems(1) [of "Suc m" k] mk False by simp
  qed
qed

text \<open>A terminal of the right width whose rows are numbered, of whatever height.\<close>

definition term_wide :: "env \<Rightarrow> terminal \<Rightarrow> bool" where
  "term_wide E t \<longleftrightarrow> store_wf E t \<and> columnCount (current t) = width (screenSize t) \<and>
     numbered (rows_dom t) 0 (all_rows t)"

definition set_height :: "int \<Rightarrow> terminal \<Rightarrow> terminal" where
  "set_height rows t = t\<lparr>screenSize := (screenSize t)\<lparr>height := rows\<rparr>\<rparr>"

lemma set_height_fields [simp]:
  "current (set_height h t) = current t" "scrollbackRows (set_height h t) = scrollbackRows t"
  "rows_dom (set_height h t) = rows_dom t" "all_rows (set_height h t) = all_rows t"
  "width (screenSize (set_height h t)) = width (screenSize t)" "height (screenSize (set_height h t)) = h"
  "store_wf E (set_height h t) = store_wf E t" "next_row (set_height h t) = next_row t"
  "other (set_height h t) = other t" "on_alternate (set_height h t) = on_alternate t"
  "options (set_height h t) = options t" "tabStops (set_height h t) = tabStops t"
  by (simp_all add: set_height_def store_wf_def)

lemma region_reset:
  assumes "0 < height (screenSize t)"
  shows "region_ok (setVTScrollRegion None None t)"
  using assms by (simp add: region_ok_def setVTScrollRegion_def getVTScrollTop_def getVTScrollBottom_def)

lemma setVTScrollRegion_fields [simp]:
  "current (setVTScrollRegion a b t) = current t" "all_rows (setVTScrollRegion a b t) = all_rows t"
  "scrollbackRows (setVTScrollRegion a b t) = scrollbackRows t"
  "rows_dom (setVTScrollRegion a b t) = rows_dom t" "screenSize (setVTScrollRegion a b t) = screenSize t"
  "store_wf E (setVTScrollRegion a b t) = store_wf E t" "other (setVTScrollRegion a b t) = other t"
  "on_alternate (setVTScrollRegion a b t) = on_alternate t" "options (setVTScrollRegion a b t) = options t"
  "next_row (setVTScrollRegion a b t) = next_row t" "tabStops (setVTScrollRegion a b t) = tabStops t"
  by (simp_all add: setVTScrollRegion_def store_wf_def)

text \<open>What a change of the height leaves: the texts of the rows that are there before and after.\<close>

definition reheighted :: "terminal \<Rightarrow> terminal \<Rightarrow> bool" where
  "reheighted t t' \<longleftrightarrow> other t' = other t \<and> on_alternate t' = on_alternate t \<and> options t' = options t \<and>
     tabStops t' = tabStops t \<and> kept_rows (next_row t) t t'"

lemma with_rows_more [simp]:
  "on_alternate (with_rows sb rows t) = on_alternate t" "options (with_rows sb rows t) = options t"
  by (simp_all add: with_rows_def)

lemma finish_height:
  assumes wf: "store_wf E u" and "columnCount (current u) = width (screenSize u)"
    and "int (length (rowsArray (current u))) = height (screenSize u)" and "0 < height (screenSize u)"
    and "numbered (rows_dom u) 0 (all_rows u)"
  shows "term_ok E (restoreCursor E cur (setVTScrollRegion None None u))"
    and "all_rows (restoreCursor E cur (setVTScrollRegion None None u)) = all_rows u"
    and "screenSize (restoreCursor E cur (setVTScrollRegion None None u)) = screenSize u"
    and "reheighted u (restoreCursor E cur (setVTScrollRegion None None u))"
    and "vtScrollTop (restoreCursor E cur (setVTScrollRegion None None u)) = None"
    and "vtScrollBottom (restoreCursor E cur (setVTScrollRegion None None u)) = None"
proof -
  let ?v = "setVTScrollRegion None None u"
  have "term_wf E ?v"
    using assms region_reset [of u] by (simp add: term_wf_def)
  then have mv: "moved E ?v (restoreCursor E cur ?v)" by (rule moves)
  show "term_ok E (restoreCursor E cur ?v)" using movedD(1) [OF mv] .
  show "vtScrollTop (restoreCursor E cur ?v) = None" "vtScrollBottom (restoreCursor E cur ?v) = None"
    using movedD(3) [OF mv] by (simp_all add: same_frame_def setVTScrollRegion_def)
  show "all_rows (restoreCursor E cur ?v) = all_rows u"
    using movedD(4) [OF mv] all_rows_def [of u] by (simp add: same_rows_def all_rows_def [of "restoreCursor E cur ?v"])
  show "screenSize (restoreCursor E cur ?v) = screenSize u" "reheighted u (restoreCursor E cur ?v)"
    using movedD(3,5) [OF mv] by (simp_all add: same_frame_def reheighted_def kept_rows_def same_text_def)
qed

lemma region_grown:
  assumes "region_ok t" and "height (screenSize t) \<le> h"
  shows "region_ok (set_height h t)"
  using assms
  by (cases "vtScrollBottom t") (auto simp: region_ok_def set_height_def getVTScrollTop_def getVTScrollBottom_def
      split: option.splits)

text \<open>
  \<open>realizeHeight\<close>. Blank rows at the bottom may go, the scrollback takes or gives rows, or new
  blank rows come; the rows keep their order, and every row with text is still there.
\<close>

lemma realizeHeight_result:
  assumes wide: "term_wide E t" and rows: "0 < rows" and diff: "int (length (rowsArray (current t))) \<noteq> rows"
    and region: "int (length (rowsArray (current t))) < rows \<Longrightarrow> region_ok (set_height rows t)"
  obtains t' where "realizeHeight E rows t = Some t'" "term_ok E t'"
    "screenSize t' = (screenSize t)\<lparr>height := rows\<rparr>" "reheighted t t'"
    "\<exists>keep gone new. all_rows t = keep @ gone \<and> all_rows t' = keep @ new \<and>
       (\<forall>r \<in> set gone. row_text (rows_dom t) r = []) \<and> (\<forall>r \<in> set new. row_text (rows_dom t') r = [])"
proof -
  let ?u = "set_height rows t" and ?len = "length (rowsArray (current t))" and ?sb = "scrollbackRows t"
  let ?rows = "rowsArray (current t)"
  let ?delta = "rows - int ?len"
  have wf: "store_wf E ?u" and col: "columnCount (current t) = width (screenSize t)"
    and num: "numbered (rows_dom t) 0 (all_rows t)"
    using wide by (simp_all add: term_wide_def)
  have size: "screenSize ?u = (screenSize t)\<lparr>height := rows\<rparr>" by (simp add: set_height_def)
  have dist: "distinct (all_rows t)" using store_wfD(6) [OF wf] by simp
  note unfolds = realizeHeight_def getHeight_def saveCursor_def
  have self: "reheighted t (set_height rows t)" by (simp add: reheighted_def kept_rows_def)
  consider "?delta < 0" | "0 < ?delta" "?delta \<le> int (length ?sb)" | "0 < ?delta" "int (length ?sb) < ?delta"
    using diff by linarith
  then show thesis
  proof cases
    case 1
    define n where "n = nat (- ?delta)"
    have n: "n < length (rowsArray (current ?u))" using 1 rows by (simp add: n_def)
    obtain m k where mk: "m + k = n"
      "pop_blank_rows n (cursor t) ?u = Some (k, with_rows ?sb (take (?len - m) ?rows) ?u)"
      "\<forall>r \<in> set (drop (?len - m) ?rows). row_text (rows_dom t) r = []"
      using pop_blank_rows_result [OF wf n] by auto
    let ?v = "with_rows (?sb @ take k ?rows) (drop k (take (?len - m) ?rows)) ?u"
    have km: "k \<le> ?len - m" using mk(1) n by simp
    then have split: "take k ?rows @ drop k (take (?len - m) ?rows) = take (?len - m) ?rows"
      using append_take_drop_id [of k "take (?len - m) ?rows"] by (simp add: min_def)
    have sback: "to_scrollback (int k) (with_rows ?sb (take (?len - m) ?rows) ?u) = ?v"
      using km by (simp add: to_scrollback_rows with_rows_def set_current_scrollback min_def)
    have allv: "all_rows ?v = take (length (all_rows t) - m) (all_rows t)"
      using split mk(1) n by (simp add: all_rows_def)
    have "store_wf E ?v"
      using dist set_take_subset [of "length (all_rows t) - m" "all_rows t"] allv
      by (intro store_wf_rows_sub [OF wf]) (simp_all del: set_append)
    moreover have "numbered (rows_dom ?v) 0 (all_rows ?v)"
      using num numbered_append [of "rows_dom t" 0 "take (length (all_rows t) - m) (all_rows t)"
          "drop (length (all_rows t) - m) (all_rows t)"] unfolding allv by simp
    ultimately have fin: "term_ok E (restoreCursor E cur (setVTScrollRegion None None ?v))"
      "all_rows (restoreCursor E cur (setVTScrollRegion None None ?v)) = all_rows ?v"
      "screenSize (restoreCursor E cur (setVTScrollRegion None None ?v)) = screenSize ?u"
      "reheighted ?v (restoreCursor E cur (setVTScrollRegion None None ?v))" for cur
      using finish_height [of E ?v cur] col rows mk(1) n 1 by (simp_all add: n_def)
    define cur where "cur = (cursor t)\<lparr>rc_row := max (rc_row (cursor t) - int k) 0\<rparr>"
    have step: "realizeHeight E rows t = Some (restoreCursor E cur (setVTScrollRegion None None ?v))"
      using rows 1 mk(2) sback
      by (simp add: unfolds Let_def cur_def n_def flip: set_height_def)
    have "reheighted t (restoreCursor E cur (setVTScrollRegion None None ?v))"
      using fin(4) [of cur] by (simp add: reheighted_def kept_rows_def)
    moreover have "all_rows t = take (length (all_rows t) - m) (all_rows t) @ drop (?len - m) ?rows"
      using mk(1) n by (simp add: all_rows_def)
    ultimately show thesis
      using that [OF step fin(1)] mk(3) fin(2,3) [of cur] allv size
      by (metis append_Nil2 empty_iff empty_set)
  next
    case 2
    let ?k = "nat (int (length ?sb) - ?delta)"
    let ?v = "with_rows (take ?k ?sb) (drop ?k ?sb @ ?rows) ?u"
    have allv: "all_rows ?v = all_rows t"
      by (simp add: all_rows_def)
    have "store_wf E ?v"
      using dist allv by (intro store_wf_rows_sub [OF wf]) simp_all
    moreover have "int (length (rowsArray (current ?v))) = rows" using 2 by simp
    ultimately have fin: "term_ok E (restoreCursor E cur (setVTScrollRegion None None ?v))"
      "all_rows (restoreCursor E cur (setVTScrollRegion None None ?v)) = all_rows ?v"
      "screenSize (restoreCursor E cur (setVTScrollRegion None None ?v)) = screenSize ?u"
      "reheighted ?v (restoreCursor E cur (setVTScrollRegion None None ?v))" for cur
      using finish_height [of E ?v cur] col rows num unfolding allv by simp_all
    define cur where "cur = (cursor t)\<lparr>rc_row := rc_row (cursor t) + ?delta\<rparr>"
    have "on_screen (unshiftRows (drop ?k ?sb)) (?u\<lparr>scrollbackRows := take ?k ?sb\<rparr>) = ?v"
      by (simp add: on_screen_def unshiftRows_def with_rows_def)
    then have step: "realizeHeight E rows t = Some (restoreCursor E cur (setVTScrollRegion None None ?v))"
      using rows 2 by (simp add: unfolds Let_def cur_def flip: set_height_def)
    have "reheighted t (restoreCursor E cur (setVTScrollRegion None None ?v))"
      using fin(4) [of cur] by (simp add: reheighted_def kept_rows_def)
    then show thesis
      using that [OF step fin(1)] fin(2,3) [of cur] allv size
      by (metis append_Nil2 empty_iff empty_set)
  next
    case 3
    have short: "term_short E ?u"
      using wf col num rows region 3 by (simp add: term_short_def)
    let ?v = "appendRows E ?delta ?u"
    have v: "term_ok E ?v" "same_frame ?u ?v"
      "all_rows ?v = all_rows t @ [next_row t..<next_row t + nat ?delta]" "kept_rows (next_row t) ?u ?v"
      "\<forall>r \<in> {next_row t..<next_row t + nat ?delta}. row_text (rows_dom ?v) r = []"
      using appendRows_result [OF short, of ?delta] 3 by simp_all
    note wf_v = term_ok_wf [OF v(1)]
    have size_v: "screenSize ?v = screenSize ?u" using v(2) by (simp add: same_frame_def)
    let ?t = "restoreCursor E (cursor t) (setVTScrollRegion None None ?v)"
    have fin: "term_ok E ?t" "all_rows ?t = all_rows ?v" "screenSize ?t = screenSize ?v" "reheighted ?v ?t"
      using finish_height [of E ?v "cursor t"] term_wfD [OF wf_v] term_wf_store [OF wf_v] by simp_all
    have step: "realizeHeight E rows t = Some ?t"
      using rows 3 by (simp add: unfolds Let_def flip: set_height_def)
    have new: "r < next_row ?v" if "r \<in> set (all_rows ?v)" for r
      using store_wfD(7) [OF term_wf_store [OF wf_v]] that by blast
    have old: "next_row t \<le> next_row ?v"
    proof (rule ccontr)
      assume "\<not> next_row t \<le> next_row ?v"
      with new [of "next_row t"] 3 v(3) show False by auto
    qed
    have "reheighted t ?t"
      using fin(4) v(2,4) old by (auto simp: reheighted_def same_frame_def kept_rows_def)
    moreover have "\<forall>r \<in> set [next_row t..<next_row t + nat ?delta]. row_text (rows_dom ?t) r = []"
      using fin(4) v(5) new v(3) by (simp add: reheighted_def kept_rows_def)
    ultimately show thesis
      using that [OF step fin(1)] fin(2,3) v(3) size size_v
      by (metis append_Nil2 empty_iff empty_set)
  qed
qed

lemma term_wide_ok: "term_wf E t \<Longrightarrow> term_wide E t"
  by (simp add: term_wide_def term_wf_def)

lemma reflowed_numbered: "reflowed t t' \<Longrightarrow> numbered (rows_dom t) 0 (all_rows t) \<Longrightarrow> numbered (rows_dom t') 0 (all_rows t')"
  using numbered_same_text [of t t'] by (simp add: reflowed_def same_rows_def all_rows_def)

lemma reflowed_region: "reflowed t t' \<Longrightarrow> region_ok t' = region_ok t"
  by (simp add: reflowed_def region_ok_def getVTScrollTop_def getVTScrollBottom_def cong: option.case_cong)

text \<open>\<open>realizeSize\<close> on a terminal in order: the new size, and no row with text is lost.\<close>

lemma realizeSize_result:
  assumes ok: "term_ok E t" and size: "0 < cols" "0 < rows"
  obtains t' where "realizeSize E cols rows t = Some t'" "term_ok E t'"
    "screenSize t' = \<lparr>width = cols, height = rows\<rparr>" "other t' = other t" "on_alternate t' = on_alternate t"
    "options t' = options t" "kept_rows (next_row t) t t'"
    "\<exists>keep gone new. all_rows t = keep @ gone \<and> all_rows t' = keep @ new \<and>
       (\<forall>r \<in> set gone. row_text (rows_dom t) r = []) \<and> (\<forall>r \<in> set new. row_text (rows_dom t') r = [])"
proof -
  have wf: "term_wf E t" using ok by simp
  note wfD = term_wfD [OF wf] and stD = store_wfD [OF term_wf_store [OF wf]]
  obtain t1 where t1: "(if cols \<noteq> width (screenSize t) then realizeWidth E cols t else Some t) = Some t1"
    "term_ok E t1" "width (screenSize t1) = cols" "reflowed t t1"
  proof (cases "cols = width (screenSize t)")
    case True
    show thesis by (rule that [of t]) (simp_all add: True ok)
  next
    case False
    have sf: "store_for E cols t"
      using term_wf_store [OF wf] size(1) store_for_size store_for_wf by blast
    have pre: "0 \<le> columnCount (current t)" "columnCount (current t) = cols \<Longrightarrow> width (screenSize t) = cols"
      "columnCount (current t) \<le> cols \<Longrightarrow> width (screenSize t) \<le> cols"
      using wfD(1,3) by simp_all
    obtain t1 where t1: "realizeWidth E cols t = Some t1" "store_wf E t1" "width (screenSize t1) = cols"
      "columnCount (current t1) = cols" "reflowed t t1"
      "screen_ok E (rows_dom t) (current t) \<Longrightarrow> rc_column (cursor t) < columnCount (current t) \<Longrightarrow>
        screen_ok E (rows_dom t1) (current t1) \<and> rc_column (cursor t1) < cols"
      by (rule realizeWidth_result [OF sf size(1) stD(8) pre(3,1,2)]) (use that in blast)+
    have "term_wf E t1"
      using t1(2-4) wfD reflowed_numbered [OF t1(5)] reflowed_region [OF t1(5)] t1(5)
      by (simp add: term_wf_def reflowed_def same_rows_def)
    then have "term_ok E t1"
      using t1(3,6) term_ok_screen [OF ok] term_ok_cursor [OF ok] wfD(3) by (simp add: term_ok_def)
    then show thesis using that t1 False by simp
  qed
  have wf1: "term_wf E t1" using t1(2) by simp
  have same1: "all_rows t1 = all_rows t" "next_row t1 = next_row t" "row_text (rows_dom t1) = row_text (rows_dom t)"
    "other t1 = other t" "on_alternate t1 = on_alternate t" "options t1 = options t" "height (screenSize t1) = height (screenSize t)"
    using t1(4) by (simp_all add: reflowed_def same_rows_def same_text_def all_rows_def fun_eq_iff)
  have kept1: "kept_rows (next_row t) t t1"
    using t1(4) by (simp add: reflowed_def same_text_def kept_rows_def)
  show thesis
  proof (cases "rows = height (screenSize t)")
    case True
    then have "realizeSize E cols rows t = Some t1" using t1(1) same1(7) by (simp add: realizeSize_def)
    moreover have "screenSize t1 = \<lparr>width = cols, height = rows\<rparr>" using t1(3) same1(7) True by simp
    ultimately show thesis
      using that [of t1] t1(2) same1 kept1 by (metis append_Nil2 empty_iff empty_set)
  next
    case False
    then have "int (length (rowsArray (current t1))) \<noteq> rows" using term_wfD(4) [OF wf1] same1(7) by simp
    moreover have "region_ok (set_height rows t1)" if "int (length (rowsArray (current t1))) < rows"
      using that term_wfD(4,6) [OF wf1] by (intro region_grown) simp_all
    ultimately obtain t' where t': "realizeHeight E rows t1 = Some t'" "term_ok E t'"
      "screenSize t' = (screenSize t1)\<lparr>height := rows\<rparr>" "reheighted t1 t'"
      "\<exists>keep gone new. all_rows t1 = keep @ gone \<and> all_rows t' = keep @ new \<and>
       (\<forall>r \<in> set gone. row_text (rows_dom t1) r = []) \<and> (\<forall>r \<in> set new. row_text (rows_dom t') r = [])"
      using realizeHeight_result [OF term_wide_ok [OF wf1] size(2)] by metis
    have "realizeSize E cols rows t = Some t'" using t1(1) t'(1) False same1(7) by (simp add: realizeSize_def)
    moreover have "screenSize t' = \<lparr>width = cols, height = rows\<rparr>" using t'(3) t1(3) by simp
    moreover have "kept_rows (next_row t) t t'" using kept1 t'(4) same1 by (simp add: kept_rows_def reheighted_def)
    ultimately show thesis
      using that [of t'] t'(2,4,5) same1 by (simp add: reheighted_def)
  qed
qed

section \<open>The other screen\<close>

text \<open>Switching screens, before the rows of the new one are numbered and brought to size.\<close>

lemma store_switched:
  assumes ok: "term_ok E t" and s: "s \<noteq> on_alternate t"
  defines "u \<equiv> t\<lparr>on_alternate := s\<rparr>"
  shows "store_wf E u" "current u = other t" "other u = current t" "0 \<le> columnCount (current u)"
    "region_ok u = region_ok t" "\<exists>k. numbered (rows_dom u) k (rowsArray (current u))"
    "numbered (rows_dom u) 0 (scrollbackRows u)" "distinct (rowsArray (current u))"
proof -
  have wf: "term_wf E t" using ok by simp
  note wfD = term_wfD [OF wf] and stD = store_wfD [OF term_wf_store [OF wf]]
  show cu: "current u = other t" "other u = current t"
    using s by (auto simp: u_def current_def other_def)
  have "cursorRowNode (current t) = Some r \<longrightarrow> r \<in> set (rowsArray (current t))" for r
    using term_ok_screen [OF ok] screen_ok_cursor_row by (auto simp: screen_ok_def)
  then have "other_ok E u"
    using stD wfD(1,3,5) unfolding other_ok_def cu by (auto simp: u_def all_rows_def)
  then show "store_wf E u"
    using stD unfolding store_wf_def cu all_rows_def
    by (auto simp: u_def other_ok_def all_rows_def cu [unfolded u_def])
  show "0 \<le> columnCount (current u)" "\<exists>k. numbered (rows_dom u) k (rowsArray (current u))"
    using stD(9) unfolding cu by (auto simp: other_ok_def u_def)
  show "numbered (rows_dom u) 0 (scrollbackRows u)" using wfD(5) by (simp add: u_def all_rows_def)
  show "distinct (rowsArray (current u))" using stD(6) unfolding cu by simp
  show "region_ok u = region_ok t"
    by (simp add: u_def region_ok_def getVTScrollTop_def getVTScrollBottom_def cong: option.case_cong)
qed

lemma set_height_self: "height (screenSize t) = h \<Longrightarrow> set_height h t = t"
  by (cases t) (auto simp: set_height_def)

text \<open>Bringing the rows of a screen that has just become current to the terminal's size.\<close>

lemma refit_result:
  assumes wf: "store_wf E v" and num: "numbered (rows_dom v) 0 (all_rows v)" and reg: "region_ok v"
    and nonneg: "0 \<le> columnCount (current v)"
  defines "w \<equiv> width (screenSize v)" and "h \<equiv> height (screenSize v)"
  obtains t' where "realizeWidth E w v \<bind> (\<lambda>t. realizeHeight E (height (screenSize t)) t) = Some t'" "term_wf E t'"
    "screenSize t' = screenSize v" "other t' = other v" "on_alternate t' = on_alternate v"
    "options t' = options v" "tabs_ok w (tabStops t')" "kept_rows (next_row v) v t'"
    "columnCount (current v) = w \<Longrightarrow> int (length (rowsArray (current v))) = h \<Longrightarrow>
      rowsArray (current t') = rowsArray (current v)"
proof -
  have w: "0 < w" and h: "0 < h"
    using store_wfD(2) [OF wf] reg by (auto simp: w_def h_def region_ok_def)
  obtain v1 where v1: "realizeWidth E w v = Some v1" "store_wf E v1" "width (screenSize v1) = w"
    "columnCount (current v1) = w" "reflowed v v1"
    by (rule realizeWidth_result [of E w v w]) (use wf w nonneg store_for_wf in \<open>auto simp: w_def\<close>)
  have num1: "numbered (rows_dom v1) 0 (all_rows v1)" using reflowed_numbered [OF v1(5) num] .
  have reg1: "region_ok v1" using reflowed_region [OF v1(5)] reg by simp
  have h1: "height (screenSize v1) = h" using v1(5) by (simp add: reflowed_def h_def)
  have size1: "screenSize v1 = screenSize v" using v1(3) h1 by (simp add: w_def h_def)
  have kept1: "kept_rows (next_row v) v v1" and rows1: "rowsArray (current v1) = rowsArray (current v)"
    and next1: "next_row v1 = next_row v"
    using v1(5) by (simp_all add: reflowed_def same_text_def kept_rows_def same_rows_def)
  show thesis
  proof (cases "int (length (rowsArray (current v1))) = h")
    case True
    then have "term_wf E v1"
      using v1 num1 reg1 h h1 by (simp add: term_wf_def)
    moreover have "realizeHeight E h v1 = Some v1"
      using True h by (simp add: realizeHeight_def getHeight_def)
    ultimately show thesis
      using that [of v1] v1 h1 size1 kept1 rows1 store_wfD(8) [OF v1(2)] by (simp add: reflowed_def)
  next
    case False
    have "term_wide E v1" using v1 num1 by (simp add: term_wide_def)
    moreover have "region_ok (set_height h v1)" using reg1 set_height_self [OF h1] by simp
    ultimately obtain t' where t': "realizeHeight E h v1 = Some t'" "term_ok E t'"
      "screenSize t' = (screenSize v1)\<lparr>height := h\<rparr>" "reheighted v1 t'"
      using realizeHeight_result [OF _ h False] by metis
    have "kept_rows (next_row v) v t'"
      using kept1 t'(4) next1 by (simp add: kept_rows_def reheighted_def)
    moreover have "screenSize t' = screenSize v" using t'(3) size1 h1 by simp
    moreover have "term_wf E t'" using t'(2) by simp
    ultimately show thesis
      using that [of t'] v1 h1 t'(1,4) False rows1 store_wfD(8) [OF v1(2)]
      by (simp add: reflowed_def reheighted_def)
  qed
qed

lemma setAlternateMode_result:
  assumes ok: "term_ok E t" and s: "s \<noteq> on_alternate t"
  obtains t' where "setAlternateMode E s t = Some t'" "term_ok E t'" "on_alternate t' = s"
    "screenSize t' = screenSize t" "other t' = current t" "options t' = options t"
    "kept_rows (next_row t) t t'" "rc_row (cursor t') = rc_row (cursor t)"
    "rc_column (cursor t') = rc_column (cursor t)"
    "columnCount (other t) = width (screenSize t) \<Longrightarrow>
      int (length (rowsArray (other t))) = height (screenSize t) \<Longrightarrow>
      rowsArray (current t') = rowsArray (other t)"
proof -
  define u where "u = t\<lparr>on_alternate := s\<rparr>"
  note sw = store_switched [OF ok s, folded u_def]
  let ?rows = "rowsArray (current u)" and ?sb = "scrollbackRows u"
  have fields: "screenSize u = screenSize t" "rows_dom u = rows_dom t" "next_row u = next_row t"
    "options u = options t" "on_alternate u = s"
    by (simp_all add: u_def)
  obtain v where v: "(if ?rows \<noteq> [] \<and> rowIndex (rows_dom u (?rows ! 0)) \<noteq> int (length ?sb)
      then renumberRows 0 (int (length ?rows)) u else Some u) = Some v"
    "\<exists>d'. v = u\<lparr>rows_dom := d'\<rparr> \<and> reindexed (rows_dom u) d'" "store_wf E v"
    "numbered (rows_dom v) 0 (all_rows v)"
  proof (cases "?rows \<noteq> [] \<and> rowIndex (rows_dom u (?rows ! 0)) \<noteq> int (length ?sb)")
    case True
    obtain d' where d': "renumberRows 0 (int (length ?rows)) u = Some (u\<lparr>rows_dom := d'\<rparr>)"
      "reindexed (rows_dom u) d'" "store_wf E (u\<lparr>rows_dom := d'\<rparr>)" "numbered d' 0 (all_rows u)"
      by (rule renumber_rows_wf [OF sw(1,8), of 0 "int (length ?rows)"]) (use sw(7) in auto)
    then show thesis using that [of "u\<lparr>rows_dom := d'\<rparr>"] True by auto
  next
    case False
    then obtain k where k: "numbered (rows_dom u) k ?rows" "?rows = [] \<or> k = int (length ?sb)"
      using sw(6) by (cases ?rows) auto
    then have "numbered (rows_dom u) 0 (all_rows u)" using sw(7) by (auto simp: all_rows_def)
    moreover have "u = u\<lparr>rows_dom := rows_dom u\<rparr>" by simp
    ultimately show thesis using that [of u] False sw(1) by (metis reindexed_def)
  qed
  obtain d' where d': "v = u\<lparr>rows_dom := d'\<rparr>" "reindexed (rows_dom u) d'" using v(2) by blast
  have vf: "screenSize v = screenSize t" "next_row v = next_row t" "options v = options t"
    "on_alternate v = s" "current v = other t" "other v = current t"
    using fields sw(2,3) by (simp_all add: d'(1))
  have kept: "kept_rows (next_row t) t v"
    using d'(2) fields(2) by (simp add: d'(1) kept_rows_def row_text_def reindexed_def)
  have reg: "region_ok v"
    using sw(5) term_wfD(6) [OF term_ok_wf [OF ok]] by (simp add: d'(1) region_ok_def)
  have nonneg: "0 \<le> columnCount (current v)" using sw(2,4) vf(5) by simp
  obtain x where x: "realizeWidth E (width (screenSize t)) v \<bind> (\<lambda>t. realizeHeight E (height (screenSize t)) t) = Some x"
    "term_wf E x" "screenSize x = screenSize t" "other x = current t" "on_alternate x = s"
    "options x = options t" "kept_rows (next_row t) v x"
    "columnCount (other t) = width (screenSize t) \<Longrightarrow> int (length (rowsArray (other t))) = height (screenSize t) \<Longrightarrow>
      rowsArray (current x) = rowsArray (other t)"
    by (rule refit_result [OF v(3,4) reg nonneg]) (use vf in auto)
  let ?t = "restoreCursor E (cursor t) x"
  have mv: "moved E x ?t" using x(2) by (rule moves)
  note mvD = movedD [OF mv]
  have step: "setAlternateMode E s t = Some ?t"
    using s v(1) x(1) vf(1) unfolding setAlternateMode_def saveCursor_def Let_def u_def [symmetric]
    by (auto simp: fields split: Option.bind_splits)
  have "rc_row (cursor ?t) = rc_row (cursor t)" "rc_column (cursor ?t) = rc_column (cursor t)"
    using moved_restore(2,3) [OF x(2), of "cursor t"] term_ok_cursor [OF ok] x(3) by simp_all
  moreover have "kept_rows (next_row t) t ?t"
    using kept x(7) mvD(5) by (simp add: kept_rows_def same_text_def)
  moreover have "rowsArray (current ?t) = rowsArray (current x)" "screenSize ?t = screenSize x"
    "other ?t = other x" "on_alternate ?t = on_alternate x" "options ?t = options x"
    using mvD(3,4) by (simp_all add: same_rows_def same_frame_def)
  ultimately show thesis
    using that [OF step mvD(1)] x by simp
qed

section \<open>A new terminal\<close>

text \<open>On 80 columns.\<close>

lemma default_stops_80:
  assumes "width (screenSize t) = 80"
  shows "set (tabStops (setDefaultTabStops 0 t)) = set (tabStops t) \<union> {8, 16, 24, 32, 40, 48, 56, 64, 72}"
proof -
  have "{x. \<exists>k. x = 8 + int k * 8 \<and> x < 80} = (\<lambda>k. 8 + int k * 8) ` {..<9}" by auto
  also have "\<dots> = {8, 16, 24, 32, 40, 48, 56, 64, 72}" by (auto simp: lessThan_nat_numeral lessThan_Suc)
  finally show ?thesis using assms
    by (simp add: setDefaultTabStops_def Let_def default_stops_set js_rem_def tabWidth_def)
qed

lemma new_terminal_result:
  assumes wc: "wc_ok (wc E)"
  obtains t where "new_terminal E sets = Some t" "term_ok E t" "screenSize t = \<lparr>width = 80, height = 24\<rparr>"
    "scrollbackRows t = []" "screen_text t = replicate 24 []"
    "set (tabStops t) = {8, 16, 24, 32, 40, 48, 56, 64, 72}" "vtScrollTop t = None" "vtScrollBottom t = None"
    "options t = new_options" "\<not> on_alternate t"
proof -
  let ?b = "bare_terminal sets"
  have b: "current ?b = save_state sets (RowCol 0 0) (new_screen 0)"
    "other ?b = save_state sets (RowCol 0 0) (new_screen 0)" "screenSize ?b = \<lparr>width = 0, height = 0\<rparr>"
    "scrollbackRows ?b = []" "tabStops ?b = []" "next_row ?b = 0" "vtScrollTop ?b = None"
    "vtScrollBottom ?b = None" "defaultTabStops ?b" "options ?b = new_options" "\<not> on_alternate ?b"
    by (simp_all add: bare_terminal_def saveCursorAndState_def saveCursor_def current_def other_def
        new_screen_def Let_def)
  have "store_for E 80 ?b"
    using wc by (simp add: store_for_def store_wf_def other_ok_def b all_rows_def save_state_def new_screen_def
        cursor_node_ok_def cursor_consistent_def)
  moreover have "columnCount (current ?b) = 0" by (simp add: b save_state_def new_screen_def)
  ultimately obtain t1 where t1: "realizeWidth E 80 ?b = Some t1" "store_wf E t1" "width (screenSize t1) = 80"
    "columnCount (current t1) = 80" "reflowed ?b t1"
    "tabStops t1 = tabStops (setDefaultTabStops 0 (?b\<lparr>screenSize := (screenSize ?b)\<lparr>width := 80\<rparr>\<rparr>))"
    using realizeWidth_result [of E 80 ?b 0] by (auto simp: b)
  have f1: "rowsArray (current t1) = []" "scrollbackRows t1 = []" "height (screenSize t1) = 0" "next_row t1 = 0"
    "vtScrollTop t1 = None" "vtScrollBottom t1 = None"
    using t1(5) by (simp_all add: reflowed_def same_rows_def b save_state_def new_screen_def)
  let ?u = "set_height 24 t1"
  have "region_ok ?u"
    by (simp add: region_ok_def getVTScrollTop_def getVTScrollBottom_def set_height_def f1)
  then have "term_short E ?u"
    using t1 f1 by (simp add: term_short_def all_rows_def)
  note app = appendRows_result [OF this, of 24]
  let ?v = "appendRows E 24 ?u"
  have v: "term_ok E ?v" "same_frame ?u ?v" "all_rows ?v = [0..<24]"
    "\<forall>r \<in> {0..<24}. row_text (rows_dom ?v) r = []"
    using app f1 by (simp_all add: all_rows_def [of t1])
  let ?w = "restoreCursor E (cursor t1) (setVTScrollRegion None None ?v)"
  have fin: "term_ok E ?w" "all_rows ?w = all_rows ?v" "screenSize ?w = screenSize ?v" "reheighted ?v ?w"
    "vtScrollTop ?w = None" "vtScrollBottom ?w = None"
    using finish_height [of E ?v "cursor t1"] term_wfD [OF term_ok_wf [OF v(1)]] term_wf_store [OF term_ok_wf [OF v(1)]]
    by simp_all
  have step: "realizeHeight E 24 t1 = Some ?w"
    using f1 by (simp add: realizeHeight_def getHeight_def saveCursor_def Let_def flip: set_height_def)
  have size: "screenSize ?w = \<lparr>width = 80, height = 24\<rparr>"
    using fin(3) v(2) t1(3) by (simp add: same_frame_def set_height_def)
  have "length (all_rows ?w) = 24" using fin(2) v(3) by simp
  moreover have len: "length (rowsArray (current ?w)) = 24"
    using term_wfD(4) [OF term_ok_wf [OF fin(1)]] size by simp
  ultimately have sb: "scrollbackRows ?w = []" by (simp add: all_rows_def)
  then have rows: "rowsArray (current ?w) = [0..<24]" using fin(2) v(3) by (simp add: all_rows_def)
  have "r < next_row ?v" if "r < 24" for r
    using store_wfD(7) [OF term_wf_store [OF term_ok_wf [OF v(1)]]] v(3) that by auto
  then have "\<forall>r < 24. row_text (rows_dom ?w) r = []"
    using fin(4) v(4) by (simp add: reheighted_def kept_rows_def)
  then have blank: "screen_text ?w = replicate 24 []"
    unfolding screen_text_def rows by (intro nth_equalityI) auto
  let ?t = "setDefaultTabStops 0 ?w"
  have "realizeSize E 80 24 ?b = Some ?w"
    using t1(1) step f1(3) by (simp add: realizeSize_def b)
  then have new: "new_terminal E sets = Some ?t" by (simp add: new_terminal_def)
  have tabs: "set (tabStops ?w) = {8, 16, 24, 32, 40, 48, 56, 64, 72}"
    using fin(4) v(2) t1(6) default_stops_80 by (simp add: reheighted_def same_frame_def b)
  have tab_ok: "tabs_ok 80 (tabStops ?t)"
    using default_stops_ok [of 80 "tabStops ?w" 8] store_wfD(8) [OF term_wf_store [OF term_ok_wf [OF fin(1)]]] size
    by (simp add: setDefaultTabStops_def Let_def js_rem_def tabWidth_def)
  have same: "current ?t = current ?w" "other ?t = other ?w" "rows_dom ?t = rows_dom ?w"
    "scrollbackRows ?t = scrollbackRows ?w" "screenSize ?t = screenSize ?w" "next_row ?t = next_row ?w"
    "all_rows ?t = all_rows ?w" "other_ok E ?t = other_ok E ?w" "region_ok ?t = region_ok ?w"
    by (simp_all add: setDefaultTabStops_def Let_def region_ok_def getVTScrollTop_def getVTScrollBottom_def
        cong: option.case_cong)
  have "term_ok E ?t"
    using fin(1) tab_ok size unfolding term_ok_def term_wf_def store_wf_def same by simp
  moreover have "screen_text ?t = screen_text ?w" by (simp add: screen_text_def same)
  moreover have "set (tabStops ?t) = {8, 16, 24, 32, 40, 48, 56, 64, 72}"
    using default_stops_80 [of ?w] size tabs by simp
  moreover have "options ?t = new_options" "\<not> on_alternate ?t"
    using fin(4) v(2) t1(5)
    by (simp_all add: reheighted_def same_frame_def reflowed_def setDefaultTabStops_def set_height_def b)
  moreover have "vtScrollTop ?t = None" "vtScrollBottom ?t = None"
    using fin(5,6) by (simp_all add: setDefaultTabStops_def)
  ultimately show thesis using that [OF new] sb size blank same by simp
qed

end
