(* ===== verification/TerminalRun.thy ===== *)
theory TerminalRun
  imports TerminalSize
begin

text \<open>
  The terminal as a state machine: the calls the other components make, with the arguments they
  are made for, the states such calls lead to, and what holds in all of them. Then the properties
  of single operations: lines, sizes and screens, tab stops, the cursor, and saved states.
\<close>

section \<open>Modes, tab stops, the scroll region\<close>

lemma term_ok_cong:
  assumes "term_ok E t" and "current t' = current t" and "other t' = other t" and "rows_dom t' = rows_dom t"
    and "scrollbackRows t' = scrollbackRows t" and "screenSize t' = screenSize t" and "next_row t' = next_row t"
    and "tabs_ok (width (screenSize t)) (tabStops t')" and "region_ok t'"
  shows "term_ok E t'"
proof -
  have all: "all_rows t' = all_rows t" using assms(2,5) by (simp add: all_rows_def)
  moreover have "other_ok E t' = other_ok E t" using assms(3,4,7) by (simp add: other_ok_def)
  ultimately show ?thesis
    using assms unfolding term_ok_def term_wf_def store_wf_def by simp
qed

lemma set_options_ok: "term_ok E t \<Longrightarrow> term_ok E (set_options f t)"
  by (rule term_ok_cong [of E t])
    (use term_wfD(6) [OF term_ok_wf] store_wfD(8) [OF term_wf_store [OF term_ok_wf]] in
      \<open>auto simp: set_options_def region_ok_def getVTScrollTop_def getVTScrollBottom_def current_def other_def
        cong: option.case_cong\<close>)

lemma set_tabs_ok:
  assumes "term_ok E t" and "tabs_ok (width (screenSize t)) ts"
  shows "term_ok E (t\<lparr>tabStops := ts\<rparr>)" and "term_ok E (t\<lparr>tabStops := ts, defaultTabStops := b\<rparr>)"
  using term_wfD(6) [OF term_ok_wf [OF assms(1)]] assms(2)
  by (auto intro!: term_ok_cong [OF assms(1)] simp: region_ok_def getVTScrollTop_def getVTScrollBottom_def
      cong: option.case_cong)

lemma remove_first_ok: "tabs_ok w xs \<Longrightarrow> tabs_ok w (remove_first x xs)"
proof -
  have "set (remove_first x xs) \<subseteq> set xs" by (induction xs) auto
  moreover have "sorted_wrt (<) xs \<Longrightarrow> sorted_wrt (<) (remove_first x xs)"
  proof (induction xs)
    case (Cons y ys)
    have "set (remove_first x ys) \<subseteq> set ys" by (induction ys) auto
    with Cons show ?case by auto
  qed simp
  ultimately show "tabs_ok w xs \<Longrightarrow> tabs_ok w (remove_first x xs)" by (auto simp: tabs_ok_def)
qed

text \<open>The regions the scroll region may be set to: within the screen and not empty.\<close>

definition region_args :: "int option \<Rightarrow> int option \<Rightarrow> terminal \<Rightarrow> bool" where
  "region_args a b t \<longleftrightarrow> (let lo = (case a of None \<Rightarrow> 0 | Some r \<Rightarrow> r);
     hi = (case b of None \<Rightarrow> height (screenSize t) - 1 | Some r \<Rightarrow> r)
   in 0 \<le> lo \<and> lo \<le> hi \<and> hi < height (screenSize t))"

lemma set_region_ok:
  assumes ok: "term_ok E t" and args: "region_args a b t"
  shows "term_ok E (setVTScrollRegion a b t)"
proof -
  have "region_ok (setVTScrollRegion a b t)"
    using args by (cases a; cases b) (auto simp: region_args_def setVTScrollRegion_def region_ok_def
        getVTScrollTop_def getVTScrollBottom_def)
  then show ?thesis
    using store_wfD(8) [OF term_wf_store [OF term_ok_wf [OF ok]]]
    by (intro term_ok_cong [OF ok]) simp_all
qed

section \<open>The terminal as a state machine\<close>

text \<open>The calls other components make, with their arguments.\<close>

datatype term_op =
    Print jsstring | NewLine | LineFeed | FormFeed | ReverseLineFeed
  | SetCursor int int | CursorColumn int | CursorRow int | RestoreTo rowcol
  | MoveUp int | MoveDown int | MoveLeft int | MoveRight int | TabForward | TabBackward
  | EraseToLeft | EraseToRight "int option" | EraseLine | EraseAbove | EraseBelow | Fill jsstring
  | InsertSpaces int | DeleteChars int | InsertLines int | DeleteLines int | ScrollUp int | ScrollDown int
  | TabSet int | TabClear | TabClearAll | TabDefaults int
  | Region "int option" "int option" | Mode options | OriginMode bool
  | Resize int int | Alternate bool

fun exec :: "env \<Rightarrow> term_op \<Rightarrow> terminal \<Rightarrow> terminal option" where
  "exec E (Print str) t = terminal_print E str t"
| "exec E NewLine t = newLine E t"
| "exec E LineFeed t = lineFeed E t"
| "exec E FormFeed t = formFeed E t"
| "exec E ReverseLineFeed t = reverseLineFeed E t"
| "exec E (SetCursor r c) t = Some (terminal_setCursorPosition E r c t)"
| "exec E (CursorColumn c) t = Some (setCursorColumn E c t)"
| "exec E (CursorRow r) t = Some (setAbsoluteCursorRow E r t)"
| "exec E (RestoreTo cur) t = Some (restoreCursor E cur t)"
| "exec E (MoveUp n) t = Some (cursorUp E n t)"
| "exec E (MoveDown n) t = Some (cursorDown E n t)"
| "exec E (MoveLeft n) t = Some (cursorLeft E n t)"
| "exec E (MoveRight n) t = Some (cursorRight E n t)"
| "exec E TabForward t = Some (forwardTabStop E t)"
| "exec E TabBackward t = Some (backwardTabStop E t)"
| "exec E EraseToLeft t = eraseToLeft E t"
| "exec E (EraseToRight c) t = eraseToRight E c t"
| "exec E EraseLine t = eraseLine E t"
| "exec E EraseAbove t = eraseAbove E t"
| "exec E EraseBelow t = eraseBelow E t"
| "exec E (Fill ch) t = terminal_fill E ch t"
| "exec E (InsertSpaces n) t = insertSpace E n t"
| "exec E (DeleteChars n) t = terminal_deleteChars E n t"
| "exec E (InsertLines n) t = insertLines E n t"
| "exec E (DeleteLines n) t = deleteLines E n t"
| "exec E (ScrollUp n) t = vtScrollUp E n t"
| "exec E (ScrollDown n) t = vtScrollDown E n t"
| "exec E (TabSet c) t = Some (setTabStop c t)"
| "exec E TabClear t = Some (clearTabStopAtCursor t)"
| "exec E TabClearAll t = Some (clearAllTabStops t)"
| "exec E (TabDefaults start) t = Some (setDefaultTabStops start t)"
| "exec E (Region a b) t = Some (setVTScrollRegion a b t)"
| "exec E (Mode opts) t = Some (set_options (\<lambda>_. opts) t)"
| "exec E (OriginMode b) t = Some (setOriginMode E b t)"
| "exec E (Resize cols rows) t = realizeSize E cols rows t"
| "exec E (Alternate b) t = setAlternateMode E b t"

text \<open>
  The arguments an operation is made for. Counts are positive, as the interpreter's defaults
  make them; text is printable ASCII; a line is inserted or deleted with the cursor not below
  the scroll region.
\<close>

fun allowed :: "term_op \<Rightarrow> terminal \<Rightarrow> bool" where
  "allowed (Print str) t = printable_str str"
| "allowed (EraseToRight c) t = right_count c t"
| "allowed (Fill ch) t = (printable_str ch \<and> length ch = 1)"
| "allowed (InsertSpaces n) t = (0 \<le> n)"
| "allowed (DeleteChars n) t = (0 \<le> n)"
| "allowed (InsertLines n) t = (0 \<le> n \<and> in_region t)"
| "allowed (DeleteLines n) t = (1 \<le> n \<and> in_region t)"
| "allowed (ScrollUp n) t = (1 \<le> n)"
| "allowed (ScrollDown n) t = (0 \<le> n)"
| "allowed (TabSet c) t = (0 \<le> c \<and> c < width (screenSize t))"
| "allowed (TabDefaults start) t = (0 \<le> start)"
| "allowed (Region a b) t = region_args a b t"
| "allowed (Resize cols rows) t = (0 < cols \<and> 0 < rows)"
| "allowed _ t = True"

lemma exec_ok:
  assumes ok: "term_ok E t" and "allowed op t"
  shows "\<exists>t'. exec E op t = Some t' \<and> term_ok E t'"
proof (cases op)
  case (Alternate b)
  then show ?thesis
    using setAlternateMode_result [OF ok, of b] ok
    by (cases "b = on_alternate t") (simp add: setAlternateMode_def, metis exec.simps(36))
next
  case (Resize cols rows)
  then have "0 < cols" "0 < rows" using assms(2) by simp_all
  from realizeSize_result [OF ok this] show ?thesis using Resize by (metis exec.simps(35))
next
  case (Region a b)
  then show ?thesis using set_region_ok [OF ok] assms(2) by simp
next
  case (OriginMode b)
  then show ?thesis
    using set_cursor.runs [OF set_options_ok [OF ok] TrueI] by (simp add: setOriginMode_def)
next
  case (TabSet c)
  then show ?thesis
    using set_tabs_ok(1) [OF ok] insert_stop_ok store_wfD(8) [OF term_wf_store [OF term_ok_wf [OF ok]]] assms(2)
    by (simp add: setTabStop_def)
next
  case TabClear
  then show ?thesis
    using set_tabs_ok(1) [OF ok] remove_first_ok store_wfD(8) [OF term_wf_store [OF term_ok_wf [OF ok]]]
    by (simp add: clearTabStopAtCursor_def)
next
  case (TabDefaults start)
  then show ?thesis
    using set_tabs_ok(2) [OF ok] default_stops_ok default_start_nonneg assms(2)
      store_wfD(8) [OF term_wf_store [OF term_ok_wf [OF ok]]]
    by (simp add: setDefaultTabStops_def Let_def)
next
  case (Print str)
  then show ?thesis using print_text.runs [OF ok] assms(2) by fastforce
next
  case NewLine
  then show ?thesis using new_line.runs [OF ok] assms(2) by fastforce
next
  case LineFeed
  then show ?thesis using line_feed.runs [OF ok] assms(2) by fastforce
next
  case FormFeed
  then show ?thesis using form_feed.runs [OF ok] assms(2) by fastforce
next
  case ReverseLineFeed
  then show ?thesis using reverse_feed.runs [OF ok] assms(2) by fastforce
next
  case (SetCursor r c)
  then show ?thesis using set_cursor.runs [OF ok] assms(2) by fastforce
next
  case (CursorColumn c)
  then show ?thesis using set_column.runs [OF ok] assms(2) by fastforce
next
  case (CursorRow r)
  then show ?thesis using set_row.runs [OF ok] assms(2) by fastforce
next
  case (RestoreTo cur)
  then show ?thesis using restore.runs [OF ok] assms(2) by fastforce
next
  case (MoveUp n)
  then show ?thesis using up.runs [OF ok] assms(2) by fastforce
next
  case (MoveDown n)
  then show ?thesis using down.runs [OF ok] assms(2) by fastforce
next
  case (MoveLeft n)
  then show ?thesis using left.runs [OF ok] assms(2) by fastforce
next
  case (MoveRight n)
  then show ?thesis using right.runs [OF ok] assms(2) by fastforce
next
  case TabForward
  then show ?thesis using tab.runs [OF ok] assms(2) by fastforce
next
  case TabBackward
  then show ?thesis using backtab.runs [OF ok] assms(2) by fastforce
next
  case EraseToLeft
  then show ?thesis using erase_left.runs [OF ok] assms(2) by fastforce
next
  case (EraseToRight c)
  then show ?thesis using erase_right.runs [OF ok] assms(2) by fastforce
next
  case EraseLine
  then show ?thesis using erase_line.runs [OF ok] assms(2) by fastforce
next
  case EraseAbove
  then show ?thesis using erase_above.runs [OF ok] assms(2) by fastforce
next
  case EraseBelow
  then show ?thesis using erase_below.runs [OF ok] assms(2) by fastforce
next
  case (Fill ch)
  then show ?thesis using fill_text.runs [OF ok] assms(2) by fastforce
next
  case (InsertSpaces n)
  then show ?thesis using insert_space.runs [OF ok] assms(2) by fastforce
next
  case (DeleteChars n)
  then show ?thesis using delete_chars.runs [OF ok] assms(2) by fastforce
next
  case (InsertLines n)
  then show ?thesis using insert_lines.runs [OF ok] assms(2) by fastforce
next
  case (DeleteLines n)
  then show ?thesis using delete_lines.runs [OF ok] assms(2) by fastforce
next
  case (ScrollUp n)
  then show ?thesis using vt_scroll_up.runs [OF ok] assms(2) by fastforce
next
  case (ScrollDown n)
  then show ?thesis using vt_scroll_down.runs [OF ok] assms(2) by fastforce
next
  case TabClearAll
  then show ?thesis using set_tabs_ok(2) [OF ok] by (simp add: clearAllTabStops_def tabs_ok_def)
next
  case (Mode opts)
  then show ?thesis using set_options_ok [OF ok] by simp
qed

text \<open>The states a terminal can be in: from the constructor on, by allowed calls.\<close>

inductive reachable :: "env \<Rightarrow> terminal \<Rightarrow> bool" for E :: env where
  start: "new_terminal E sets = Some t \<Longrightarrow> reachable E t"
| step: "reachable E t \<Longrightarrow> allowed op t \<Longrightarrow> exec E op t = Some t' \<Longrightarrow> reachable E t'"

lemma reachable_ok:
  assumes "wc_ok (wc E)" and "reachable E t"
  shows "term_ok E t"
  using assms(2)
proof (induction rule: reachable.induct)
  case (start sets t)
  then show ?case using new_terminal_result [OF assms(1), of sets] by auto
next
  case (step t op t')
  then show ?case using exec_ok [of E t op] by auto
qed

section \<open>Rows by index\<close>

text \<open>
  What the scroll port is told about the terminal, its \<open>rowProvider_\<close>: a number of rows, and
  for each index below it a node that carries the index.
\<close>

locale row_provider =
  fixes ready :: "'s \<Rightarrow> bool" and count :: "'s \<Rightarrow> int" and node :: "int \<Rightarrow> 's \<Rightarrow> rowid option"
    and index :: "'s \<Rightarrow> rowid \<Rightarrow> int"
  assumes node_iff: "ready s \<Longrightarrow> node i s \<noteq> None \<longleftrightarrow> 0 \<le> i \<and> i < count s"
    and node_index: "ready s \<Longrightarrow> node i s = Some r \<Longrightarrow> index s r = i"
begin

lemma node_at: "ready s \<Longrightarrow> 0 \<le> i \<Longrightarrow> i < count s \<Longrightarrow> \<exists>r. node i s = Some r \<and> index s r = i"
  using node_iff [of s i] node_index [of s i] by blast

lemma node_inj: "ready s \<Longrightarrow> node i s = Some r \<Longrightarrow> node j s = Some r \<Longrightarrow> i = j"
  using node_index [of s] by metis

end

lemma getRowNode_all:
  "getRowNode i t = (if 0 \<le> i \<and> i < getRowCount t then Some (all_rows t ! nat i) else None)"
  by (auto simp: getRowNode_def getRowCount_def all_rows_def nth_append Let_def nat_less_iff nat_diff_distrib)

lemma getRowText_all:
  "getRowText i t = (if 0 \<le> i \<and> i < getRowCount t
     then Some (row_text (rows_dom t) (all_rows t ! nat i)) else None)"
  by (simp add: getRowText_def getRowNode_all)

lemma getRowCount_all: "getRowCount t = int (length (all_rows t))"
  by (simp add: getRowCount_def all_rows_def)

interpretation provider: row_provider "term_ok E" getRowCount getRowNode "\<lambda>t r. rowIndex (rows_dom t r)" for E
proof
  fix i t r
  show "getRowNode i t \<noteq> None \<longleftrightarrow> 0 \<le> i \<and> i < getRowCount t" by (simp add: getRowNode_all)
  assume ok: "term_ok E t" and r: "getRowNode i t = Some r"
  then have i: "0 \<le> i" "nat i < length (all_rows t)" "r = all_rows t ! nat i"
    by (simp_all add: getRowNode_all getRowCount_all split: if_splits)
  then show "rowIndex (rows_dom t r) = i"
    using term_wfD(5) [OF term_ok_wf [OF ok]] by (simp add: numbered_def)
qed

section \<open>What every terminal keeps\<close>

text \<open>
  C11. Whatever calls a terminal has received, its cursor is on the screen, the screen has as many
  rows as its height, no row is in two places, each row is numbered with its position counted
  from the first row of the scrollback, the tab stops ascend within the columns, and the scroll
  region is a part of the screen.
\<close>

theorem reachable_in_order:
  assumes "wc_ok (wc E)" and "reachable E t"
  shows "0 \<le> rc_row (cursor t) \<and> rc_row (cursor t) < height (screenSize t) \<and>
    0 \<le> rc_column (cursor t) \<and> rc_column (cursor t) < width (screenSize t) \<and>
    int (length (rowsArray (current t))) = height (screenSize t) \<and>
    distinct (scrollbackRows t @ rowsArray (current t) @ rowsArray (other t)) \<and>
    (\<forall>i. 0 \<le> i \<and> i < getRowCount t \<longrightarrow>
      (\<exists>r. getRowNode i t = Some r \<and> rowIndex (rows_dom t r) = i)) \<and>
    sorted_wrt (<) (tabStops t) \<and> (\<forall>x \<in> set (tabStops t). 0 \<le> x \<and> x < width (screenSize t)) \<and>
    0 \<le> getVTScrollTop t \<and> getVTScrollTop t \<le> getVTScrollBottom t \<and>
    getVTScrollBottom t < height (screenSize t)"
proof -
  note ok = reachable_ok [OF assms]
  then have wf: "term_wf E t" by simp
  show ?thesis
    using term_ok_cursor [OF ok] term_ok_region [OF ok] term_wfD(4) [OF wf]
      store_wfD(6,8) [OF term_wf_store [OF wf]] provider.node_at [OF ok]
    by (simp add: all_rows_def tabs_ok_def)
qed

lemma unit_wc [simp]: "wc_ok (wc unit_env)"
  by (simp add: unit_env_def)

text \<open>A terminal for the witnesses: the cursor of a new one, placed.\<close>

lemma placed_terminal:
  fixes r c :: int
  assumes "0 \<le> r" "r < 24" "0 \<le> c" "c < 80"
  obtains t where "reachable unit_env t" "term_ok unit_env t" "cursor t = RowCol r c"
    "screenSize t = \<lparr>width = 80, height = 24\<rparr>" "scrollbackRows t = []" "screen_text t = replicate 24 []"
    "set (tabStops t) = {8, 16, 24, 32, 40, 48, 56, 64, 72}" "vtScrollTop t = None" "vtScrollBottom t = None"
    "options t = new_options" "\<not> on_alternate t"
proof -
  obtain t where t: "new_terminal unit_env undefined = Some t" "term_ok unit_env t"
    "screenSize t = \<lparr>width = 80, height = 24\<rparr>" "scrollbackRows t = []" "screen_text t = replicate 24 []"
    "set (tabStops t) = {8, 16, 24, 32, 40, 48, 56, 64, 72}" "vtScrollTop t = None" "vtScrollBottom t = None"
    "options t = new_options" "\<not> on_alternate t"
    using new_terminal_result [OF unit_wc, of undefined] by metis
  let ?t = "setAbsoluteCursorPosition unit_env r c t"
  have mv: "moved unit_env t ?t" using t(2) by (simp add: moves)
  have "terminal_setCursorPosition unit_env r c t = ?t"
    using t(9) by (simp add: terminal_setCursorPosition_def new_options_def)
  then have "reachable unit_env ?t"
    using reachable.step [OF reachable.start [OF t(1)], of "SetCursor r c"] by simp
  moreover have "cursor ?t = RowCol r c"
    using moved_absolute(2) [OF term_ok_wf [OF t(2)], of r c] t(3) assms by simp
  ultimately show thesis
    using that [of ?t] movedD(1,3,4) [OF mv] moved_screen_text [OF mv] t
    by (simp add: same_frame_def same_rows_def)
qed

lemma reachable_in_order_witness:
  "\<exists>t. reachable unit_env t \<and> cursor t = RowCol 23 79 \<and> (\<exists>r. getRowNode 5 t = Some r \<and> rowIndex (rows_dom t r) = 5)"
proof -
  obtain t where t: "reachable unit_env t" "cursor t = RowCol 23 79" "screenSize t = \<lparr>width = 80, height = 24\<rparr>"
    using placed_terminal [of 23 79] by auto
  moreover have "5 < getRowCount t"
    using reachable_in_order [OF unit_wc t(1)] t(3) by (simp add: getRowCount_def)
  ultimately show ?thesis using reachable_in_order [OF unit_wc t(1)] by auto
qed

text \<open>
  C12. No allowed call on such a terminal throws or runs forever: every operation returns, the
  printing loop included, and the terminal it leaves can take any allowed call again.
\<close>

theorem allowed_calls_return:
  assumes "wc_ok (wc E)" and "reachable E t" and "allowed op t"
  shows "\<exists>t'. exec E op t = Some t' \<and> reachable E t'"
  using exec_ok [OF reachable_ok [OF assms(1,2)] assms(3)] reachable.step [OF assms(2,3)] by blast

lemma allowed_calls_return_witness:
  "\<exists>t t'. reachable unit_env t \<and> exec unit_env (Print (js ''over the end of the line'')) t = Some t' \<and>
     reachable unit_env t'"
proof -
  obtain t where t: "reachable unit_env t" using placed_terminal [of 23 70] by auto
  have "allowed (Print (js ''over the end of the line'')) t" by (simp add: printable_def)
  with allowed_calls_return [OF unit_wc t this] t show ?thesis by blast
qed

section \<open>Lines\<close>

text \<open>
  C14. A new line at the bottom of a screen without a scroll region loses nothing: every row, of the
  scrollback and of the screen, keeps its index and its text, one blank row is added, and the
  cursor is at its start.
\<close>

theorem newLine_keeps_history:
  assumes "term_ok E t" and "rc_row (cursor t) = height (screenSize t) - 1"
    and "vtScrollTop t = None"
  shows "\<exists>t'. newLine E t = Some t' \<and> term_ok E t' \<and> getRowCount t' = getRowCount t + 1 \<and>
    (\<forall>i < getRowCount t. getRowNode i t' = getRowNode i t \<and> getRowText i t' = getRowText i t) \<and>
    getRowText (getRowCount t) t' = Some [] \<and>
    cursor t' = RowCol (height (screenSize t) - 1) 0"
proof -
  note app = append_one [OF assms(1)]
  let ?t = "appendRows E 1 t"
  have cnt: "getRowCount ?t = getRowCount t + 1" by (simp add: getRowCount_all app(3))
  have old: "all_rows ?t ! nat i = all_rows t ! nat i \<and> all_rows t ! nat i < next_row t"
    if "0 \<le> i" "i < getRowCount t" for i
    using that store_wfD(7) [OF term_wf_store [OF term_ok_wf [OF assms(1)]]]
    by (simp add: app(3) nth_append getRowCount_all nat_less_iff)
  have "getRowNode i ?t = getRowNode i t \<and> getRowText i ?t = getRowText i t" if "i < getRowCount t" for i
    using that old [of i] app(4) by (auto simp: getRowNode_all getRowText_all cnt kept_rows_def)
  moreover have "getRowText (getRowCount t) ?t = Some []"
    using app(5) by (simp add: getRowText_all cnt) (simp add: getRowCount_all app(3))
  ultimately show ?thesis
    using newLine_cases [OF assms(1)] assms(2,3) app(1,6) cnt by simp
qed

lemma newLine_keeps_history_witness:
  "\<exists>t t'. newLine unit_env t = Some t' \<and> getRowCount t' = 25 \<and> getRowText 24 t' = Some []"
proof -
  obtain t where t: "term_ok unit_env t" "cursor t = RowCol 23 0" "screenSize t = \<lparr>width = 80, height = 24\<rparr>"
    "vtScrollTop t = None" "scrollbackRows t = []"
    using placed_terminal [of 23 0] by auto
  have "getRowCount t = 24"
    using term_wfD(4) [OF term_ok_wf [OF t(1)]] t(3,5) by (simp add: getRowCount_def)
  with newLine_keeps_history [OF t(1) _ t(4)] t(2,3) show ?thesis by (auto simp: RowCol_def)
qed

text \<open>
  C15. Deleting lines with the cursor in the scroll region: as many lines go as there are from the
  cursor to the end of the region, at most \<open>n\<close>, the lines of the region below them move up, blank
  lines follow, and neither the lines outside nor the cursor change. The comment in the code says that
  the new rows have no content or style. That is so with default attributes only: \<open>clearCursorRow\<close> fills
  them, and with any others each is a line of spaces in the current style as wide as the screen, which is
  what \<open>blank_text\<close> is then.
\<close>

theorem deleteLines_shifts:
  fixes n :: int
  assumes "term_ok E t" and "1 \<le> n" and "rc_row (cursor t) \<le> getVTScrollBottom t"
  defines "c \<equiv> nat (rc_row (cursor t))" and "e \<equiv> nat (getVTScrollBottom t + 1)"
  defines "k \<equiv> min (nat n) (e - c)"
  shows "\<exists>t'. deleteLines E n t = Some t' \<and> term_ok E t' \<and>
    screen_text t' = take c (screen_text t) @ take (e - c - k) (drop (c + k) (screen_text t)) @
      replicate k (blank_text t) @ drop e (screen_text t) \<and>
    rc_row (cursor t') = rc_row (cursor t) \<and> rc_column (cursor t') = rc_column (cursor t) \<and>
    scrollbackRows t' = scrollbackRows t"
  by (rule deleteLines_result [OF assms(1-3)]) (auto simp: c_def e_def k_def)

lemma deleteLines_shifts_witness:
  "\<exists>t t'. deleteLines unit_env 30 t = Some t' \<and> screen_text t' = replicate 24 (blank_text t) \<and>
     rc_row (cursor t') = 0"
proof -
  obtain t where t: "term_ok unit_env t" "cursor t = RowCol 0 7" "screenSize t = \<lparr>width = 80, height = 24\<rparr>"
    "vtScrollBottom t = None" "screen_text t = replicate 24 []"
    using placed_terminal [of 0 7] by auto
  have "getVTScrollBottom t = 23" using t(3,4) by (simp add: getVTScrollBottom_def)
  then have "\<exists>t'. deleteLines unit_env 30 t = Some t' \<and> screen_text t' = replicate 24 (blank_text t) \<and>
      rc_row (cursor t') = 0"
    using deleteLines_shifts [OF t(1), of 30] t(2,5) by (auto simp: RowCol_def)
  then show ?thesis ..
qed

text \<open>
  Inserting lines moves down one line less than it could: with at least as many lines to
  insert as the region has from the cursor on, the line at the cursor is still there, as the last
  line of the region, where deleting that many lines leaves only blank ones.
\<close>

theorem insertLines_spares_one:
  fixes n :: int
  assumes "term_ok E t" and "rc_row (cursor t) \<le> getVTScrollBottom t"
  defines "c \<equiv> nat (rc_row (cursor t))" and "e \<equiv> nat (getVTScrollBottom t + 1)"
  assumes "int (e - c) \<le> n"
  shows "\<exists>t' t''. insertLines E n t = Some t' \<and>
    screen_text t' = take c (screen_text t) @ replicate (e - c - 1) (blank_text t) @
      [screen_text t ! c] @ drop e (screen_text t) \<and>
    deleteLines E n t = Some t'' \<and>
    screen_text t'' = take c (screen_text t) @ replicate (e - c) (blank_text t) @ drop e (screen_text t)"
proof -
  have wf: "term_wf E t" using assms(1) by simp
  note cur = term_ok_cursor [OF assms(1)]
  have ce: "c < e" using assms(2) cur by (simp add: c_def e_def)
  then have n: "1 \<le> n" "0 \<le> n" "e - c - (e - c - 1) = 1" "min (nat n) (e - c - 1) = e - c - 1"
    "min (nat n) (e - c) = e - c"
    using assms(5) by auto
  have "c < length (screen_text t)"
    using cur length_screen_text [OF wf] by (simp add: c_def)
  then have one: "take 1 (drop c (screen_text t)) = [screen_text t ! c]"
    by (simp add: take_Suc_conv_app_nth)
  obtain t' where "insertLines E n t = Some t'"
    "screen_text t' = take c (screen_text t) @ replicate (e - c - 1) (blank_text t) @
       [screen_text t ! c] @ drop e (screen_text t)"
    by (rule insertLines_result [OF assms(1) n(2) assms(2), folded c_def e_def]) (use n(3,4) one in simp)
  moreover obtain t'' where "deleteLines E n t = Some t''"
    "screen_text t'' = take c (screen_text t) @ replicate (e - c) (blank_text t) @ drop e (screen_text t)"
    by (rule deleteLines_result [OF assms(1) n(1) assms(2), folded c_def e_def]) (use n(5) in simp)
  ultimately show ?thesis by blast
qed

lemma insertLines_spares_one_witness:
  "\<exists>t t'. insertLines unit_env 30 t = Some t' \<and>
     screen_text t' = replicate 23 (blank_text t) @ [[]]"
proof -
  obtain t where t: "term_ok unit_env t" "cursor t = RowCol 0 7" "screenSize t = \<lparr>width = 80, height = 24\<rparr>"
    "vtScrollBottom t = None" "screen_text t = replicate 24 []"
    using placed_terminal [of 0 7] by auto
  have "getVTScrollBottom t = 23" using t(3,4) by (simp add: getVTScrollBottom_def)
  then have "\<exists>t'. insertLines unit_env 30 t = Some t' \<and>
      screen_text t' = replicate 23 (blank_text t) @ [[]]"
    using insertLines_spares_one [OF t(1), of 30] t(2,5) by (auto simp: RowCol_def)
  then show ?thesis ..
qed

text \<open>
  Inserting lines with the cursor below the scroll region: the line at the cursor moves up to
  the end of the region, the lines from there to the cursor move down by one, and nothing is
  inserted.
\<close>

theorem insertLines_below_region:
  fixes n :: int
  assumes "term_ok E t" and "0 \<le> n" and "getVTScrollBottom t < rc_row (cursor t)"
  defines "b \<equiv> nat (getVTScrollBottom t)" and "c \<equiv> nat (rc_row (cursor t))"
  shows "\<exists>t'. insertLines E n t = Some t' \<and>
    screen_text t' = take b (screen_text t) @ [screen_text t ! c] @
      take (c - b) (drop b (screen_text t)) @ drop (c + 1) (screen_text t) \<and>
    cursor t' = cursor t"
proof -
  have wf: "term_wf E t" using assms(1) by simp
  note cur = term_ok_cursor [OF assms(1)] and reg = term_ok_region [OF assms(1)]
  have bc: "b < c" "int b = getVTScrollBottom t" "int c = rc_row (cursor t)"
    using assms(3) cur reg by (simp_all add: b_def c_def)
  have len: "c < length (screen_text t)"
    using cur length_screen_text [OF wf] by (simp add: c_def)
  have b0: "0 \<le> getVTScrollBottom t" using reg by linarith
  obtain t' where t': "moveRows (rc_row (cursor t)) 1 (getVTScrollBottom t) t = Some t'"
    "screen_text t' = move_list c 1 b (screen_text t)" "cursor t' = cursor t"
    by (rule moveRows_text [OF wf cur(1), of 1 "getVTScrollBottom t"]) (use cur reg b0 in \<open>simp_all add: b_def c_def\<close>)
  have "screen_text t' = take b (screen_text t) @ [screen_text t ! c] @
      take (c - b) (drop b (screen_text t)) @ drop (c + 1) (screen_text t)"
    using t'(2) bc(1) len
    by (simp add: move_list_def Let_def take_Suc_conv_app_nth drop_append min_def take_drop)
  moreover have "insertLines E n t = Some t'"
    using assms(2,3) t'(1) by (simp add: insertLines_def Let_def)
  ultimately show ?thesis using t'(3) by blast
qed

lemma insertLines_below_region_witness:
  "\<exists>t t'. insertLines unit_env 1 t = Some t' \<and> getVTScrollBottom t = 9 \<and> cursor t' = RowCol 15 0 \<and>
     screen_text t' = replicate 24 []"
proof -
  obtain t where t: "term_ok unit_env t" "cursor t = RowCol 15 0" "screenSize t = \<lparr>width = 80, height = 24\<rparr>"
    "screen_text t = replicate 24 []"
    using placed_terminal [of 15 0] by auto
  let ?t = "setVTScrollRegion (Some 0) (Some 9) t"
  have ok: "term_ok unit_env ?t" using set_region_ok [OF t(1), of "Some 0" "Some 9"] t(3) by (simp add: region_args_def)
  have same: "cursor ?t = RowCol 15 0" "screen_text ?t = replicate 24 []" "getVTScrollBottom ?t = 9"
    using t by (simp_all add: setVTScrollRegion_def screen_text_def getVTScrollBottom_def)
  have "replicate 9 [] @ [] # replicate 6 [] @ replicate 8 [] = replicate 24 ([] :: jsstring)"
    by (simp add: replicate_app_Cons_same flip: replicate_add replicate_Suc)
  then have "\<exists>t'. insertLines unit_env 1 ?t = Some t' \<and> getVTScrollBottom ?t = 9 \<and>
      cursor t' = RowCol 15 0 \<and> screen_text t' = replicate 24 []"
    using insertLines_below_region [OF ok, of 1] same by (auto simp: RowCol_def)
  then show ?thesis ..
qed

section \<open>Sizes and screens\<close>

text \<open>The texts of the scrollback and of the screen, from the oldest row to the last one.\<close>

definition history :: "terminal \<Rightarrow> jsstring list" where
  "history t = map (row_text (rows_dom t)) (all_rows t)"

text \<open>
  C13. Resizing to any positive size returns and loses no text: the history before and after is the
  same list of lines, apart from blank lines at its end.
\<close>

theorem resize_keeps_text:
  fixes cols rows :: int
  assumes "term_ok E t" and "0 < cols" and "0 < rows"
  shows "\<exists>t' keep m n. realizeSize E cols rows t = Some t' \<and> term_ok E t' \<and>
    screenSize t' = \<lparr>width = cols, height = rows\<rparr> \<and>
    history t = keep @ replicate m [] \<and> history t' = keep @ replicate n []"
proof -
  obtain t' where t': "realizeSize E cols rows t = Some t'" "term_ok E t'"
    "screenSize t' = \<lparr>width = cols, height = rows\<rparr>" "kept_rows (next_row t) t t'"
    "\<exists>keep gone new. all_rows t = keep @ gone \<and> all_rows t' = keep @ new \<and>
       (\<forall>r \<in> set gone. row_text (rows_dom t) r = []) \<and> (\<forall>r \<in> set new. row_text (rows_dom t') r = [])"
    by (rule realizeSize_result [OF assms])
  then obtain keep gone new where rows: "all_rows t = keep @ gone" "all_rows t' = keep @ new"
    "\<forall>r \<in> set gone. row_text (rows_dom t) r = []" "\<forall>r \<in> set new. row_text (rows_dom t') r = []"
    by blast
  have "\<forall>r \<in> set keep. r < next_row t"
    using store_wfD(7) [OF term_wf_store [OF term_ok_wf [OF assms(1)]]] rows(1) by simp
  then have "map (row_text (rows_dom t')) keep = map (row_text (rows_dom t)) keep"
    using t'(4) by (simp add: kept_rows_def)
  moreover have blank: "map f rs = replicate (length rs) []" if "\<forall>r \<in> set rs. f r = []"
    for f :: "rowid \<Rightarrow> jsstring" and rs
    using that by (induction rs) simp_all
  ultimately show ?thesis
    using t'(1-3) rows(1,2) blank [OF rows(3)] blank [OF rows(4)] by (auto simp: history_def)
qed

lemma resize_keeps_text_witness:
  "\<exists>t t'. realizeSize unit_env 40 10 t = Some t' \<and> screenSize t' = \<lparr>width = 40, height = 10\<rparr>"
proof -
  obtain t where "term_ok unit_env t" using placed_terminal [of 23 79] by auto
  from resize_keeps_text [OF this, of 40 10] show ?thesis by auto
qed

text \<open>
  C17. Changing to the other screen and back, whatever happened to the current one meanwhile: the
  screen has its rows and their texts again, but the cursor is where it was on the screen that
  was left, not where it was when the screen was left.
\<close>

theorem alternate_restores_rows:
  assumes "term_ok E t" and "b \<noteq> on_alternate t"
    and "setAlternateMode E b t = Some u"
    and "term_ok E v" and "same_frame u v"
    and "\<forall>r \<in> set (rowsArray (other u)). row_text (rows_dom v) r = row_text (rows_dom u) r"
  shows "\<exists>t'. setAlternateMode E (\<not> b) v = Some t' \<and> term_ok E t' \<and>
    rowsArray (current t') = rowsArray (current t) \<and> screen_text t' = screen_text t \<and>
    rc_row (cursor t') = rc_row (cursor v) \<and> rc_column (cursor t') = rc_column (cursor v) \<and>
    rc_row (cursor u) = rc_row (cursor t) \<and> rc_column (cursor u) = rc_column (cursor t)"
proof -
  note wf = term_ok_wf [OF assms(1)]
  have u: "on_alternate u = b" "screenSize u = screenSize t" "other u = current t"
    "kept_rows (next_row t) t u" "rc_row (cursor u) = rc_row (cursor t)"
    "rc_column (cursor u) = rc_column (cursor t)"
    using setAlternateMode_result [OF assms(1,2)] assms(3) by (metis option.inject)+
  have v: "on_alternate v = b" "screenSize v = screenSize t" "other v = current t"
    using u assms(5) by (simp_all add: same_frame_def)
  then have flip: "(\<not> b) \<noteq> on_alternate v" by simp
  obtain t' where t': "setAlternateMode E (\<not> b) v = Some t'" "term_ok E t'"
    "kept_rows (next_row v) v t'" "rc_row (cursor t') = rc_row (cursor v)"
    "rc_column (cursor t') = rc_column (cursor v)" "rowsArray (current t') = rowsArray (current t)"
    by (rule setAlternateMode_result [OF assms(4) flip]) (use v term_wfD(3,4) [OF wf] in simp)
  have "r < next_row t" "r < next_row v" if "r \<in> set (rowsArray (current t))" for r
    using store_wfD(7) [OF term_wf_store [OF wf]] v(3) that
      store_wfD(7) [OF term_wf_store [OF term_ok_wf [OF assms(4)]]] by (auto simp: all_rows_def)
  then have "screen_text t' = screen_text t"
    using t'(3,6) u(3,4) assms(6) by (simp add: screen_text_def kept_rows_def)
  then show ?thesis using t' u by blast
qed

lemma alternate_restores_rows_witness:
  "\<exists>t u v t'. setAlternateMode unit_env True t = Some u \<and> v = setAbsoluteCursorPosition unit_env 20 40 u \<and>
     setAlternateMode unit_env False v = Some t' \<and> rc_row (cursor t) = 3 \<and> rc_row (cursor t') = 20"
proof -
  obtain t where t: "term_ok unit_env t" "cursor t = RowCol 3 5" "screenSize t = \<lparr>width = 80, height = 24\<rparr>"
    "\<not> on_alternate t"
    using placed_terminal [of 3 5] by auto
  obtain u where u: "setAlternateMode unit_env True t = Some u" "term_ok unit_env u" "screenSize u = screenSize t"
    using setAlternateMode_result [OF t(1), of True] t(4) by metis
  let ?v = "setAbsoluteCursorPosition unit_env 20 40 u"
  have mv: "moved unit_env u ?v" using u(2) by (simp add: moves)
  have "rc_row (cursor ?v) = 20" using moved_absolute(2) [OF term_ok_wf [OF u(2)]] u(3) t(3) by (simp add: RowCol_def)
  moreover have "\<forall>r \<in> set (rowsArray (other u)). row_text (rows_dom ?v) r = row_text (rows_dom u) r"
    using movedD(5) [OF mv] by (simp add: same_text_def)
  ultimately obtain t' where "setAlternateMode unit_env False ?v = Some t'" "rc_row (cursor t') = 20"
    using alternate_restores_rows [OF t(1) _ u(1) movedD(1,3) [OF mv]] t(4) by auto
  moreover have "rc_row (cursor t) = 3" using t(2) by (simp add: RowCol_def)
  ultimately show ?thesis using u(1) by blast
qed

section \<open>Tab stops\<close>

lemma filter_first:
  assumes "sorted_wrt (<) (xs :: int list)" and "filter P xs = x # rest"
  shows "x \<in> set xs" "P x" "\<forall>y \<in> set xs. P y \<longrightarrow> x \<le> y"
proof -
  have s: "sorted_wrt (<) (x # rest)" using assms by (metis sorted_wrt_filter)
  have set: "set (x # rest) = {y \<in> set xs. P y}" using assms(2) by (metis set_filter)
  then show "x \<in> set xs" "P x" by auto
  show "\<forall>y \<in> set xs. P y \<longrightarrow> x \<le> y" using s set by force
qed

lemma setCursorColumn_cursor:
  assumes ok: "term_ok E t" and "0 \<le> c"
  shows "cursor (setCursorColumn E c t) = RowCol (rc_row (cursor t)) (min c (width (screenSize t) - 1))"
  using moved_absolute(2) [OF term_ok_wf [OF ok]] term_ok_cursor [OF ok] assms(2)
  by (simp add: setCursorColumn_def clamp_def)

text \<open>
  A tab goes to the first tab stop right of the cursor; without one it goes to the last column,
  and leaves a pending wrap as it is.
\<close>

theorem forwardTabStop_finds:
  assumes "term_ok E t"
  defines "c \<equiv> rc_column (cursor t)" and "t' \<equiv> forwardTabStop E t"
  shows "rc_row (cursor t') = rc_row (cursor t) \<and>
    (if \<exists>x \<in> set (tabStops t). c < x
     then rc_column (cursor t') \<in> set (tabStops t) \<and> c < rc_column (cursor t') \<and>
       (\<forall>x \<in> set (tabStops t). c < x \<longrightarrow> rc_column (cursor t') \<le> x)
     else rc_column (cursor t') = width (screenSize t) - 1 \<and>
       rc_overflow (cursor t') = rc_overflow (cursor t))"
proof -
  note tabs = store_wfD(8) [OF term_wf_store [OF term_ok_wf [OF assms(1)]]]
  note set_column = setCursorColumn_cursor [OF assms(1)] and cur = term_ok_cursor [OF assms(1)]
  show ?thesis
  proof (cases "filter (\<lambda>x. x > c) (tabStops t)")
    case Nil
    then have "t' = on_screen (set_overflow (rc_overflow (cursor t)))
        (setCursorColumn E (width (screenSize t) - 1) t)" "\<not> (\<exists>x \<in> set (tabStops t). c < x)"
      by (auto simp: t'_def forwardTabStop_def c_def filter_empty_conv)
    then show ?thesis using set_column [of "width (screenSize t) - 1"] cur
      by (simp add: set_overflow_def RowCol_def)
  next
    case (Cons x rest)
    have "sorted_wrt (<) (tabStops t)" using tabs by (simp add: tabs_ok_def)
    note x = filter_first [OF this Cons]
    have "t' = setCursorColumn E x t" using Cons by (simp add: t'_def forwardTabStop_def c_def)
    moreover have "0 \<le> x" "x \<le> width (screenSize t) - 1" using x(1) tabs by (auto simp: tabs_ok_def)
    ultimately show ?thesis using x set_column [of x] by (auto simp: RowCol_def)
  qed
qed

lemma forwardTabStop_finds_witness:
  "\<exists>t. cursor t = RowCol 2 10 \<and> rc_column (cursor (forwardTabStop unit_env t)) = 16"
proof -
  obtain t where t: "term_ok unit_env t" "cursor t = RowCol 2 10"
    "set (tabStops t) = {8, 16, 24, 32, 40, 48, 56, 64, 72}"
    using placed_terminal [of 2 10] by auto
  then have "rc_column (cursor (forwardTabStop unit_env t)) = 16"
    using forwardTabStop_finds [OF t(1)] by (auto simp: RowCol_def)
  with t(2) show ?thesis by blast
qed

text \<open>
  A back tab goes to the last tab stop left of the cursor; without one it goes to column 1, or
  stays in column 0 on a screen with one column. It never goes to column 0 of a wider screen,
  unless a stop is set there.
\<close>

theorem backwardTabStop_finds:
  assumes "term_ok E t"
  defines "c \<equiv> rc_column (cursor t)" and "t' \<equiv> backwardTabStop E t"
  shows "rc_row (cursor t') = rc_row (cursor t) \<and>
    (if \<exists>x \<in> set (tabStops t). x < c
     then rc_column (cursor t') \<in> set (tabStops t) \<and> rc_column (cursor t') < c \<and>
       (\<forall>x \<in> set (tabStops t). x < c \<longrightarrow> x \<le> rc_column (cursor t'))
     else rc_column (cursor t') = min 1 (width (screenSize t) - 1))"
proof -
  note tabs = store_wfD(8) [OF term_wf_store [OF term_ok_wf [OF assms(1)]]]
  note set_column = setCursorColumn_cursor [OF assms(1)] and cur = term_ok_cursor [OF assms(1)]
  show ?thesis
  proof (cases "filter (\<lambda>x. x < c) (rev (tabStops t))")
    case Nil
    then have "t' = setCursorColumn E 1 t" "\<not> (\<exists>x \<in> set (tabStops t). x < c)"
      by (auto simp: t'_def backwardTabStop_def c_def filter_empty_conv)
    then show ?thesis using set_column [of 1] by (simp add: RowCol_def)
  next
    case (Cons x rest)
    have "sorted_wrt (<) (map uminus (rev (tabStops t)))" using tabs
      by (simp add: tabs_ok_def sorted_wrt_rev sorted_wrt_map)
    moreover have "filter (\<lambda>y. - y < c) (map uminus (rev (tabStops t))) = - x # map uminus rest"
      using Cons by (simp add: filter_map comp_def)
    ultimately have x: "x \<in> set (tabStops t)" "x < c" "\<forall>y \<in> set (tabStops t). y < c \<longrightarrow> y \<le> x"
      using filter_first [of "map uminus (rev (tabStops t))" "\<lambda>y. - y < c" "- x"] by auto
    have "t' = setCursorColumn E x t" using Cons by (simp add: t'_def backwardTabStop_def c_def)
    moreover have "0 \<le> x" "x \<le> width (screenSize t) - 1" using x(1) tabs by (auto simp: tabs_ok_def)
    ultimately show ?thesis using x set_column [of x] by (auto simp: RowCol_def)
  qed
qed

lemma backwardTabStop_finds_witness:
  "\<exists>t. cursor t = RowCol 2 5 \<and> rc_column (cursor (backwardTabStop unit_env t)) = 1"
proof -
  obtain t where t: "term_ok unit_env t" "cursor t = RowCol 2 5" "screenSize t = \<lparr>width = 80, height = 24\<rparr>"
    "set (tabStops t) = {8, 16, 24, 32, 40, 48, 56, 64, 72}"
    using placed_terminal [of 2 5] by auto
  then have "rc_column (cursor (backwardTabStop unit_env t)) = 1"
    using backwardTabStop_finds [OF t(1)] by (auto simp: RowCol_def)
  with t(2) show ?thesis by blast
qed

section \<open>The cursor\<close>

lemma js_rem_neg: "0 < m \<Longrightarrow> js_rem (- m) w = - (m mod \<bar>w\<bar>)"
  by (simp add: js_rem_def)

text \<open>
  C18. Moving the cursor left with reverse wraparound, past the start of the line and not past the top of the
  screen, with no wrap pending and not in origin mode: the cell it gets to. It depends on the position, the count and the width alone, so the cursor backs up into the line before
  whether or not that line wrapped into this one, where the comment in the code says it does so only if it
  wrapped. Compared with reading order, in which the lines of the screen follow one another as one text, it
  is the cell \<open>n\<close> places back only if \<open>n\<close> and the distance past the start have the same number of whole
  lines, and the distance is not a whole number of lines. Moving left by the width of the screen goes two lines up.
\<close>

theorem cursorLeft_reverse_wrap:
  fixes n :: int
  assumes "term_ok E t" and "reverseWraparound (options t)" and "\<not> originMode (options t)"
    and "\<not> rc_overflow (cursor t)"
  defines "r \<equiv> rc_row (cursor t)" and "c \<equiv> rc_column (cursor t)" and "w \<equiv> width (screenSize t)"
  defines "cur' \<equiv> cursor (cursorLeft E n t)"
  assumes "c < n" and "n div w < r"
  shows "cur' = RowCol (r - n div w - 1) (min (w - (n - c) mod w) (w - 1)) \<and>
    (rc_row cur' * w + rc_column cur' = r * w + c - n \<longleftrightarrow>
      n div w = (n - c) div w \<and> (n - c) mod w \<noteq> 0)"
proof -
  note cur = term_ok_cursor [OF assms(1)]
  have w: "0 < w" "0 \<le> c" "c < w" "r < height (screenSize t)" using cur by (simp_all add: w_def c_def r_def)
  have n: "1 \<le> n" "n \<noteq> 0" using assms(9) w(2) by simp_all
  define q where "q = (n - c) mod w"
  have m: "0 \<le> q" "q < w" using w(1) by (simp_all add: q_def)
  have div0: "0 \<le> n div w" using n w(1) by (simp add: pos_imp_zdiv_nonneg_iff)
  have "js_rem (c - n) w = - q" using js_rem_neg [of "n - c" w] assms(9) w(1) by (simp add: q_def)
  then have "cursorLeft E n t = setAbsoluteCursorPosition E (r - n div w - 1) (w - q) t"
    using assms(2-4,9,10) n
    by (simp add: cursorLeft_def or_one_def wrap_left_def Let_def terminal_setCursorPosition_def
        flip: r_def c_def w_def)
  then have res: "cur' = RowCol (r - n div w - 1) (min (w - q) (w - 1))"
    using moved_absolute(2) [OF term_ok_wf [OF assms(1)]] w m assms(10) div0
    by (simp add: cur'_def clamp_def flip: w_def)
  have split: "n - c = (n - c) div w * w + q" by (simp add: q_def)
  have "rc_row cur' * w + rc_column cur' = r * w + c - n \<longleftrightarrow> n div w = (n - c) div w \<and> q \<noteq> 0"
  proof (cases "q = 0")
    case True
    have "rc_row cur' * w + rc_column cur' = (r - n div w) * w - 1"
      using res w True by (simp add: RowCol_def algebra_simps)
    moreover have "r * w + c - n = (r - (n - c) div w) * w" using split True by (simp add: algebra_simps)
    moreover have "a * w - 1 \<noteq> b * w" if "w \<noteq> 1" for a b :: int
    proof
      assume "a * w - 1 = b * w"
      then have "(a - b) * w = 1" by (simp add: algebra_simps)
      then show False using that w(1) by (auto simp: zmult_eq_1_iff)
    qed
    moreover have "n div w = (n - c) div w" if "w = 1" using that w by simp
    ultimately show ?thesis using True by (cases "w = 1") auto
  next
    case False
    then have "min (w - q) (w - 1) = w - q" using m by simp
    then have "rc_row cur' * w + rc_column cur' = r * w - n div w * w - q"
      using res by (simp add: RowCol_def algebra_simps)
    moreover have "r * w + c - n = r * w - (n - c) div w * w - q" using split by linarith
    ultimately show ?thesis using False w(1) by auto
  qed
  with res show ?thesis by (simp add: q_def)
qed

lemma cursorLeft_reverse_wrap_witness:
  "\<exists>t. cursor t = RowCol 5 10 \<and> width (screenSize t) = 80 \<and>
     cursor (cursorLeft unit_env 80 t) = RowCol 3 10"
proof -
  obtain t0 where t0: "term_ok unit_env t0" "cursor t0 = RowCol 5 10" "screenSize t0 = \<lparr>width = 80, height = 24\<rparr>"
    "options t0 = new_options"
    using placed_terminal [of 5 10] by auto
  let ?t = "set_options (\<lambda>opts. opts\<lparr>reverseWraparound := True\<rparr>) t0"
  have t: "term_ok unit_env ?t" "cursor ?t = RowCol 5 10" "screenSize ?t = \<lparr>width = 80, height = 24\<rparr>"
    "reverseWraparound (options ?t)" "\<not> originMode (options ?t)"
    using t0 set_options_ok [OF t0(1)] by (simp_all add: set_options_def new_options_def)
  have "cursor (cursorLeft unit_env 80 ?t) = RowCol 3 10"
    using cursorLeft_reverse_wrap [OF t(1,4,5), of 80] t(2,3) by (simp add: RowCol_def)
  with t(2,3) show ?thesis by (intro exI [of _ ?t]) simp
qed

section \<open>Saving the cursor\<close>

text \<open>
  C16. Saving the cursor and restoring it, whatever moved, printed or changed the attributes in
  between, gives back the position, a pending wrap included, the attributes and the character
  sets, as long as the screen has its size and its palette.
\<close>

theorem save_then_restore:
  assumes "term_ok E t" and "term_ok E u" and "screenSize u = screenSize t"
    and "cursorState (current u) = cursorState (current (saveCursorAndState False sets t))"
    and "colorPaletteOverrides (textAttributes (current u)) = colorPaletteOverrides (textAttributes (current t))"
  shows "\<exists>v. restoreCursorAndState E False u = Some (sets, v) \<and> term_ok E v \<and>
    cursor v = cursor t \<and> textAttributes (current v) = textAttributes (current t) \<and>
    screen_text v = screen_text u"
proof -
  let ?ta = "textAttributes (current t)"
  have attrs: "attrs_ok ?ta" using store_wfD(3) [OF term_wf_store [OF term_ok_wf [OF assms(1)]]] .
  have state: "cursorState (current u) =
      \<lparr>cs_cursor = Some (cursor t), cs_textAttributes = Some ?ta, cs_sets = Some sets\<rparr>"
    using assms(4) by (simp add: saveCursorAndState_def on_screen_def save_state_def saveCursor_def)
  let ?v = "restoreCursor E (cursor t) u"
  note cur = term_ok_cursor [OF assms(1)]
  have mv: "moved E u ?v" using assms(2) by (simp add: moves)
  have cursor: "cursor ?v = cursor t"
    using place_cursor_ok(2) [OF term_ok_wf [OF assms(2)], of "rc_row (cursor t)" "rc_column (cursor t)"] cur assms(3)
    by (cases "cursor t") (auto simp: restoreCursor_def Let_def clamp_index_def RowCol_def set_overflow_def)
  have "?ta\<lparr>colorPaletteOverrides := colorPaletteOverrides (textAttributes (current u))\<rparr> = ?ta"
    using assms(5) by simp
  then have step: "restoreCursorAndState E False u =
      Some (sets, on_screen (\<lambda>s. s\<lparr>textAttributes := ?ta\<rparr>) ?v)"
    using attrs_okD(3) [OF attrs] by (simp add: restoreCursorAndState_def restore_state_def state)
  let ?w = "on_screen (\<lambda>s. s\<lparr>textAttributes := ?ta\<rparr>) ?v"
  have "term_ok E ?w"
    using movedD(1) [OF mv] attrs
    by (simp add: term_ok_def term_wf_def store_wf_def on_screen_def all_rows_def other_ok_def region_ok_def
        screen_ok_def cursor_node_ok_def cursor_consistent_def)
  moreover have "screen_text ?w = screen_text u"
    using moved_screen_text [OF mv] by (simp add: screen_text_def on_screen_def)
  ultimately show ?thesis
    using step cursor by (intro exI [of _ ?w]) (simp add: on_screen_def)
qed

lemma cursorState_setCursorPosition: "cursorState (snd (setCursorPosition E r c ds)) = cursorState (snd ds)"
  unfolding setCursorPosition_def Let_def split_beta by (auto split: option.split)

lemma save_then_restore_witness:
  "\<forall>sets. \<exists>t u v. u = setAbsoluteCursorPosition unit_env 20 40 (saveCursorAndState False sets t) \<and>
     cursor u = RowCol 20 40 \<and> restoreCursorAndState unit_env False u = Some (sets, v) \<and> cursor v = RowCol 3 5"
proof
  fix sets
  obtain t where t: "term_ok unit_env t" "cursor t = RowCol 3 5" "screenSize t = \<lparr>width = 80, height = 24\<rparr>"
    using placed_terminal [of 3 5] by auto
  let ?s = "saveCursorAndState False sets t"
  have s: "term_ok unit_env ?s" "screenSize ?s = screenSize t" "textAttributes (current ?s) = textAttributes (current t)"
    using t(1) by (simp_all add: saveCursorAndState_def on_screen_def save_state_def
        term_ok_def term_wf_def store_wf_def all_rows_def other_ok_def region_ok_def
        screen_ok_def cursor_node_ok_def cursor_consistent_def)
  let ?u = "setAbsoluteCursorPosition unit_env 20 40 ?s"
  have mv: "moved unit_env ?s ?u" using s(1) by (simp add: moves)
  have "cursorState (current ?u) = cursorState (current ?s)"
    by (simp add: setAbsoluteCursorPosition_def place_cursor_def edit_total_def Let_def split_beta
        cursorState_setCursorPosition)
  moreover have "cursor ?u = RowCol 20 40"
    using moved_absolute(2) [OF term_ok_wf [OF s(1)]] s(2) t(3) by simp
  ultimately obtain v where "restoreCursorAndState unit_env False ?u = Some (sets, v)" "cursor v = RowCol 3 5"
    using save_then_restore [OF t(1) movedD(1) [OF mv]] movedD(3,6) [OF mv] s(2,3) t(2)
    by (auto simp: same_frame_def)
  with \<open>cursor ?u = RowCol 20 40\<close> show "\<exists>t u v. u = setAbsoluteCursorPosition unit_env 20 40 (saveCursorAndState False sets t) \<and>
     cursor u = RowCol 20 40 \<and> restoreCursorAndState unit_env False u = Some (sets, v) \<and> cursor v = RowCol 3 5"
    by blast
qed


end
