(* ===== verification/VtState.thy ===== *)
theory VtState
  imports TerminalRun CharacterMap Palette
begin

text \<open>
  \<open>hterm.VT\<close> (hterm_all-1.91.js): its fields, \<open>hterm.VT.ParseState\<close>, and what the handlers of
  escape sequences do to modes, resets and colors (\<open>setANSIMode\<close>, \<open>setDECMode\<close>,
  \<open>parseSgrExtendedColors\<close>, \<open>Terminal.reset\<close>, \<open>Terminal.softReset\<close>). \<open>None\<close> is an exception.
\<close>

section \<open>The parse state\<close>

text \<open>
  The functions \<open>ParseState.func\<close> can be: the methods of the interpreter, and the closures the
  handlers of \<open>ESC\<close>, \<open>OSC\<close>, \<open>ESC k\<close> and of the sequences with an intermediate character install.
\<close>

datatype parser =
    parseUnknown | parseESC | parseCSI | parseDCS | parseUntilStringTerminator | parseOSC | parseTitle
  | parseSpace | parseHash | parsePercent | parseCharset code_unit

text \<open>
  \<open>subargs\<close> is \<open>null\<close> or the set of the arguments with subarguments. A buffer that was never set
  is the empty one. The time \<open>parseUntilStringTerminator_\<close> puts in \<open>args[1]\<close> is its decimal
  string, to which arithmetic and concatenation coerce it either way.
\<close>

record parse_state =
  func :: parser
  args :: "jsstring list"
  subargs :: "nat set option"
  pos :: nat
  buf :: jsstring

definition new_parse_state :: parse_state where
  "new_parse_state = \<lparr>func = parseUnknown, args = [], subargs = None, pos = 0, buf = []\<rparr>"

definition resetParseFunction :: "parse_state \<Rightarrow> parse_state" where
  "resetParseFunction p = p\<lparr>func := parseUnknown\<rparr>"

definition resetBuf :: "jsstring \<Rightarrow> parse_state \<Rightarrow> parse_state" where
  "resetBuf b p = p\<lparr>buf := b, pos := 0\<rparr>"

definition resetArguments :: "parse_state \<Rightarrow> parse_state" where
  "resetArguments p = p\<lparr>args := []\<rparr>"

definition reset_parse_state :: "jsstring \<Rightarrow> parse_state \<Rightarrow> parse_state" where
  "reset_parse_state b p = resetArguments (resetBuf b (resetParseFunction p))"

definition advance :: "nat \<Rightarrow> parse_state \<Rightarrow> parse_state" where
  "advance n p = p\<lparr>pos := pos p + n\<rparr>"

definition peekRemainingBuf :: "parse_state \<Rightarrow> jsstring" where
  "peekRemainingBuf p = drop (pos p) (buf p)"

text \<open>The empty string, beyond the end, is \<open>None\<close>.\<close>

definition peekChar :: "parse_state \<Rightarrow> code_unit option" where
  "peekChar p = (case peekRemainingBuf p of [] \<Rightarrow> None | c # _ \<Rightarrow> Some c)"

definition consumeChar :: "parse_state \<Rightarrow> code_unit option \<times> parse_state" where
  "consumeChar p = (peekChar p, advance 1 p)"

definition isComplete :: "parse_state \<Rightarrow> bool" where
  "isComplete p \<longleftrightarrow> length (buf p) \<le> pos p"

section \<open>Numbers in arguments\<close>

text \<open>
  \<open>parseInt(s, 10)\<close> and \<open>Number(s)\<close> for what an argument can hold, digits and colons; \<open>None\<close> is
  \<open>NaN\<close>.
\<close>

definition parse_int :: "jsstring \<Rightarrow> int option" where
  "parse_int s = (let d = takeWhile is_digit s in if d = [] then None else Some (digits_value d))"

definition to_number :: "jsstring \<Rightarrow> int option" where
  "to_number s = (if list_all is_digit s then Some (digits_value s) else None)"

definition nth_arg :: "nat \<Rightarrow> parse_state \<Rightarrow> jsstring option" where
  "nth_arg i p = (if i < length (args p) then Some (args p ! i) else None)"

text \<open>\<open>ParseState.parseInt\<close> of a string that may be \<open>undefined\<close>.\<close>

definition parseInt_default :: "jsstring option \<Rightarrow> int \<Rightarrow> int option" where
  "parseInt_default s dflt =
     (case s of
        None \<Rightarrow> Some dflt
      | Some s \<Rightarrow> if s = [] then Some dflt
                  else if parse_int s = Some 0 then Some dflt else parse_int s)"

definition iarg :: "nat \<Rightarrow> int \<Rightarrow> parse_state \<Rightarrow> int option" where
  "iarg i dflt p = parseInt_default (nth_arg i p) dflt"

definition argHasSubargs :: "nat \<Rightarrow> parse_state \<Rightarrow> bool" where
  "argHasSubargs i p \<longleftrightarrow> (case subargs p of None \<Rightarrow> False | Some is \<Rightarrow> i \<in> is)"

definition argSetSubargs :: "nat \<Rightarrow> parse_state \<Rightarrow> parse_state" where
  "argSetSubargs i p =
     p\<lparr>subargs := Some (insert i (case subargs p of None \<Rightarrow> {} | Some is \<Rightarrow> is))\<rparr>"

text \<open>\<open>arg == n\<close>, a string or \<open>undefined\<close> compared with a number, and \<open>!arg || arg == 0\<close>.\<close>

definition arg_is :: "nat \<Rightarrow> parse_state \<Rightarrow> int \<Rightarrow> bool" where
  "arg_is i p n \<longleftrightarrow> (case nth_arg i p of None \<Rightarrow> False | Some s \<Rightarrow> to_number s = Some n)"

definition arg_unset :: "nat \<Rightarrow> parse_state \<Rightarrow> bool" where
  "arg_unset i p \<longleftrightarrow> nth_arg i p \<in> {None, Some []} \<or> arg_is i p 0"

text \<open>\<open>s.split(c)\<close>\<close>

fun split_on :: "code_unit \<Rightarrow> jsstring \<Rightarrow> jsstring list" where
  "split_on c [] = [[]]"
| "split_on c (x # xs) =
     (if x = c then [] # split_on c xs
      else case split_on c xs of [] \<Rightarrow> [[x]] | s # ss \<Rightarrow> (x # s) # ss)"

section \<open>The interpreter and what it talks to\<close>

text \<open>
  What the interpreter asks of the page: \<open>hterm.Terminal.IO.sendString\<close> to the host, the bell, the
  window, the shape and the colors of cursor and text, the clipboard, notifications, and images.
\<close>

datatype event =
    SendString jsstring | RingBell | SetWindowName jsstring | SetWindowTitle jsstring
  | SetScrollbarVisible bool | SetCursorShape jsstring
  | SetForegroundColor "jsstring option" | SetBackgroundColor "jsstring option" | SetCursorColor color_value
  | CopyToClipboard jsstring | Notify "jsstring option" "jsstring option" | ShowImage jsstring

record keyboard_modes =
  applicationCursor :: bool
  applicationKeypad :: bool
  backspaceSendsBackspace :: bool
  metaSendsEscape :: bool
  altSendsWhat :: jsstring
  previousAltSendsWhat :: "jsstring option"

text \<open>
  The fields of the interpreter, with those of the terminal and of its keyboard that only escape
  sequences set. \<open>terminalAllowColumnWidthChanges\<close> is the field of that name that \<open>setDECMode\<close>
  writes on the terminal. The pattern \<open>cc1Pattern_\<close> is computed from \<open>codingSystemUtf8\<close> by every
  function that sets it.
\<close>

record machine =
  vt_terminal :: terminal
  mouseReport :: int
  mouseCoordinates :: int
  lastMouseDragResponse :: "jsstring option"
  leadingModifier :: jsstring
  trailingModifier :: jsstring
  allowColumnWidthChanges :: bool
  enable8BitControl :: bool
  enableDec12 :: bool
  enableCsiJ3 :: bool
  characterMaps :: charmaps
  charsets :: gsets
  codingSystemUtf8 :: bool
  codingSystemLocked :: bool
  keyboard :: keyboard_modes
  terminalAllowColumnWidthChanges :: bool
  reportFocus :: bool
  scrollWheelArrowKeys :: bool
  scrollOnOutput :: bool
  scrollOnKeystroke :: bool
  events :: "event list"
  clock_reads :: nat

text \<open>
  The surroundings: those of the screen, the readings of \<open>new Date().getTime()\<close> in turn, the
  preferences for the blinking of the cursor, colors, the clipboard and the alt key, texts of the browser, and
  what \<open>atob\<close> and the decoder of the clipboard make of a text; \<open>None\<close> if \<open>atob\<close> throws.
\<close>

record host =
  screen_env :: env
  clock :: "nat \<Rightarrow> int"
  cursor_blink_pref :: bool
  css :: css_text
  foreground_pref :: jsstring
  background_pref :: jsstring
  cursor_pref :: jsstring
  palette_pref :: "int \<rightharpoonup> jsstring"
  clipboard_write :: bool
  alt_is_meta :: bool
  decoded_base64 :: "jsstring \<Rightarrow> jsstring option"

definition MOUSE_REPORT_DISABLED :: int where "MOUSE_REPORT_DISABLED = 0"
definition MOUSE_REPORT_PRESS :: int where "MOUSE_REPORT_PRESS = 1"
definition MOUSE_REPORT_CLICK :: int where "MOUSE_REPORT_CLICK = 2"
definition MOUSE_REPORT_DRAG :: int where "MOUSE_REPORT_DRAG = 3"
definition MOUSE_COORDINATES_X10 :: int where "MOUSE_COORDINATES_X10 = 0"
definition MOUSE_COORDINATES_UTF8 :: int where "MOUSE_COORDINATES_UTF8 = 1"
definition MOUSE_COORDINATES_SGR :: int where "MOUSE_COORDINATES_SGR = 2"

lemmas mouse_constants = MOUSE_REPORT_DISABLED_def MOUSE_REPORT_PRESS_def MOUSE_REPORT_CLICK_def
  MOUSE_REPORT_DRAG_def MOUSE_COORDINATES_X10_def MOUSE_COORDINATES_UTF8_def MOUSE_COORDINATES_SGR_def

text \<open>\<open>getTextAttributes\<close> is the object of the current screen, which the handlers change in place.\<close>

definition on_attributes :: "(tattrs \<Rightarrow> tattrs option) \<Rightarrow> terminal \<Rightarrow> terminal option" where
  "on_attributes f t = do {
     ta \<leftarrow> f (textAttributes (current t));
     Some (on_screen (\<lambda>s. s\<lparr>textAttributes := ta\<rparr>) t)
   }"

text \<open>An operation of the terminal, one that cannot throw, and an event.\<close>

definition run :: "(terminal \<Rightarrow> terminal option) \<Rightarrow> machine \<Rightarrow> machine option" where
  "run f m = map_option (\<lambda>t. m\<lparr>vt_terminal := t\<rparr>) (f (vt_terminal m))"

definition run_total :: "(terminal \<Rightarrow> terminal) \<Rightarrow> machine \<Rightarrow> machine option" where
  "run_total f m = Some (m\<lparr>vt_terminal := f (vt_terminal m)\<rparr>)"

definition emit :: "event \<Rightarrow> machine \<Rightarrow> machine option" where
  "emit e m = Some (m\<lparr>events := events m @ [e]\<rparr>)"

definition send :: "jsstring \<Rightarrow> machine \<Rightarrow> machine option" where
  "send s = emit (SendString s)"

definition vt_saveCursor :: "machine \<Rightarrow> machine option" where
  "vt_saveCursor m = run_total (saveCursorAndState False (charsets m)) m"

definition vt_restoreCursor :: "host \<Rightarrow> machine \<Rightarrow> machine option" where
  "vt_restoreCursor H m = do {
     (cs, t) \<leftarrow> restoreCursorAndState (screen_env H) False (vt_terminal m);
     Some (m\<lparr>charsets := cs, vt_terminal := t\<rparr>)
   }"

end
