(* ===== verification/VtOsc.thy ===== *)
theory VtOsc
  imports VtState
begin

text \<open>
  The operating system commands of \<open>hterm.VT\<close> (hterm_all-1.91.js), \<open>OSC\<close> with a number and a text,
  and the functions of \<open>hterm.Terminal\<close> for the palette and the colors. The variables of CSS that
  these set with the colors are not kept. \<open>None\<close> is an exception.
\<close>

section \<open>Links\<close>

text \<open>
  A link: the parameters are \<open>key=value\<close> pairs between colons, of which the last \<open>id\<close> counts.
  Anything but two parts with an address ends the link.
\<close>

fun link_id :: "jsstring list \<Rightarrow> jsstring \<Rightarrow> jsstring" where
  "link_id [] i = i"
| "link_id (prm # prms) i =
     (let key = takeWhile (\<lambda>c. c \<noteq> 61) prm
      in link_id prms (if 61 \<in> set prm \<and> key = js ''id'' then drop (length key + 1) prm else i))"

definition hyperlink :: "jsstring \<Rightarrow> tattrs \<Rightarrow> tattrs" where
  "hyperlink arg ta =
     (case split_on 59 arg of
        [params, address] \<Rightarrow>
          (if address = [] then ta\<lparr>uri := None, uriId := None\<rparr>
           else ta\<lparr>uri := Some address, uriId := Some (link_id (split_on 58 params) [])\<rparr>)
      | _ \<Rightarrow> ta\<lparr>uri := None, uriId := None\<rparr>)"

section \<open>The palette\<close>

text \<open>
  \<open>parseInt(s, 10)\<close>: white space, a sign and digits, whatever comes after them; \<open>None\<close> is \<open>NaN\<close>.
\<close>

definition parse_signed :: "jsstring \<Rightarrow> int option" where
  "parse_signed s =
     (case skip_ws s of
        [] \<Rightarrow> None
      | c # r \<Rightarrow>
          if c = 45 then map_option uminus (parse_int r)
          else if c = 43 then parse_int r
          else parse_int (c # r))"

definition setOverride :: "int \<Rightarrow> jsstring option \<Rightarrow> terminal \<Rightarrow> terminal" where
  "setOverride i c = on_screen (\<lambda>s. s\<lparr>textAttributes := (textAttributes s)
     \<lparr>colorPaletteOverrides := (colorPaletteOverrides (textAttributes s))(i := c)\<rparr>\<rparr>)"

text \<open>An index out of range, \<open>NaN\<close> among them, does nothing; a color that is no string throws.\<close>

definition setColorPalette :: "int option \<Rightarrow> color_value \<Rightarrow> terminal \<Rightarrow> terminal option" where
  "setColorPalette i v t =
     (case i of
        None \<Rightarrow> Some t
      | Some i \<Rightarrow>
          if 0 \<le> i \<and> i < 256 then (case v of Inherited \<Rightarrow> None | Color c \<Rightarrow> Some (setOverride i (Some c) t))
          else Some t)"

text \<open>\<open>undefined\<close> for an index out of range is \<open>None\<close>.\<close>

definition getColorPalette :: "host \<Rightarrow> int option \<Rightarrow> terminal \<Rightarrow> jsstring option" where
  "getColorPalette H i t =
     (case i of
        None \<Rightarrow> None
      | Some i \<Rightarrow>
          (case colorPaletteOverrides (textAttributes (current t)) i of
             Some c \<Rightarrow> Some c
           | None \<Rightarrow>
               (case palette_pref H i of
                  Some c \<Rightarrow> Some c
                | None \<Rightarrow> if 0 \<le> i \<and> i < 256 then Some (stockPalette ! nat i) else None)))"

text \<open>\<open>resetColorPalette\<close> drops the overrides of the current screen.\<close>

definition resetColorPalette :: "terminal \<Rightarrow> terminal" where
  "resetColorPalette = on_screen (\<lambda>s. s\<lparr>textAttributes :=
     (textAttributes s)\<lparr>colorPaletteOverrides := Map.empty\<rparr>\<rparr>)"

text \<open>
  \<open>resetColor\<close> with an index that is text: only the decimal text of a number is one of the array. The
  override that it sets it deletes again. The length of an array cannot be deleted, which throws.
\<close>

definition resetColor :: "jsstring \<Rightarrow> terminal \<Rightarrow> terminal option" where
  "resetColor c t =
     (if c = js ''length'' then None
      else case parse_int c of
             None \<Rightarrow> Some t
           | Some i \<Rightarrow> Some (if js_of_int i = c then setOverride i None t else t))"

text \<open>
  One pair of \<open>OSC 4\<close>, an index and a color or a question mark: the answers it adds, and the
  terminal. \<open>rgbToX11\<close> of \<open>undefined\<close> throws.
\<close>

definition palette_pair :: "host \<Rightarrow> jsstring \<Rightarrow> jsstring \<Rightarrow> terminal \<Rightarrow> (jsstring list \<times> terminal) option" where
  "palette_pair H index v t =
     (let i = parse_signed index in
      if (case i of None \<Rightarrow> False | Some n \<Rightarrow> 256 \<le> n) then Some ([], t)
      else if v = js ''?'' then do {
        c \<leftarrow> getColorPalette H i t;
        Some (case rgbToX11 c of None \<Rightarrow> [] | Some x \<Rightarrow> [js_of_int (the i) @ js '';'' @ x], t)
      }
      else (case x11ToCSS (lower_case (css H)) v of
              None \<Rightarrow> Some ([], t)
            | Some c \<Rightarrow> map_option (Pair []) (setColorPalette i c t)))"

text \<open>The pairs in order; a last index without a color is dropped.\<close>

fun palette_pairs :: "host \<Rightarrow> jsstring list \<Rightarrow> terminal \<Rightarrow> (jsstring list \<times> terminal) option" where
  "palette_pairs H (index # v # rest) t = do {
     (r, t) \<leftarrow> palette_pair H index v t;
     (rs, t) \<leftarrow> palette_pairs H rest t;
     Some (r @ rs, t)
   }"
| "palette_pairs H _ t = Some ([], t)"

fun join_with :: "code_unit \<Rightarrow> jsstring list \<Rightarrow> jsstring" where
  "join_with c [] = []"
| "join_with c [s] = s"
| "join_with c (s # ss) = s @ c # join_with c ss"

definition palette_answer :: "jsstring list \<Rightarrow> jsstring" where
  "palette_answer rs = 27 # js '']4;'' @ join_with 59 rs @ [7]"

definition osc_palette :: "host \<Rightarrow> jsstring \<Rightarrow> machine \<Rightarrow> machine option" where
  "osc_palette H arg m = do {
     (rs, t) \<leftarrow> palette_pairs H (split_on 59 arg) (vt_terminal m);
     (let m = m\<lparr>vt_terminal := t\<rparr> in if rs = [] then Some m else send (palette_answer rs) m)
   }"

definition osc_reset_colors :: "jsstring \<Rightarrow> machine \<Rightarrow> machine option" where
  "osc_reset_colors arg m =
     (if arg = [] then run_total resetColorPalette m
      else run (\<lambda>t. fold (\<lambda>c t. t \<bind> resetColor c) (split_on 59 arg) (Some t)) m)"

section \<open>The colors of text and cursor\<close>

text \<open>
  The argument is what \<open>x11ToCSS\<close> gave, or \<open>None\<close> for the preference. A value that is not a string,
  before \<open>normalizeCSS\<close> or after it, throws.
\<close>

definition set_text_color :: "host \<Rightarrow> (jsstring option \<Rightarrow> event) \<Rightarrow> jsstring \<Rightarrow> color_value option \<Rightarrow> machine \<Rightarrow>
    machine option" where
  "set_text_color H e pref v m =
     (case v of
        Some Inherited \<Rightarrow> None
      | _ \<Rightarrow>
          (case normalizeCSS (css H) (case v of Some (Color c) \<Rightarrow> c | _ \<Rightarrow> pref) of
             Some Inherited \<Rightarrow> None
           | Some (Color c) \<Rightarrow> emit (e (Some c)) m
           | None \<Rightarrow> emit (e None) m))"

definition setForegroundColor :: "host \<Rightarrow> color_value option \<Rightarrow> machine \<Rightarrow> machine option" where
  "setForegroundColor H = set_text_color H SetForegroundColor (foreground_pref H)"

definition setBackgroundColor :: "host \<Rightarrow> color_value option \<Rightarrow> machine \<Rightarrow> machine option" where
  "setBackgroundColor H = set_text_color H SetBackgroundColor (background_pref H)"

text \<open>Any value has a text that a variable of CSS takes.\<close>

definition setCursorColor :: "host \<Rightarrow> color_value option \<Rightarrow> machine \<Rightarrow> machine option" where
  "setCursorColor H v = emit (SetCursorColor (case v of None \<Rightarrow> Color (cursor_pref H) | Some c \<Rightarrow> c))"

text \<open>\<open>OSC 10\<close> to \<open>OSC 12\<close>: each takes one color, and gives the rest of its text to the next.\<close>

fun osc_colors :: "host \<Rightarrow> (host \<Rightarrow> color_value option \<Rightarrow> machine \<Rightarrow> machine option) list \<Rightarrow> jsstring list \<Rightarrow>
    machine \<Rightarrow> machine option" where
  "osc_colors H (put # puts) (arg # rest) m = do {
     m \<leftarrow> (case x11ToCSS (lower_case (css H)) arg of None \<Rightarrow> Some m | c \<Rightarrow> put H c m);
     osc_colors H puts rest m
   }"
| "osc_colors H _ _ m = Some m"

section \<open>The cursor, the clipboard and notifications\<close>

text \<open>\<open>/^(\d+);?(.*)$/\<close> and the like: the dot matches no line terminator.\<close>

definition line_terminator :: "code_unit \<Rightarrow> bool" where
  "line_terminator c \<longleftrightarrow> c \<in> {10, 13, 0x2028, 0x2029}"

text \<open>\<open>/CursorShape=(.)/i\<close>\<close>

fun match_shape :: "jsstring \<Rightarrow> code_unit option" where
  "match_shape [] = None"
| "match_shape (c # s) =
     (case eat_lit (js ''cursorshape='') (c # s) of
        Some (d # _) \<Rightarrow> if line_terminator d then match_shape s else Some d
      | _ \<Rightarrow> match_shape s)"

definition osc_cursor_shape :: "jsstring \<Rightarrow> machine \<Rightarrow> machine option" where
  "osc_cursor_shape arg m =
     (case match_shape arg of
        None \<Rightarrow> Some m
      | Some c \<Rightarrow> emit (SetCursorShape (js (if c = 49 then ''BEAM'' else if c = 50 then ''UNDERLINE'' else ''BLOCK''))) m)"

text \<open>\<open>/^[cps01234567]*;(.*)/\<close>, and the text decoded.\<close>

definition match_clipboard :: "jsstring \<Rightarrow> jsstring option" where
  "match_clipboard s =
     (case dropWhile (\<lambda>c. c \<in> set (js ''cps01234567'')) s of
        c # r \<Rightarrow> if c = 59 then Some (takeWhile (\<lambda>c. \<not> line_terminator c) r) else None
      | [] \<Rightarrow> None)"

definition osc_clipboard :: "host \<Rightarrow> jsstring \<Rightarrow> machine \<Rightarrow> machine option" where
  "osc_clipboard H arg m =
     (if clipboard_write H then
        (case match_clipboard arg \<bind> decoded_base64 H of
           None \<Rightarrow> Some m
         | Some s \<Rightarrow> if s = [] then Some m else emit (CopyToClipboard s) m)
      else Some m)"

text \<open>
  \<open>OSC 777\<close>, the module \<open>notify\<close>: \<open>/^[^;]+;([^;]*)(;([\s\S]*))?$/\<close>. Other modules are reported on
  the console.
\<close>

definition osc_notify :: "jsstring \<Rightarrow> machine \<Rightarrow> machine option" where
  "osc_notify arg m =
     (case split_on 59 arg of
        [] \<Rightarrow> Some m
      | name # parts \<Rightarrow>
          if name \<noteq> js ''notify'' then Some m
          else emit (Notify (case parts of [] \<Rightarrow> None | title # _ \<Rightarrow> Some title)
            (case parts of title # part # rest \<Rightarrow> Some (join_with 59 (part # rest)) | _ \<Rightarrow> None)) m)"

end
