(* ===== verification/VtHandlers.thy ===== *)
theory VtHandlers
  imports VtOsc
begin

text \<open>
  The handlers of \<open>hterm.VT\<close> (hterm_all-1.91.js) besides those of VtOsc: \<open>setANSIMode\<close>, \<open>setDECMode\<close>, graphic renditions,
  the resets, and the tables \<open>CC1\<close>, \<open>ESC\<close>, \<open>CSI\<close> and \<open>OSC\<close>. A handler either only acts on the
  terminal, or it installs the function that reads on.

  A numeric argument that is \<open>NaN\<close> makes a handler here \<open>None\<close>. That never happens: only a colon
  makes an argument \<open>NaN\<close>, and \<open>dispatch\<close> ignores a sequence with colons unless its handler is
  the one of graphic renditions, which treats \<open>NaN\<close> as the code does.
\<close>

section \<open>Modes\<close>

definition mode_option :: "(options \<Rightarrow> options) \<Rightarrow> machine \<Rightarrow> machine option" where
  "mode_option f = run_total (set_options f)"

definition setANSIMode :: "nat \<Rightarrow> parse_state \<Rightarrow> bool \<Rightarrow> machine \<Rightarrow> machine option" where
  "setANSIMode i p state m =
     (if arg_is i p 4 then run_total (setInsertMode state) m
      else if arg_is i p 20 then run_total (setAutoCarriageReturn state) m
      else Some m)"

definition decolm :: "host \<Rightarrow> bool \<Rightarrow> machine \<Rightarrow> machine option" where
  "decolm H state m =
     (if allowColumnWidthChanges m then
        run (\<lambda>t. do {
          t \<leftarrow> realizeSize (screen_env H) (if state then 132 else 80) (height (screenSize t)) t;
          t \<leftarrow> edit (clearHome (screen_env H)) t;
          Some (setVTScrollRegion None None t)
        }) m
      else Some m)"

definition meta_mode :: "bool \<Rightarrow> keyboard_modes \<Rightarrow> keyboard_modes" where
  "meta_mode state k =
     (if state then
        (if previousAltSendsWhat k \<in> {None, Some []}
         then k\<lparr>previousAltSendsWhat := Some (altSendsWhat k), altSendsWhat := js ''escape''\<rparr>
         else k)
      else (case previousAltSendsWhat k of
              None \<Rightarrow> k
            | Some w \<Rightarrow> if w = [] then k
                        else k\<lparr>altSendsWhat := w, previousAltSendsWhat := None\<rparr>))"

definition mouse_mode :: "int \<Rightarrow> bool \<Rightarrow> machine \<Rightarrow> machine option" where
  "mouse_mode v state m = Some (m\<lparr>mouseReport := (if state then v else MOUSE_REPORT_DISABLED)\<rparr>)"

definition coordinates_mode :: "int \<Rightarrow> bool \<Rightarrow> machine \<Rightarrow> machine option" where
  "coordinates_mode v state m =
     Some (m\<lparr>mouseCoordinates := (if state then v else MOUSE_COORDINATES_X10)\<rparr>)"

definition keyboard_mode :: "(keyboard_modes \<Rightarrow> keyboard_modes) \<Rightarrow> machine \<Rightarrow> machine option" where
  "keyboard_mode f m = Some (m\<lparr>keyboard := f (keyboard m)\<rparr>)"

definition enter_alternate :: "host \<Rightarrow> machine \<Rightarrow> machine option" where
  "enter_alternate H m = do {
     m \<leftarrow> vt_saveCursor m;
     run (\<lambda>t. do {
       t \<leftarrow> setAlternateMode (screen_env H) True t;
       edit (clear_screen (screen_env H)) t
     }) m
   }"

definition leave_alternate :: "host \<Rightarrow> machine \<Rightarrow> machine option" where
  "leave_alternate H m = run (setAlternateMode (screen_env H) False) m \<bind> vt_restoreCursor H"

text \<open>The cases of the switch in order; \<open>NaN\<close> and unknown modes do nothing.\<close>

definition dec_modes :: "host \<Rightarrow> bool \<Rightarrow> (int \<times> (machine \<Rightarrow> machine option)) list" where
  "dec_modes H state =
    [(1, keyboard_mode (\<lambda>k. k\<lparr>applicationCursor := state\<rparr>)),
     (3, decolm H state),
     (5, run_total (setReverseVideo state)),
     (6, run_total (setOriginMode (screen_env H) state)),
     (7, run_total (setWraparound state)),
     (9, mouse_mode MOUSE_REPORT_PRESS state),
     (12, \<lambda>m. if enableDec12 m then run_total (setCursorBlink state) m else Some m),
     (25, run_total (setCursorVisible state)),
     (30, emit (SetScrollbarVisible state)),
     (40, \<lambda>m. Some (m\<lparr>terminalAllowColumnWidthChanges := state\<rparr>)),
     (45, run_total (setReverseWraparound state)),
     (67, keyboard_mode (\<lambda>k. k\<lparr>backspaceSendsBackspace := state\<rparr>)),
     (1000, mouse_mode MOUSE_REPORT_CLICK state),
     (1002, mouse_mode MOUSE_REPORT_DRAG state),
     (1004, \<lambda>m. Some (m\<lparr>reportFocus := state\<rparr>)),
     (1005, coordinates_mode MOUSE_COORDINATES_UTF8 state),
     (1006, coordinates_mode MOUSE_COORDINATES_SGR state),
     (1007, \<lambda>m. Some (m\<lparr>scrollWheelArrowKeys := state\<rparr>)),
     (1010, \<lambda>m. Some (m\<lparr>scrollOnOutput := state\<rparr>)),
     (1011, \<lambda>m. Some (m\<lparr>scrollOnKeystroke := state\<rparr>)),
     (1036, keyboard_mode (\<lambda>k. k\<lparr>metaSendsEscape := state\<rparr>)),
     (1039, keyboard_mode (meta_mode state)),
     (47, run (setAlternateMode (screen_env H) state)),
     (1047, run (setAlternateMode (screen_env H) state)),
     (1048, if state then vt_saveCursor else vt_restoreCursor H),
     (1049, if state then enter_alternate H else leave_alternate H),
     (2004, run_total (setBracketedPaste state))]"

definition setDECMode :: "host \<Rightarrow> nat \<Rightarrow> parse_state \<Rightarrow> bool \<Rightarrow> machine \<Rightarrow> machine option" where
  "setDECMode H i p state m =
     (case nth_arg i p \<bind> parse_int of
        None \<Rightarrow> Some m
      | Some n \<Rightarrow> (case map_of (dec_modes H state) n of None \<Rightarrow> Some m | Some f \<Rightarrow> f m))"

text \<open>A loop over the arguments, or a fixed number of times.\<close>

fun for_args :: "(nat \<Rightarrow> machine \<Rightarrow> machine option) \<Rightarrow> nat list \<Rightarrow> machine \<Rightarrow> machine option" where
  "for_args f [] m = Some m"
| "for_args f (i # is) m = f i m \<bind> for_args f is"

section \<open>Graphic renditions\<close>

text \<open>
  The results of \<open>parseSgrExtendedColors\<close>: the color, if any, and the arguments to skip. The
  component \<open>NaN\<close> of a color is its text.
\<close>

definition js_number :: "int option \<Rightarrow> jsstring" where
  "js_number n = (case n of None \<Rightarrow> js ''NaN'' | Some i \<Rightarrow> js_of_int i)"

definition list_item :: "nat \<Rightarrow> jsstring list \<Rightarrow> jsstring option" where
  "list_item i xs = (if i < length xs then Some (xs ! i) else None)"

definition sgr_rgb :: "jsstring list \<Rightarrow> nat \<Rightarrow> color_source" where
  "sgr_rgb ary start =
     (let num = (\<lambda>k. js_number (parseInt_default (list_item (start + k) ary) 0))
      in Rgb (js ''rgb('' @ num 0 @ js '', '' @ num 1 @ js '', '' @ num 2 @ js '')''))"

definition parseSgrExtendedColors :: "parse_state \<Rightarrow> nat \<Rightarrow> color_source option \<times> nat" where
  "parseSgrExtendedColors p i =
     (let used = argHasSubargs i p;
          ary = (if used then tl (split_on 58 (args p ! i)) else drop (i + 1) (args p))
      in if \<not> used \<and> argHasSubargs (i + 1) p then (None, 0)
         else case list_item 0 ary \<bind> parse_int of
           Some n \<Rightarrow>
             (if n = 1 then (if used then (Some (Rgb (js ''rgba(0, 0, 0, 0)'')), 0) else (None, 0))
              else if n = 2 then
                (let start = (if used then (if length ary = 4 then 1 else 2) else 1)
                 in if length ary < start + 3 then (None, 0)
                    else (Some (sgr_rgb ary start), if used then 0 else 4))
              else if n = 5 then
                (if length ary < 2 then (None, 0)
                 else ((case parseInt_default (list_item 1 ary) 0 of
                          Some c \<Rightarrow> if c < 256 then Some (Palette c) else None
                        | None \<Rightarrow> None), if used then 0 else 2))
              else (None, 0))
         | None \<Rightarrow> (None, 0))"

definition underline_style :: "parse_state \<Rightarrow> nat \<Rightarrow> tattrs \<Rightarrow> tattrs" where
  "underline_style p i ta =
     (if argHasSubargs i p then
        (case list_item 1 (split_on 58 (args p ! i)) \<bind> to_number of
           Some n \<Rightarrow>
             (if n = 0 then ta\<lparr>underline := None\<rparr>
              else if n = 1 then ta\<lparr>underline := Some (js ''solid'')\<rparr>
              else if n = 2 then ta\<lparr>underline := Some (js ''double'')\<rparr>
              else if n = 3 then ta\<lparr>underline := Some (js ''wavy'')\<rparr>
              else if n = 4 then ta\<lparr>underline := Some (js ''dotted'')\<rparr>
              else if n = 5 then ta\<lparr>underline := Some (js ''dashed'')\<rparr>
              else ta)
         | None \<Rightarrow> ta)
      else ta\<lparr>underline := Some (js ''solid'')\<rparr>)"

text \<open>One argument below 30.\<close>

definition sgr_style :: "parse_state \<Rightarrow> nat \<Rightarrow> int \<Rightarrow> tattrs \<Rightarrow> tattrs" where
  "sgr_style p i n ta =
     (if n = 0 then reset_attrs ta
      else if n = 1 then ta\<lparr>bold := True\<rparr>
      else if n = 2 then ta\<lparr>faint := True\<rparr>
      else if n = 3 then ta\<lparr>italic := True\<rparr>
      else if n = 4 then underline_style p i ta
      else if n = 5 then ta\<lparr>blink := True\<rparr>
      else if n = 7 then ta\<lparr>inverse := True\<rparr>
      else if n = 8 then ta\<lparr>invisible := True\<rparr>
      else if n = 9 then ta\<lparr>strikethrough := True\<rparr>
      else if n = 21 then ta\<lparr>underline := Some (js ''double'')\<rparr>
      else if n = 22 then ta\<lparr>bold := False, faint := False\<rparr>
      else if n = 23 then ta\<lparr>italic := False\<rparr>
      else if n = 24 then ta\<lparr>underline := None\<rparr>
      else if n = 25 then ta\<lparr>blink := False\<rparr>
      else if n = 27 then ta\<lparr>inverse := False\<rparr>
      else if n = 28 then ta\<lparr>invisible := False\<rparr>
      else if n = 29 then ta\<lparr>strikethrough := False\<rparr>
      else ta)"

definition set_source :: "(color_source \<Rightarrow> tattrs \<Rightarrow> tattrs) \<Rightarrow> color_source option \<times> nat \<Rightarrow>
    tattrs \<Rightarrow> tattrs \<times> nat" where
  "set_source put r ta = ((case fst r of None \<Rightarrow> ta | Some c \<Rightarrow> put c ta), snd r)"

abbreviation put_fg :: "color_source \<Rightarrow> tattrs \<Rightarrow> tattrs" where
  "put_fg c ta \<equiv> ta\<lparr>foregroundSource := c\<rparr>"

abbreviation put_bg :: "color_source \<Rightarrow> tattrs \<Rightarrow> tattrs" where
  "put_bg c ta \<equiv> ta\<lparr>backgroundSource := c\<rparr>"

abbreviation put_ul :: "color_source \<Rightarrow> tattrs \<Rightarrow> tattrs" where
  "put_ul c ta \<equiv> ta\<lparr>underlineSource := c\<rparr>"

definition sgr_arg :: "parse_state \<Rightarrow> nat \<Rightarrow> tattrs \<Rightarrow> tattrs \<times> nat" where
  "sgr_arg p i ta =
     (case iarg i 0 p of
        None \<Rightarrow> (ta, 0)
      | Some n \<Rightarrow>
          if n < 30 then (sgr_style p i n ta, 0)
          else if n < 38 then (put_fg (Palette (n - 30)) ta, 0)
          else if n = 38 then set_source put_fg (parseSgrExtendedColors p i) ta
          else if n = 39 then (put_fg SRC_DEFAULT ta, 0)
          else if n < 48 then (put_bg (Palette (n - 40)) ta, 0)
          else if n = 48 then set_source put_bg (parseSgrExtendedColors p i) ta
          else if n < 50 then (put_bg SRC_DEFAULT ta, 0)
          else if n = 58 then set_source put_ul (parseSgrExtendedColors p i) ta
          else if n = 59 then (put_ul SRC_DEFAULT ta, 0)
          else if 90 \<le> n \<and> n \<le> 97 then (put_fg (Palette (n - 90 + 8)) ta, 0)
          else if 100 \<le> n \<and> n \<le> 107 then (put_bg (Palette (n - 100 + 8)) ta, 0)
          else (ta, 0))"

function sgr_loop :: "parse_state \<Rightarrow> nat \<Rightarrow> tattrs \<Rightarrow> tattrs" where
  "sgr_loop p i ta =
     (if i < length (args p)
      then let (ta', skip) = sgr_arg p i ta in sgr_loop p (i + skip + 1) ta'
      else ta)"
  by pat_completeness auto
termination
  by (relation "measure (\<lambda>(p, i, ta). length (args p) - i)") auto

declare sgr_loop.simps [simp del]

text \<open>\<open>CSI m\<close>. Without arguments the attributes are reset, and their colors not computed again.\<close>

definition sgr :: "parse_state \<Rightarrow> tattrs \<Rightarrow> tattrs option" where
  "sgr p ta = (if args p = [] then Some (reset_attrs ta) else syncColors (sgr_loop p 0 ta))"

section \<open>Resets\<close>

text \<open>
  \<open>getMap('B')\<close>: no code removes that map; without it, the sets would be \<open>undefined\<close>, here
  \<open>None\<close>.
\<close>

definition default_sets :: "charmap \<Rightarrow> gsets" where
  "default_sets us = \<lparr>GL = js ''G0'', GR = js ''G0'', G0 = us, G1 = us, G2 = us, G3 = us\<rparr>"

definition vt_reset :: "machine \<Rightarrow> machine option" where
  "vt_reset m = do {
     us \<leftarrow> getMap (characterMaps m) (js ''B'');
     Some (m\<lparr>charsets := default_sets us, mouseReport := MOUSE_REPORT_DISABLED,
       mouseCoordinates := MOUSE_COORDINATES_X10, lastMouseDragResponse := None\<rparr>)
   }"

definition screen_at :: "bool \<Rightarrow> terminal \<Rightarrow> screen" where
  "screen_at alt t = (if alt then alternateScreen t else primaryScreen t)"

definition put_screen :: "bool \<Rightarrow> screen \<Rightarrow> terminal \<Rightarrow> terminal" where
  "put_screen alt s t = (if alt then t\<lparr>alternateScreen := s\<rparr> else t\<lparr>primaryScreen := s\<rparr>)"

definition reset_screen_attrs :: "screen \<Rightarrow> screen" where
  "reset_screen_attrs s = s\<lparr>textAttributes :=
     (reset_attrs (textAttributes s))\<lparr>colorPaletteOverrides := Map.empty\<rparr>\<rparr>"

text \<open>\<open>resetScreen\<close>, with or without clearing the screen.\<close>

definition resetScreen :: "env \<Rightarrow> bool \<Rightarrow> gsets \<Rightarrow> bool \<Rightarrow> terminal \<Rightarrow> terminal option" where
  "resetScreen E home cs alt t = do {
     (d, s) \<leftarrow> (let ds = (rows_dom t, reset_screen_attrs (screen_at alt t))
                 in if home then clearHome E ds else Some ds);
     let t = put_screen alt s (t\<lparr>rows_dom := d\<rparr>);
     Some (put_screen alt (save_state cs (saveCursor t) (screen_at alt t)) t)
   }"

text \<open>
  The blink timer is set exactly when the cursor is visible and blinks: \<open>setCursorVisible\<close> and
  \<open>setCursorBlink\<close> start and stop it.
\<close>

definition blink_timer :: "terminal \<Rightarrow> bool" where
  "blink_timer t \<longleftrightarrow> cursorVisible (options t) \<and> cursorBlink (options t)"

definition terminal_reset :: "host \<Rightarrow> machine \<Rightarrow> machine option" where
  "terminal_reset H m = do {
     m \<leftarrow> vt_reset m;
     run (\<lambda>t. do {
       let t = resetColorPalette (setDefaultTabStops 0 (clearAllTabStops t));
       t \<leftarrow> resetScreen (screen_env H) True (charsets m) False t;
       t \<leftarrow> resetScreen (screen_env H) True (charsets m) True t;
       let t = setCursorBlink (cursor_blink_pref H) (set_options (\<lambda>_. new_options) t);
       Some (setCursorVisible True (setVTScrollRegion None None t))
     }) m
   }"

definition softReset :: "host \<Rightarrow> machine \<Rightarrow> machine option" where
  "softReset H m = do {
     m \<leftarrow> vt_reset m;
     run (\<lambda>t. do {
       let t = resetColorPalette (set_options (\<lambda>_. new_options\<lparr>cursorBlink := blink_timer t\<rparr>) t);
       t \<leftarrow> resetScreen (screen_env H) False (charsets m) False t;
       t \<leftarrow> resetScreen (screen_env H) False (charsets m) True t;
       Some (setCursorVisible True (setVTScrollRegion None None t))
     }) m
   }"

section \<open>The tables\<close>

text \<open>
  An entry: \<open>hterm.VT.ignore\<close>, or a handler with its property \<open>supportsSubargs\<close>. A handler gets
  the code it was found under.
\<close>

type_synonym handler = "host \<Rightarrow> jsstring \<Rightarrow> parse_state \<Rightarrow> machine \<Rightarrow> (parse_state \<times> machine) option"

datatype entry = Ignore | Handler bool handler

text \<open>A handler that leaves the parse state, and one that only changes it.\<close>

definition act :: "(host \<Rightarrow> parse_state \<Rightarrow> machine \<Rightarrow> machine option) \<Rightarrow> entry" where
  "act f = Handler False (\<lambda>H code p m. map_option (Pair p) (f H p m))"

definition install :: "(jsstring \<Rightarrow> parse_state \<Rightarrow> parse_state) \<Rightarrow> entry" where
  "install f = Handler False (\<lambda>H code p m. Some (f code p, m))"

definition term_act :: "(env \<Rightarrow> terminal \<Rightarrow> terminal option) \<Rightarrow> entry" where
  "term_act f = act (\<lambda>H p. run (f (screen_env H)))"

definition term_act_total :: "(env \<Rightarrow> terminal \<Rightarrow> terminal) \<Rightarrow> entry" where
  "term_act_total f = act (\<lambda>H p. run_total (f (screen_env H)))"

text \<open>With \<open>iarg(0, 1)\<close>.\<close>

definition count_act :: "(env \<Rightarrow> int \<Rightarrow> terminal \<Rightarrow> terminal option) \<Rightarrow> entry" where
  "count_act f = act (\<lambda>H p m. iarg 0 1 p \<bind> (\<lambda>n. run (f (screen_env H) n) m))"

definition set_charset :: "jsstring \<Rightarrow> machine \<Rightarrow> machine option" where
  "set_charset g m = Some (m\<lparr>charsets := (charsets m)\<lparr>GL := g\<rparr>\<rparr>)"

definition set_charset_right :: "jsstring \<Rightarrow> machine \<Rightarrow> machine option" where
  "set_charset_right g m = Some (m\<lparr>charsets := (charsets m)\<lparr>GR := g\<rparr>\<rparr>)"

definition set_func :: "parser \<Rightarrow> parse_state \<Rightarrow> parse_state" where
  "set_func f p = p\<lparr>func := f\<rparr>"

text \<open>\<open>ESC P\<close> and \<open>ESC [\<close> clear the modifiers, which are fields of the interpreter, as well.\<close>

definition begin_sequence :: "parser \<Rightarrow> entry" where
  "begin_sequence f = Handler False (\<lambda>H code p m. Some (set_func f (resetArguments p),
     m\<lparr>leadingModifier := [], trailingModifier := []\<rparr>))"

definition begin_string :: "parser \<Rightarrow> entry" where
  "begin_string f = install (\<lambda>code p. set_func f (resetArguments p))"

definition intermediate :: "parser \<Rightarrow> entry" where
  "intermediate f = install (\<lambda>code. set_func f)"

definition ESC :: "(jsstring \<times> entry) list" where
  "ESC =
    [(js ''D'', term_act lineFeed),
     (js ''E'', term_act_total (\<lambda>E t. cursorDown E 1 (setCursorColumn E 0 t))),
     (js ''H'', term_act_total (\<lambda>E t. setTabStop (getCursorColumn t) t)),
     (js ''M'', term_act reverseLineFeed),
     (js ''N'', Ignore), (js ''O'', Ignore),
     (js ''P'', begin_sequence parseDCS),
     (js ''V'', Ignore), (js ''W'', Ignore), (js ''X'', Ignore),
     (js ''Z'', act (\<lambda>H p. send (27 # js ''[?1;2c''))),
     (js ''['', begin_sequence parseCSI),
     ([92], Ignore),
     (js '']'', begin_string parseOSC),
     (js ''^'', begin_string parseUntilStringTerminator),
     (js ''_'', begin_string parseUntilStringTerminator),
     ([32], intermediate parseSpace),
     (js ''#'', intermediate parseHash),
     (js ''%'', intermediate parsePercent),
     (js ''('', install (\<lambda>code. set_func (parseCharset (hd code)))),
     (js '')'', install (\<lambda>code. set_func (parseCharset (hd code)))),
     (js ''*'', install (\<lambda>code. set_func (parseCharset (hd code)))),
     (js ''+'', install (\<lambda>code. set_func (parseCharset (hd code)))),
     (js ''-'', install (\<lambda>code. set_func (parseCharset (hd code)))),
     (js ''.'', install (\<lambda>code. set_func (parseCharset (hd code)))),
     (js ''/'', install (\<lambda>code. set_func (parseCharset (hd code)))),
     (js ''6'', Ignore),
     (js ''7'', act (\<lambda>H p. vt_saveCursor)),
     (js ''8'', act (\<lambda>H p. vt_restoreCursor H)),
     (js ''9'', Ignore),
     (js ''='', act (\<lambda>H p. keyboard_mode (\<lambda>k. k\<lparr>applicationKeypad := True\<rparr>))),
     (js ''>'', act (\<lambda>H p. keyboard_mode (\<lambda>k. k\<lparr>applicationKeypad := False\<rparr>))),
     (js ''F'', Ignore),
     (js ''c'', act (\<lambda>H p. terminal_reset H)),
     (js ''k'', begin_string parseTitle),
     (js ''l'', Ignore), (js ''m'', Ignore),
     (js ''n'', act (\<lambda>H p. set_charset (js ''G2''))),
     (js ''o'', act (\<lambda>H p. set_charset (js ''G3''))),
     ([124], act (\<lambda>H p. set_charset_right (js ''G3''))),
     ([125], act (\<lambda>H p. set_charset_right (js ''G2''))),
     ([126], act (\<lambda>H p. set_charset_right (js ''G1'')))]"

text \<open>An 8-bit control has the handler of its \<open>ESC\<close> sequence.\<close>

definition esc_entry :: "jsstring \<Rightarrow> entry" where
  "esc_entry code = (case map_of ESC code of Some e \<Rightarrow> e | None \<Rightarrow> Ignore)"

definition cancel :: entry where
  "cancel = Handler False (\<lambda>H code p m.
     map_option (Pair (resetParseFunction p))
       (run (terminal_print (screen_env H) (js ''?''))
         (if GL (charsets m) = js ''G1'' then m\<lparr>charsets := (charsets m)\<lparr>GL := js ''G0''\<rparr>\<rparr>
          else m)))"

definition CC1 :: "(jsstring \<times> entry) list" where
  "CC1 =
    [([0x00], Ignore), ([0x05], Ignore),
     ([0x07], act (\<lambda>H p. emit RingBell)),
     ([0x08], term_act_total (\<lambda>E. cursorLeft E 1)),
     ([0x09], term_act_total forwardTabStop),
     ([0x0a], term_act formFeed), ([0x0b], term_act formFeed), ([0x0c], term_act formFeed),
     ([0x0d], term_act_total (\<lambda>E. setCursorColumn E 0)),
     ([0x0e], act (\<lambda>H p. set_charset (js ''G1''))),
     ([0x0f], act (\<lambda>H p. set_charset (js ''G0''))),
     ([0x11], Ignore), ([0x13], Ignore),
     ([0x18], cancel), ([0x1a], cancel),
     ([0x1b], intermediate parseESC),
     ([0x7f], Ignore),
     ([0x84], esc_entry (js ''D'')), ([0x85], esc_entry (js ''E'')),
     ([0x88], esc_entry (js ''H'')), ([0x8d], esc_entry (js ''M'')),
     ([0x8e], Ignore), ([0x8f], Ignore),
     ([0x90], esc_entry (js ''P'')),
     ([0x96], Ignore), ([0x97], Ignore), ([0x98], Ignore),
     ([0x9a], esc_entry (js ''Z'')), ([0x9b], esc_entry (js ''['')),
     ([0x9c], Ignore), ([0x9d], esc_entry (js '']'')),
     ([0x9e], esc_entry (js ''^'')), ([0x9f], esc_entry (js ''_''))]"

text \<open>With \<open>iarg(0, 1)\<close>, where the operation cannot throw.\<close>

definition count_act_total :: "(env \<Rightarrow> int \<Rightarrow> terminal \<Rightarrow> terminal) \<Rightarrow> entry" where
  "count_act_total f = count_act (\<lambda>E n t. Some (f E n t))"

definition tab_times :: "(env \<Rightarrow> terminal \<Rightarrow> terminal) \<Rightarrow> entry" where
  "tab_times f = count_act_total (\<lambda>E n t. (f E ^^ nat (clamp n 1 (width (screenSize t)))) t)"

definition cup :: entry where
  "cup = act (\<lambda>H p m. do {
     r \<leftarrow> iarg 0 1 p;
     c \<leftarrow> iarg 1 1 p;
     run_total (terminal_setCursorPosition (screen_env H) (r - 1) (c - 1)) m
   })"

definition erase_display :: entry where
  "erase_display = act (\<lambda>H p m.
     if arg_unset 0 p then run (eraseBelow (screen_env H)) m
     else if arg_is 0 p 1 then run (eraseAbove (screen_env H)) m
     else if arg_is 0 p 2 then run (edit (clear_screen (screen_env H))) m
     else if arg_is 0 p 3 then (if enableCsiJ3 m then run clearScrollback m else Some m)
     else Some m)"

definition erase_in_line :: entry where
  "erase_in_line = act (\<lambda>H p m.
     if arg_unset 0 p then run (eraseToRight (screen_env H) None) m
     else if arg_is 0 p 1 then run (eraseToLeft (screen_env H)) m
     else if arg_is 0 p 2 then run (eraseLine (screen_env H)) m
     else Some m)"

definition column_act :: entry where
  "column_act = count_act_total (\<lambda>E n. setCursorColumn E (n - 1))"

definition clear_tabs :: entry where
  "clear_tabs = act (\<lambda>H p m.
     if arg_unset 0 p then run_total clearTabStopAtCursor m
     else if arg_is 0 p 3 then run_total clearAllTabStops m
     else Some m)"

definition ansi_modes :: "bool \<Rightarrow> entry" where
  "ansi_modes state = act (\<lambda>H p. for_args (\<lambda>i. setANSIMode i p state) [0..<length (args p)])"

definition private_modes :: "bool \<Rightarrow> entry" where
  "private_modes state = act (\<lambda>H p. for_args (\<lambda>i. setDECMode H i p state) [0..<length (args p)])"

text \<open>The answer to \<open>CSI 6 n\<close> and \<open>CSI ? 6 n\<close>.\<close>

definition report_position :: "machine \<Rightarrow> machine option" where
  "report_position m =
     send (27 # js ''['' @ js_of_int (getCursorRow (vt_terminal m) + 1) @ js '';'' @
       js_of_int (getCursorColumn (vt_terminal m) + 1) @ js ''R'') m"

definition status_report :: entry where
  "status_report = act (\<lambda>H p m.
     if arg_is 0 p 5 then send (27 # js ''0n'') m
     else if arg_is 0 p 6 then report_position m
     else Some m)"

definition private_report :: entry where
  "private_report = act (\<lambda>H p m.
     if arg_is 0 p 6 then report_position m
     else if arg_is 0 p 15 then send (27 # js ''[?11n'') m
     else if arg_is 0 p 25 then send (27 # js ''[?21n'') m
     else if arg_is 0 p 26 then send (27 # js ''[?12;1;0;0n'') m
     else if arg_is 0 p 53 then send (27 # js ''[?50n'') m
     else Some m)"

definition cursor_style :: entry where
  "cursor_style = act (\<lambda>H p m.
     let shape = (\<lambda>s b. emit (SetCursorShape (js s)) m \<bind> run_total (setCursorBlink b)) in
     if arg_is 0 p 0 \<or> arg_is 0 p 1 then shape ''BLOCK'' True
     else if arg_is 0 p 2 then shape ''BLOCK'' False
     else if arg_is 0 p 3 then shape ''UNDERLINE'' True
     else if arg_is 0 p 4 then shape ''UNDERLINE'' False
     else if arg_is 0 p 5 then shape ''BEAM'' True
     else if arg_is 0 p 6 then shape ''BEAM'' False
     else Some m)"

text \<open>\<open>CSI r\<close>: lines counted from 1, the whole height where an argument is missing.\<close>

definition scroll_region :: entry where
  "scroll_region = act (\<lambda>H p m. do {
     let h = height (screenSize (vt_terminal m));
     top \<leftarrow> (if nth_arg 0 p \<in> {None, Some []} then Some 0 else nth_arg 0 p \<bind> parse_int);
     bottom \<leftarrow> (if nth_arg 1 p \<in> {None, Some []} then Some h else nth_arg 1 p \<bind> parse_int);
     (if top < 0 \<or> bottom > h \<or> bottom \<le> top then Some m
      else run_total (\<lambda>t. terminal_setCursorPosition (screen_env H) 0 0
             (setVTScrollRegion (if top = 0 then None else Some (top - 1)) (Some (bottom - 1)) t)) m)
   })"

definition tile_data :: entry where
  "tile_data = act (\<lambda>H p m.
     if args p = [] then Some m
     else if arg_is 0 p 0 then
       (if length (args p) < 2 then Some m
        else run (on_attributes (\<lambda>ta. Some (ta\<lparr>tileData := Some (args p ! 1)\<rparr>))) m)
     else if arg_is 0 p 1 then run (on_attributes (\<lambda>ta. Some (ta\<lparr>tileData := None\<rparr>))) m
     else Some m)"

definition CSI :: "(jsstring \<times> entry) list" where
  "CSI =
    [(js ''@'', count_act insertSpace),
     (js ''A'', count_act_total cursorUp),
     (js ''B'', count_act_total cursorDown),
     (js ''C'', count_act_total cursorRight),
     (js ''D'', count_act_total cursorLeft),
     (js ''E'', count_act_total (\<lambda>E n t. setCursorColumn E 0 (cursorDown E n t))),
     (js ''F'', count_act_total (\<lambda>E n t. setCursorColumn E 0 (cursorUp E n t))),
     (js ''G'', column_act),
     (js ''H'', cup),
     (js ''I'', tab_times forwardTabStop),
     (js ''J'', erase_display), (js ''?J'', erase_display),
     (js ''K'', erase_in_line), (js ''?K'', erase_in_line),
     (js ''L'', count_act insertLines),
     (js ''M'', count_act deleteLines),
     (js ''P'', count_act terminal_deleteChars),
     (js ''S'', count_act vtScrollUp),
     (js ''T'', act (\<lambda>H p m. if length (args p) \<le> 1
        then iarg 0 1 p \<bind> (\<lambda>n. run (vtScrollDown (screen_env H) n) m) else Some m)),
     (js ''>T'', Ignore),
     (js ''X'', count_act (\<lambda>E n. eraseToRight E (Some n))),
     (js ''Z'', tab_times backwardTabStop),
     ([0x60], column_act),
     (js ''a'', count_act_total (\<lambda>E n t. setCursorColumn E (getCursorColumn t + n) t)),
     (js ''b'', Ignore),
     (js ''c'', act (\<lambda>H p m. if arg_unset 0 p then send (27 # js ''[?1;2c'') m else Some m)),
     (js ''>c'', act (\<lambda>H p. send (27 # js ''[>0;256;0c''))),
     (js ''d'', count_act_total (\<lambda>E n. setAbsoluteCursorRow E (n - 1))),
     (js ''f'', cup),
     (js ''g'', clear_tabs),
     (js ''h'', ansi_modes True), (js ''?h'', private_modes True),
     (js ''i'', Ignore), (js ''?i'', Ignore),
     (js ''l'', ansi_modes False), (js ''?l'', private_modes False),
     (js ''m'', Handler True (\<lambda>H code p m. map_option (Pair p) (run (on_attributes (sgr p)) m))),
     (js ''>m'', Ignore),
     (js ''n'', status_report), (js ''>n'', Ignore), (js ''?n'', private_report),
     (js ''>p'', Ignore),
     (js ''!p'', act (\<lambda>H p. softReset H)),
     (js ''$p'', Ignore), (js ''?$p'', Ignore), ([34, 112], Ignore),
     (js ''q'', Ignore),
     (js '' q'', cursor_style),
     ([34, 113], Ignore),
     (js ''r'', scroll_region), (js ''?r'', Ignore), (js ''$r'', Ignore),
     (js ''s'', act (\<lambda>H p. vt_saveCursor)), (js ''?s'', Ignore),
     (js ''t'', Ignore), (js ''$t'', Ignore), (js ''>t'', Ignore), (js '' t'', Ignore),
     (js ''u'', act (\<lambda>H p. vt_restoreCursor H)), (js '' u'', Ignore),
     (js ''$v'', Ignore), ([39, 119], Ignore),
     (js ''x'', Ignore), (js ''*x'', Ignore), (js ''$x'', Ignore),
     (js ''z'', tile_data),
     ([39, 122], Ignore), (js ''$z'', Ignore), ([39, 123], Ignore), ([39, 124], Ignore),
     ([39, 125], Ignore), ([39, 126], Ignore)]"

text \<open>No handler of device control strings is installed: they are read and dropped.\<close>

definition DCS :: "(jsstring \<times> entry) list" where
  "DCS = []"

text \<open>A command with the text after its number, the first argument.\<close>

definition osc_act :: "(host \<Rightarrow> jsstring \<Rightarrow> machine \<Rightarrow> machine option) \<Rightarrow> entry" where
  "osc_act f = act (\<lambda>H p. f H (args p ! 0))"

definition OSC :: "(jsstring \<times> entry) list" where
  "OSC =
    [(js ''0'', osc_act (\<lambda>H arg. emit (SetWindowTitle arg))),
     (js ''2'', osc_act (\<lambda>H arg. emit (SetWindowTitle arg))),
     (js ''4'', osc_act osc_palette),
     (js ''8'', osc_act (\<lambda>H arg. run (on_attributes (\<lambda>ta. Some (hyperlink arg ta))))),
     (js ''9'', osc_act (\<lambda>H arg. emit (Notify None (Some arg)))),
     (js ''10'', osc_act (\<lambda>H arg. osc_colors H [setForegroundColor, setBackgroundColor, setCursorColor] (split_on 59 arg))),
     (js ''11'', osc_act (\<lambda>H arg. osc_colors H [setBackgroundColor, setCursorColor] (split_on 59 arg))),
     (js ''12'', osc_act (\<lambda>H arg. osc_colors H [setCursorColor] (split_on 59 arg))),
     (js ''50'', osc_act (\<lambda>H. osc_cursor_shape)),
     (js ''52'', osc_act osc_clipboard),
     (js ''104'', osc_act (\<lambda>H. osc_reset_colors)),
     (js ''110'', osc_act (\<lambda>H arg. setForegroundColor H None)),
     (js ''111'', osc_act (\<lambda>H arg. setBackgroundColor H None)),
     (js ''112'', osc_act (\<lambda>H arg. setCursorColor H None)),
     (js ''1337'', osc_act (\<lambda>H arg. emit (ShowImage arg))),
     (js ''777'', osc_act (\<lambda>H. osc_notify))]"

section \<open>A new interpreter\<close>

text \<open>
  The interpreter of a new terminal, with the keyboard and the fields of the terminal as their
  constructors leave them; \<open>null\<close> of a flag is false.
\<close>

definition new_keyboard :: keyboard_modes where
  "new_keyboard = \<lparr>applicationCursor = False, applicationKeypad = False, backspaceSendsBackspace = False,
     metaSendsEscape = True, altSendsWhat = js ''escape'', previousAltSendsWhat = None\<rparr>"

definition new_vt :: "terminal \<Rightarrow> machine option" where
  "new_vt t = do {
     us \<leftarrow> getMap default_maps (js ''B'');
     Some \<lparr>vt_terminal = t, mouseReport = MOUSE_REPORT_DISABLED, mouseCoordinates = MOUSE_COORDINATES_X10,
       lastMouseDragResponse = None, leadingModifier = [], trailingModifier = [],
       allowColumnWidthChanges = False, enable8BitControl = False, enableDec12 = False,
       enableCsiJ3 = True, characterMaps = default_maps, charsets = default_sets us,
       codingSystemUtf8 = False, codingSystemLocked = False, keyboard = new_keyboard,
       terminalAllowColumnWidthChanges = False, reportFocus = False, scrollWheelArrowKeys = False,
       scrollOnOutput = False, scrollOnKeystroke = False, events = [], clock_reads = 0\<rparr>
   }"

lemma new_vt_result:
  obtains m where "new_vt t = Some m" "vt_terminal m = t" "events m = []" "trailingModifier m = []"
    "\<not> codingSystemLocked m" "\<not> codingSystemUtf8 m" "\<exists>us. charsets m = default_sets us \<and> GL_map us = None"
proof -
  obtain us where us: "getMap default_maps (js ''B'') = Some us" "GL_map us = None"
    by (simp add: getMap_def default_maps_def DefaultMaps_def js_def new_charmap_def sync_map_def GL_map_def)
  let ?m = "the (new_vt t)"
  have m: "new_vt t = Some ?m" using us(1) by (simp add: new_vt_def)
  have "charsets ?m = default_sets us" using us(1) by (simp add: new_vt_def)
  with us(2) have "\<exists>us. charsets ?m = default_sets us \<and> GL_map us = None" by blast
  from that [OF m _ _ _ _ _ this] us(1) show thesis by (simp add: new_vt_def)
qed

text \<open>A host for the witnesses.\<close>

definition unit_host :: host where
  "unit_host = \<lparr>screen_env = unit_env, clock = (\<lambda>_. 0), cursor_blink_pref = False,
     css = \<lparr>lower_case = map lower_ascii, alpha_text = (\<lambda>_. []), hslToRGB = (\<lambda>_. None)\<rparr>,
     foreground_pref = rgb 240 240 240, background_pref = rgb 16 16 16, cursor_pref = js ''red'',
     palette_pref = Map.empty, clipboard_write = True, alt_is_meta = False, decoded_base64 = (\<lambda>_. None)\<rparr>"

lemma unit_host_simps [simp]: "screen_env unit_host = unit_env"
  by (simp add: unit_host_def)

end
