(* ===== verification/VtParser.thy ===== *)
theory VtParser
  imports VtHandlers
begin

text \<open>
  The parser of \<open>hterm.VT\<close> (hterm_all-1.91.js): \<open>dispatch\<close>, the functions that read a part of the
  buffer each, and the loop of \<open>interpret\<close> around them. \<open>None\<close> is an exception.
\<close>

section \<open>Dispatch\<close>

datatype table = TCC1 | TESC | TCSI | TDCS | TOSC

fun table_of :: "table \<Rightarrow> (jsstring \<times> entry) list" where
  "table_of TCC1 = CC1"
| "table_of TESC = ESC"
| "table_of TCSI = CSI"
| "table_of TDCS = DCS"
| "table_of TOSC = OSC"

definition vt_dispatch :: "host \<Rightarrow> table \<Rightarrow> jsstring \<Rightarrow> parse_state \<Rightarrow> machine \<Rightarrow>
    (parse_state \<times> machine) option" where
  "vt_dispatch H tab code p m =
     (case map_of (table_of tab) code of
        None \<Rightarrow> Some (p, m)
      | Some Ignore \<Rightarrow> Some (p, m)
      | Some (Handler takes_subargs f) \<Rightarrow>
          if subargs p \<noteq> None \<and> \<not> takes_subargs then Some (p, m)
          else if tab = TCC1 \<and> hd code > 0x7f \<and> \<not> enable8BitControl m then Some (p, m)
          else f H code p m)"

section \<open>Reading\<close>

text \<open>\<open>cc1Pattern_\<close>: the codes of the table, up to 0x7f only with UTF-8 as the coding system.\<close>

definition cc1_char :: "machine \<Rightarrow> code_unit \<Rightarrow> bool" where
  "cc1_char m c \<longleftrightarrow> [c] \<in> fst ` set CC1 \<and> (codingSystemUtf8 m \<longrightarrow> c < 0x80)"

fun search :: "(code_unit \<Rightarrow> bool) \<Rightarrow> jsstring \<Rightarrow> nat option" where
  "search P [] = None"
| "search P (c # s) = (if P c then Some 0 else map_option Suc (search P s))"

definition setEncoding :: "jsstring \<Rightarrow> machine \<Rightarrow> machine" where
  "setEncoding e m =
     (if e = js ''utf-8-locked'' then m\<lparr>codingSystemUtf8 := True, codingSystemLocked := True\<rparr>
      else if e = js ''utf-8'' then m\<lparr>codingSystemUtf8 := True, codingSystemLocked := False\<rparr>
      else m\<lparr>codingSystemUtf8 := False, codingSystemLocked := False\<rparr>)"

definition active_map :: "gsets \<Rightarrow> charmap" where
  "active_map cs = (if GL cs = js ''G0'' then G0 cs else if GL cs = js ''G1'' then G1 cs
     else if GL cs = js ''G2'' then G2 cs else G3 cs)"

definition vt_print :: "host \<Rightarrow> jsstring \<Rightarrow> machine \<Rightarrow> machine option" where
  "vt_print H str m =
     run (terminal_print (screen_env H)
       (if codingSystemUtf8 m then str
        else case GL_map (active_map (charsets m)) of None \<Rightarrow> str | Some f \<Rightarrow> f str)) m"

definition parse_unknown :: "host \<Rightarrow> parse_state \<Rightarrow> machine \<Rightarrow> (parse_state \<times> machine) option" where
  "parse_unknown H p m =
     (let rest = peekRemainingBuf p in
      case search (cc1_char m) rest of
        None \<Rightarrow> do {
          m \<leftarrow> vt_print H rest m;
          Some (reset_parse_state [] p, m)
        }
      | Some i \<Rightarrow> do {
          m \<leftarrow> (if i = 0 then Some m else vt_print H (take i rest) m);
          (p, m) \<leftarrow> vt_dispatch H TCC1 [rest ! i] p m;
          Some (advance (i + 1) p, m)
        })"

definition finish_csi :: "parse_state \<Rightarrow> parse_state" where
  "finish_csi p = resetParseFunction ((resetArguments p)\<lparr>subargs := None\<rparr>)"

text \<open>\<open>;\<close>, and a digit or a colon.\<close>

definition next_arg :: "parse_state \<Rightarrow> parse_state" where
  "next_arg p = p\<lparr>args := (if args p = [] then [[], []] else args p @ [[]])\<rparr>"

definition extend_arg :: "code_unit \<Rightarrow> parse_state \<Rightarrow> parse_state" where
  "extend_arg ch p =
     p\<lparr>args := (if args p = [] then [[ch]] else butlast (args p) @ [last (args p) @ [ch]])\<rparr>"

definition add_modifier :: "code_unit \<Rightarrow> parse_state \<Rightarrow> machine \<Rightarrow> machine" where
  "add_modifier ch p m =
     (if args p = [] then m\<lparr>leadingModifier := leadingModifier m @ [ch]\<rparr>
      else m\<lparr>trailingModifier := trailingModifier m @ [ch]\<rparr>)"

definition parse_csi_char :: "host \<Rightarrow> code_unit \<Rightarrow> parse_state \<Rightarrow> machine \<Rightarrow>
    (parse_state \<times> machine) option" where
  "parse_csi_char H ch p m =
     (if 64 \<le> ch \<and> ch \<le> 126 then do {
        (p, m) \<leftarrow> vt_dispatch H TCSI (leadingModifier m @ trailingModifier m @ [ch]) p m;
        Some (finish_csi p, m)
      }
      else if ch = 59 then
        Some (if trailingModifier m \<noteq> [] then finish_csi p else next_arg p, m)
      else if is_digit ch \<or> ch = 58 then
        Some (if trailingModifier m \<noteq> [] then finish_csi p
              else let p = extend_arg ch p
                   in if ch = 58 then argSetSubargs (length (args p) - 1) p else p, m)
      else if 32 \<le> ch \<and> ch \<le> 63 then Some (p, add_modifier ch p m)
      else if cc1_char m ch then vt_dispatch H TCC1 [ch] p m
      else Some (finish_csi p, m))"

definition parse_csi :: "host \<Rightarrow> parse_state \<Rightarrow> machine \<Rightarrow> (parse_state \<times> machine) option" where
  "parse_csi H p m = do {
     ch \<leftarrow> peekChar p;
     (p, m) \<leftarrow> parse_csi_char H ch p m;
     Some (advance 1 p, m)
   }"

definition finish_dcs :: "parse_state \<Rightarrow> parse_state" where
  "finish_dcs p = resetParseFunction (resetArguments p)"

definition parse_dcs_char :: "host \<Rightarrow> code_unit \<Rightarrow> parse_state \<Rightarrow> machine \<Rightarrow>
    (parse_state \<times> machine) option" where
  "parse_dcs_char H ch p m =
     (if ch = 59 then Some (if trailingModifier m \<noteq> [] then finish_dcs p else next_arg p, m)
      else if is_digit ch then
        Some (if trailingModifier m \<noteq> [] then finish_dcs p else extend_arg ch p, m)
      else if 32 \<le> ch \<and> ch \<le> 63 then Some (p, add_modifier ch p m)
      else if cc1_char m ch then vt_dispatch H TCC1 [ch] p m
      else Some (finish_dcs p, m))"

text \<open>The string that follows is read with the arguments left as they are.\<close>

definition parse_dcs :: "host \<Rightarrow> parse_state \<Rightarrow> machine \<Rightarrow> (parse_state \<times> machine) option" where
  "parse_dcs H p m = do {
     ch \<leftarrow> peekChar p;
     (if 64 \<le> ch \<and> ch \<le> 126 then do {
        (p, m) \<leftarrow> vt_dispatch H TDCS (leadingModifier m @ trailingModifier m @ [ch]) (advance 1 p) m;
        Some (if func p = parseDCS then set_func parseUntilStringTerminator p else p, m)
      }
      else do {
        (p, m) \<leftarrow> parse_dcs_char H ch p m;
        Some (advance 1 p, m)
      })
   }"

section \<open>Strings\<close>

definition oscTimeLimit :: int where
  "oscTimeLimit = 20000"

text \<open>
  The start of \<open>parseUntilStringTerminator_\<close>: the string so far and the time it began, the text to
  look at, and how many of its characters come from the part before, a final \<open>ESC\<close>.
\<close>

definition string_start :: "host \<Rightarrow> parse_state \<Rightarrow> machine \<Rightarrow> jsstring list \<times> jsstring \<times> nat \<times> machine" where
  "string_start H p m =
     (let rest = peekRemainingBuf p in
      if args p = [] then
        ([[], js_of_int (clock H (clock_reads m))], rest, 0, m\<lparr>clock_reads := clock_reads m + 1\<rparr>)
      else if args p ! 0 \<noteq> [] \<and> last (args p ! 0) = 27
      then ((args p)[0 := butlast (args p ! 0)], 27 # rest, 1, m)
      else (args p, rest, 0, m))"

text \<open>Where the terminator is, if it is there: \<open>BEL\<close>, or \<open>ESC\<close> followed by a backslash.\<close>

definition string_control :: "code_unit \<Rightarrow> bool" where
  "string_control c \<longleftrightarrow> c = 27 \<or> c = 7"

definition found_terminator :: "jsstring \<Rightarrow> nat option" where
  "found_terminator s =
     (case search string_control s of
        None \<Rightarrow> None
      | Some i \<Rightarrow> if s ! i = 27 \<and> \<not> (i + 1 < length s \<and> s ! (i + 1) = 92) then None else Some i)"

text \<open>An \<open>ESC\<close> that is followed by something else.\<close>

definition embedded_escape :: "jsstring \<Rightarrow> bool" where
  "embedded_escape s \<longleftrightarrow>
     (case search string_control s of
        None \<Rightarrow> False
      | Some i \<Rightarrow> s ! i = 27 \<and> i + 1 \<noteq> length s)"

text \<open>\<open>now - args[1] > limit\<close>, with \<open>NaN\<close> for a missing argument.\<close>

definition timed_out :: "int \<Rightarrow> jsstring list \<Rightarrow> bool" where
  "timed_out t as \<longleftrightarrow>
     (case (if 1 < length as then to_number (as ! 1) else None) of
        None \<Rightarrow> False
      | Some start \<Rightarrow> t - start > oscTimeLimit)"

text \<open>The result is \<open>false\<close> when the string was aborted; what was read is then read again.\<close>

definition parse_string :: "host \<Rightarrow> parse_state \<Rightarrow> machine \<Rightarrow> bool \<times> parse_state \<times> machine" where
  "parse_string H p m =
     (let (as, s, inserted, m) = string_start H p m in
      case found_terminator s of
        Some i \<Rightarrow>
          (True, advance (i + (if s ! i = 27 then 2 else 1) - inserted)
             (resetParseFunction (p\<lparr>args := as[0 := as ! 0 @ take i s]\<rparr>)), m)
      | None \<Rightarrow>
          (let as = as[0 := as ! 0 @ s];
               t = clock H (clock_reads m);
               m = m\<lparr>clock_reads := clock_reads m + 1\<rparr>
           in if embedded_escape s \<or> timed_out t as
              then (False, reset_parse_state (as ! 0) (p\<lparr>args := as\<rparr>), m)
              else (True, advance (length s - inserted) (p\<lparr>args := as\<rparr>), m)))"

text \<open>\<open>/^(\d+);?(.*)$/\<close>\<close>

definition match_osc :: "jsstring \<Rightarrow> (jsstring \<times> jsstring) option" where
  "match_osc s =
     (let d = takeWhile is_digit s; rest = drop (length d) s;
          rest = (case rest of c # r \<Rightarrow> if c = 59 then r else rest | [] \<Rightarrow> [])
      in if d = [] \<or> list_ex line_terminator rest then None else Some (d, rest))"

definition parse_osc :: "host \<Rightarrow> parse_state \<Rightarrow> machine \<Rightarrow> (parse_state \<times> machine) option" where
  "parse_osc H p m =
     (let (ok, p, m) = parse_string H p m in
      if \<not> ok \<or> func p = parseOSC then Some (p, m)
      else do {
        (p, m) \<leftarrow> (case match_osc (args p ! 0) of
            Some (code, arg) \<Rightarrow> vt_dispatch H TOSC code (p\<lparr>args := (args p)[0 := arg]\<rparr>) m
          | None \<Rightarrow> Some (p, m));
        Some (resetArguments p, m)
      })"

definition parse_title :: "host \<Rightarrow> parse_state \<Rightarrow> machine \<Rightarrow> (parse_state \<times> machine) option" where
  "parse_title H p m =
     (let (ok, p, m) = parse_string H p m in
      if \<not> ok \<or> func p = parseTitle then Some (p, m)
      else do {
        m \<leftarrow> emit (SetWindowName (args p ! 0)) m;
        Some (resetArguments p, m)
      })"

section \<open>Sequences of a few characters\<close>

definition parse_esc :: "host \<Rightarrow> parse_state \<Rightarrow> machine \<Rightarrow> (parse_state \<times> machine) option" where
  "parse_esc H p m = do {
     let (ch, p) = consumeChar p;
     ch \<leftarrow> ch;
     (if ch = 27 then Some (p, m)
      else do {
        (p, m) \<leftarrow> vt_dispatch H TESC [ch] p m;
        Some (if func p = parseESC then resetParseFunction p else p, m)
      })
   }"

definition parse_hash :: "host \<Rightarrow> parse_state \<Rightarrow> machine \<Rightarrow> (parse_state \<times> machine) option" where
  "parse_hash H p m = do {
     let (ch, p) = consumeChar p;
     m \<leftarrow> (if ch = Some 56 then
            run (\<lambda>t. terminal_fill (screen_env H) (js ''E'')
              (terminal_setCursorPosition (screen_env H) 0 0 t)) m
          else Some m);
     Some (resetParseFunction p, m)
   }"

definition parse_percent :: "parse_state \<Rightarrow> machine \<Rightarrow> parse_state \<times> machine" where
  "parse_percent p m =
     (let (ch, p) = consumeChar p in
      if codingSystemLocked m then
        (resetParseFunction (if ch = Some 47 then snd (consumeChar p) else p), m)
      else if ch = Some 64 then (resetParseFunction p, setEncoding (js ''iso-2022'') m)
      else if ch = Some 71 then (resetParseFunction p, setEncoding (js ''utf-8'') m)
      else if ch = Some 47 then
        (let (ch, p) = consumeChar p
         in (resetParseFunction p,
             if ch \<in> {Some 71, Some 72, Some 73} then setEncoding (js ''utf-8-locked'') m else m))
      else (resetParseFunction p, m))"

definition designate :: "code_unit \<Rightarrow> charmap \<Rightarrow> gsets \<Rightarrow> gsets" where
  "designate code c cs =
     (if code = 40 then cs\<lparr>G0 := c\<rparr>
      else if code \<in> {41, 45} then cs\<lparr>G1 := c\<rparr>
      else if code \<in> {42, 46} then cs\<lparr>G2 := c\<rparr>
      else if code \<in> {43, 47} then cs\<lparr>G3 := c\<rparr>
      else cs)"

text \<open>
  After \<open>ESC\<close> the code calls \<open>parseState.func()\<close>, which is \<open>parseUnknown_\<close> by then, without its
  argument: that throws.
\<close>

definition parse_charset :: "code_unit \<Rightarrow> parse_state \<Rightarrow> machine \<Rightarrow> (parse_state \<times> machine) option" where
  "parse_charset code p m = do {
     let (ch, p) = consumeChar p;
     ch \<leftarrow> ch;
     (if ch = 27 then None
      else Some (resetParseFunction p,
        case getMap (characterMaps m) [ch] of
          None \<Rightarrow> m
        | Some c \<Rightarrow> m\<lparr>charsets := designate code c (charsets m)\<rparr>))
   }"

section \<open>The loop\<close>

definition parse_step :: "host \<Rightarrow> parse_state \<Rightarrow> machine \<Rightarrow> (parse_state \<times> machine) option" where
  "parse_step H p m =
     (case func p of
        parseUnknown \<Rightarrow> parse_unknown H p m
      | parseESC \<Rightarrow> parse_esc H p m
      | parseCSI \<Rightarrow> parse_csi H p m
      | parseDCS \<Rightarrow> parse_dcs H p m
      | parseUntilStringTerminator \<Rightarrow> Some (snd (parse_string H p m))
      | parseOSC \<Rightarrow> parse_osc H p m
      | parseTitle \<Rightarrow> parse_title H p m
      | parseSpace \<Rightarrow> Some (resetParseFunction (snd (consumeChar p)), m)
      | parseHash \<Rightarrow> parse_hash H p m
      | parsePercent \<Rightarrow> Some (parse_percent p m)
      | parseCharset code \<Rightarrow> parse_charset code p m)"

end
