(* ===== verification/VtLoop.thy ===== *)
theory VtLoop
  imports VtParser
begin

text \<open>
  The loop of \<open>interpret\<close>: a measure that every step decreases, so the loop takes finitely many steps for every
  input, and the check for a parser that did not alter the state never fails.
\<close>

section \<open>What handlers do to the parse state\<close>

text \<open>
  The functions under which the first argument holds text of the buffer: the strings, and the
  device control sequences that hand their arguments over to them.
\<close>

definition collects :: "parser \<Rightarrow> bool" where
  "collects f \<longleftrightarrow> f \<in> {parseUntilStringTerminator, parseOSC, parseTitle, parseDCS}"

lemma collects_simps [simp]:
  "collects parseUntilStringTerminator" "collects parseOSC" "collects parseTitle" "collects parseDCS"
  "\<not> collects parseUnknown" "\<not> collects parseESC" "\<not> collects parseCSI" "\<not> collects parseSpace"
  "\<not> collects parseHash" "\<not> collects parsePercent" "\<not> collects (parseCharset c)"
  by (simp_all add: collects_def)

definition collected :: "parse_state \<Rightarrow> nat" where
  "collected p = (if collects (func p) then (case args p of [] \<Rightarrow> 0 | s # _ \<Rightarrow> length s) else 0)"

definition keeps_place :: "parse_state \<Rightarrow> parse_state \<Rightarrow> bool" where
  "keeps_place p p' \<longleftrightarrow> pos p' = pos p \<and> buf p' = buf p \<and>
     (func p' = func p \<and> args p' = args p \<or> collected p' = 0)"

definition well_behaved :: "entry \<Rightarrow> bool" where
  "well_behaved e \<longleftrightarrow> (case e of Ignore \<Rightarrow> True
     | Handler b f \<Rightarrow> (\<forall>H code p m p' m'. f H code p m = Some (p', m') \<longrightarrow> keeps_place p p'))"

lemma keeps_place_refl [simp]: "keeps_place p p"
  by (simp add: keeps_place_def)

lemma well_behaved_act [simp]: "well_behaved (act f)"
  by (auto simp: act_def well_behaved_def)

lemma well_behaved_more [simp]:
  "well_behaved Ignore" "well_behaved (term_act g)" "well_behaved (term_act_total h)"
  "well_behaved (count_act k)" "well_behaved (count_act_total l)" "well_behaved (tab_times h)"
  "well_behaved (osc_act g2)" "well_behaved (Handler b (\<lambda>H code p m. map_option (Pair p) (u H p m)))"
  by (auto simp: term_act_def term_act_total_def count_act_def count_act_total_def tab_times_def osc_act_def)
    (auto simp: well_behaved_def)

lemma well_behaved_begin [simp]:
  "well_behaved (begin_sequence f)" "well_behaved (begin_string f)"
  by (auto simp: begin_sequence_def begin_string_def install_def well_behaved_def keeps_place_def collected_def
      set_func_def resetArguments_def)

lemma well_behaved_install [simp]:
  "\<not> collects f \<Longrightarrow> well_behaved (intermediate f)"
  "(\<And>code. \<not> collects (g code)) \<Longrightarrow> well_behaved (install (\<lambda>code. set_func (g code)))"
  by (auto simp: intermediate_def install_def well_behaved_def keeps_place_def collected_def set_func_def)

lemma well_behaved_cancel [simp]: "well_behaved cancel"
  by (auto simp: cancel_def well_behaved_def keeps_place_def collected_def resetParseFunction_def)

lemma ESC_well_behaved: "\<forall>(code, e) \<in> set ESC. well_behaved e"
  by (simp add: ESC_def)

lemma CC1_well_behaved: "\<forall>(code, e) \<in> set CC1. well_behaved e"
proof -
  have "well_behaved (esc_entry code)" for code
    using ESC_well_behaved by (auto simp: esc_entry_def split: option.split dest!: map_of_SomeD)
  then show ?thesis by (simp add: CC1_def)
qed

lemma CSI_well_behaved: "\<forall>(code, e) \<in> set CSI. well_behaved e"
  by (simp add: CSI_def column_act_def cup_def erase_display_def erase_in_line_def clear_tabs_def
      ansi_modes_def private_modes_def status_report_def private_report_def cursor_style_def
      scroll_region_def tile_data_def Let_def)

lemma OSC_well_behaved: "\<forall>(code, e) \<in> set OSC. well_behaved e"
  by (simp add: OSC_def)

lemma dispatch_keeps_place:
  assumes "vt_dispatch H tab code p m = Some (p', m')"
  shows "keeps_place p p'"
proof -
  have "\<forall>(code, e) \<in> set (table_of tab). well_behaved e"
    using ESC_well_behaved CC1_well_behaved CSI_well_behaved OSC_well_behaved
    by (cases tab) (simp_all add: DCS_def)
  then have "well_behaved e" if "map_of (table_of tab) code = Some e" for e
    using that by (auto dest: map_of_SomeD)
  then show ?thesis
    using assms
    by (auto simp: vt_dispatch_def well_behaved_def split: option.splits entry.splits if_splits) blast+
qed


section \<open>Every step makes progress\<close>

definition remaining :: "parse_state \<Rightarrow> nat" where
  "remaining p = length (buf p) - pos p"

definition total :: "parse_state \<Rightarrow> nat" where
  "total p = collected p + remaining p"

definition stage :: "parse_state \<Rightarrow> nat" where
  "stage p = (if func p = parseUnknown then 0 else 1)"

definition progress_rel :: "(parse_state \<times> parse_state) set" where
  "progress_rel = inv_image (less_than <*lex*> less_than <*lex*> less_than) (\<lambda>p. (total p, stage p, remaining p))"

lemma wf_progress_rel: "wf progress_rel"
  by (simp add: progress_rel_def wf_lex_prod)

definition altered :: "parse_state \<Rightarrow> parse_state \<Rightarrow> bool" where
  "altered p p' \<longleftrightarrow> \<not> (func p' = func p \<and> pos p' = pos p \<and> buf p' = buf p)"

definition progress :: "parse_state \<Rightarrow> parse_state \<Rightarrow> bool" where
  "progress p p' \<longleftrightarrow> (p', p) \<in> progress_rel \<and> altered p p'"

lemma progressI:
  assumes "total p' < total p" and "altered p p'"
  shows "progress p p'"
  using assms by (simp add: progress_def progress_rel_def)

lemma not_complete: "\<not> isComplete p \<longleftrightarrow> 0 < remaining p"
  by (auto simp: isComplete_def remaining_def)

lemma peekRemaining_length: "length (peekRemainingBuf p) = remaining p"
  by (simp add: peekRemainingBuf_def remaining_def)

lemma advance_fields [simp]:
  "func (advance n p) = func p" "args (advance n p) = args p" "buf (advance n p) = buf p"
  "subargs (advance n p) = subargs p" "pos (advance n p) = pos p + n" "collected (advance n p) = collected p"
  by (simp_all add: advance_def collected_def)

lemma remaining_advance [simp]: "remaining (advance n p) = remaining p - n"
  by (simp add: remaining_def)

lemma keeps_placeD:
  assumes "keeps_place p q"
  shows "pos q = pos p" "buf q = buf p" "remaining q = remaining p" "collected q \<le> collected p"
  using assms by (auto simp: keeps_place_def remaining_def collected_def split: if_splits)

text \<open>A step that reads at least one character, and collects no more than was collected.\<close>

lemma progress_advance:
  assumes "\<not> isComplete p" and "pos q = pos p" "buf q = buf p" and "collected q \<le> collected p" and "0 < n"
  shows "progress p (advance n q)"
proof (rule progressI)
  have "remaining q = remaining p" using assms(2,3) by (simp add: remaining_def)
  then show "total (advance n q) < total p" using assms(1,4,5) by (simp add: total_def not_complete)
  show "altered p (advance n q)" using assms(2,5) by (simp add: altered_def)
qed

lemma finish_fields [simp]:
  "pos (finish_csi p) = pos p" "buf (finish_csi p) = buf p" "func (finish_csi p) = parseUnknown"
  "pos (finish_dcs p) = pos p" "buf (finish_dcs p) = buf p" "func (finish_dcs p) = parseUnknown"
  "pos (next_arg p) = pos p" "buf (next_arg p) = buf p" "func (next_arg p) = func p"
  "pos (extend_arg ch p) = pos p" "buf (extend_arg ch p) = buf p" "func (extend_arg ch p) = func p"
  "pos (argSetSubargs i p) = pos p" "buf (argSetSubargs i p) = buf p" "func (argSetSubargs i p) = func p"
  "pos (resetParseFunction p) = pos p" "buf (resetParseFunction p) = buf p"
  "func (resetParseFunction p) = parseUnknown" "args (resetParseFunction p) = args p"
  "pos (resetArguments p) = pos p" "buf (resetArguments p) = buf p" "func (resetArguments p) = func p"
  "args (resetArguments p) = []"
  "pos (set_func f p) = pos p" "buf (set_func f p) = buf p" "func (set_func f p) = f" "args (set_func f p) = args p"
  by (simp_all add: finish_csi_def finish_dcs_def resetParseFunction_def resetArguments_def next_arg_def
      extend_arg_def argSetSubargs_def set_func_def)

lemma collected_plain [simp]: "\<not> collects (func p) \<Longrightarrow> collected p = 0"
  by (simp add: collected_def)

lemma collected_no_args [simp]: "args p = [] \<Longrightarrow> collected p = 0"
  by (simp add: collected_def)

lemma unknown_progress:
  assumes "\<not> isComplete p" and "func p = parseUnknown" and "parse_unknown H p m = Some (p', m')"
  shows "progress p p'"
proof (cases "search (cc1_char m) (peekRemainingBuf p)")
  case None
  then have p': "p' = reset_parse_state [] p"
    using assms(3) by (auto simp: parse_unknown_def Let_def split: Option.bind_splits)
  have "buf p \<noteq> []" using assms(1) by (auto simp: isComplete_def)
  then show ?thesis
    using assms(1) by (intro progressI)
      (simp_all add: p' total_def remaining_def reset_parse_state_def resetBuf_def altered_def not_complete)
next
  case (Some i)
  then obtain q where q: "p' = advance (i + 1) q" "keeps_place p q"
    using assms(3) dispatch_keeps_place
    by (auto simp: parse_unknown_def Let_def split: Option.bind_splits prod.splits)
  then show ?thesis using progress_advance [OF assms(1)] keeps_placeD [OF q(2)] by simp
qed

lemma csi_progress:
  assumes "\<not> isComplete p" and "func p = parseCSI" and "parse_csi H p m = Some (p', m')"
  shows "progress p p'"
proof -
  obtain ch q m1 where q: "parse_csi_char H ch p m = Some (q, m1)" "p' = advance 1 q"
    using assms(3) by (auto simp: parse_csi_def split: Option.bind_splits)
  have disp: "pos r = pos p \<and> buf r = buf p \<and> collected r = 0"
    if "vt_dispatch H tab code p m = Some (r, m2)" for tab code r m2
    using keeps_placeD [OF dispatch_keeps_place [OF that]] assms(2) by simp
  have "pos q = pos p \<and> buf q = buf p \<and> collected q = 0"
    using q(1) assms(2) unfolding parse_csi_char_def Let_def
    by (auto split: if_splits Option.bind_splits dest!: disp)
  then show ?thesis using progress_advance [OF assms(1)] q(2) by simp
qed

lemma extend_collected: "collected (extend_arg ch p) \<le> collected p + 1"
proof (cases "args p")
  case (Cons s rest)
  then show ?thesis by (cases rest) (simp_all add: collected_def extend_arg_def)
qed (simp add: collected_def extend_arg_def)

lemma next_collected: "collected (next_arg p) = collected p"
  by (auto simp: collected_def next_arg_def split: list.split)

lemma dcs_progress:
  assumes "\<not> isComplete p" and "func p = parseDCS" and "parse_dcs H p m = Some (p', m')"
  shows "progress p p'"
proof -
  obtain ch where ch: "peekChar p = Some ch" using assms(3) by (auto simp: parse_dcs_def split: Option.bind_splits)
  consider "64 \<le> ch" "ch \<le> 126" | q where "p' = advance 1 q" "pos q = pos p" "buf q = buf p" "collected q \<le> collected p"
    | "p' = advance 1 (extend_arg ch p)"
  proof (cases "64 \<le> ch \<and> ch \<le> 126")
    case False
    then obtain q m1 where "parse_dcs_char H ch p m = Some (q, m1)" "p' = advance 1 q"
      using assms(3) ch by (auto simp: parse_dcs_def split: Option.bind_splits)
    then show thesis
      using that(2) [of q] that(3) next_collected [of p] dispatch_keeps_place [THEN keeps_placeD(1)]
        dispatch_keeps_place [THEN keeps_placeD(2)] dispatch_keeps_place [THEN keeps_placeD(4)]
      by (auto simp: parse_dcs_char_def split: if_splits)
  qed (use that in blast)
  then show ?thesis
  proof cases
    case 1
    then have "p' = set_func parseUntilStringTerminator (advance 1 p)"
      using assms(2,3) ch by (simp add: parse_dcs_def vt_dispatch_def DCS_def)
    moreover have "collected (set_func parseUntilStringTerminator p) = collected p"
      using assms(2) by (simp add: collected_def)
    moreover have "set_func parseUntilStringTerminator (advance 1 p) = advance 1 (set_func parseUntilStringTerminator p)"
      by (simp add: set_func_def advance_def)
    ultimately show ?thesis
      using progress_advance [OF assms(1), of "set_func parseUntilStringTerminator p" 1] by simp
  next
    case 2
    then show ?thesis using progress_advance [OF assms(1)] by simp
  next
    case 3
    have "remaining (extend_arg ch p) = remaining p" by (simp add: remaining_def)
    then have "total p' < total p \<or> total p' = total p" "stage p' = stage p" "remaining p' < remaining p"
      using 3 extend_collected [of ch p] assms(1) by (auto simp: total_def stage_def not_complete)
    then show ?thesis using 3 by (auto simp: progress_def progress_rel_def altered_def)
  qed
qed

lemma search_SomeD: "search P s = Some i \<Longrightarrow> i < length s \<and> P (s ! i) \<and> (\<forall>j < i. \<not> P (s ! j))"
  by (induction s arbitrary: i) (auto simp: nth_Cons split: if_splits nat.splits)

lemma search_hit_first: "s \<noteq> [] \<Longrightarrow> P (s ! 0) \<Longrightarrow> search P s = Some 0"
  by (cases s) auto

text \<open>What \<open>string_start\<close> takes from the arguments it puts before the rest of the buffer.\<close>

lemma string_start_result:
  assumes "string_start H p m = (as, s, ins, m1)" and "collects (func p)"
  shows "as \<noteq> [] \<and> length (as ! 0) + length s = total p \<and> length s = remaining p + ins \<and>
    (ins = 0 \<or> ins = 1 \<and> s ! 0 = 27)"
proof (cases "args p")
  case Nil
  then show ?thesis using assms by (auto simp: string_start_def Let_def total_def collected_def peekRemaining_length)
next
  case (Cons a rest)
  then have coll: "collected p = length a" using assms(2) by (simp add: collected_def)
  show ?thesis
  proof (cases "a \<noteq> [] \<and> last a = 27")
    case True
    then have "as = butlast a # rest" "s = 27 # peekRemainingBuf p" "ins = 1"
      using assms(1) Cons by (simp_all add: string_start_def Let_def)
    then show ?thesis using True coll by (simp add: total_def peekRemaining_length)
  next
    case False
    then have "as = a # rest" "s = peekRemainingBuf p" "ins = 0"
      using assms(1) Cons by (auto simp: string_start_def Let_def split: if_splits)
    then show ?thesis using coll by (simp add: total_def peekRemaining_length)
  qed
qed

text \<open>
  The three outcomes of \<open>parse_string\<close>: the string ended, it was aborted and is the buffer now, or
  it goes on.
\<close>

lemma parse_string_cases:
  assumes "\<not> isComplete p" and "collects (func p)" and "parse_string H p m = (ok, p', m')"
  obtains (ended) "ok" "func p' = parseUnknown" "pos p < pos p'" "buf p' = buf p"
  | (aborted) "\<not> ok" "func p' = parseUnknown" "pos p' = 0" "length (buf p') = total p"
  | (more) "ok" "func p' = func p" "pos p < pos p'" "buf p' = buf p" "total p' = total p" "remaining p' = 0"
proof -
  obtain as s ins m1 where st: "string_start H p m = (as, s, ins, m1)" by (metis prod_cases4)
  note start = string_start_result [OF st assms(2)]
  have rem: "0 < remaining p" using assms(1) by (simp add: not_complete)
  show thesis
  proof (cases "found_terminator s")
    case (Some i)
    then have i: "search string_control s = Some i" by (auto simp: found_terminator_def split: option.splits if_splits)
    have "0 < i + (if s ! i = 27 then 2 else 1) - ins"
    proof (cases "ins = 0")
      case False
      then have "ins = 1" "s ! 0 = 27" using start by auto
      moreover have "s \<noteq> []" using start rem by auto
      then have "i = 0" using i search_hit_first [of s string_control] \<open>s ! 0 = 27\<close> by (simp add: string_control_def)
      ultimately show ?thesis by simp
    qed simp
    then show thesis
      using ended assms(3) Some st by (auto simp: parse_string_def Let_def)
  next
    case None
    let ?as = "as[0 := as ! 0 @ s]" and ?t = "clock H (clock_reads m1)"
    have as0: "?as ! 0 = as ! 0 @ s" using start by simp
    show thesis
    proof (cases "embedded_escape s \<or> timed_out ?t ?as")
      case True
      then have "ok = False" "p' = reset_parse_state (?as ! 0) (p\<lparr>args := ?as\<rparr>)"
        using assms(3) None st by (auto simp: parse_string_def Let_def)
      then show thesis
        using aborted start as0 by (auto simp: reset_parse_state_def resetBuf_def)
    next
      case False
      then have p': "ok" "p' = advance (length s - ins) (p\<lparr>args := ?as\<rparr>)"
        using assms(3) None st by (auto simp: parse_string_def Let_def)
      have len: "length s - ins = remaining p" using start by simp
      have "collected p' = length (as ! 0) + length s"
        using p'(2) assms(2) as0 start by (cases as) (simp_all add: collected_def)
      then show thesis
        using more p' len rem start by (simp add: total_def) (simp add: remaining_def)
    qed
  qed
qed

lemma parse_string_progress:
  assumes "\<not> isComplete p" and "collects (func p)" and "parse_string H p m = (ok, p', m')"
  shows "progress p p'"
  using assms
proof (cases rule: parse_string_cases)
  case ended
  then have "total p' < total p" using assms(1) by (simp add: total_def not_complete) (simp add: remaining_def)
  then show ?thesis using ended by (intro progressI) (simp_all add: altered_def)
next
  case aborted
  then have "total p' = total p" by (simp add: total_def remaining_def)
  then show ?thesis using aborted assms(2) by (auto simp: progress_def progress_rel_def altered_def stage_def)
next
  case more
  then show ?thesis using assms(1) by (simp add: progress_def progress_rel_def altered_def stage_def not_complete)
qed

text \<open>After the end of a string, a handler runs and the arguments go.\<close>

lemma string_end_progress:
  assumes "\<not> isComplete p" and "pos p < pos p1" and "buf p1 = buf p" and "keeps_place (p1\<lparr>args := as\<rparr>) q"
  shows "progress p (resetArguments q)"
proof (rule progressI)
  have q: "pos q = pos p1" "buf q = buf p1" using keeps_placeD [OF assms(4)] by simp_all
  then show "total (resetArguments q) < total p"
    using assms(1,2,3) by (simp add: total_def not_complete) (simp add: remaining_def)
  show "altered p (resetArguments q)" using q assms(2) by (simp add: altered_def)
qed

lemma osc_progress:
  assumes "\<not> isComplete p" and "func p = parseOSC" and "parse_osc H p m = Some (p', m')"
  shows "progress p p'"
proof -
  have coll: "collects (func p)" using assms(2) by simp
  obtain ok p1 m1 where st: "parse_string H p m = (ok, p1, m1)" by (metis prod_cases3)
  show ?thesis
  proof (cases "\<not> ok \<or> func p1 = parseOSC")
    case True
    then show ?thesis
      using parse_string_progress [OF assms(1) coll st] assms(3) st by (simp add: parse_osc_def)
  next
    case False
    have fin: "pos p < pos p1" "buf p1 = buf p"
      by (rule parse_string_cases [OF assms(1) coll st]; use False assms(2) in simp)+
    have "\<exists>as q. keeps_place (p1\<lparr>args := as\<rparr>) q \<and> p' = resetArguments q"
    proof (cases "match_osc (args p1 ! 0)")
      case None
      then have "p' = resetArguments p1" using assms(3) st False by (simp add: parse_osc_def)
      moreover have "keeps_place (p1\<lparr>args := args p1\<rparr>) p1" by simp
      ultimately show ?thesis by blast
    next
      case (Some cmd)
      then obtain q m2 where "vt_dispatch H TOSC (fst cmd) (p1\<lparr>args := (args p1)[0 := snd cmd]\<rparr>) m1 = Some (q, m2)"
        "p' = resetArguments q"
        using assms(3) st False by (auto simp: parse_osc_def split: Option.bind_splits prod.splits)
      then show ?thesis using dispatch_keeps_place by blast
    qed
    then show ?thesis using string_end_progress [OF assms(1) fin] by blast
  qed
qed

lemma title_progress:
  assumes "\<not> isComplete p" and "func p = parseTitle" and "parse_title H p m = Some (p', m')"
  shows "progress p p'"
proof -
  have coll: "collects (func p)" using assms(2) by simp
  obtain ok p1 m1 where st: "parse_string H p m = (ok, p1, m1)" by (metis prod_cases3)
  show ?thesis
  proof (cases "\<not> ok \<or> func p1 = parseTitle")
    case True
    then show ?thesis
      using parse_string_progress [OF assms(1) coll st] assms(3) st by (simp add: parse_title_def)
  next
    case False
    have fin: "pos p < pos p1" "buf p1 = buf p"
      by (rule parse_string_cases [OF assms(1) coll st]; use False assms(2) in simp)+
    have "p' = resetArguments p1"
      using assms(3) st False by (auto simp: parse_title_def emit_def)
    then show ?thesis using string_end_progress [OF assms(1) fin, of "args p1" p1] by simp
  qed
qed

lemma esc_progress:
  assumes "\<not> isComplete p" and "func p = parseESC" and "parse_esc H p m = Some (p', m')"
  shows "progress p p'"
proof -
  obtain ch where ch: "peekChar p = Some ch"
    using assms(3) by (auto simp: parse_esc_def consumeChar_def split: Option.bind_splits)
  show ?thesis
  proof (cases "ch = 27")
    case True
    then have "p' = advance 1 p" using assms(3) ch by (simp add: parse_esc_def consumeChar_def)
    then show ?thesis using progress_advance [OF assms(1), of p 1] by simp
  next
    case False
    then obtain q m1 where q: "vt_dispatch H TESC [ch] (advance 1 p) m = Some (q, m1)"
      "p' = (if func q = parseESC then resetParseFunction q else q)"
      using assms(3) ch by (auto simp: parse_esc_def consumeChar_def split: Option.bind_splits)
    note place = keeps_placeD [OF dispatch_keeps_place [OF q(1)]]
    have "collected p' = 0" using place(4) assms(2) q(2) by simp
    then show ?thesis using place(1-3) assms(1) q(2)
      by (intro progressI) (auto simp: total_def not_complete altered_def remaining_def)
  qed
qed

lemma back_progress:
  assumes "\<not> isComplete p" and "func p' = parseUnknown" and "buf p' = buf p" and "pos p < pos p'"
  shows "progress p p'"
proof (rule progressI)
  show "total p' < total p" using assms by (simp add: total_def not_complete) (simp add: remaining_def)
  show "altered p p'" using assms(4) by (simp add: altered_def)
qed

lemma charset_back: "parse_charset code p m = Some (p', m') \<Longrightarrow> p' = resetParseFunction (advance 1 p)"
  by (auto simp: parse_charset_def consumeChar_def split: Option.bind_splits if_splits)

lemma percent_back: "pos p < pos (fst (parse_percent p m))" "buf (fst (parse_percent p m)) = buf p"
  "func (fst (parse_percent p m)) = parseUnknown"
  by (simp_all add: parse_percent_def consumeChar_def Let_def)

lemma hash_back: "parse_hash H p m = Some (p', m') \<Longrightarrow> p' = resetParseFunction (advance 1 p)"
  by (auto simp: parse_hash_def consumeChar_def split: Option.bind_splits)

lemma parse_step_progress:
  assumes "\<not> isComplete p" and "parse_step H p m = Some (p', m')"
  shows "progress p p'"
proof (cases "func p")
  case parseUntilStringTerminator
  then show ?thesis
    using assms parse_string_progress [OF assms(1)] by (cases "parse_string H p m") (auto simp: parse_step_def)
next
  case parseSpace
  then show ?thesis using assms by (auto simp: parse_step_def consumeChar_def intro: back_progress)
next
  case parseHash
  then have "p' = resetParseFunction (advance 1 p)" using assms(2) hash_back by (simp add: parse_step_def)
  then show ?thesis using assms(1) back_progress by simp
next
  case parsePercent
  then have "p' = fst (parse_percent p m)" using assms(2) by (simp add: parse_step_def)
  then show ?thesis using assms(1) percent_back back_progress by simp
next
  case (parseCharset code)
  then have "p' = resetParseFunction (advance 1 p)" using assms(2) charset_back by (simp add: parse_step_def)
  then show ?thesis using assms(1) back_progress by simp
qed (use assms unknown_progress esc_progress csi_progress dcs_progress osc_progress title_progress
    in \<open>simp_all add: parse_step_def\<close>)

section \<open>interpret\<close>

text \<open>The check of the loop is there; a step that alters nothing is an exception.\<close>

function interpret_loop :: "host \<Rightarrow> parse_state \<Rightarrow> machine \<Rightarrow> (parse_state \<times> machine) option" where
  "interpret_loop H p m =
     (if isComplete p then Some (p, m)
      else case parse_step H p m of
        None \<Rightarrow> None
      | Some (p', m') \<Rightarrow> if altered p p' then interpret_loop H p' m' else None)"
  by pat_completeness auto
termination
  by (relation "inv_image progress_rel (\<lambda>(H, p, m). p)")
    (use parse_step_progress in \<open>auto simp: wf_progress_rel progress_def\<close>)

declare interpret_loop.simps [simp del]

definition vt_interpret :: "host \<Rightarrow> jsstring \<Rightarrow> parse_state \<times> machine \<Rightarrow> (parse_state \<times> machine) option" where
  "vt_interpret H b s = interpret_loop H (resetBuf b (fst s)) (snd s)"

end
