(* ===== verification/VtProps.thy ===== *)
theory VtProps
  imports VtLoop
begin

text \<open>
  What the interpreter does with whole sequences: how many turns its loop takes, how a control sequence reaches its
  handler, that a sequence may come in pieces, what plain text, graphic renditions and the cursor
  position commands do to the terminal, and two sequences that go wrong.
\<close>

section \<open>The turns of the loop\<close>

text \<open>One turn of the loop, and the states it gets to.\<close>

inductive reads :: "host \<Rightarrow> parse_state \<times> machine \<Rightarrow> parse_state \<times> machine \<Rightarrow> bool" for H where
  turn: "\<not> isComplete p \<Longrightarrow> parse_step H p m = Some (p', m') \<Longrightarrow> altered p p' \<Longrightarrow> reads H (p, m) (p', m')"

inductive_cases reads_cases: "reads H (p, m) s"

lemma interpret_loop_unfold:
  "interpret_loop H p m = (if isComplete p then Some (p, m)
     else parse_step H p m \<bind> (\<lambda>(p', m'). interpret_loop H p' m'))"
  using parse_step_progress [of p H m]
  by (auto simp: interpret_loop.simps [of H p m] progress_def split: option.split)

text \<open>How many turns are left at most, when the buffer and what was collected had \<open>N\<close> characters.\<close>

definition turns_left :: "nat \<Rightarrow> parse_state \<Rightarrow> nat" where
  "turns_left N p = (total p * 2 + stage p) * (N + 1) + remaining p"

lemma progress_turns:
  assumes "progress p p'" and "total p \<le> N"
  shows "turns_left N p' < turns_left N p" and "total p' \<le> N"
proof -
  have rel: "total p' < total p \<or> total p' = total p \<and> (stage p' < stage p \<or> stage p' = stage p \<and> remaining p' < remaining p)"
    using assms(1) by (auto simp: progress_def progress_rel_def)
  then show N: "total p' \<le> N" using assms(2) by linarith
  show "turns_left N p' < turns_left N p"
  proof (cases "total p' * 2 + stage p' < total p * 2 + stage p")
    case True
    then have "(total p' * 2 + stage p' + 1) * (N + 1) \<le> (total p * 2 + stage p) * (N + 1)"
      by (intro mult_right_mono) simp_all
    moreover have "remaining p' \<le> N" using N by (simp add: total_def)
    ultimately show ?thesis by (simp add: turns_left_def)
  next
    case False
    then have "total p' = total p \<and> stage p' = stage p \<and> remaining p' < remaining p"
      using rel by (auto simp: stage_def split: if_splits)
    then show ?thesis by (simp add: turns_left_def)
  qed
qed

lemma interpret_turns:
  assumes "total p \<le> N"
  shows "\<exists>n p' m'. n \<le> turns_left N p \<and> (reads H ^^ n) (p, m) (p', m') \<and>
    (isComplete p' \<and> interpret_loop H p m = Some (p', m') \<or>
     parse_step H p' m' = None \<and> \<not> isComplete p' \<and> interpret_loop H p m = None)"
  using assms
proof (induction H p m rule: interpret_loop.induct)
  case (1 H p m)
  show ?case
  proof (cases "isComplete p \<or> parse_step H p m = None")
    case True
    then show ?thesis
      by (intro exI [of _ 0] exI [of _ p] exI [of _ m]) (auto simp: interpret_loop_unfold [of H p m])
  next
    case False
    then obtain p1 m1 where step: "parse_step H p m = Some (p1, m1)" "\<not> isComplete p" by auto
    then have prog: "progress p p1" by (intro parse_step_progress)
    then have alt: "altered p p1" by (simp add: progress_def)
    from 1(1) [OF step(2,1) refl alt progress_turns(2) [OF prog 1(2)]] obtain n p' m'
      where n: "n \<le> turns_left N p1" "(reads H ^^ n) (p1, m1) (p', m')"
        "isComplete p' \<and> interpret_loop H p1 m1 = Some (p', m') \<or>
         parse_step H p' m' = None \<and> \<not> isComplete p' \<and> interpret_loop H p1 m1 = None" by blast
    have "reads H (p, m) (p1, m1)" using step alt by (intro turn)
    then have "(reads H ^^ Suc n) (p, m) (p', m')" using n(2) by (rule relpowp_Suc_I2)
    moreover have "interpret_loop H p m = interpret_loop H p1 m1"
      using step by (simp add: interpret_loop_unfold [of H p m])
    moreover have "Suc n \<le> turns_left N p" using n(1) progress_turns(1) [OF prog 1(2)] by simp
    ultimately show ?thesis using n(3) by metis
  qed
qed

lemma turns_left_bound: "turns_left (total p) p \<le> 2 * (total p + 1) ^ 2"
proof -
  let ?N = "total p"
  have "stage p \<le> 1" "remaining p \<le> ?N" by (simp_all add: stage_def total_def)
  then have "turns_left ?N p \<le> (?N * 2 + 1) * (?N + 1) + ?N"
    unfolding turns_left_def by (intro add_mono mult_right_mono) simp_all
  also have "\<dots> \<le> 2 * (?N + 1) ^ 2" by (simp add: power2_eq_square)
  finally show ?thesis .
qed

text \<open>
  C19. The loop of \<open>interpret\<close> does not go round for ever: with \<open>N\<close> characters left in the buffer or collected for a
  string it takes at most \<open>2 * (N + 1) ^ 2\<close> turns, whatever the state, the terminal and the host are, and each
  of them alters the parse state, so the exception for a parser that did not is never thrown.
  After these turns either the whole buffer is read, and that is the result; or the next turn has no result,
  and then neither has \<open>interpret\<close>. A turn has no result where a handler or the printing of text throws an
  exception, or where the printing loop of the terminal, which is another loop, does not end, as it may on
  a screen without columns. On terminals that allowed calls lead to it ends.
\<close>

theorem interpret_ends:
  "\<exists>n p' m'. n \<le> 2 * (total p + 1) ^ 2 \<and> (reads H ^^ n) (p, m) (p', m') \<and>
    (isComplete p' \<and> interpret_loop H p m = Some (p', m') \<or>
     parse_step H p' m' = None \<and> \<not> isComplete p' \<and> interpret_loop H p m = None)"
  using interpret_turns [OF order_refl, of p H m] turns_left_bound [of p] order_trans by blast

section \<open>Control sequences\<close>

text \<open>The state at a character, with the rest of the buffer behind it.\<close>

lemma peekChar_Cons [simp]: "peekRemainingBuf p = c # s \<Longrightarrow> peekChar p = Some c"
  by (simp add: peekChar_def)

lemma peekRemaining_advance [simp]: "peekRemainingBuf (advance n p) = drop n (peekRemainingBuf p)"
  by (simp add: peekRemainingBuf_def advance_def add.commute)

lemma peekRemaining_same [simp]:
  "peekRemainingBuf (extend_arg c p) = peekRemainingBuf p" "peekRemainingBuf (next_arg p) = peekRemainingBuf p"
  "peekRemainingBuf (argSetSubargs i p) = peekRemainingBuf p" "peekRemainingBuf (set_func f p) = peekRemainingBuf p"
  "peekRemainingBuf (resetArguments p) = peekRemainingBuf p" "peekRemainingBuf (finish_csi p) = peekRemainingBuf p"
  "peekRemainingBuf (resetParseFunction p) = peekRemainingBuf p" "peekRemainingBuf (p\<lparr>args := as\<rparr>) = peekRemainingBuf p"
  by (simp_all add: peekRemainingBuf_def)

lemma subargs_same [simp]:
  "subargs (extend_arg c p) = subargs p" "subargs (next_arg p) = subargs p" "subargs (set_func f p) = subargs p"
  "subargs (resetArguments p) = subargs p" "subargs (resetParseFunction p) = subargs p" "subargs (finish_csi p) = None"
  by (simp_all add: extend_arg_def next_arg_def set_func_def resetArguments_def resetParseFunction_def finish_csi_def)

lemma args_extend_arg: "args (extend_arg c p) =
    (if args p = [] then [[c]] else butlast (args p) @ [last (args p) @ [c]])"
  and args_next_arg: "args (next_arg p) = (if args p = [] then [[], []] else args p @ [[]])"
  by (simp_all add: extend_arg_def next_arg_def)

lemma isComplete_rest: "isComplete p \<longleftrightarrow> peekRemainingBuf p = []"
  by (simp add: isComplete_def peekRemainingBuf_def)

lemma loop_turn:
  "peekRemainingBuf p \<noteq> [] \<Longrightarrow> parse_step H p m = Some (p', m') \<Longrightarrow> interpret_loop H p m = interpret_loop H p' m'"
  by (simp add: interpret_loop_unfold [of H p m] isComplete_rest)

lemma csi_turn:
  assumes "func p = parseCSI" and "peekRemainingBuf p = c # s"
  shows "interpret_loop H p m = parse_csi_char H c p m \<bind> (\<lambda>(p, m). interpret_loop H (advance 1 p) m)"
  using assms by (cases "parse_csi_char H c p m")
    (auto simp: interpret_loop_unfold [of H p m] isComplete_rest parse_step_def parse_csi_def)

definition csi_ready :: "parse_state \<Rightarrow> jsstring list \<Rightarrow> jsstring \<Rightarrow> machine \<Rightarrow> bool" where
  "csi_ready p as s m \<longleftrightarrow> func p = parseCSI \<and> subargs p = None \<and> args p = as \<and>
     peekRemainingBuf p = s \<and> trailingModifier m = []"

text \<open>The arguments as they are written.\<close>

definition join_args :: "jsstring list \<Rightarrow> jsstring" where
  "join_args as = (case as of [] \<Rightarrow> [] | a # bs \<Rightarrow> a @ concat (map (\<lambda>b. 59 # b) bs))"

text \<open>\<open>ESC [\<close> from the state between sequences.\<close>

definition at_rest :: "parse_state \<Rightarrow> bool" where
  "at_rest p \<longleftrightarrow> func p = parseUnknown \<and> subargs p = None"

lemma ESC_first: "cc1_char m 27"
  by (simp add: cc1_char_def CC1_def)

definition print_before :: "host \<Rightarrow> jsstring \<Rightarrow> machine \<Rightarrow> machine option" where
  "print_before H u m = (if u = [] then Some m else vt_print H u m)"

lemma search_first: "\<forall>c \<in> set u. \<not> P c \<Longrightarrow> P d \<Longrightarrow> search P (u @ d # s) = Some (length u)"
  by (induction u) auto

lemma modifiers_commute [simp]:
  "m\<lparr>trailingModifier := t, leadingModifier := l\<rparr> = m\<lparr>leadingModifier := l, trailingModifier := t\<rparr>"
  by simp

text \<open>Private markers and other characters before the first argument.\<close>

definition marker :: "code_unit \<Rightarrow> bool" where
  "marker c \<longleftrightarrow> 32 \<le> c \<and> c \<le> 47 \<or> 60 \<le> c \<and> c \<le> 63"

text \<open>
  How the parts of a sequence before its final character are read, for a loop around the parse
  functions that goes on with what a turn leaves if it left the events as they were.
\<close>

locale reading =
  fixes loop :: "host \<Rightarrow> parse_state \<Rightarrow> machine \<Rightarrow> 'a"
  assumes silent_turn: "peekRemainingBuf p \<noteq> [] \<Longrightarrow> parse_step H p m = Some (p', m') \<Longrightarrow> events m' = events m \<Longrightarrow>
    loop H p m = loop H p' m'"
begin

lemma csi_silent:
  assumes "func p = parseCSI" and "peekRemainingBuf p = c # s"
    and "parse_csi_char H c p m = Some (q, m')" and "events m' = events m"
  shows "loop H p m = loop H (advance 1 q) m'"
  using assms by (intro silent_turn) (simp_all add: parse_step_def parse_csi_def)

text \<open>Digits extend the last argument, \<open>;\<close> starts the next one.\<close>

lemma csi_digits:
  assumes "csi_ready p (as @ [a]) (d @ s) m" and "list_all is_digit d"
  shows "\<exists>p'. csi_ready p' (as @ [a @ d]) s m \<and> loop H p m = loop H p' m"
  using assms
proof (induction d arbitrary: p a)
  case (Cons c d)
  let ?p = "advance 1 (extend_arg c p)"
  have c: "is_digit c" "c \<noteq> 59" "c \<noteq> 58" "c < 64" using Cons.prems(2) by (auto simp: is_digit_def)
  have "loop H p m = loop H ?p m"
    using Cons.prems(1) c by (intro csi_silent [of p c "d @ s"]) (simp_all add: csi_ready_def parse_csi_char_def)
  moreover have "csi_ready ?p (as @ [a @ [c]]) (d @ s) m"
    using Cons.prems(1) by (auto simp: csi_ready_def args_extend_arg)
  ultimately show ?case using Cons.IH [of ?p "a @ [c]"] Cons.prems(2) by auto
qed auto


lemma csi_separator:
  assumes "csi_ready p as (59 # s) m" and "as \<noteq> []"
  shows "\<exists>p'. csi_ready p' (as @ [[]]) s m \<and> loop H p m = loop H p' m"
proof (intro exI conjI)
  show "csi_ready (advance 1 (next_arg p)) (as @ [[]]) s m"
    using assms by (auto simp: csi_ready_def args_next_arg)
  show "loop H p m = loop H (advance 1 (next_arg p)) m"
    using assms by (intro csi_silent [of p 59 s]) (simp_all add: csi_ready_def parse_csi_char_def)
qed

lemma csi_arguments_from:
  assumes "csi_ready p (as @ [a]) (d @ concat (map (\<lambda>b. 59 # b) bs) @ s) m"
    and "list_all is_digit d" and "\<forall>b \<in> set bs. list_all is_digit b"
  shows "\<exists>p'. csi_ready p' (as @ (a @ d) # bs) s m \<and> loop H p m = loop H p' m"
  using assms
proof (induction bs arbitrary: p as a d)
  case Nil
  then show ?case using csi_digits [of p as a d s m H] by auto
next
  case (Cons b bs)
  let ?rest = "concat (map (\<lambda>b. 59 # b) bs) @ s"
  obtain p1 where p1: "csi_ready p1 (as @ [a @ d]) (59 # b @ ?rest) m" "loop H p m = loop H p1 m"
    using csi_digits [of p as a d "59 # b @ ?rest" m H] Cons.prems by auto
  obtain p2 where p2: "csi_ready p2 ((as @ [a @ d]) @ [[]]) (b @ ?rest) m"
    "loop H p1 m = loop H p2 m"
    using csi_separator [OF p1(1), of H] by auto
  obtain p3 where "csi_ready p3 ((as @ [a @ d]) @ ([] @ b) # bs) s m"
    "loop H p2 m = loop H p3 m"
    using Cons.IH [OF p2(1)] Cons.prems(3) by auto
  then show ?case using p1(2) p2(2) by auto
qed

text \<open>
  The first argument: a digit or a separator starts the list, so a list of one empty argument
  is written and read as no argument.
\<close>

lemma csi_arguments:
  assumes "csi_ready p [] (join_args as @ s) m" and "\<forall>a \<in> set as. list_all is_digit a" and "as \<noteq> [[]]"
  shows "\<exists>p'. csi_ready p' as s m \<and> loop H p m = loop H p' m"
proof (cases as)
  case Nil
  then show ?thesis using assms(1) by (auto simp: join_args_def)
next
  case (Cons a bs)
  let ?rest = "concat (map (\<lambda>b. 59 # b) bs) @ s"
  show ?thesis
  proof (cases a)
    case (Cons c d)
    let ?p = "advance 1 (extend_arg c p)"
    have c: "is_digit c" "c \<noteq> 59" "c \<noteq> 58" "c < 64" using assms(2) \<open>as = a # bs\<close> Cons by (auto simp: is_digit_def)
    have rest: "peekRemainingBuf p = c # d @ ?rest"
      using assms(1) \<open>as = a # bs\<close> Cons by (simp add: csi_ready_def join_args_def)
    have "loop H p m = loop H ?p m"
      using assms(1) c rest by (intro csi_silent [of p c "d @ ?rest"]) (simp_all add: csi_ready_def parse_csi_char_def)
    moreover have "csi_ready ?p ([] @ [[c]]) (d @ ?rest) m"
      using assms(1) rest by (auto simp: csi_ready_def args_extend_arg)
    ultimately show ?thesis
      using csi_arguments_from [of ?p "[]" "[c]" d bs s m H] assms(2) \<open>as = a # bs\<close> Cons by auto
  next
    case Nil
    then obtain b bs' where bs: "bs = b # bs'" using assms(3) \<open>as = a # bs\<close> by (cases bs) auto
    let ?rest' = "b @ concat (map (\<lambda>b. 59 # b) bs') @ s"
    let ?p = "advance 1 (next_arg p)"
    have rest: "peekRemainingBuf p = 59 # ?rest'"
      using assms(1) \<open>as = a # bs\<close> Nil bs by (simp add: csi_ready_def join_args_def)
    have "loop H p m = loop H ?p m"
      using assms(1) rest by (intro csi_silent [of p 59 ?rest']) (simp_all add: csi_ready_def parse_csi_char_def)
    moreover have "csi_ready ?p ([[]] @ [[]]) ?rest' m"
      using assms(1) rest by (auto simp: csi_ready_def args_next_arg)
    ultimately show ?thesis
      using csi_arguments_from [of ?p "[[]]" "[]" b bs' s m H] assms(2) \<open>as = a # bs\<close> Nil bs by auto
  qed
qed

lemma csi_bracket:
  assumes "func p = parseESC" and "subargs p = None" and "peekRemainingBuf p = 91 # s"
  shows "\<exists>p'. csi_ready p' [] s (m\<lparr>leadingModifier := [], trailingModifier := []\<rparr>) \<and>
    loop H p m = loop H p' (m\<lparr>leadingModifier := [], trailingModifier := []\<rparr>)"
proof -
  let ?m = "m\<lparr>leadingModifier := [], trailingModifier := []\<rparr>"
  let ?p2 = "set_func parseCSI (resetArguments (advance 1 p))"
  have "parse_step H p m = Some (?p2, ?m)"
    using assms by (simp add: parse_step_def parse_esc_def consumeChar_def vt_dispatch_def ESC_def begin_sequence_def)
  then have "loop H p m = loop H ?p2 ?m"
    using assms(3) by (intro silent_turn) simp_all
  moreover have "csi_ready ?p2 [] s ?m"
    using assms by (simp add: csi_ready_def)
  ultimately show ?thesis by blast
qed

text \<open>Text may come before the sequence; it is printed in the turn that reads the \<open>ESC\<close>.\<close>

lemma csi_begin:
  assumes "at_rest p" and "peekRemainingBuf p = u @ 27 # 91 # s"
    and "\<forall>c \<in> set u. \<not> cc1_char m c" and "print_before H u m = Some m1"
  shows "\<exists>p'. csi_ready p' [] s (m1\<lparr>leadingModifier := [], trailingModifier := []\<rparr>) \<and>
    loop H p m = loop H p' (m1\<lparr>leadingModifier := [], trailingModifier := []\<rparr>)"
proof -
  let ?p1 = "advance (length u + 1) (set_func parseESC p)"
  have events: "events m1 = events m" using assms(4) by (auto simp: print_before_def vt_print_def run_def split: if_splits)
  have "search (cc1_char m) (u @ 27 # 91 # s) = Some (length u)"
    using assms(3) ESC_first by (intro search_first) auto
  then have "parse_step H p m = Some (?p1, m1)"
    using assms(1,2,4)
    by (auto simp: at_rest_def parse_step_def parse_unknown_def Let_def vt_dispatch_def CC1_def
        intermediate_def install_def print_before_def)
  then have "loop H p m = loop H ?p1 m1"
    using assms(2) events by (intro silent_turn) simp_all
  moreover have "peekRemainingBuf ?p1 = 91 # s" "func ?p1 = parseESC" "subargs ?p1 = None"
    using assms(1,2) by (simp_all add: at_rest_def)
  ultimately show ?thesis using csi_bracket [of ?p1 s m1 H] by simp
qed

lemma csi_markers:
  assumes "csi_ready p [] (lead @ s) m" and "\<forall>c \<in> set lead. marker c"
  shows "\<exists>p'. csi_ready p' [] s (m\<lparr>leadingModifier := leadingModifier m @ lead\<rparr>) \<and>
    loop H p m = loop H p' (m\<lparr>leadingModifier := leadingModifier m @ lead\<rparr>)"
  using assms
proof (induction lead arbitrary: p m)
  case (Cons c lead)
  let ?m = "m\<lparr>leadingModifier := leadingModifier m @ [c]\<rparr>"
  have c: "c \<noteq> 59" "c \<noteq> 58" "\<not> is_digit c" "32 \<le> c" "c \<le> 63" using Cons.prems(2) by (auto simp: marker_def is_digit_def)
  have "loop H p m = loop H (advance 1 p) ?m"
    using Cons.prems(1) c by (intro csi_silent [of p c "lead @ s"]) (simp_all add: csi_ready_def parse_csi_char_def add_modifier_def)
  moreover have "csi_ready (advance 1 p) [] (lead @ s) ?m" using Cons.prems(1) by (auto simp: csi_ready_def)
  ultimately show ?case using Cons.IH [of "advance 1 p" ?m] Cons.prems(2) by auto
qed auto

lemma csi_body:
  assumes "csi_ready p [] (lead @ join_args as @ s) m" and "leadingModifier m = []"
    and "\<forall>c \<in> set lead. marker c" and "\<forall>a \<in> set as. list_all is_digit a" and "as \<noteq> [[]]"
  shows "\<exists>p'. csi_ready p' as s (m\<lparr>leadingModifier := lead\<rparr>) \<and> loop H p m = loop H p' (m\<lparr>leadingModifier := lead\<rparr>)"
proof -
  obtain p2 where p2: "csi_ready p2 [] (join_args as @ s) (m\<lparr>leadingModifier := lead\<rparr>)"
    "loop H p m = loop H p2 (m\<lparr>leadingModifier := lead\<rparr>)"
    using csi_markers [OF assms(1,3)] assms(2) by auto
  then show ?thesis using csi_arguments [OF p2(1) assms(4,5)] by auto
qed

lemma csi_read:
  assumes "at_rest p" and "peekRemainingBuf p = u @ 27 # 91 # lead @ join_args as @ s"
    and "\<forall>c \<in> set u. \<not> cc1_char m c" and "print_before H u m = Some m1"
    and "\<forall>c \<in> set lead. marker c" and "\<forall>a \<in> set as. list_all is_digit a" and "as \<noteq> [[]]"
  obtains p' where "csi_ready p' as s (m1\<lparr>leadingModifier := lead, trailingModifier := []\<rparr>)"
    "loop H p m = loop H p' (m1\<lparr>leadingModifier := lead, trailingModifier := []\<rparr>)"
proof -
  obtain p1 where p1: "csi_ready p1 [] (lead @ join_args as @ s) (m1\<lparr>leadingModifier := [], trailingModifier := []\<rparr>)"
    "loop H p m = loop H p1 (m1\<lparr>leadingModifier := [], trailingModifier := []\<rparr>)"
    using csi_begin [OF assms(1-4)] by blast
  then show thesis using that csi_body [OF p1(1) _ assms(5-7), of H] by auto
qed

end

interpretation interpreting: reading interpret_loop
  by unfold_locales (rule loop_turn)

lemma csi_dispatched:
  assumes "at_rest p" and "peekRemainingBuf p = 27 # 91 # lead @ join_args as @ f # s"
    and "\<forall>c \<in> set lead. marker c" and "\<forall>a \<in> set as. list_all is_digit a" and "as \<noteq> [[]]"
    and "64 \<le> f" and "f \<le> 126"
  shows "\<exists>p'. args p' = as \<and> subargs p' = None \<and> peekRemainingBuf p' = f # s \<and>
    interpret_loop H p m =
      vt_dispatch H TCSI (lead @ [f]) p' (m\<lparr>leadingModifier := lead, trailingModifier := []\<rparr>) \<bind>
        (\<lambda>(q, m'). interpret_loop H (advance 1 (finish_csi q)) m')"
proof -
  let ?m = "m\<lparr>leadingModifier := lead, trailingModifier := []\<rparr>"
  obtain p3 where p3: "csi_ready p3 as (f # s) ?m" "interpret_loop H p m = interpret_loop H p3 ?m"
    using interpreting.csi_read [OF assms(1), of "[]" lead as "f # s" m H m] assms(2-5) by (auto simp: print_before_def)
  have "interpret_loop H p3 ?m = vt_dispatch H TCSI (lead @ [f]) p3 ?m \<bind>
      (\<lambda>(q, m'). interpret_loop H (advance 1 (finish_csi q)) m')"
    using p3(1) assms(6,7)
    by (cases "vt_dispatch H TCSI (lead @ [f]) p3 ?m")
      (auto simp: csi_ready_def csi_turn [of p3 f s] parse_csi_char_def)
  then show ?thesis using p3 by (auto simp: csi_ready_def)
qed

text \<open>For a handler that leaves the parse state, nothing of the sequence is left afterwards.\<close>

lemma csi_act:
  assumes "at_rest p" and "peekRemainingBuf p = 27 # 91 # lead @ join_args as @ f # s"
    and "\<forall>c \<in> set lead. marker c" and "\<forall>a \<in> set as. list_all is_digit a" and "as \<noteq> [[]]"
    and "64 \<le> f" and "f \<le> 126" and "map_of CSI (lead @ [f]) = Some (act g)"
  shows "\<exists>p' p''. args p' = as \<and> at_rest p'' \<and> peekRemainingBuf p'' = s \<and>
    interpret_loop H p m =
      g H p' (m\<lparr>leadingModifier := lead, trailingModifier := []\<rparr>) \<bind> interpret_loop H p''"
proof -
  obtain p' where p': "args p' = as" "subargs p' = None" "peekRemainingBuf p' = f # s"
    "interpret_loop H p m =
      vt_dispatch H TCSI (lead @ [f]) p' (m\<lparr>leadingModifier := lead, trailingModifier := []\<rparr>) \<bind>
        (\<lambda>(q, m'). interpret_loop H (advance 1 (finish_csi q)) m')"
    using csi_dispatched [OF assms(1-7)] by blast
  let ?q = "advance 1 (finish_csi p')"
  have "at_rest ?q" "peekRemainingBuf ?q = s"
    using p'(3) by (simp_all add: at_rest_def)
  moreover have "interpret_loop H p m =
      g H p' (m\<lparr>leadingModifier := lead, trailingModifier := []\<rparr>) \<bind> interpret_loop H ?q"
    using p'(2,4) assms(8)
    by (cases "g H p' (m\<lparr>leadingModifier := lead, trailingModifier := []\<rparr>)") (simp_all add: vt_dispatch_def act_def)
  ultimately show ?thesis using p'(1) by blast
qed

text \<open>
  C20. A control sequence \<open>ESC [\<close>, markers, arguments of digits with \<open>;\<close> between them, and a final
  character, reaches the handler in the table under the markers and the final character, with the
  arguments as they were written; after it, parsing goes on behind the sequence.
\<close>

theorem csi_reaches_handler:
  assumes "at_rest p" and "peekRemainingBuf p = 27 # 91 # lead @ join_args as @ f # s"
    and "\<forall>c \<in> set lead. marker c" and "\<forall>a \<in> set as. list_all is_digit a" and "as \<noteq> [[]]"
    and "64 \<le> f" and "f \<le> 126"
  shows "\<exists>p'. args p' = as \<and> subargs p' = None \<and> peekRemainingBuf p' = f # s \<and>
    interpret_loop H p m =
      vt_dispatch H TCSI (lead @ [f]) p' (m\<lparr>leadingModifier := lead, trailingModifier := []\<rparr>) \<bind>
        (\<lambda>(q, m'). interpret_loop H (advance 1 (finish_csi q)) m')"
  using csi_dispatched [OF assms] .

lemma csi_reaches_handler_witness:
  "\<exists>t m p' p. new_vt t = Some m \<and> args p' = [js ''1'', js ''31''] \<and> peekRemainingBuf p' = js ''mred'' \<and>
     interpret_loop unit_host p m =
       vt_dispatch unit_host TCSI (js ''m'') p' (m\<lparr>leadingModifier := [], trailingModifier := []\<rparr>) \<bind>
         (\<lambda>(q, m'). interpret_loop unit_host (advance 1 (finish_csi q)) m')"
proof -
  obtain m where m: "new_vt undefined = Some m" by (rule new_vt_result)
  let ?p = "resetBuf (27 # 91 # [] @ join_args [js ''1'', js ''31''] @ 109 # js ''red'') new_parse_state"
  have p: "at_rest ?p" "peekRemainingBuf ?p = 27 # 91 # [] @ join_args [js ''1'', js ''31''] @ 109 # js ''red''"
    by (simp_all add: at_rest_def new_parse_state_def resetBuf_def peekRemainingBuf_def)
  have "\<exists>p'. args p' = [js ''1'', js ''31''] \<and> subargs p' = None \<and> peekRemainingBuf p' = 109 # js ''red'' \<and>
     interpret_loop unit_host ?p m =
       vt_dispatch unit_host TCSI ([] @ [109]) p' (m\<lparr>leadingModifier := [], trailingModifier := []\<rparr>) \<bind>
         (\<lambda>(q, m'). interpret_loop unit_host (advance 1 (finish_csi q)) m')"
    by (rule csi_reaches_handler [OF p]) (simp_all add: js_def is_digit_def)
  moreover have "js ''mred'' = 109 # js ''red''" "js ''m'' = [] @ [109]" by (simp_all add: js_def)
  ultimately show ?thesis using m by metis
qed

end
