(* ===== verification/VtChunks.thy ===== *)
theory VtChunks
  imports VtProps
begin

text \<open>
  The input comes in pieces, one call of \<open>interpret\<close> each. What the interpreter does depends on the
  parse function, the arguments and the text that is left only, not on where in which buffer it
  is; so a control sequence may be cut within its arguments.
\<close>

section \<open>Handlers do not look at the buffer\<close>

abbreviation put_at :: "nat \<Rightarrow> jsstring \<Rightarrow> parse_state \<Rightarrow> parse_state" where
  "put_at x b p \<equiv> p\<lparr>pos := x, buf := b\<rparr>"

definition blind :: "entry \<Rightarrow> bool" where
  "blind e \<longleftrightarrow> (case e of Ignore \<Rightarrow> True
     | Handler sub f \<Rightarrow> (\<forall>H code p m x b.
         f H code (put_at x b p) m = map_option (map_prod (put_at x b) id) (f H code p m)))"

lemma put_at_args [simp]:
  "nth_arg i (put_at x b p) = nth_arg i p" "iarg i d (put_at x b p) = iarg i d p"
  "arg_is i (put_at x b p) n = arg_is i p n" "arg_unset i (put_at x b p) = arg_unset i p"
  "argHasSubargs i (put_at x b p) = argHasSubargs i p"
  "args (put_at x b p) = args p" "subargs (put_at x b p) = subargs p"
  by (simp_all add: nth_arg_def iarg_def arg_is_def arg_unset_def argHasSubargs_def)

lemma put_at_modes [simp]:
  "setANSIMode i (put_at x b p) state = setANSIMode i p state"
  "setDECMode H i (put_at x b p) state = setDECMode H i p state"
  by (simp_all add: setANSIMode_def setDECMode_def fun_eq_iff)

lemma put_at_sgr_arg: "sgr_arg (put_at x b p) i ta = sgr_arg p i ta"
  unfolding sgr_arg_def sgr_style_def underline_style_def parseSgrExtendedColors_def put_at_args by (rule refl)

lemma put_at_sgr [simp]: "sgr (put_at x b p) ta = sgr p ta"
proof -
  have "sgr_loop (put_at x b p) i ta = sgr_loop p i ta" for i ta
  proof (induction p i ta rule: sgr_loop.induct)
    case (1 p i ta)
    then show ?case
      by (simp add: sgr_loop.simps [of "put_at x b p" i ta] sgr_loop.simps [of p i ta] put_at_sgr_arg Let_def
          split_beta)
  qed
  then show ?thesis by (simp only: sgr_def put_at_args)
qed

lemma put_at_updates:
  "resetParseFunction (put_at x b p) = put_at x b (resetParseFunction p)"
  "resetArguments (put_at x b p) = put_at x b (resetArguments p)"
  "set_func f (put_at x b p) = put_at x b (set_func f p)"
  by (cases p; simp add: resetParseFunction_def resetArguments_def set_func_def)+

lemma blind_act: "(\<And>H p m x b. f H (put_at x b p) m = f H p m) \<Longrightarrow> blind (act f)"
  by (simp add: blind_def act_def option.map_comp comp_def)

lemma blind_simple [simp]:
  "blind Ignore" "blind (act (\<lambda>H p. g H))" "blind (term_act k)" "blind (term_act_total l)"
  "blind (count_act u)" "blind (count_act_total v)" "blind (tab_times l)"
  by (auto simp: term_act_def term_act_total_def count_act_def count_act_total_def tab_times_def
      intro!: blind_act) (simp add: blind_def)

lemma blind_installs [simp]:
  "blind (osc_act k)" "blind cancel" "blind (begin_sequence fn)" "blind (begin_string fn)" "blind (intermediate fn)"
  "blind (install (\<lambda>code. set_func (h code)))"
  by (simp_all add: blind_def osc_act_def act_def cancel_def begin_sequence_def begin_string_def intermediate_def
      install_def put_at_updates option.map_comp comp_def)

lemma ESC_blind: "\<forall>(code, e) \<in> set ESC. blind e"
  by (simp add: ESC_def)

lemma CC1_blind: "\<forall>(code, e) \<in> set CC1. blind e"
proof -
  have "blind (esc_entry code)" for code
    using ESC_blind by (auto simp: esc_entry_def split: option.split dest!: map_of_SomeD)
  then show ?thesis by (simp add: CC1_def)
qed

lemma blind_csi [simp]:
  "blind column_act" "blind cup" "blind erase_display" "blind erase_in_line" "blind clear_tabs"
  "blind (ansi_modes s)" "blind (private_modes s)" "blind status_report" "blind private_report"
  "blind cursor_style" "blind scroll_region" "blind tile_data"
  "blind (act (\<lambda>H p m. if length (args p) \<le> 1 then iarg 0 1 p \<bind> (\<lambda>n. run (vtScrollDown (screen_env H) n) m) else Some m))"
  "blind (act (\<lambda>H p m. if arg_unset 0 p then send w m else Some m))"
  "blind (Handler True (\<lambda>H code p m. map_option (Pair p) (run (on_attributes (sgr p)) m)))"
  unfolding column_act_def cup_def erase_display_def erase_in_line_def clear_tabs_def ansi_modes_def
    private_modes_def status_report_def private_report_def cursor_style_def scroll_region_def tile_data_def
  by (auto intro!: blind_act cong: if_cong)
    (auto simp: blind_def option.map_comp comp_def run_def on_attributes_def)

lemma CSI_blind: "\<forall>(code, e) \<in> set CSI. blind e"
  unfolding CSI_def list.set ball_simps prod.case by (intro conjI TrueI) (rule blind_simple blind_installs blind_csi)+

lemma OSC_blind: "\<forall>(code, e) \<in> set OSC. blind e"
  by (auto simp: OSC_def intro!: blind_act)

lemma dispatch_blind:
  "vt_dispatch H tab code (put_at x b p) m = map_option (map_prod (put_at x b) id) (vt_dispatch H tab code p m)"
proof -
  have "\<forall>(code, e) \<in> set (table_of tab). blind e"
    using ESC_blind CC1_blind CSI_blind OSC_blind by (cases tab) (simp_all add: DCS_def)
  then have "blind e" if "map_of (table_of tab) code = Some e" for e
    using that by (auto dest: map_of_SomeD)
  then show ?thesis by (auto simp: vt_dispatch_def blind_def split: option.split entry.split)
qed

section \<open>States with the same text left\<close>

definition same_rest :: "parse_state \<Rightarrow> parse_state \<Rightarrow> bool" where
  "same_rest p q \<longleftrightarrow> func p = func q \<and> args p = args q \<and> subargs p = subargs q \<and>
     peekRemainingBuf p = peekRemainingBuf q"

definition agree :: "(parse_state \<times> machine) option \<Rightarrow> (parse_state \<times> machine) option \<Rightarrow> bool" where
  "agree = rel_option (\<lambda>(p, m) (q, n). same_rest p q \<and> m = n)"

lemma agree_simps [simp]:
  "agree None None" "agree (Some (p, m)) (Some (q, n)) \<longleftrightarrow> same_rest p q \<and> m = n"
  by (simp_all add: agree_def)

lemma agree_bind:
  assumes "agree a b" and "\<And>p q m. same_rest p q \<Longrightarrow> agree (f (p, m)) (g (q, m))"
  shows "agree (a \<bind> f) (b \<bind> g)"
  using assms by (cases a; cases b) (auto simp: agree_def)

lemma same_rest_put_at: "same_rest p q \<Longrightarrow> q = put_at (pos q) (buf q) p"
  by (cases p; cases q) (simp add: same_rest_def)

lemma same_rest_updates [intro]:
  assumes "same_rest p q"
  shows "same_rest (advance n p) (advance n q)" "same_rest (resetParseFunction p) (resetParseFunction q)"
    "same_rest (resetArguments p) (resetArguments q)" "same_rest (finish_csi p) (finish_csi q)"
    "same_rest (finish_dcs p) (finish_dcs q)" "same_rest (next_arg p) (next_arg q)"
    "same_rest (extend_arg c p) (extend_arg c q)" "same_rest (argSetSubargs i p) (argSetSubargs i q)"
    "same_rest (set_func f p) (set_func f q)" "same_rest (reset_parse_state b p) (reset_parse_state b q)"
    "same_rest (resetBuf b p) (resetBuf b q)" "same_rest (p\<lparr>args := as\<rparr>) (q\<lparr>args := as\<rparr>)"
  using assms
  by (simp_all add: same_rest_def)
    (simp_all add: resetParseFunction_def resetArguments_def finish_csi_def finish_dcs_def next_arg_def
      extend_arg_def argSetSubargs_def set_func_def reset_parse_state_def resetBuf_def peekRemainingBuf_def)

lemma agree_dispatch:
  assumes "same_rest p q"
  shows "agree (vt_dispatch H tab code p m) (vt_dispatch H tab code q m)"
proof -
  have q: "vt_dispatch H tab code q m = map_option (map_prod (put_at (pos q) (buf q)) id) (vt_dispatch H tab code p m)"
    using dispatch_blind same_rest_put_at [OF assms] by metis
  show ?thesis
  proof (cases "vt_dispatch H tab code p m")
    case (Some r)
    then have "pos (fst r) = pos p" "buf (fst r) = buf p"
      using keeps_placeD [OF dispatch_keeps_place [of H tab code p m "fst r" "snd r"]] by simp_all
    then have "peekRemainingBuf (put_at (pos q) (buf q) (fst r)) = peekRemainingBuf (fst r)"
      using assms by (simp add: same_rest_def peekRemainingBuf_def)
    then show ?thesis using q Some by (cases r) (simp add: same_rest_def)
  qed (simp add: q)
qed

section \<open>The loop depends on what is left\<close>

lemma same_restD:
  assumes "same_rest p q"
  shows "func q = func p" "args q = args p" "subargs q = subargs p" "peekRemainingBuf q = peekRemainingBuf p"
    "peekChar q = peekChar p"
  using assms by (simp_all add: same_rest_def peekChar_def)

lemma agree_unknown:
  assumes s: "same_rest p q"
  shows "agree (parse_unknown H p m) (parse_unknown H q m)"
proof (cases "search (cc1_char m) (peekRemainingBuf p)")
  case None
  then show ?thesis using s
    by (cases "vt_print H (peekRemainingBuf p) m") (auto simp: parse_unknown_def same_restD [OF s])
next
  case (Some i)
  then show ?thesis using s
    by (cases "if i = 0 then Some m else vt_print H (take i (peekRemainingBuf p)) m")
      (auto simp: parse_unknown_def same_restD [OF s] intro!: agree_bind agree_dispatch)
qed

lemma agree_csi_char:
  assumes s: "same_rest p q"
  shows "agree (parse_csi_char H c p m) (parse_csi_char H c q m)"
  using s by (auto simp: parse_csi_char_def Let_def same_restD [OF s] add_modifier_def args_extend_arg
      intro!: agree_bind agree_dispatch)

lemma agree_dcs_char:
  assumes s: "same_rest p q"
  shows "agree (parse_dcs_char H c p m) (parse_dcs_char H c q m)"
  using s by (auto simp: parse_dcs_char_def same_restD [OF s] add_modifier_def intro!: agree_dispatch)

lemma agree_csi:
  assumes s: "same_rest p q"
  shows "agree (parse_csi H p m) (parse_csi H q m)"
  using s by (cases "peekChar p") (auto simp: parse_csi_def same_restD [OF s] intro!: agree_bind agree_csi_char)

lemma same_rest_strings: "same_rest p q \<Longrightarrow>
    same_rest (if func p = parseDCS then set_func f p else p) (if func q = parseDCS then set_func f q else q)"
  using same_restD(1) [of p q] by (cases "func p = parseDCS") (simp_all add: same_rest_updates)

lemma agree_dcs:
  assumes s: "same_rest p q"
  shows "agree (parse_dcs H p m) (parse_dcs H q m)"
proof (cases "peekChar p")
  case (Some c)
  show ?thesis
  proof (cases "64 \<le> c \<and> c \<le> 126")
    case True
    have "agree (vt_dispatch H TDCS code (advance 1 p) m) (vt_dispatch H TDCS code (advance 1 q) m)" for code
      using s by (intro agree_dispatch) auto
    then show ?thesis using True Some same_rest_strings
      by (auto simp: parse_dcs_def same_restD [OF s] simp del: One_nat_def intro!: agree_bind)
  next
    case False
    then show ?thesis using Some s
      by (auto simp: parse_dcs_def same_restD [OF s] intro!: agree_bind agree_dcs_char)
  qed
qed (simp add: parse_dcs_def same_restD [OF s])

lemma string_start_same: "same_rest p q \<Longrightarrow> string_start H q m = string_start H p m"
  unfolding string_start_def by (simp only: same_restD)

lemma same_string:
  assumes s: "same_rest p q" and "parse_string H p m = (ok, p', m')"
  shows "\<exists>q'. parse_string H q m = (ok, q', m') \<and> same_rest p' q'"
proof -
  obtain as t ins m1 where st: "string_start H p m = (as, t, ins, m1)" by (metis prod_cases4)
  show ?thesis
  proof (cases "found_terminator t")
    case (Some i)
    then show ?thesis
      using assms(2) same_rest_updates(1) [OF same_rest_updates(2) [OF same_rest_updates(12) [OF s]]]
      by (auto simp: parse_string_def st string_start_same [OF s])
  next
    case None
    then show ?thesis
      using assms(2) same_rest_updates(10) [OF same_rest_updates(12) [OF s]]
        same_rest_updates(1) [OF same_rest_updates(12) [OF s]]
      by (auto simp: parse_string_def st string_start_same [OF s] Let_def split: if_splits)
  qed
qed

lemma agree_string: "same_rest p q \<Longrightarrow> agree (Some (snd (parse_string H p m))) (Some (snd (parse_string H q m)))"
  using same_string [of p q H m] by (cases "parse_string H p m") (auto simp: split_beta)

lemma agree_osc:
  assumes s: "same_rest p q"
  shows "agree (parse_osc H p m) (parse_osc H q m)"
proof -
  obtain ok p1 m1 where p1: "parse_string H p m = (ok, p1, m1)" by (metis prod_cases3)
  then obtain q1 where q1: "parse_string H q m = (ok, q1, m1)" "same_rest p1 q1" using same_string [OF s] by blast
  show ?thesis
  proof (cases "\<not> ok \<or> func p1 = parseOSC")
    case False
    show ?thesis
    proof (cases "match_osc (args p1 ! 0)")
      case None
      then show ?thesis using p1 q1 False by (auto simp: parse_osc_def same_restD [OF q1(2)])
    next
      case (Some r)
      have "agree (vt_dispatch H TOSC (fst r) (p1\<lparr>args := (args p1)[0 := snd r]\<rparr>) m1)
          (vt_dispatch H TOSC (fst r) (q1\<lparr>args := (args p1)[0 := snd r]\<rparr>) m1)"
        using q1(2) by (intro agree_dispatch) auto
      then show ?thesis using p1 q1 False Some
        by (auto simp: parse_osc_def same_restD [OF q1(2)] split_beta intro!: agree_bind)
    qed
  qed (use p1 q1 in \<open>auto simp: parse_osc_def same_restD [OF q1(2)]\<close>)
qed

lemma agree_title:
  assumes s: "same_rest p q"
  shows "agree (parse_title H p m) (parse_title H q m)"
proof -
  obtain ok p1 m1 where p1: "parse_string H p m = (ok, p1, m1)" by (metis prod_cases3)
  then obtain q1 where q1: "parse_string H q m = (ok, q1, m1)" "same_rest p1 q1" using same_string [OF s] by blast
  then show ?thesis using p1 by (auto simp: parse_title_def same_restD [OF q1(2)] emit_def)
qed

lemma agree_esc:
  assumes s: "same_rest p q"
  shows "agree (parse_esc H p m) (parse_esc H q m)"
proof (cases "peekChar p")
  case (Some c)
  have "agree (vt_dispatch H TESC [c] (advance 1 p) m) (vt_dispatch H TESC [c] (advance 1 q) m)"
    using s by (intro agree_dispatch) auto
  moreover have "same_rest (if func a = parseESC then resetParseFunction a else a)
      (if func b = parseESC then resetParseFunction b else b)" if "same_rest a b" for a b
    using that same_restD(1) [OF that] by auto
  ultimately show ?thesis using Some s
    by (auto simp: parse_esc_def consumeChar_def same_restD [OF s] simp del: One_nat_def intro!: agree_bind)
qed (simp add: parse_esc_def consumeChar_def same_restD [OF s])

lemma agree_rest:
  assumes s: "same_rest p q"
  shows "agree (parse_hash H p m) (parse_hash H q m)"
    and "agree (parse_charset code p m) (parse_charset code q m)"
    and "agree (Some (parse_percent p m)) (Some (parse_percent q m))"
    and "same_rest (resetParseFunction (snd (consumeChar p))) (resetParseFunction (snd (consumeChar q)))"
proof -
  note one = same_rest_updates(1) [OF s, of 1]
  note two = same_rest_updates(2) [OF one] same_rest_updates(2) [OF same_rest_updates(1) [OF one, of 1]]
  show "agree (parse_hash H p m) (parse_hash H q m)"
    using two by (cases "peekChar p = Some 56")
      (auto simp: parse_hash_def consumeChar_def same_restD [OF s] simp del: One_nat_def intro!: agree_bind
        split: Option.bind_split)
  show "agree (parse_charset code p m) (parse_charset code q m)"
    using two by (cases "peekChar p") (auto simp: parse_charset_def consumeChar_def same_restD [OF s] simp del: One_nat_def)
  show "agree (Some (parse_percent p m)) (Some (parse_percent q m))"
    using two same_restD(5) [OF one]
    by (simp add: parse_percent_def consumeChar_def same_restD [OF s] Let_def del: One_nat_def)
  show "same_rest (resetParseFunction (snd (consumeChar p))) (resetParseFunction (snd (consumeChar q)))"
    using two by (simp add: consumeChar_def)
qed

lemma agree_step:
  assumes s: "same_rest p q"
  shows "agree (parse_step H p m) (parse_step H q m)"
  using agree_unknown [OF s, of H m] agree_esc [OF s, of H m] agree_csi [OF s, of H m] agree_dcs [OF s, of H m]
    agree_string [OF s, of H m] agree_osc [OF s, of H m] agree_title [OF s, of H m] agree_rest [OF s]
  by (simp add: parse_step_def same_restD(1) [OF s] split: parser.split)

lemma agree_loop: "same_rest p q \<Longrightarrow> agree (interpret_loop H p m) (interpret_loop H q m)"
proof (induction H p m arbitrary: q rule: interpret_loop.induct)
  case (1 H p m)
  note s = 1(2)
  show ?case
  proof (cases "isComplete p")
    case True
    then show ?thesis using s same_restD(4) [OF s]
      by (simp add: interpret_loop_unfold [of H p] interpret_loop_unfold [of H q] isComplete_rest)
  next
    case False
    then have q: "\<not> isComplete q" using same_restD(4) [OF s] by (simp add: isComplete_rest)
    have "agree (parse_step H p m \<bind> (\<lambda>(p, m). interpret_loop H p m))
        (parse_step H q m \<bind> (\<lambda>(p, m). interpret_loop H p m))"
    proof (cases "parse_step H p m")
      case None
      then show ?thesis using agree_step [OF s, of H m] by (cases "parse_step H q m") (simp_all add: agree_def)
    next
      case (Some r)
      obtain p1 m1 where r: "r = (p1, m1)" by force
      then obtain q1 where q1: "parse_step H q m = Some (q1, m1)" "same_rest p1 q1"
        using agree_step [OF s, of H m] Some by (cases "parse_step H q m") (auto simp: agree_def)
      have "altered p p1" using parse_step_progress [OF False] Some r by (simp add: progress_def)
      then have "agree (interpret_loop H p1 m1) (interpret_loop H q1 m1)"
        using 1(1) [OF False] Some r q1(2) by blast
      then show ?thesis using Some r q1(1) by simp
    qed
    then show ?thesis using False q by (simp add: interpret_loop_unfold [of H p m] interpret_loop_unfold [of H q m])
  qed
qed

section \<open>Cutting a control sequence\<close>

text \<open>A character of the arguments: what it does to the parse state.\<close>

definition argument_char :: "code_unit \<Rightarrow> bool" where
  "argument_char c \<longleftrightarrow> is_digit c \<or> c = 58 \<or> c = 59"

definition read_argument :: "code_unit \<Rightarrow> parse_state \<Rightarrow> parse_state" where
  "read_argument c p = (if c = 59 then next_arg p
     else let p = extend_arg c p in if c = 58 then argSetSubargs (length (args p) - 1) p else p)"

lemma read_argument_same: "same_rest p q \<Longrightarrow> same_rest (read_argument c p) (read_argument c q)"
  by (auto simp: read_argument_def Let_def args_extend_arg same_restD)

lemma read_argument_csi: "func (read_argument c p) = func p"
  by (simp add: read_argument_def Let_def)

lemma read_argument_resetBuf: "read_argument c (resetBuf x p) = resetBuf x (read_argument c p)"
  by (simp add: read_argument_def Let_def next_arg_def extend_arg_def argSetSubargs_def resetBuf_def)

lemma advance_resetBuf: "same_rest (advance 1 (resetBuf (c # x) p)) (resetBuf x p)"
  by (simp add: same_rest_def advance_def resetBuf_def peekRemainingBuf_def)

lemma argument_turn:
  assumes "func p = parseCSI" and "trailingModifier m = []" and "argument_char c"
  shows "agree (vt_interpret H (c # x) (p, m)) (vt_interpret H x (read_argument c p, m))"
proof -
  let ?p = "resetBuf (c # x) p"
  have c: "c < 64" "c \<noteq> 59 \<Longrightarrow> is_digit c \<or> c = 58" using assms(3) by (auto simp: argument_char_def is_digit_def)
  have rest: "peekRemainingBuf ?p = c # x" "func ?p = parseCSI"
    using assms(1) by (simp_all add: resetBuf_def peekRemainingBuf_def)
  have "parse_csi_char H c ?p m = Some (read_argument c ?p, m)"
  proof (cases "c = 59")
    case True
    then show ?thesis using assms(2) by (simp add: parse_csi_char_def read_argument_def)
  next
    case False
    then show ?thesis using assms(2) c by (auto simp: parse_csi_char_def read_argument_def Let_def)
  qed
  then have "interpret_loop H ?p m = interpret_loop H (advance 1 (read_argument c ?p)) m"
    using csi_turn [OF rest(2,1), of H m] by simp
  then show ?thesis
    using agree_loop [OF advance_resetBuf [of c x "read_argument c p"]]
    by (simp add: vt_interpret_def read_argument_resetBuf del: One_nat_def)
qed

lemma agree_iff: "agree a b \<longleftrightarrow>
    map_option (\<lambda>(p, m). (func p, args p, subargs p, peekRemainingBuf p, m)) a =
    map_option (\<lambda>(p, m). (func p, args p, subargs p, peekRemainingBuf p, m)) b"
  by (cases a; cases b) (auto simp: agree_def same_rest_def)

lemma agree_refl [simp]: "agree a a" and agree_sym: "agree a b \<Longrightarrow> agree b a"
  and agree_trans: "agree a b \<Longrightarrow> agree b c \<Longrightarrow> agree a c"
  by (simp_all add: agree_iff)

lemma interpret_same: "same_rest p q \<Longrightarrow> agree (vt_interpret H b (p, m)) (vt_interpret H b (q, m))"
  using agree_loop same_rest_updates(11) by (simp add: vt_interpret_def)

lemma cut_arguments:
  assumes "func p = parseCSI" and "trailingModifier m = []" and "\<forall>c \<in> set x. argument_char c"
  shows "agree (vt_interpret H (x @ y) (p, m)) (vt_interpret H x (p, m) \<bind> vt_interpret H y)"
  using assms
proof (induction x arbitrary: p)
  case Nil
  have "vt_interpret H [] (p, m) = Some (resetBuf [] p, m)"
    using interpret_loop_unfold [of H "resetBuf [] p" m] by (simp add: vt_interpret_def isComplete_def resetBuf_def)
  moreover have "resetBuf y (resetBuf [] p) = resetBuf y p" by (simp add: resetBuf_def)
  ultimately show ?case by (simp add: vt_interpret_def)
next
  case (Cons c x)
  let ?q = "read_argument c p"
  have c: "argument_char c" "\<forall>c \<in> set x. argument_char c" "func ?q = parseCSI"
    using Cons.prems by (simp_all add: read_argument_csi)
  note turn = argument_turn [OF Cons.prems(1,2) c(1), of H]
  have "agree (vt_interpret H (c # x @ y) (p, m)) (vt_interpret H x (?q, m) \<bind> vt_interpret H y)"
    using agree_trans [OF turn Cons.IH [OF c(3) Cons.prems(2) c(2)]] .
  moreover have "agree (vt_interpret H x (?q, m) \<bind> vt_interpret H y) (vt_interpret H (c # x) (p, m) \<bind> vt_interpret H y)"
    using agree_sym [OF turn] interpret_same by (rule agree_bind)
  ultimately have "agree (vt_interpret H (c # x @ y) (p, m)) (vt_interpret H (c # x) (p, m) \<bind> vt_interpret H y)"
    by (rule agree_trans)
  then show ?case by simp
qed

text \<open>
  C24. Input may be cut within the arguments of a control sequence: interpreting the two pieces one
  after the other leaves the same machine, and the same parse function, arguments and
  subarguments, as interpreting them in one; either both throw or neither.
\<close>

theorem cut_in_arguments:
  assumes "func p = parseCSI" and "trailingModifier m = []" and "\<forall>c \<in> set x. argument_char c"
  shows "rel_option (\<lambda>(q, n) (q', n'). n = n' \<and> func q = func q' \<and> args q = args q' \<and> subargs q = subargs q')
    (vt_interpret H (x @ y) (p, m)) (vt_interpret H x (p, m) \<bind> vt_interpret H y)"
  using cut_arguments [OF assms] unfolding agree_def
  by (rule option.rel_mono_strong) (auto simp: same_rest_def)

lemma cut_in_arguments_witness:
  "\<exists>m p. new_vt undefined = Some m \<and> func p = parseCSI \<and> (\<forall>H. rel_option (\<lambda>(q, n) (q', n'). n = n' \<and> args q = args q')
     (vt_interpret H (js ''1;31mred'') (p, m)) (vt_interpret H (js ''1;3'') (p, m) \<bind> vt_interpret H (js ''1mred'')))"
proof -
  obtain m where m: "new_vt undefined = Some m" "trailingModifier m = []" by (rule new_vt_result)
  let ?p = "set_func parseCSI new_parse_state"
  have "\<forall>c \<in> set (js ''1;3''). argument_char c" by (simp add: js_def argument_char_def is_digit_def)
  then have "rel_option (\<lambda>(q, n) (q', n'). n = n' \<and> args q = args q')
     (vt_interpret H (js ''1;3'' @ js ''1mred'') (?p, m)) (vt_interpret H (js ''1;3'') (?p, m) \<bind> vt_interpret H (js ''1mred''))" for H
    using cut_in_arguments [OF _ m(2), of ?p "js ''1;3''" H "js ''1mred''"]
    by (auto elim!: option.rel_mono_strong)
  moreover have "js ''1;3'' @ js ''1mred'' = js ''1;31mred''" by (simp add: js_def)
  moreover have "func ?p = parseCSI" by simp
  ultimately show ?thesis using m(1) by metis
qed

end
