(* ===== verification/VtRun.thy ===== *)
theory VtRun
  imports VtProps
begin

text \<open>
  The interpreter on the terminal: cursor position commands and reports, text with format
  characters as a run of terminal operations, graphic renditions, and sequences that fail.
\<close>

section \<open>Cursor position\<close>

lemma iarg_number:
  assumes "i < length (args p)" and "args p ! i = js_of_int n" and "1 \<le> n"
  shows "iarg i d p = Some n"
proof -
  have digits: "takeWhile is_digit (js_of_int n) = js_of_int n"
    using assms(3) js_of_int_digits [of n] takeWhile_eq_all_conv [of is_digit "js_of_int n"] by auto
  have "parse_int (js_of_int n) = Some n"
    unfolding parse_int_def Let_def digits using assms(3) digits_value_of_int [of n] by auto
  then show ?thesis using assms by (simp add: iarg_def nth_arg_def parseInt_default_def)
qed

lemma arg_is_number:
  assumes "i < length (args p)" and "args p ! i = js_of_int n" and "0 \<le> n"
  shows "arg_is i p k \<longleftrightarrow> n = k"
  using assms js_of_int_digits [of n] by (simp add: arg_is_def nth_arg_def to_number_def list_all_iff digits_value_of_int)

lemma digits_js_of_int: "0 \<le> n \<Longrightarrow> list_all is_digit (js_of_int n)"
  using js_of_int_digits by (simp add: list_all_iff)

text \<open>The sequence \<open>CSI row ; column H\<close>, and the request and the answer of a position report.\<close>

definition cup_sequence :: "int \<Rightarrow> int \<Rightarrow> jsstring" where
  "cup_sequence r c = 27 # 91 # join_args [js_of_int r, js_of_int c] @ [72]"

definition position_request :: jsstring where
  "position_request = 27 # 91 # join_args [js_of_int 6] @ [110]"

definition position_answer :: "int \<Rightarrow> int \<Rightarrow> jsstring" where
  "position_answer r c = 27 # 91 # join_args [js_of_int r, js_of_int c] @ [82]"

text \<open>
  C21. A program that places the cursor with \<open>CSI row ; column H\<close>, on the screen and not in origin
  mode, and asks for the position with \<open>CSI 6 n\<close> gets the same row and column back; the cursor is
  there, counted from 0, and no text changed.
\<close>

theorem position_report:
  assumes "at_rest p" and "term_ok (screen_env H) (vt_terminal m)"
    and "\<not> originMode (options (vt_terminal m))"
    and "1 \<le> r" "r \<le> height (screenSize (vt_terminal m))"
    and "1 \<le> c" "c \<le> width (screenSize (vt_terminal m))"
  shows "\<exists>p' m'. vt_interpret H (cup_sequence r c @ position_request) (p, m) = Some (p', m') \<and>
    at_rest p' \<and> term_ok (screen_env H) (vt_terminal m') \<and>
    events m' = events m @ [SendString (position_answer r c)] \<and>
    cursor (vt_terminal m') = RowCol (r - 1) (c - 1) \<and>
    screen_text (vt_terminal m') = screen_text (vt_terminal m)"
proof -
  have no_markers: "\<forall>c \<in> set []. marker c" by simp
  have finals: "64 \<le> (72 :: int)" "(72 :: int) \<le> 126" "64 \<le> (110 :: int)" "(110 :: int) \<le> 126" by simp_all
  let ?E = "screen_env H" and ?t = "vt_terminal m"
  let ?p = "resetBuf (cup_sequence r c @ position_request) p"
  let ?m1 = "m\<lparr>leadingModifier := [], trailingModifier := []\<rparr>"
  have start: "at_rest ?p" "peekRemainingBuf ?p = 27 # 91 # [] @ join_args [js_of_int r, js_of_int c] @ 72 # position_request"
    using assms(1) by (simp_all add: at_rest_def resetBuf_def peekRemainingBuf_def cup_sequence_def)
  have cup: "map_of CSI ([] @ [72]) = Some cup" by (simp add: CSI_def)
  have rc: "\<forall>a \<in> set [js_of_int r, js_of_int c]. list_all is_digit a" "[js_of_int r, js_of_int c] \<noteq> [[]]"
    using assms(4,6) digits_js_of_int by auto
  obtain p1 p2 where p1: "args p1 = [js_of_int r, js_of_int c]" "at_rest p2"
    "peekRemainingBuf p2 = position_request" "interpret_loop H ?p m = (iarg 0 1 p1 \<bind> (\<lambda>r. iarg 1 1 p1 \<bind>
       (\<lambda>c. run_total (terminal_setCursorPosition ?E (r - 1) (c - 1)) ?m1))) \<bind> interpret_loop H p2"
    using csi_act [OF start no_markers rc finals(1,2) cup [unfolded cup_def], where m = m and H = H]
    by blast
  let ?u = "terminal_setCursorPosition ?E (r - 1) (c - 1) ?t"
  have u: "?u = setAbsoluteCursorPosition ?E (r - 1) (c - 1) ?t"
    using assms(3) by (simp add: terminal_setCursorPosition_def)
  have mv: "moved ?E ?t ?u" using assms(2) by (simp add: moves)
  have cur: "cursor ?u = RowCol (r - 1) (c - 1)"
    using moved_absolute(2) [OF term_ok_wf [OF assms(2)], of "r - 1" "c - 1"] assms(4-7) by (simp add: u)
  let ?m2 = "?m1\<lparr>vt_terminal := ?u\<rparr>"
  have first: "interpret_loop H ?p m = interpret_loop H p2 ?m2"
    using p1(1,4) iarg_number [of 0 p1 r 1] iarg_number [of 1 p1 c 1] assms(4,6) by (simp add: run_total_def)
  have rest: "peekRemainingBuf p2 = 27 # 91 # [] @ join_args [js_of_int 6] @ 110 # []"
    using p1(3) by (simp add: position_request_def)
  have six: "\<forall>a \<in> set [js_of_int 6]. list_all is_digit a" "[js_of_int 6] \<noteq> [[]]"
    using digits_js_of_int [of 6] by auto
  have dsr: "map_of CSI ([] @ [110]) = Some status_report" by (simp add: CSI_def)
  have same: "?m2\<lparr>leadingModifier := [], trailingModifier := []\<rparr> = ?m2" by (cases m) simp
  obtain p3 p4 where p3: "args p3 = [js_of_int 6]" "at_rest p4" "peekRemainingBuf p4 = []"
    "interpret_loop H p2 ?m2 = (if arg_is 0 p3 5 then send (27 # js ''0n'') ?m2
       else if arg_is 0 p3 6 then report_position ?m2 else Some ?m2) \<bind> interpret_loop H p4"
    using csi_act [OF p1(2) rest no_markers six finals(3,4) dsr [unfolded status_report_def], where m = ?m2 and H = H,
        unfolded same] by blast
  have "report_position ?m2 = Some (?m2\<lparr>events := events m @ [SendString (position_answer r c)]\<rparr>)"
    using cur by (simp add: report_position_def send_def emit_def getCursorRow_def getCursorColumn_def
        RowCol_def position_answer_def join_args_def)
  then have "interpret_loop H ?p m = Some (p4, ?m2\<lparr>events := events m @ [SendString (position_answer r c)]\<rparr>)"
    using first p3 arg_is_number [of 0 p3 6] by (simp add: interpret_loop_unfold [of H p4] isComplete_rest)
  then show ?thesis
    using p3(2) movedD(1) [OF mv] cur moved_screen_text [OF mv] by (simp add: vt_interpret_def)
qed

lemma position_report_witness:
  "\<exists>t m p' m'. reachable unit_env t \<and> new_vt t = Some m \<and>
     vt_interpret unit_host (cup_sequence 24 80 @ position_request) (new_parse_state, m) = Some (p', m') \<and>
     events m' = [SendString (position_answer 24 80)]"
proof -
  obtain t where t: "reachable unit_env t" "term_ok unit_env t" "screenSize t = \<lparr>width = 80, height = 24\<rparr>"
    "options t = new_options"
    using placed_terminal [of 0 0] by auto
  obtain m where m: "new_vt t = Some m" "vt_terminal m = t" "events m = []" by (rule new_vt_result)
  have "at_rest new_parse_state" by (simp add: at_rest_def new_parse_state_def)
  from position_report [OF this, of unit_host m 24 80] t m show ?thesis by (auto simp: new_options_def)
qed

section \<open>Text\<close>

text \<open>Text of printable characters with backspace, tab, line feeds and carriage return in it.\<close>

definition format_char :: "code_unit \<Rightarrow> bool" where
  "format_char c \<longleftrightarrow> c \<in> {8, 9, 10, 11, 12, 13}"

definition plain_text :: "jsstring \<Rightarrow> bool" where
  "plain_text s \<longleftrightarrow> (\<forall>c \<in> set s. printable c \<or> format_char c)"

fun control_op :: "code_unit \<Rightarrow> term_op" where
  "control_op c = (if c = 8 then MoveLeft 1 else if c = 9 then TabForward
     else if c = 13 then CursorColumn 0 else FormFeed)"

text \<open>
  The calls a text stands for: each stretch without format characters is printed at once. The
  first argument is the stretch so far.
\<close>

definition print_word :: "jsstring \<Rightarrow> term_op list" where
  "print_word w = (if w = [] then [] else [Print w])"

fun text_ops :: "jsstring \<Rightarrow> jsstring \<Rightarrow> term_op list" where
  "text_ops w [] = print_word w"
| "text_ops w (c # s) =
     (if format_char c then print_word w @ control_op c # text_ops [] s else text_ops (w @ [c]) s)"

lemma text_ops_word:
  "\<forall>c \<in> set u. \<not> format_char c \<Longrightarrow> text_ops w (u @ s) = text_ops (w @ u) s"
  by (induction u arbitrary: w) auto

fun exec_all :: "env \<Rightarrow> term_op list \<Rightarrow> terminal \<Rightarrow> terminal option" where
  "exec_all E [] t = Some t"
| "exec_all E (op # ops) t = exec E op t \<bind> exec_all E ops"

definition plain_charset :: "machine \<Rightarrow> bool" where
  "plain_charset m \<longleftrightarrow> codingSystemUtf8 m \<or> GL_map (active_map (charsets m)) = None"

lemma plain_charset_update [simp]: "plain_charset (m\<lparr>vt_terminal := t\<rparr>) = plain_charset m"
  by (simp add: plain_charset_def)

lemma vt_print_plain: "plain_charset m \<Longrightarrow> vt_print H s m =
    map_option (\<lambda>t. m\<lparr>vt_terminal := t\<rparr>) (exec (screen_env H) (Print s) (vt_terminal m))"
  by (auto simp: vt_print_def plain_charset_def run_def)

lemma cc1_plain: "printable c \<or> format_char c \<Longrightarrow> cc1_char m c \<longleftrightarrow> format_char c"
  by (auto simp: cc1_char_def CC1_def format_char_def printable_def)

lemma dispatch_format:
  assumes "format_char c" and "subargs p = None"
  shows "vt_dispatch H TCC1 [c] p m =
    map_option (\<lambda>t. (p, m\<lparr>vt_terminal := t\<rparr>)) (exec (screen_env H) (control_op c) (vt_terminal m))"
  using assms
  by (auto simp: format_char_def vt_dispatch_def CC1_def term_act_def term_act_total_def act_def run_def
      run_total_def option.map_comp comp_def)

lemma search_none: "\<forall>c \<in> set u. \<not> P c \<Longrightarrow> search P u = None"
  by (induction u) auto

lemma exec_all_append: "exec_all E (ops @ ops') t = exec_all E ops t \<bind> exec_all E ops'"
  by (induction ops arbitrary: t) (auto split: Option.bind_splits)

lemma exec_all_single: "exec_all E [op] t = exec E op t"
  by (cases "exec E op t") simp_all

text \<open>One turn: a word up to a format character, and a word at the end.\<close>

lemma word_turn:
  assumes "at_rest p" and "plain_charset m" and "peekRemainingBuf p = u @ c # s"
    and "\<forall>c \<in> set u. printable c \<and> \<not> format_char c" and "format_char c"
  shows "interpret_loop H p m = exec_all (screen_env H) (print_word u @ [control_op c]) (vt_terminal m) \<bind>
    (\<lambda>t. interpret_loop H (advance (length u + 1) p) (m\<lparr>vt_terminal := t\<rparr>))"
proof -
  let ?E = "screen_env H" and ?t = "vt_terminal m"
  have rest: "func p = parseUnknown" "subargs p = None" using assms(1) by (simp_all add: at_rest_def)
  have "search (cc1_char m) (u @ c # s) = Some (length u)"
    using assms(4,5) cc1_plain by (intro search_first) auto
  then have "parse_unknown H p m = (if u = [] then Some m else vt_print H u m) \<bind>
      (\<lambda>m. vt_dispatch H TCC1 [c] p m \<bind> (\<lambda>(p, m). Some (advance (length u + 1) p, m)))"
    using assms(3) by (simp add: parse_unknown_def Let_def)
  also have "\<dots> = exec_all ?E (print_word u @ [control_op c]) ?t \<bind>
      (\<lambda>t. Some (advance (length u + 1) p, m\<lparr>vt_terminal := t\<rparr>))"
  proof (cases "u = []")
    case True
    then show ?thesis using dispatch_format [OF assms(5) rest(2), of H m]
      by (cases "exec ?E (control_op c) ?t") (simp_all add: print_word_def del: control_op.simps)
  next
    case False
    then show ?thesis
      using dispatch_format [OF assms(5) rest(2), of H] vt_print_plain [OF assms(2), of H u]
      by (cases "exec ?E (Print u) ?t"; cases "exec ?E (control_op c) (the (exec ?E (Print u) ?t))")
        (simp_all add: print_word_def del: control_op.simps exec.simps)
  qed
  finally show ?thesis
    using assms(3) rest(1)
    by (cases "exec_all ?E (print_word u @ [control_op c]) ?t")
      (simp_all add: interpret_loop_unfold [of H p m] isComplete_rest parse_step_def)
qed

lemma word_end:
  assumes "at_rest p" and "plain_charset m" and "\<forall>c \<in> set (peekRemainingBuf p). printable c \<and> \<not> format_char c"
  shows "\<exists>p'. at_rest p' \<and> interpret_loop H p m = map_option (\<lambda>t. (p', m\<lparr>vt_terminal := t\<rparr>))
    (exec_all (screen_env H) (print_word (peekRemainingBuf p)) (vt_terminal m))"
proof (cases "peekRemainingBuf p = []")
  case True
  then show ?thesis using assms(1)
    by (intro exI [of _ p]) (simp add: interpret_loop_unfold [of H p m] isComplete_rest print_word_def)
next
  case False
  let ?s = "peekRemainingBuf p" and ?E = "screen_env H" and ?t = "vt_terminal m"
  let ?q = "reset_parse_state [] p"
  have rest: "func p = parseUnknown" "subargs p = None" using assms(1) by (simp_all add: at_rest_def)
  have q: "at_rest ?q" "isComplete ?q"
    using rest by (simp_all add: at_rest_def reset_parse_state_def resetBuf_def isComplete_def)
  have "search (cc1_char m) ?s = None" using assms(3) cc1_plain by (intro search_none) auto
  then have "parse_step H p m = map_option (\<lambda>t. (?q, m\<lparr>vt_terminal := t\<rparr>)) (exec ?E (Print ?s) ?t)"
    using rest(1) vt_print_plain [OF assms(2), of H ?s]
    by (cases "exec ?E (Print ?s) ?t") (simp_all add: parse_step_def parse_unknown_def Let_def del: exec.simps)
  then have "interpret_loop H p m = map_option (\<lambda>t. (?q, m\<lparr>vt_terminal := t\<rparr>)) (exec ?E (Print ?s) ?t)"
    using False q(2) by (cases "exec ?E (Print ?s) ?t")
      (simp_all add: interpret_loop_unfold [of H p m] interpret_loop_unfold [of H ?q] isComplete_rest del: exec.simps)
  then show ?thesis using q(1) False
    by (auto simp: print_word_def exec_all_single simp del: exec.simps exec_all.simps)
qed

lemma split_text:
  assumes "plain_text s"
  obtains (word) "\<forall>c \<in> set s. printable c \<and> \<not> format_char c"
  | (control) u c s' where "s = u @ c # s'" "\<forall>c \<in> set u. printable c \<and> \<not> format_char c" "format_char c" "plain_text s'"
proof (cases "\<exists>c \<in> set s. format_char c")
  case True
  then obtain u c s' where "s = u @ c # s'" "format_char c" "\<forall>x \<in> set u. \<not> format_char x"
    using split_list_first_prop [OF True] by blast
  then show thesis using control [of u c s'] assms by (auto simp: plain_text_def)
next
  case False
  then show thesis using word assms by (auto simp: plain_text_def)
qed

lemma text_runs:
  assumes "at_rest p" and "plain_charset m" and "plain_text (peekRemainingBuf p)"
  shows "\<exists>p'. at_rest p' \<and> interpret_loop H p m = map_option (\<lambda>t. (p', m\<lparr>vt_terminal := t\<rparr>))
    (exec_all (screen_env H) (text_ops [] (peekRemainingBuf p)) (vt_terminal m))"
  using assms
proof (induction "length (peekRemainingBuf p)" arbitrary: p m rule: less_induct)
  case less
  show ?case
    using less.prems(3)
  proof (cases rule: split_text)
    case word
    then show ?thesis
      using word_end [OF less.prems(1,2) word] text_ops_word [of "peekRemainingBuf p" "[]" "[]"] by simp
  next
    case (control u c s')
    let ?q = "advance (length u + 1) p" and ?E = "screen_env H" and ?t = "vt_terminal m"
    have q: "at_rest ?q" "peekRemainingBuf ?q = s'" using less.prems(1) control(1) by (simp_all add: at_rest_def)
    have ops: "text_ops [] (peekRemainingBuf p) = (print_word u @ [control_op c]) @ text_ops [] s'"
      using control text_ops_word [of u "[]" "c # s'"] by simp
    have all: "exec_all ?E (text_ops [] (peekRemainingBuf p)) ?t =
        exec_all ?E (print_word u @ [control_op c]) ?t \<bind> exec_all ?E (text_ops [] s')"
      unfolding ops by (rule exec_all_append)
    note turn = word_turn [OF less.prems(1,2) control(1-3), of H]
    show ?thesis
    proof (cases "exec_all ?E (print_word u @ [control_op c]) ?t")
      case None
      then show ?thesis using turn q(1) unfolding all by auto
    next
      case (Some t)
      have "length (peekRemainingBuf ?q) < length (peekRemainingBuf p)" using q(2) control(1) by simp
      from less.hyps [OF this q(1), of "m\<lparr>vt_terminal := t\<rparr>"] less.prems(2) control(4) q(2)
      obtain p' where "at_rest p'" "interpret_loop H ?q (m\<lparr>vt_terminal := t\<rparr>) =
          map_option (\<lambda>t. (p', m\<lparr>vt_terminal := t\<rparr>)) (exec_all ?E (text_ops [] s') t)" by auto
      then show ?thesis using turn Some unfolding all by auto
    qed
  qed
qed

text \<open>Every call of a text is one a reachable terminal takes.\<close>

lemma text_ops_printable:
  "plain_text s \<Longrightarrow> printable_str w \<Longrightarrow> \<forall>op \<in> set (text_ops w s). \<forall>t. allowed op t"
  by (induction w s rule: text_ops.induct) (auto simp: print_word_def plain_text_def format_char_def)

lemma exec_all_reachable:
  assumes "wc_ok (wc E)" and "reachable E t" and "\<forall>op \<in> set ops. \<forall>t. allowed op t"
  shows "\<exists>t'. exec_all E ops t = Some t' \<and> reachable E t'"
  using assms(2,3)
proof (induction ops arbitrary: t)
  case (Cons op ops)
  obtain t1 where t1: "exec E op t = Some t1" "term_ok E t1"
    using exec_ok [OF reachable_ok [OF assms(1) Cons.prems(1)], of op] Cons.prems(2) by auto
  then have "reachable E t1" using reachable.step [OF Cons.prems(1)] Cons.prems(2) by auto
  then show ?case using Cons.IH Cons.prems(2) t1(1) by auto
qed auto

lemma text_interpreted:
  assumes "at_rest p" and "plain_charset m" and "plain_text s"
    and "wc_ok (wc (screen_env H))" and "reachable (screen_env H) (vt_terminal m)"
  shows "\<exists>p' t. vt_interpret H s (p, m) = Some (p', m\<lparr>vt_terminal := t\<rparr>) \<and> at_rest p' \<and>
    exec_all (screen_env H) (text_ops [] s) (vt_terminal m) = Some t \<and> reachable (screen_env H) t"
proof -
  let ?p = "resetBuf s p"
  have p: "at_rest ?p" "peekRemainingBuf ?p = s"
    using assms(1) by (simp_all add: at_rest_def resetBuf_def peekRemainingBuf_def)
  obtain t where t: "exec_all (screen_env H) (text_ops [] s) (vt_terminal m) = Some t" "reachable (screen_env H) t"
    using exec_all_reachable [OF assms(4,5) text_ops_printable [OF assms(3), of "[]"]] by auto
  with text_runs [OF p(1) assms(2), of H] p(2) assms(3) show ?thesis by (auto simp: vt_interpret_def)
qed

text \<open>
  C22. Text that is not a control sequence, with the coding system UTF-8 or no translation: the
  interpreter reads all of it, makes on the terminal exactly the calls the text stands for, and
  none of them throws; nothing but the terminal changes, and it waits for the next sequence.
\<close>

theorem text_refines_calls:
  assumes "at_rest p" and "plain_charset m" and "plain_text s"
    and "wc_ok (wc (screen_env H))" and "reachable (screen_env H) (vt_terminal m)"
  shows "\<exists>p' t. vt_interpret H s (p, m) = Some (p', m\<lparr>vt_terminal := t\<rparr>) \<and> at_rest p' \<and>
    exec_all (screen_env H) (text_ops [] s) (vt_terminal m) = Some t \<and> reachable (screen_env H) t"
  using text_interpreted [OF assms] .

lemma new_vt_plain:
  obtains m where "new_vt t = Some m" "vt_terminal m = t" "plain_charset m" "\<not> codingSystemLocked m"
proof -
  obtain m where m: "new_vt t = Some m" "vt_terminal m = t" "\<not> codingSystemLocked m"
    and us: "\<exists>us. charsets m = default_sets us \<and> GL_map us = None"
    by (rule new_vt_result [of t]) simp
  from us have "plain_charset m" by (auto simp: plain_charset_def default_sets_def active_map_def js_def)
  with m that show thesis by blast
qed

lemma text_refines_calls_witness:
  "\<exists>t m p' t'. reachable unit_env t \<and> new_vt t = Some m \<and>
     vt_interpret unit_host [97, 98, 13, 10, 99, 9, 100, 8] (new_parse_state, m) = Some (p', m\<lparr>vt_terminal := t'\<rparr>) \<and>
     reachable unit_env t'"
proof -
  obtain t where t: "reachable unit_env t" using placed_terminal [of 0 0] by auto
  obtain m where m: "new_vt t = Some m" "vt_terminal m = t" "plain_charset m"
    by (rule new_vt_plain)
  have "at_rest new_parse_state" by (simp add: at_rest_def new_parse_state_def)
  moreover have "plain_text [97, 98, 13, 10, 99, 9, 100, 8]"
    by (simp add: plain_text_def format_char_def printable_def)
  ultimately show ?thesis
    using text_refines_calls [of new_parse_state m "[97, 98, 13, 10, 99, 9, 100, 8]" unit_host] t m by auto
qed

section \<open>Graphic renditions\<close>

lemma split_on_digits: "list_all (\<lambda>x. x \<noteq> c) a \<Longrightarrow> split_on c (a @ c # s) = a # split_on c s"
  by (induction a) auto

lemma split_on_last: "list_all (\<lambda>x. x \<noteq> c) a \<Longrightarrow> split_on c a = [a]"
  by (induction a) auto

lemma no_colon: "list_all is_digit a \<Longrightarrow> list_all (\<lambda>x. x \<noteq> 58) a"
  by (induction a) (auto simp: is_digit_def)

text \<open>
  The forms of a color: arguments of their own, or subarguments of one, with or without a number
  for the color space.
\<close>

definition color_args :: "int \<Rightarrow> jsstring \<Rightarrow> jsstring \<Rightarrow> jsstring \<Rightarrow> parse_state \<Rightarrow> parse_state" where
  "color_args n r g b p = p\<lparr>args := [js_of_int n, [50], r, g, b], subargs := None\<rparr>"

definition color_subargs :: "int \<Rightarrow> jsstring list \<Rightarrow> jsstring \<Rightarrow> jsstring \<Rightarrow> jsstring \<Rightarrow> parse_state \<Rightarrow> parse_state" where
  "color_subargs n space r g b p =
     p\<lparr>args := [js_of_int n @ 58 # [50] @ concat (map (\<lambda>a. 58 # a) (space @ [r, g, b]))],
       subargs := Some {0}\<rparr>"

lemma split_on_subargs:
  assumes "list_all is_digit a" and "\<forall>b \<in> set bs. list_all is_digit b"
  shows "split_on 58 (a @ concat (map (\<lambda>b. 58 # b) bs)) = a # bs"
  using assms
proof (induction bs arbitrary: a)
  case (Cons b bs)
  then show ?case using split_on_digits [OF no_colon [OF Cons.prems(1)]] by simp
qed (simp add: split_on_last no_colon)

lemma parse_int_prefix:
  assumes "0 \<le> n"
  shows "parse_int (js_of_int n @ 58 # s) = Some n" and "parse_int (js_of_int n) = Some n"
proof -
  have digits: "\<forall>c \<in> set (js_of_int n). is_digit c" using js_of_int_digits [OF assms] .
  then have "takeWhile is_digit (js_of_int n @ 58 # s) = js_of_int n" for s
    by (simp add: is_digit_def)
  moreover have "takeWhile is_digit (js_of_int n) = js_of_int n"
    using digits takeWhile_eq_all_conv by blast
  ultimately show "parse_int (js_of_int n @ 58 # s) = Some n" "parse_int (js_of_int n) = Some n"
    using digits_value_of_int [OF assms] by (simp_all only: parse_int_def Let_def js_of_int_nonempty if_False)
qed

lemma iarg_color:
  assumes "0 < n"
  shows "iarg 0 0 (color_args n r g b p) = Some n" and "iarg 0 0 (color_subargs n space r g b p) = Some n"
  using assms parse_int_prefix [of n] js_of_int_nonempty
  by (simp_all add: iarg_def nth_arg_def parseInt_default_def color_args_def color_subargs_def)

lemma two: "parse_int [50] = Some 2"
  by (simp add: parse_int_def is_digit_def digits_value_def)

lemma extended_colors:
  assumes "0 < n" and "\<forall>a \<in> set (space @ [r, g, b]). list_all is_digit a" and "length space \<le> 1"
  shows "parseSgrExtendedColors (color_args n r g b p) 0 =
      (Some (sgr_rgb [r, g, b] 0), 4)"
    and "parseSgrExtendedColors (color_subargs n space r g b p) 0 = (Some (sgr_rgb [r, g, b] 0), 0)"
proof -
  show "parseSgrExtendedColors (color_args n r g b p) 0 = (Some (sgr_rgb [r, g, b] 0), 4)"
    by (simp add: parseSgrExtendedColors_def color_args_def argHasSubargs_def list_item_def two sgr_rgb_def Let_def
        eval_nat_numeral)
  have "list_all is_digit (js_of_int n)" using digits_js_of_int assms(1) by simp
  moreover have "list_all is_digit [50]" by (simp add: is_digit_def)
  ultimately have "split_on 58 (args (color_subargs n space r g b p) ! 0) = js_of_int n # [50] # space @ [r, g, b]"
    using split_on_subargs [of "js_of_int n" "[50] # space @ [r, g, b]"] assms(2)
    by (simp add: color_subargs_def)
  then show "parseSgrExtendedColors (color_subargs n space r g b p) 0 = (Some (sgr_rgb [r, g, b] 0), 0)"
    using assms(3) by (cases space)
      (auto simp: parseSgrExtendedColors_def argHasSubargs_def list_item_def two sgr_rgb_def Let_def
        color_subargs_def eval_nat_numeral)
qed

lemma sgr_color:
  assumes "n \<in> {38, 48, 58}" and "\<forall>a \<in> set (space @ [r, g, b]). list_all is_digit a" and "length space \<le> 1"
  shows "sgr (color_args n r g b p) ta = syncColors
      ((if n = 38 then put_fg else if n = 48 then put_bg else put_ul) (sgr_rgb [r, g, b] 0) ta)"
    and "sgr (color_subargs n space r g b p) ta = sgr (color_args n r g b p) ta"
proof -
  have n: "0 < n" using assms(1) by auto
  note color = iarg_color [OF n] extended_colors [OF n assms(2,3)]
  have step: "sgr_arg (color_args n r g b p) 0 ta = ((if n = 38 then put_fg else if n = 48 then put_bg else put_ul)
      (sgr_rgb [r, g, b] 0) ta, 4)"
    "sgr_arg (color_subargs n space r g b p) 0 ta = ((if n = 38 then put_fg else if n = 48 then put_bg else put_ul)
      (sgr_rgb [r, g, b] 0) ta, 0)"
    using assms(1) color by (auto simp: sgr_arg_def set_source_def)
  have len: "length (args (color_args n r g b p)) = 5" "length (args (color_subargs n space r g b p)) = 1"
    "args (color_args n r g b p) \<noteq> []" "args (color_subargs n space r g b p) \<noteq> []"
    by (simp_all add: color_args_def color_subargs_def)
  have "sgr_loop (color_args n r g b p) 5 u = u" "sgr_loop (color_subargs n space r g b p) 1 u = u" for u
    using len by (simp_all add: sgr_loop.simps)
  then show "sgr (color_args n r g b p) ta = syncColors
      ((if n = 38 then put_fg else if n = 48 then put_bg else put_ul) (sgr_rgb [r, g, b] 0) ta)"
    "sgr (color_subargs n space r g b p) ta = sgr (color_args n r g b p) ta"
    using step len by (simp_all add: sgr_def sgr_loop.simps [of _ 0])
qed

text \<open>
  C23. A color as three arguments after \<open>38;2\<close>, as subarguments \<open>38:2:r:g:b\<close>, and as subarguments
  with a color space in between, is the same color: all forms leave the same attributes, or all
  throw, and the foreground, the background or the underline has it for 38, 48 and 58.
\<close>

theorem color_forms_agree:
  assumes "n \<in> {38, 48, 58}" and "list_all is_digit space"
    and "list_all is_digit r" and "list_all is_digit g" and "list_all is_digit b"
  shows "sgr (color_subargs n [] r g b p) ta = sgr (color_args n r g b p) ta \<and>
    sgr (color_subargs n [space] r g b p) ta = sgr (color_args n r g b p) ta \<and>
    (\<forall>ta'. sgr (color_args n r g b p) ta = Some ta' \<and> \<not> bold ta \<longrightarrow>
      (if n = 38 then foregroundSource ta' else if n = 48 then backgroundSource ta'
       else underlineSource ta') = sgr_rgb [r, g, b] 0)"
proof -
  have digits: "\<forall>a \<in> set ([] @ [r, g, b]). list_all is_digit a" "\<forall>a \<in> set ([space] @ [r, g, b]). list_all is_digit a"
    using assms(2-5) by simp_all
  show ?thesis
    using sgr_color [OF assms(1) digits(1)] sgr_color [OF assms(1) digits(2)] assms(1)
    by (auto simp: syncColors_def Let_def split: Option.bind_splits)
qed

lemma color_forms_agree_witness:
  "\<forall>p ta. sgr (color_subargs 48 [js ''1''] (js ''255'') (js ''0'') (js ''16'') p) ta =
     sgr (color_args 48 (js ''255'') (js ''0'') (js ''16'') p) ta"
  using color_forms_agree [of 48 "js ''1''" "js ''255''" "js ''0''" "js ''16''"]
  by (simp add: js_def is_digit_def)

section \<open>Sequences that go wrong\<close>

text \<open>One turn after \<open>ESC\<close>, and the turn of \<open>ESC\<close> itself.\<close>

lemma escape_turn:
  assumes "at_rest p" and "peekRemainingBuf p = 27 # s"
  shows "interpret_loop H p m = interpret_loop H (advance 1 (set_func parseESC p)) m"
    and "peekRemainingBuf (advance 1 (set_func parseESC p)) = s" and "func (advance 1 (set_func parseESC p)) = parseESC"
    and "subargs (advance 1 (set_func parseESC p)) = None"
proof -
  have "parse_step H p m = Some (advance 1 (set_func parseESC p), m)"
    using assms ESC_first
    by (simp add: at_rest_def parse_step_def parse_unknown_def Let_def vt_dispatch_def CC1_def
        intermediate_def install_def)
  then show "interpret_loop H p m = interpret_loop H (advance 1 (set_func parseESC p)) m"
    using assms(2) by (intro loop_turn) simp_all
qed (use assms in \<open>simp_all add: at_rest_def\<close>)

lemma installed_turn:
  assumes "func p = parseESC" and "subargs p = None" and "peekRemainingBuf p = c # s" and "c \<noteq> 27"
    and "map_of ESC [c] = Some (Handler False (\<lambda>H code p m. Some (set_func (g code) p, m)))" and "g [c] \<noteq> parseESC"
  shows "interpret_loop H p m = interpret_loop H (set_func (g [c]) (advance 1 p)) m"
proof -
  have "parse_step H p m = Some (set_func (g [c]) (advance 1 p), m)"
    using assms by (simp add: parse_step_def parse_esc_def consumeChar_def vt_dispatch_def)
  then show ?thesis using assms(3) by (intro loop_turn) simp_all
qed

lemma loop_throws: "peekRemainingBuf p \<noteq> [] \<Longrightarrow> parse_step H p m = None \<Longrightarrow> interpret_loop H p m = None"
  and loop_done: "peekRemainingBuf p = [] \<Longrightarrow> interpret_loop H p m = Some (p, m)"
  by (simp_all add: interpret_loop_unfold [of H p m] isComplete_rest)

lemma at_rest_start: "at_rest p \<Longrightarrow> at_rest (resetBuf s p)" "peekRemainingBuf (resetBuf s p) = s"
  by (simp_all add: at_rest_def resetBuf_def peekRemainingBuf_def)

text \<open>
  An \<open>ESC\<close> where a character set is expected, as in \<open>ESC ( ESC [ m\<close>, makes the interpreter
  throw, whatever follows: the rest of the buffer is lost.
\<close>

theorem charset_escape_throws:
  assumes "at_rest p" and "code \<in> {40, 41, 42, 43, 45, 46, 47}"
  shows "vt_interpret H (27 # code # 27 # s) (p, m) = None"
proof -
  let ?p = "resetBuf (27 # code # 27 # s) p"
  let ?p1 = "advance 1 (set_func parseESC ?p)"
  let ?p2 = "set_func (parseCharset code) (advance 1 ?p1)"
  note start = at_rest_start [where p = p and s = "27 # code # 27 # s"]
  note esc = escape_turn [OF start(1) [OF assms(1)] start(2)]
  have entry: "map_of ESC [code] = Some (Handler False (\<lambda>H code p m. Some (set_func (parseCharset (hd code)) p, m)))"
    using assms(2) by (auto simp: ESC_def install_def)
  have "interpret_loop H ?p1 m = interpret_loop H ?p2 m"
    using installed_turn [OF esc(3,4,2) _ entry, of H m] assms(2) by auto
  moreover have "interpret_loop H ?p2 m = None"
    using esc(2) by (intro loop_throws) (simp_all add: parse_step_def parse_charset_def consumeChar_def)
  ultimately show ?thesis using esc(1) by (simp add: vt_interpret_def)
qed

lemma charset_escape_throws_witness:
  "\<exists>m. new_vt undefined = Some m \<and> (\<forall>H. vt_interpret H [27, 40, 27, 91, 109] (new_parse_state, m) = None)"
proof -
  obtain m where "new_vt undefined = Some m" by (rule new_vt_result)
  moreover have "at_rest new_parse_state" by (simp add: at_rest_def new_parse_state_def)
  ultimately show ?thesis using charset_escape_throws [of new_parse_state 40] by auto
qed

text \<open>
  The sequence \<open>ESC % / G\<close>, which locks the coding system to UTF-8, does not survive being cut
  before its last character: in one piece it locks the coding system and prints nothing, in two
  pieces it changes nothing and the \<open>G\<close> is printed.
\<close>

theorem percent_sequence_cut:
  assumes "at_rest p" and "\<not> codingSystemLocked m" and "plain_charset m"
  shows "(\<exists>q. at_rest q \<and> vt_interpret H [27, 37, 47, 71] (p, m) =
      Some (q, m\<lparr>codingSystemUtf8 := True, codingSystemLocked := True\<rparr>)) \<and>
    (\<exists>q. at_rest q \<and> vt_interpret H [27, 37, 47] (p, m) \<bind> vt_interpret H [71] =
      map_option (\<lambda>t. (q, m\<lparr>vt_terminal := t\<rparr>)) (terminal_print (screen_env H) [71] (vt_terminal m)))"
proof (rule conjI)
  have entry: "map_of ESC [37] = Some (Handler False (\<lambda>H code p m. Some (set_func parsePercent p, m)))"
    by (simp add: ESC_def intermediate_def install_def)
  have upto: "\<exists>q. func q = parsePercent \<and> subargs q = None \<and> peekRemainingBuf q = 47 # s \<and>
      vt_interpret H (27 # 37 # 47 # s) (p, m) = interpret_loop H q m" for s
  proof -
    let ?p = "resetBuf (27 # 37 # 47 # s) p"
    let ?p1 = "advance 1 (set_func parseESC ?p)"
    note start = at_rest_start [where p = p and s = "27 # 37 # 47 # s"]
    note esc = escape_turn [OF start(1) [OF assms(1)] start(2)]
    have "interpret_loop H ?p1 m = interpret_loop H (set_func parsePercent (advance 1 ?p1)) m"
      using installed_turn [OF esc(3,4,2) _ entry, of H m] by simp
    then show ?thesis
      using esc by (intro exI [of _ "set_func parsePercent (advance 1 ?p1)"]) (simp add: vt_interpret_def)
  qed
  obtain q where q: "func q = parsePercent" "subargs q = None" "peekRemainingBuf q = [47, 71]"
    "vt_interpret H [27, 37, 47, 71] (p, m) = interpret_loop H q m"
    using upto [of "[71]"] by auto
  let ?q = "resetParseFunction (advance 1 (advance 1 q))"
  have "parse_percent q m = (?q, setEncoding (js ''utf-8-locked'') m)"
    using q(3) assms(2) by (simp add: parse_percent_def consumeChar_def Let_def peekChar_def)
  then have "interpret_loop H q m = Some (?q, setEncoding (js ''utf-8-locked'') m)"
    using q(1,3) loop_turn [of q H m ?q] loop_done [of ?q H] by (simp add: parse_step_def)
  then show "\<exists>q. at_rest q \<and> vt_interpret H [27, 37, 47, 71] (p, m) =
      Some (q, m\<lparr>codingSystemUtf8 := True, codingSystemLocked := True\<rparr>)"
    using q(2,4) by (intro exI [of _ ?q]) (simp add: at_rest_def setEncoding_def)
  obtain r where r: "func r = parsePercent" "subargs r = None" "peekRemainingBuf r = [47]"
    "vt_interpret H [27, 37, 47] (p, m) = interpret_loop H r m"
    using upto [of "[]"] by auto
  let ?r = "resetParseFunction (advance 1 (advance 1 r))"
  have "parse_percent r m = (?r, m)"
    using r(3) assms(2) by (simp add: parse_percent_def consumeChar_def Let_def peekChar_def)
  then have "interpret_loop H r m = Some (?r, m)"
    using r(1,3) loop_turn [of r H m ?r] loop_done [of ?r H] by (simp add: parse_step_def)
  moreover have "at_rest ?r" using r(2) by (simp add: at_rest_def)
  then have "\<exists>q. at_rest q \<and> interpret_loop H (resetBuf [71] ?r) m = map_option (\<lambda>t. (q, m\<lparr>vt_terminal := t\<rparr>))
      (exec_all (screen_env H) (print_word [71]) (vt_terminal m))"
    using word_end [OF at_rest_start(1) assms(3), where p1 = ?r and s1 = "[71]" and H = H] by (simp add: at_rest_start(2) printable_def format_char_def)
  ultimately show "\<exists>q. at_rest q \<and> vt_interpret H [27, 37, 47] (p, m) \<bind> vt_interpret H [71] =
      map_option (\<lambda>t. (q, m\<lparr>vt_terminal := t\<rparr>)) (terminal_print (screen_env H) [71] (vt_terminal m))"
    using r(4) by (simp add: vt_interpret_def print_word_def exec_all_single del: exec_all.simps)
qed

lemma percent_sequence_cut_witness:
  "\<exists>m q. new_vt undefined = Some m \<and> (\<forall>H. vt_interpret H [27, 37, 47, 71] (new_parse_state, m) \<noteq> None \<and>
     vt_interpret H [27, 37, 47] (new_parse_state, m) \<bind> vt_interpret H [71] =
       map_option (\<lambda>t. (q H, m\<lparr>vt_terminal := t\<rparr>)) (terminal_print (screen_env H) [71] (vt_terminal m)))"
proof -
  obtain m where m: "new_vt undefined = Some m" "\<not> codingSystemLocked m" "plain_charset m"
    by (rule new_vt_plain)
  have "at_rest new_parse_state" by (simp add: at_rest_def new_parse_state_def)
  from percent_sequence_cut [OF this m(2,3)] have
    "\<exists>q. vt_interpret H [27, 37, 47, 71] (new_parse_state, m) \<noteq> None \<and>
     vt_interpret H [27, 37, 47] (new_parse_state, m) \<bind> vt_interpret H [71] =
       map_option (\<lambda>t. (q, m\<lparr>vt_terminal := t\<rparr>)) (terminal_print (screen_env H) [71] (vt_terminal m))" for H
    by fastforce
  then show ?thesis using m(1) by metis
qed

end
