(* ===== verification/VtColors.thy ===== *)
theory VtColors
  imports VtRun
begin

text \<open>
  Operating system commands through the interpreter: how one reaches its handler, colors of the
  palette set and asked for, and commands that throw.
\<close>

section \<open>How a command is read\<close>

definition osc_sequence :: "jsstring \<Rightarrow> jsstring \<Rightarrow> jsstring" where
  "osc_sequence code arg = 27 # 93 # code @ 59 # arg @ [7]"

definition osc_text :: "jsstring \<Rightarrow> bool" where
  "osc_text s \<longleftrightarrow> list_all (\<lambda>c. \<not> string_control c \<and> \<not> line_terminator c) s"

lemma digits_osc_text: "list_all is_digit s \<Longrightarrow> osc_text s"
  by (auto simp: osc_text_def list_all_iff is_digit_def string_control_def line_terminator_def)

lemma osc_text_simps [simp]:
  "osc_text []" "osc_text (c # s) \<longleftrightarrow> \<not> string_control c \<and> \<not> line_terminator c \<and> osc_text s"
  "osc_text (s @ s') \<longleftrightarrow> osc_text s \<and> osc_text s'"
  by (simp_all add: osc_text_def)

text \<open>The string is read in one turn, which reads the clock once and calls the handler.\<close>

lemma osc_string:
  assumes "args p = []" and "func p = parseOSC" and "peekRemainingBuf p = code @ 59 # arg @ 7 # s"
    and "list_all is_digit code" and "code \<noteq> []" and "osc_text arg"
  shows "parse_osc H p m =
    vt_dispatch H TOSC code ((advance (length code + length arg + 2) p)
        \<lparr>func := parseUnknown, args := [arg, js_of_int (clock H (clock_reads m))]\<rparr>)
      (m\<lparr>clock_reads := clock_reads m + 1\<rparr>) \<bind> (\<lambda>(q, m). Some (resetArguments q, m))"
proof -
  let ?t = "code @ 59 # arg"
  have plain: "osc_text ?t" using assms(4,6) digits_osc_text by (simp add: string_control_def line_terminator_def)
  have "search string_control (?t @ 7 # s) = Some (length ?t)"
    using plain by (intro search_first) (simp_all add: osc_text_def list_all_iff string_control_def)
  then have found: "found_terminator (?t @ 7 # s) = Some (length ?t)"
    by (simp add: found_terminator_def nth_append)
  have str: "parse_string H p m = (True, (advance (length code + length arg + 2) p)
      \<lparr>func := parseUnknown, args := [?t, js_of_int (clock H (clock_reads m))]\<rparr>, m\<lparr>clock_reads := clock_reads m + 1\<rparr>)"
    using assms(1,3) found
    by (simp add: parse_string_def string_start_def Let_def resetParseFunction_def advance_def nth_append)
  have digits: "takeWhile is_digit ?t = code" "dropWhile is_digit ?t = 59 # arg"
    using assms(4) by (simp_all add: list_all_iff is_digit_def)
  have "match_osc ?t = Some (code, arg)"
    using assms(5,6) digits
    by (simp add: match_osc_def Let_def list_ex_iff osc_text_def list_all_iff)
  then show ?thesis using assms(2) by (simp add: parse_osc_def str)
qed

lemma osc_dispatched:
  assumes "at_rest p" and "peekRemainingBuf p = osc_sequence code arg @ s"
    and "list_all is_digit code" and "code \<noteq> []" and "osc_text arg"
  shows "\<exists>p'. args p' ! 0 = arg \<and> at_rest p' \<and> peekRemainingBuf p' = s \<and>
    interpret_loop H p m =
      vt_dispatch H TOSC code p' (m\<lparr>clock_reads := clock_reads m + 1\<rparr>) \<bind>
        (\<lambda>(q, m'). interpret_loop H (resetArguments q) m')"
proof -
  let ?p1 = "advance 1 (set_func parseESC p)" and ?m = "m\<lparr>clock_reads := clock_reads m + 1\<rparr>"
  have rest: "peekRemainingBuf p = 27 # 93 # code @ 59 # arg @ 7 # s" using assms(2) by (simp add: osc_sequence_def)
  have "parse_step H p m = Some (?p1, m)"
    using assms(1) rest ESC_first [of m]
    by (simp add: at_rest_def parse_step_def parse_unknown_def vt_dispatch_def CC1_def intermediate_def install_def)
  then have 1: "interpret_loop H p m = interpret_loop H ?p1 m" using rest by (intro loop_turn) simp_all
  define p2 where "p2 = advance 1 (set_func parseOSC (resetArguments ?p1))"
  have p2: "func p2 = parseOSC" "args p2 = []" "subargs p2 = None" "peekRemainingBuf p2 = code @ 59 # arg @ 7 # s"
    using assms(1) rest by (simp_all add: p2_def at_rest_def)
  have "parse_step H ?p1 m = Some (p2, m)"
    using assms(1) rest by (simp add: p2_def at_rest_def parse_step_def parse_esc_def consumeChar_def vt_dispatch_def
        ESC_def begin_string_def install_def)
  then have 2: "interpret_loop H ?p1 m = interpret_loop H p2 m" using rest by (intro loop_turn) simp_all
  let ?p3 = "(advance (length code + length arg + 2) p2)
      \<lparr>func := parseUnknown, args := [arg, js_of_int (clock H (clock_reads m))]\<rparr>"
  have "parse_osc H p2 m = vt_dispatch H TOSC code ?p3 ?m \<bind> (\<lambda>(q, m). Some (resetArguments q, m))"
    by (rule osc_string [OF p2(2,1,4) assms(3-5)])
  then have 3: "interpret_loop H p2 m = vt_dispatch H TOSC code ?p3 ?m \<bind> (\<lambda>(q, m'). interpret_loop H (resetArguments q) m')"
    using p2(1,4) by (cases "vt_dispatch H TOSC code ?p3 ?m")
      (auto simp: interpret_loop_unfold [of H p2 m] isComplete_rest parse_step_def)
  have "peekRemainingBuf ?p3 = drop (length code + length arg + 2) (peekRemainingBuf p2)"
    by (simp add: peekRemainingBuf_def add.commute)
  then have "at_rest ?p3" "peekRemainingBuf ?p3 = s" unfolding p2(4) using p2(3) by (simp_all add: at_rest_def)
  then show ?thesis using 1 2 3 by (intro exI [of _ ?p3]) simp
qed

lemma osc_runs:
  assumes "at_rest p" and "peekRemainingBuf p = osc_sequence code arg @ s"
    and "list_all is_digit code" and "code \<noteq> []" and "osc_text arg" and "map_of OSC code = Some (osc_act f)"
  shows "\<exists>p'. at_rest p' \<and> peekRemainingBuf p' = s \<and>
    interpret_loop H p m = f H arg (m\<lparr>clock_reads := clock_reads m + 1\<rparr>) \<bind> interpret_loop H p'"
proof -
  let ?m = "m\<lparr>clock_reads := clock_reads m + 1\<rparr>"
  obtain p' where p': "args p' ! 0 = arg" "at_rest p'" "peekRemainingBuf p' = s" "interpret_loop H p m =
      vt_dispatch H TOSC code p' ?m \<bind> (\<lambda>(q, m'). interpret_loop H (resetArguments q) m')"
    using osc_dispatched [OF assms(1-5)] by blast
  have "vt_dispatch H TOSC code p' ?m = map_option (Pair p') (f H arg ?m)"
    using p'(1,2) assms(6) by (simp add: vt_dispatch_def osc_act_def act_def at_rest_def)
  then have "interpret_loop H p m = f H arg ?m \<bind> interpret_loop H (resetArguments p')"
    using p'(4) by (cases "f H arg ?m") simp_all
  moreover have "at_rest (resetArguments p')" "peekRemainingBuf (resetArguments p') = s"
    using p'(2,3) by (simp_all add: at_rest_def)
  ultimately show ?thesis by blast
qed

section \<open>Colors of the palette\<close>

lemma parse_signed_int:
  assumes "0 \<le> i"
  shows "parse_signed (js_of_int i) = Some i"
proof -
  obtain c d where cd: "js_of_int i = c # d" by (cases "js_of_int i") simp_all
  have digits: "\<forall>x \<in> set (c # d). is_digit x" using js_of_int_digits [OF assms] unfolding cd .
  then have c: "is_digit c" "c \<noteq> 45" "c \<noteq> 43" by (auto simp: is_digit_def)
  have "takeWhile is_digit (c # d) = c # d" using digits by (simp add: takeWhile_eq_all_conv)
  then have "parse_int (c # d) = Some i"
    using digits_value_of_int [OF assms] cd by (simp add: parse_int_def Let_def)
  then show ?thesis using c cd by (simp add: parse_signed_def)
qed

definition x11_text :: "int \<Rightarrow> int \<Rightarrow> int \<Rightarrow> jsstring" where
  "x11_text r g b = the (rgbToX11 (rgb r g b))"

definition byte :: "int \<Rightarrow> bool" where
  "byte v \<longleftrightarrow> 0 \<le> v \<and> v \<le> 255"

lemma x11_text_result:
  assumes "byte r" and "byte g" and "byte b"
  shows "rgbToX11 (rgb r g b) = Some (x11_text r g b)" "x11ToCSS lower (x11_text r g b) = Some (Color (rgb r g b))"
    "osc_text (x11_text r g b)" "59 \<notin> set (x11_text r g b)" "x11_text r g b \<noteq> [63]"
proof -
  have bounds: "0 \<le> r" "r \<le> 255" "0 \<le> g" "g \<le> 255" "0 \<le> b" "b \<le> 255" using assms by (simp_all add: byte_def)
  obtain x where x: "rgbToX11 (rgb r g b) = Some x" "x = js ''rgb:'' @ x11_component (js_of_int r) @ js ''/'' @
      x11_component (js_of_int g) @ js ''/'' @ x11_component (js_of_int b)"
    using match_rgbx_written [OF bounds] by (simp add: rgbToX11_def)
  have hex: "osc_text h \<and> 59 \<notin> set h" if "list_all is_hex h" for h
    using that by (auto simp: osc_text_def list_all_iff is_hex_def is_digit_def lower_ascii_def string_control_def
        line_terminator_def split: if_splits)
  have "list_all is_hex (x11_component (js_of_int v))" if "v \<in> {r, g, b}" for v
    using that bounds x11_component_written(2) by auto
  then have "osc_text x \<and> 59 \<notin> set x \<and> x \<noteq> [63]"
    using hex unfolding x(2) by (simp add: string_control_def line_terminator_def)
  moreover have "x11ToCSS lower x = Some (Color (rgb r g b))" using x11_back [OF bounds] x(1) by simp
  ultimately show "rgbToX11 (rgb r g b) = Some (x11_text r g b)" "x11ToCSS lower (x11_text r g b) = Some (Color (rgb r g b))"
    "osc_text (x11_text r g b)" "59 \<notin> set (x11_text r g b)" "x11_text r g b \<noteq> [63]"
    using x(1) by (simp_all add: x11_text_def)
qed

lemma split_pair:
  assumes "0 \<le> i" and "59 \<notin> set v"
  shows "split_on 59 (js_of_int i @ 59 # v) = [js_of_int i, v]"
proof -
  have "list_all (\<lambda>x. x \<noteq> 59) (js_of_int i)"
    using js_of_int_digits [OF assms(1)] by (auto simp: list_all_iff is_digit_def)
  moreover have "list_all (\<lambda>x. x \<noteq> 59) v" using assms(2) by (auto simp: list_all_iff)
  ultimately show ?thesis by (simp add: split_on_digits split_on_last)
qed

text \<open>Setting a color of the palette, and asking for one.\<close>

lemma palette_set:
  assumes "0 \<le> i" "i < 256" and "byte r" "byte g" "byte b"
  shows "osc_palette H (js_of_int i @ 59 # x11_text r g b) m =
    Some (m\<lparr>vt_terminal := setOverride i (Some (rgb r g b)) (vt_terminal m)\<rparr>)"
  using assms x11_text_result [OF assms(3-5)] by (simp add: osc_palette_def split_pair palette_pair_def
      parse_signed_int setColorPalette_def)

lemma palette_asked:
  assumes "0 \<le> i" "i < 256" and "colorPaletteOverrides (textAttributes (current (vt_terminal m))) i = Some (rgb r g b)"
    and "byte r" "byte g" "byte b"
  shows "osc_palette H (js_of_int i @ 59 # js ''?'') m =
    send (palette_answer [js_of_int i @ 59 # x11_text r g b]) m"
  using assms x11_text_result(1) [OF assms(4-6)] by (simp add: osc_palette_def split_pair palette_pair_def
      parse_signed_int getColorPalette_def)

lemma setOverride_same [simp]:
  "colorPaletteOverrides (textAttributes (current (setOverride i c t))) =
    (colorPaletteOverrides (textAttributes (current t)))(i := c)"
  by (simp add: setOverride_def on_screen_def current_def set_current_def)

text \<open>
  C6. A program that sets a color of the palette with \<open>OSC 4\<close> and asks for it gets the color back as
  it wrote it; the color overrides the one of the palette, and nothing else of the terminal or the
  interpreter changes.
\<close>

theorem palette_color_reported:
  assumes "at_rest p" and "0 \<le> i" "i < 256" and "byte r" "byte g" "byte b"
  shows "\<exists>p'. at_rest p' \<and>
    vt_interpret H (osc_sequence (js ''4'') (js_of_int i @ 59 # x11_text r g b) @
        osc_sequence (js ''4'') (js_of_int i @ 59 # js ''?'')) (p, m) =
      Some (p', m\<lparr>vt_terminal := setOverride i (Some (rgb r g b)) (vt_terminal m),
        clock_reads := clock_reads m + 2,
        events := events m @ [SendString (palette_answer [js_of_int i @ 59 # x11_text r g b])]\<rparr>)"
proof -
  let ?set = "js_of_int i @ 59 # x11_text r g b" and ?ask = "js_of_int i @ 59 # js ''?''"
  let ?t = "setOverride i (Some (rgb r g b)) (vt_terminal m)"
  let ?p = "resetBuf (osc_sequence (js ''4'') ?set @ osc_sequence (js ''4'') ?ask @ []) p"
  have p: "at_rest ?p" "peekRemainingBuf ?p = osc_sequence (js ''4'') ?set @ osc_sequence (js ''4'') ?ask @ []"
    using assms(1) by (simp_all add: at_rest_def resetBuf_def peekRemainingBuf_def)
  have index: "osc_text (js_of_int i)" using digits_osc_text digits_js_of_int assms(2) by blast
  have code: "list_all is_digit (js ''4'')" "js ''4'' \<noteq> []" by (simp_all add: is_digit_def)
  have texts: "osc_text ?set" "osc_text ?ask"
    using index x11_text_result(3) [OF assms(4-6)] by (simp_all add: string_control_def line_terminator_def)
  have table: "map_of OSC (js ''4'') = Some (osc_act osc_palette)" by (simp add: OSC_def)
  let ?m1 = "m\<lparr>clock_reads := clock_reads m + 1, vt_terminal := ?t\<rparr>"
  obtain p1 where p1: "at_rest p1" "peekRemainingBuf p1 = osc_sequence (js ''4'') ?ask @ []"
    "interpret_loop H ?p m = interpret_loop H p1 ?m1"
    using osc_runs [OF p code texts(1) table, of H m] palette_set [OF assms(2-6)] by auto
  let ?m2 = "m\<lparr>vt_terminal := ?t, clock_reads := clock_reads m + 2,
    events := events m @ [SendString (palette_answer [?set])]\<rparr>"
  have clock: "?m1\<lparr>clock_reads := clock_reads ?m1 + 1\<rparr> = m\<lparr>vt_terminal := ?t, clock_reads := clock_reads m + 2\<rparr>"
    by simp
  have "osc_palette H ?ask (?m1\<lparr>clock_reads := clock_reads ?m1 + 1\<rparr>) = Some ?m2"
    unfolding clock
    using palette_asked [of i "m\<lparr>vt_terminal := ?t, clock_reads := clock_reads m + 2\<rparr>" r g b H] assms(2-6)
    by (simp add: send_def emit_def)
  with osc_runs [OF p1(1,2) code texts(2) table, of H ?m1]
  obtain p2 where p2: "at_rest p2" "peekRemainingBuf p2 = []" "interpret_loop H p1 ?m1 = interpret_loop H p2 ?m2"
    by auto
  then have "interpret_loop H p1 ?m1 = Some (p2, ?m2)" by (simp add: interpret_loop_unfold [of H p2] isComplete_rest)
  then show ?thesis using p1(3) p2(1) by (auto simp: vt_interpret_def)
qed

lemma palette_color_reported_witness:
  "\<exists>t m p' m'. reachable unit_env t \<and> new_vt t = Some m \<and>
     vt_interpret unit_host (osc_sequence (js ''4'') (js_of_int 3 @ 59 # x11_text 18 52 255) @
       osc_sequence (js ''4'') (js_of_int 3 @ 59 # js ''?'')) (new_parse_state, m) = Some (p', m') \<and>
     events m' = [SendString (palette_answer [js_of_int 3 @ 59 # x11_text 18 52 255])]"
proof -
  obtain t where t: "reachable unit_env t" using placed_terminal [of 0 0] by auto
  obtain m where m: "new_vt t = Some m" "events m = []" by (rule new_vt_result)
  have "at_rest new_parse_state" by (simp add: at_rest_def new_parse_state_def)
  from palette_color_reported [OF this, of 3 18 52 255 unit_host m] t m show ?thesis by (auto simp: byte_def)
qed

section \<open>Commands that throw\<close>

lemma osc_throws:
  assumes "at_rest p" and "list_all is_digit code" and "code \<noteq> []" and "osc_text arg"
    and "map_of OSC code = Some (osc_act f)" and "\<And>m. f H arg m = None"
  shows "vt_interpret H (osc_sequence code arg @ rest) (p, m) = None"
proof -
  let ?p = "resetBuf (osc_sequence code arg @ rest) p"
  have "at_rest ?p" "peekRemainingBuf ?p = osc_sequence code arg @ rest"
    using assms(1) by (simp_all add: at_rest_def resetBuf_def peekRemainingBuf_def)
  from osc_runs [OF this assms(2-5), of H m] assms(6) show ?thesis by (auto simp: vt_interpret_def)
qed

text \<open>
  Asking for a color of the palette by an index that is not a number throws, and the rest of what
  the program wrote is lost: an index above 255 is skipped, but \<open>NaN\<close> is not above, and finds no
  color, of which the text for X11 is asked all the same.
\<close>

theorem palette_query_throws:
  assumes "at_rest p" and "osc_text index" and "59 \<notin> set index" and "parse_signed index = None"
  shows "vt_interpret H (osc_sequence (js ''4'') (index @ 59 # js ''?'') @ rest) (p, m) = None"
proof (rule osc_throws [OF assms(1)])
  have "list_all (\<lambda>x. x \<noteq> 59) index" using assms(3) by (auto simp: list_all_iff)
  then have "split_on 59 (index @ 59 # js ''?'') = [index, js ''?'']" by (simp add: split_on_digits split_on_last)
  then show "osc_palette H (index @ 59 # js ''?'') m = None" for m
    using assms(4) by (simp add: osc_palette_def palette_pair_def getColorPalette_def)
qed (use assms(2) in \<open>simp_all add: is_digit_def OSC_def string_control_def line_terminator_def\<close>)

lemma palette_query_throws_witness:
  "\<exists>m. new_vt undefined = Some m \<and>
     vt_interpret unit_host (osc_sequence (js ''4'') (js ''all'' @ 59 # js ''?'') @ js ''more'') (new_parse_state, m) = None"
proof -
  obtain m where m: "new_vt undefined = Some m" by (rule new_vt_result)
  have "at_rest new_parse_state" by (simp add: at_rest_def new_parse_state_def)
  then have "vt_interpret unit_host (osc_sequence (js ''4'') (js ''all'' @ 59 # js ''?'') @ js ''more'') (new_parse_state, m) = None"
    by (rule palette_query_throws)
      (simp_all add: string_control_def line_terminator_def parse_signed_def parse_int_def skip_ws_def is_ws_def is_digit_def)
  with m show ?thesis by blast
qed

lemma member_plain:
  "list_all (\<lambda>name. osc_text (js name) \<and> 59 \<notin> set (js name) \<and> match_x11rgb (js name) = None \<and>
    take 1 (js name) \<noteq> [35]) object_members"
  by (simp add: object_members_def string_control_def line_terminator_def match_x11rgb_def skip_ws_def is_ws_def
      eat_lit_def lower_ascii_def)

text \<open>
  Setting the color of text by the name of a member that every JavaScript object has, like
  \<open>constructor\<close>, throws, and the rest of what the program wrote is lost: the table of names seems
  to have the name, and what it gives is no text.
\<close>

theorem inherited_name_throws:
  assumes "at_rest p" and "name \<in> set object_members"
  shows "vt_interpret H (osc_sequence (js ''10'') (js name) @ rest) (p, m) = None"
proof (rule osc_throws [OF assms(1)])
  have name: "osc_text (js name)" "59 \<notin> set (js name)" "match_x11rgb (js name) = None" "take 1 (js name) \<noteq> [35]"
    using member_plain assms(2) by (simp_all add: list_all_iff)
  then have "x11ToCSS (lower_case (css H)) (js name) = Some Inherited"
    using member_color [OF assms(2)] by (simp add: x11ToCSS_def nameToRGB_def)
  moreover have "split_on 59 (js name) = [js name]" using name(2) by (intro split_on_last) (auto simp: list_all_iff)
  ultimately show "osc_colors H [setForegroundColor, setBackgroundColor, setCursorColor] (split_on 59 (js name)) m = None" for m
    by (simp add: setForegroundColor_def set_text_color_def)
  show "osc_text (js name)" by (rule name(1))
qed (simp_all add: is_digit_def OSC_def)

lemma inherited_name_throws_witness:
  "\<exists>m. new_vt undefined = Some m \<and>
     vt_interpret unit_host (osc_sequence (js ''10'') (js ''constructor'') @ js ''more'') (new_parse_state, m) = None"
proof -
  obtain m where m: "new_vt undefined = Some m" by (rule new_vt_result)
  have "at_rest new_parse_state" by (simp add: at_rest_def new_parse_state_def)
  then have "vt_interpret unit_host (osc_sequence (js ''10'') (js ''constructor'') @ js ''more'') (new_parse_state, m) = None"
    by (rule inherited_name_throws) (simp add: object_members_def)
  with m show ?thesis by blast
qed

text \<open>So does resetting the color \<open>length\<close>, the length of the array of colors.\<close>

lemma reset_length_throws: "at_rest p \<Longrightarrow> vt_interpret H (osc_sequence (js ''104'') (js ''length'') @ rest) (p, m) = None"
proof (rule osc_throws)
  have "split_on 59 (js ''length'') = [js ''length'']" by (intro split_on_last) simp
  then show "osc_reset_colors (js ''length'') m = None" for m by (simp add: osc_reset_colors_def resetColor_def run_def)
qed (simp_all add: is_digit_def OSC_def string_control_def line_terminator_def)

end
