(* ===== verification/KeyBindings.thy ===== *)
theory KeyBindings
  imports Palette
begin

text \<open>
  Bindings of keys (hterm_all-1.91.js): \<open>hterm.Parser\<close> with its tables of names, which reads key
  sequences and actions, \<open>hterm.Keyboard.KeyPattern\<close>, and \<open>hterm.Keyboard.Bindings\<close>.
\<close>

section \<open>Patterns of keys\<close>

datatype modifier = Shift | Ctrl | Alt | Meta

definition modifier_names :: "modifier list" where
  "modifier_names = [Shift, Ctrl, Alt, Meta]"

text \<open>What a pattern says of a modifier: \<open>false\<close>, \<open>true\<close> or \<open>'*'\<close>.\<close>

datatype wanted = Off | On | Either

record key_pattern =
  pattern_code :: int
  pattern_mods :: "modifier \<Rightarrow> wanted"

record key_down =
  down_code :: int
  down_mods :: "modifier \<Rightarrow> bool"

definition wildcardCount :: "key_pattern \<Rightarrow> nat" where
  "wildcardCount p = length (filter (\<lambda>m. pattern_mods p m = Either) modifier_names)"

definition matchKeyDown :: "key_down \<Rightarrow> key_pattern \<Rightarrow> bool" where
  "matchKeyDown d p \<longleftrightarrow> pattern_code p = down_code d \<and>
     list_all (\<lambda>m. pattern_mods p m = Either \<or> pattern_mods p m = (if down_mods d m then On else Off)) modifier_names"

definition matchKeyPattern :: "key_pattern \<Rightarrow> key_pattern \<Rightarrow> bool" where
  "matchKeyPattern q p \<longleftrightarrow> pattern_code p = pattern_code q \<and>
     list_all (\<lambda>m. pattern_mods p m = pattern_mods q m) modifier_names"

section \<open>Actions\<close>

text \<open>
  \<open>hterm.Keyboard.KeyActions\<close>, a string to send, and the functions of \<open>hterm.Parser.identifiers.actions\<close>,
  which call the terminal and cancel the event.
\<close>

datatype terminal_call =
    CallScrollLineUp | CallScrollLineDown | CallScrollPageUp | CallScrollPageDown | CallScrollHome | CallScrollEnd
  | CallSelectAll | CallClearHome | CallClearScrollback | CallWipeContents | CallReset | CallSoftReset
  | CallFindBar | CallCopySelection | CallCollapseSelection | CallOpenWindow | CallPaste | CallSetFontSize int

datatype key_action = CANCEL | DEFAULT | PASS | STRIP | Keys jsstring | Function terminal_call

definition named_actions :: "(jsstring \<times> key_action) list" where
  "named_actions =
    [(js ''CANCEL'', CANCEL), (js ''DEFAULT'', DEFAULT), (js ''PASS'', PASS),
     (js ''scrollLineUp'', Function CallScrollLineUp), (js ''scrollLineDown'', Function CallScrollLineDown),
     (js ''scrollPageUp'', Function CallScrollPageUp), (js ''scrollPageDown'', Function CallScrollPageDown),
     (js ''scrollToTop'', Function CallScrollHome), (js ''scrollToBottom'', Function CallScrollEnd),
     (js ''selectAll'', Function CallSelectAll), (js ''clearScreen'', Function CallClearHome),
     (js ''clearScrollback'', Function CallClearScrollback), (js ''clearTerminal'', Function CallWipeContents),
     (js ''fullReset'', Function CallReset), (js ''softReset'', Function CallSoftReset)]"

section \<open>The parser\<close>

text \<open>
  The parser is what is left of its source; its position is only told in messages. \<open>None\<close> is an
  exception, of which \<open>addBinding\<close> tells on the console.
\<close>

definition is_letter :: "code_unit \<Rightarrow> bool" where
  "is_letter c \<longleftrightarrow> 97 \<le> lower_ascii c \<and> lower_ascii c \<le> 122"

definition is_identifier :: "code_unit \<Rightarrow> bool" where
  "is_identifier c \<longleftrightarrow> is_letter c \<or> is_digit c \<or> c = 95"

definition upper_ascii :: "code_unit \<Rightarrow> code_unit" where
  "upper_ascii c = (if 97 \<le> c \<and> c \<le> 122 then c - 32 else c)"

text \<open>
  \<open>parseInt(s, 16)\<close> of letters and digits: after \<open>0x\<close>, up to the first that is not hexadecimal;
  \<open>NaN\<close> if there is none.
\<close>

definition parse_hex :: "jsstring \<Rightarrow> int option" where
  "parse_hex s =
     (let d = takeWhile is_hex (if map lower_ascii (take 2 s) = js ''0x'' then drop 2 s else s)
      in if d = [] then None else Some (hex_value d))"

datatype token = Symbol | Identifier jsstring | Text jsstring | Integer int

text \<open>Numbers are exact up to \<open>2 ^ 53\<close>, as the code has them, and without bound here.\<close>

definition parseInteger :: "jsstring \<Rightarrow> (int \<times> jsstring) option" where
  "parseInteger s =
     (if take 2 s = js ''0x'' then
        (let d = takeWhile is_hex (drop 2 s)
         in if d = [] then None else Some (hex_value d, drop (2 + length d) s))
      else
        (let d = takeWhile is_digit s
         in if d = [] then None else Some (digits_value d, drop (length d) s)))"

text \<open>
  An escape in a string with double quotes. The code of \<open>\x\<close> and \<open>\u\<close> is made of letters and digits;
  \<open>String.fromCharCode(NaN)\<close> is the character 0.
\<close>

definition simple_escapes :: "(code_unit \<times> code_unit) list" where
  "simple_escapes = [(34, 34), (39, 39), (92, 92), (97, 7), (98, 8), (101, 27), (102, 12), (110, 10), (114, 13),
     (116, 9), (118, 11)]"

definition parse_code :: "nat \<Rightarrow> jsstring \<Rightarrow> (code_unit \<times> jsstring) option" where
  "parse_code n s =
     (if n \<le> length s \<and> list_all (\<lambda>c. is_letter c \<or> is_digit c) (take n s)
      then Some (case parse_hex (take n s) of None \<Rightarrow> 0 | Some v \<Rightarrow> v, drop n s) else None)"

definition parseEscape :: "jsstring \<Rightarrow> (code_unit \<times> jsstring) option" where
  "parseEscape s =
     (case s of
        [] \<Rightarrow> None
      | c # r \<Rightarrow>
          if c = 120 then parse_code 2 r
          else if c = 117 then parse_code 4 r
          else map_option (\<lambda>d. (d, r)) (map_of simple_escapes c))"

lemma parse_code_shorter: "parse_code n s = Some (c, r) \<Longrightarrow> length r \<le> length s"
  by (auto simp: parse_code_def split: if_splits)

lemma parseEscape_shorter [termination_simp]: "parseEscape s = Some (c, r) \<Longrightarrow> length r < length s"
  by (auto simp: parseEscape_def split: list.splits if_splits dest!: parse_code_shorter)

text \<open>The rest of a string after its opening quote.\<close>

function parse_string_body :: "code_unit \<Rightarrow> jsstring \<Rightarrow> (jsstring \<times> jsstring) option" where
  "parse_string_body quote [] = None"
| "parse_string_body quote (c # s) =
     (if c = quote then Some ([], s)
      else if c = 92 \<and> quote = 34 then
        (case parseEscape s of
           None \<Rightarrow> None
         | Some (d, r) \<Rightarrow> map_option (apfst ((#) d)) (parse_string_body quote r))
      else map_option (apfst ((#) c)) (parse_string_body quote s))"
  by pat_completeness auto
termination
  by (relation "measure (\<lambda>(quote, s). length s)") (auto dest: parseEscape_shorter)

definition parseToken :: "jsstring \<Rightarrow> (token \<times> jsstring) option" where
  "parseToken s =
     (case s of
        [] \<Rightarrow> None
      | c # r \<Rightarrow>
          if c = 42 then Some (Symbol, r)
          else if is_letter c \<or> c = 95
          then Some (Identifier (takeWhile is_identifier s), dropWhile is_identifier s)
          else if c = 39 \<or> c = 34 then map_option (apfst Text) (parse_string_body c r)
          else if is_digit c then map_option (apfst Integer) (parseInteger s)
          else None)"

definition parseKeyAction :: "jsstring \<Rightarrow> (key_action \<times> jsstring) option" where
  "parseKeyAction s =
     (case parseToken (skip_ws s) of
        Some (Text t, r) \<Rightarrow> Some (Keys t, r)
      | Some (Identifier i, r) \<Rightarrow> map_option (\<lambda>a. (a, r)) (map_of named_actions i)
      | _ \<Rightarrow> None)"

section \<open>Sequences of keys\<close>

text \<open>\<open>hterm.Parser.identifiers\<close>: the names of modifiers and keys, in upper case.\<close>

definition modifier_keys :: "(jsstring \<times> modifier) list" where
  "modifier_keys =
    [(js ''SHIFT'', Shift), (js ''CTRL'', Ctrl), (js ''CONTROL'', Ctrl), (js ''ALT'', Alt), (js ''META'', Meta)]"

definition key_codes :: "(jsstring \<times> int) list" where
  "key_codes =
    [(js ''ESCAPE'', 27), (js ''ESC'', 27), (js ''F1'', 112), (js ''F2'', 113), (js ''F3'', 114),
     (js ''F4'', 115), (js ''F5'', 116), (js ''F6'', 117), (js ''F7'', 118), (js ''F8'', 119),
     (js ''F9'', 120), (js ''F10'', 121), (js ''F11'', 122), (js ''F12'', 123), (js ''ONE'', 49),
     (js ''TWO'', 50), (js ''THREE'', 51), (js ''FOUR'', 52), (js ''FIVE'', 53), (js ''SIX'', 54),
     (js ''SEVEN'', 55), (js ''EIGHT'', 56), (js ''NINE'', 57), (js ''ZERO'', 48), (js ''MINUS'', 189),
     (js ''EQUAL'', 187), (js ''BACKSPACE'', 8), (js ''BKSP'', 8), (js ''BS'', 8), (js ''TAB'', 9),
     (js ''Q'', 81), (js ''W'', 87), (js ''E'', 69), (js ''R'', 82), (js ''T'', 84), (js ''Y'', 89),
     (js ''U'', 85), (js ''I'', 73), (js ''O'', 79), (js ''P'', 80), (js ''BRACKET_LEFT'', 219),
     (js ''BRACKET_RIGHT'', 221), (js ''CAPS_LOCK'', 20), (js ''CAPSLOCK'', 20), (js ''CAPS'', 20),
     (js ''A'', 65), (js ''S'', 83), (js ''D'', 68), (js ''F'', 70), (js ''G'', 71), (js ''H'', 72),
     (js ''J'', 74), (js ''K'', 75), (js ''L'', 76), (js ''ENTER'', 13), (js ''ENT'', 13), (js ''RETURN'', 13),
     (js ''RET'', 13), (js ''Z'', 90), (js ''X'', 88), (js ''C'', 67), (js ''V'', 86), (js ''B'', 66),
     (js ''N'', 78), (js ''M'', 77), (js ''SPACE'', 32), (js ''SP'', 32), (js ''PRINT_SCREEN'', 42),
     (js ''PRTSC'', 42), (js ''SCROLL_LOCK'', 145), (js ''SCRLK'', 145), (js ''BREAK'', 19), (js ''BRK'', 19),
     (js ''INSERT'', 45), (js ''INS'', 45), (js ''HOME'', 36), (js ''PAGE_UP'', 33), (js ''PGUP'', 33),
     (js ''DELETE'', 46), (js ''DEL'', 46), (js ''END'', 35), (js ''PAGE_DOWN'', 34), (js ''PGDOWN'', 34),
     (js ''PGDN'', 34), (js ''UP'', 38), (js ''DOWN'', 40), (js ''RIGHT'', 39), (js ''LEFT'', 37),
     (js ''NUMLOCK'', 144), (js ''KP0'', 96), (js ''KP1'', 97), (js ''KP2'', 98), (js ''KP3'', 99),
     (js ''KP4'', 100), (js ''KP5'', 101), (js ''KP6'', 102), (js ''KP7'', 103), (js ''KP8'', 104),
     (js ''KP9'', 105), (js ''KP_PLUS'', 107), (js ''KP_ADD'', 107), (js ''KP_MINUS'', 109),
     (js ''KP_SUBTRACT'', 109), (js ''KP_STAR'', 106), (js ''KP_MULTIPLY'', 106), (js ''KP_DIVIDE'', 111),
     (js ''KP_DECIMAL'', 110), (js ''KP_PERIOD'', 110), (js ''NAVIGATE_BACK'', 166),
     (js ''NAVIGATE_FORWARD'', 167), (js ''RELOAD'', 168), (js ''FULL_SCREEN'', 183),
     (js ''WINDOW_OVERVIEW'', 182), (js ''BRIGHTNESS_UP'', 216), (js ''BRIGHTNESS_DOWN'', 217)]"

text \<open>What a token does to the key and the modifiers read so far.\<close>

definition key_token :: "token \<Rightarrow> int option \<times> (modifier \<Rightarrow> wanted) \<Rightarrow> (int option \<times> (modifier \<Rightarrow> wanted)) option" where
  "key_token t = (\<lambda>(code, mods).
     case t of
       Integer i \<Rightarrow> Some (Some i, mods)
     | Identifier v \<Rightarrow>
         (case map_of modifier_keys (map upper_ascii v) of
            Some m \<Rightarrow> if mods m = On then None else Some (code, mods(m := On))
          | None \<Rightarrow> map_option (\<lambda>k. (Some k, mods)) (map_of key_codes (map upper_ascii v)))
     | Symbol \<Rightarrow> Some (code, \<lambda>m. if mods m = Off then Either else mods m)
     | Text v \<Rightarrow> None)"

definition finish_sequence :: "int option \<times> (modifier \<Rightarrow> wanted) \<Rightarrow> key_pattern option" where
  "finish_sequence = (\<lambda>(code, mods). map_option (\<lambda>k. \<lparr>pattern_code = k, pattern_mods = mods\<rparr>) code)"

lemma length_skip_ws: "length (skip_ws s) \<le> length s"
  by (simp add: skip_ws_def length_dropWhile_le)

lemma parse_string_body_shorter: "parse_string_body q s = Some (t, r) \<Longrightarrow> length r \<le> length s"
proof (induction q s arbitrary: t rule: parse_string_body.induct)
  case (2 quote c s)
  then show ?case
    by (fastforce split: if_splits option.splits dest: parseEscape_shorter)
qed simp

lemma parseToken_shorter: "parseToken s = Some (t, r) \<Longrightarrow> length r \<le> length s"
  by (cases s) (auto simp: parseToken_def parseInteger_def Let_def length_dropWhile_le le_SucI
      dest: parse_string_body_shorter split: if_splits)

text \<open>The loop, from where it looks whether anything is left.\<close>

function parse_keys :: "int option \<times> (modifier \<Rightarrow> wanted) \<Rightarrow> jsstring \<Rightarrow> (key_pattern \<times> jsstring) option" where
  "parse_keys rv s =
     (if s = [] then map_option (\<lambda>p. (p, [])) (finish_sequence rv)
      else
        (case parseToken (skip_ws s) of
           None \<Rightarrow> None
         | Some (token, r) \<Rightarrow>
             (case key_token token rv of
                None \<Rightarrow> None
              | Some rv' \<Rightarrow>
                  (case skip_ws r of
                     [] \<Rightarrow> map_option (\<lambda>p. (p, [])) (finish_sequence rv')
                   | c # r' \<Rightarrow>
                       if c \<noteq> 45 \<and> c \<noteq> 43 then map_option (\<lambda>p. (p, c # r')) (finish_sequence rv')
                       else if fst rv' \<noteq> None then None
                       else parse_keys rv' r'))))"
  by pat_completeness auto
termination
proof (relation "measure (\<lambda>(rv, s). length s)", goal_cases)
  case (2 rv s tr token r rv' c r')
  then have "length r \<le> length (skip_ws s)" "length (c # r') \<le> length r"
    using parseToken_shorter length_skip_ws [of r] by auto
  then show ?case using length_skip_ws [of s] by simp
qed simp

declare parse_keys.simps [simp del]

definition parseKeySequence :: "jsstring \<Rightarrow> (key_pattern \<times> jsstring) option" where
  "parseKeySequence = parse_keys (None, \<lambda>_. Off)"


section \<open>Bindings\<close>

text \<open>
  The lists by key code. A pattern that is bound keeps its place; a new one is put at the end and
  the list is sorted, which keeps the order of those with as many wildcards. The console is told of
  what cannot be parsed, and nothing is bound.
\<close>

type_synonym binding = "key_pattern \<times> key_action"
type_synonym bindings = "int \<rightharpoonup> binding list"

fun replace_action :: "key_pattern \<Rightarrow> key_action \<Rightarrow> binding list \<Rightarrow> binding list option" where
  "replace_action p a [] = None"
| "replace_action p a ((q, b) # l) =
     (if matchKeyPattern p q then Some ((q, a) # l) else map_option ((#) (q, b)) (replace_action p a l))"

definition addPattern :: "key_pattern \<Rightarrow> key_action \<Rightarrow> bindings \<Rightarrow> bindings" where
  "addPattern p a B =
     (case B (pattern_code p) of
        None \<Rightarrow> B(pattern_code p \<mapsto> [(p, a)])
      | Some l \<Rightarrow>
          (case replace_action p a l of
             Some l' \<Rightarrow> B(pattern_code p \<mapsto> l')
           | None \<Rightarrow> B(pattern_code p \<mapsto> sort_key (\<lambda>b. wildcardCount (fst b)) (l @ [(p, a)]))))"

datatype binding_action = ActionText jsstring | ActionValue key_action

definition parse_action :: "binding_action \<Rightarrow> key_action option" where
  "parse_action act =
     (case act of
        ActionValue a \<Rightarrow> Some a
      | ActionText t \<Rightarrow> (case parseKeyAction t of Some (a, []) \<Rightarrow> Some a | _ \<Rightarrow> None))"

definition addBinding :: "jsstring \<Rightarrow> binding_action \<Rightarrow> bindings \<Rightarrow> bindings" where
  "addBinding key act B =
     (case parseKeySequence key of
        Some (p, []) \<Rightarrow> (case parse_action act of Some a \<Rightarrow> addPattern p a B | None \<Rightarrow> B)
      | _ \<Rightarrow> B)"

text \<open>The default bindings, by the name of the system, and those of a user in the order of their map.\<close>

definition OsDefaults :: "jsstring \<Rightarrow> (jsstring \<times> binding_action) list" where
  "OsDefaults os =
     (if os = js ''cros'' then
        [(js ''Alt+Shift+I'', ActionText (js ''PASS'')), (js ''Ctrl+Alt+Z'', ActionText (js ''PASS'')),
         (js ''Ctrl+Space'', ActionText (js ''PASS''))]
      else if os = js ''mac'' then
        [(js ''Meta+Left'', ActionText ([34, 27] @ js ''[H'' @ [34])),
         (js ''Meta+Right'', ActionText ([34, 27] @ js ''[F'' @ [34]))]
      else [])"

definition add_map :: "(jsstring \<times> binding_action) list \<Rightarrow> bindings \<Rightarrow> bindings" where
  "add_map m B = fold (\<lambda>(key, act). addBinding key act) m B"

definition addBindings :: "jsstring \<Rightarrow> (jsstring \<times> binding_action) list \<Rightarrow> bool \<Rightarrow> bindings \<Rightarrow> bindings" where
  "addBindings os m addOsDefaults B = add_map m (if addOsDefaults then add_map (OsDefaults os) B else B)"

definition getBinding :: "bindings \<Rightarrow> key_down \<Rightarrow> binding option" where
  "getBinding B d =
     (case B (down_code d) of None \<Rightarrow> None | Some l \<Rightarrow> find (\<lambda>b. matchKeyDown d (fst b)) l)"

section \<open>The most specific binding is found\<close>

text \<open>The actions by pattern, and what holds of the lists.\<close>

definition bound :: "bindings \<Rightarrow> key_pattern \<rightharpoonup> key_action" where
  "bound B p = (case B (pattern_code p) of None \<Rightarrow> None | Some l \<Rightarrow> map_of l p)"

definition bindings_ok :: "bindings \<Rightarrow> bool" where
  "bindings_ok B \<longleftrightarrow> (\<forall>k l. B k = Some l \<longrightarrow>
     l \<noteq> [] \<and> distinct (map fst l) \<and> sorted (map (\<lambda>b. wildcardCount (fst b)) l) \<and>
     (\<forall>b \<in> set l. pattern_code (fst b) = k))"

lemma all_modifiers: "list_all P modifier_names \<longleftrightarrow> (\<forall>m. P m)"
  by (auto simp: modifier_names_def intro: modifier.exhaust) (metis modifier.exhaust)

lemma matchKeyPattern_eq: "matchKeyPattern p q \<longleftrightarrow> p = q"
  by (cases p; cases q) (auto simp: matchKeyPattern_def all_modifiers)

lemma matchKeyDown_code: "matchKeyDown d p \<Longrightarrow> pattern_code p = down_code d"
  by (simp add: matchKeyDown_def)

lemma replace_action_None: "replace_action p a l = None \<longleftrightarrow> p \<notin> fst ` set l"
  by (induction l) (auto simp: matchKeyPattern_eq split: if_splits)

lemma replace_action_Some:
  "replace_action p a l = Some l' \<Longrightarrow>
   map fst l' = map fst l \<and> map_of l' = (map_of l)(p \<mapsto> a) \<and> p \<in> fst ` set l"
proof (induction l arbitrary: l')
  case (Cons x l)
  then show ?case
    by (cases x) (auto simp: matchKeyPattern_eq fun_eq_iff split: if_splits)
qed simp

lemma distinct_sort_key:
  assumes "distinct (map g l)"
  shows "distinct (map g (sort_key f l))"
proof -
  have "mset (map g (sort_key f l)) = mset (map g l)" by simp
  then show ?thesis using assms mset_eq_imp_distinct_iff by blast
qed

lemma map_of_sort_key:
  assumes "distinct (map fst l)"
  shows "map_of (sort_key f l) = map_of l"
proof -
  have "map_of (sort_key f l) = map_of l \<longleftrightarrow> set (sort_key f l) = set l"
    by (rule map_of_inject_set) (use assms in \<open>simp_all add: distinct_sort_key\<close>)
  then show ?thesis by simp
qed

lemma sort_key_Nil: "sort_key f l = [] \<longleftrightarrow> l = []"
  by (metis length_0_conv length_sort)

lemma map_of_snoc: "p \<notin> fst ` set l \<Longrightarrow> map_of (l @ [(p, a)]) = (map_of l)(p \<mapsto> a)"
  by (induction l) (auto simp: fun_eq_iff)

lemma bindings_ok_upd:
  assumes "bindings_ok B" and "l \<noteq> []" and "distinct (map fst l)" and "sorted (map (\<lambda>b. wildcardCount (fst b)) l)"
    and "\<forall>b \<in> set l. pattern_code (fst b) = k"
  shows "bindings_ok (B(k \<mapsto> l))"
  using assms by (simp add: bindings_ok_def)

lemma addPattern_ok:
  assumes "bindings_ok B"
  shows "bindings_ok (addPattern p a B)"
proof (cases "B (pattern_code p)")
  case None
  show ?thesis using assms by (simp add: addPattern_def None bindings_ok_upd)
next
  case (Some l)
  then have l: "l \<noteq> []" "distinct (map fst l)" "sorted (map (\<lambda>b. wildcardCount (fst b)) l)"
      "\<forall>b \<in> set l. pattern_code (fst b) = pattern_code p"
    using assms by (auto simp: bindings_ok_def)
  show ?thesis
  proof (cases "replace_action p a l")
    case new: None
    have "distinct (map fst (l @ [(p, a)]))"
      using l(2) new by (simp add: replace_action_None)
    then show ?thesis using assms l
      unfolding addPattern_def Some new option.case
      by (intro bindings_ok_upd distinct_sort_key) (auto simp: sort_key_Nil)
  next
    case old: (Some l')
    then have f: "map fst l' = map fst l" by (simp add: replace_action_Some)
    have g: "map (\<lambda>b. h (fst b)) l' = map (\<lambda>b. h (fst b)) l" for h :: "key_pattern \<Rightarrow> 'c"
      using arg_cong [OF f, of "map h"] by (simp only: map_map comp_def)
    have "fst ` set l' = fst ` set l" using f by (metis list.set_map)
    then have "\<forall>b \<in> set l'. pattern_code (fst b) = pattern_code p" using l(4) by (metis (no_types) imageE imageI)
    then show ?thesis using assms l f g [of wildcardCount]
      by (auto simp: addPattern_def Some old intro!: bindings_ok_upd)
  qed
qed

lemma bound_addPattern:
  assumes "bindings_ok B"
  shows "bound (addPattern p a B) = (bound B)(p \<mapsto> a)"
proof
  fix q
  have "distinct (map fst l)" if "B (pattern_code p) = Some l" for l
    using assms that by (auto simp: bindings_ok_def)
  note keys = this
  show "bound (addPattern p a B) q = ((bound B)(p \<mapsto> a)) q"
  proof (cases "B (pattern_code p)")
    case None
    then show ?thesis by (auto simp: addPattern_def bound_def)
  next
    case (Some l)
    then have l: "distinct (map fst l)" by (rule keys)
    show ?thesis
    proof (cases "replace_action p a l")
      case new: None
      then have p: "p \<notin> fst ` set l" by (simp add: replace_action_None)
      then have "map_of (sort_key (\<lambda>b. wildcardCount (fst b)) (l @ [(p, a)])) = (map_of l)(p \<mapsto> a)"
        using l map_of_sort_key [of "l @ [(p, a)]"] map_of_snoc [OF p] by simp
      with Some new show ?thesis by (simp add: addPattern_def bound_def)
    next
      case (Some l')
      with \<open>B (pattern_code p) = Some l\<close> show ?thesis
        by (auto simp: addPattern_def bound_def dest!: replace_action_Some)
    qed
  qed
qed

definition bind_all :: "binding list \<Rightarrow> bindings" where
  "bind_all ps = fold (\<lambda>(p, a). addPattern p a) ps Map.empty"

lemma bind_all_ok: "bindings_ok (bind_all ps)"
  by (induction ps rule: rev_induct) (auto simp: bind_all_def bindings_ok_def [of Map.empty] addPattern_ok)

lemma bound_bind_all: "bound (bind_all ps) = map_of (rev ps)"
proof (induction ps rule: rev_induct)
  case Nil
  show ?case by (simp add: bind_all_def bound_def fun_eq_iff)
next
  case (snoc x ps)
  obtain p a where x: "x = (p, a)" by fastforce
  have "bind_all (ps @ [x]) = addPattern p a (bind_all ps)" by (simp add: bind_all_def x)
  then show ?case using bound_addPattern [OF bind_all_ok] snoc.IH by (simp add: x)
qed

lemma find_sorted:
  "find P l = Some b \<Longrightarrow> sorted (map f l) \<Longrightarrow> c \<in> set l \<Longrightarrow> P c \<Longrightarrow> f b \<le> (f c :: nat)"
  by (induction l) (auto split: if_splits)

section \<open>Looking up a key\<close>

text \<open>
  What the keyboard relies on: of the patterns in a table of actions that match the key, one with
  the fewest wildcards is found with its action, and one is found if any matches.
\<close>

locale key_lookup =
  fixes lookup :: "'b \<Rightarrow> key_down \<Rightarrow> binding option"
    and table :: "'b \<Rightarrow> key_pattern \<rightharpoonup> key_action"
    and good :: "'b \<Rightarrow> bool"
  assumes found: "\<lbrakk>good B; lookup B d = Some (p, a)\<rbrakk> \<Longrightarrow> table B p = Some a \<and> matchKeyDown d p"
    and specific: "\<lbrakk>good B; lookup B d = Some (p, a); q \<in> dom (table B); matchKeyDown d q\<rbrakk> \<Longrightarrow>
      wildcardCount p \<le> wildcardCount q"
    and absent: "\<lbrakk>good B; lookup B d = None; q \<in> dom (table B)\<rbrakk> \<Longrightarrow> \<not> matchKeyDown d q"
begin

lemma exact_pattern:
  assumes "matchKeyDown d p" "wildcardCount p = 0"
  shows "p = \<lparr>pattern_code = down_code d, pattern_mods = (\<lambda>m. if down_mods d m then On else Off)\<rparr>"
proof -
  have "\<forall>m. pattern_mods p m \<noteq> Either"
  proof
    fix m show "pattern_mods p m \<noteq> Either"
      using assms(2) by (cases m) (simp_all add: wildcardCount_def modifier_names_def split: if_splits)
  qed
  with assms(1) show ?thesis by (cases p) (auto simp: matchKeyDown_def all_modifiers fun_eq_iff)
qed

text \<open>A pattern without wildcards is found before any other.\<close>

lemma exact_wins:
  assumes "good B" "table B p = Some a" "matchKeyDown d p" "wildcardCount p = 0"
  shows "lookup B d = Some (p, a)"
proof (cases "lookup B d")
  case None
  with absent assms show ?thesis by blast
next
  case (Some b)
  obtain q c where b: "b = (q, c)" by fastforce
  with Some specific [of B d q c p] assms have "wildcardCount q = 0" by auto
  with found [of B d q c] Some b assms have "q = p" "table B q = Some c"
    using exact_pattern [of d] by (auto dest: exact_pattern)
  with assms Some b show ?thesis by simp
qed

lemma lookup_cases:
  assumes "good B"
  shows "case lookup B d of
      None \<Rightarrow> \<forall>q \<in> dom (table B). \<not> matchKeyDown d q
    | Some (p, a) \<Rightarrow> table B p = Some a \<and> matchKeyDown d p \<and>
        (\<forall>q \<in> dom (table B). matchKeyDown d q \<longrightarrow> wildcardCount p \<le> wildcardCount q)"
  using found [OF assms] specific [OF assms] absent [OF assms] by (auto split: option.split)

end

lemma getBinding_in: "bindings_ok B \<Longrightarrow> q \<in> dom (bound B) \<Longrightarrow> matchKeyDown d q \<Longrightarrow>
    \<exists>l b. B (down_code d) = Some l \<and> (q, b) \<in> set l"
  using map_of_SomeD by (fastforce simp: bound_def dest!: matchKeyDown_code split: option.splits)

interpretation binding_lookup: key_lookup getBinding bound bindings_ok
proof
  fix B d p a
  assume ok: "bindings_ok B" and get: "getBinding B d = Some (p, a)"
  then obtain l where l: "B (down_code d) = Some l" "find (\<lambda>b. matchKeyDown d (fst b)) l = Some (p, a)"
    by (auto simp: getBinding_def split: option.splits)
  then have p: "(p, a) \<in> set l" "matchKeyDown d p"
    by (auto simp: find_Some_iff dest!: sym [of "(p, a)"]) (metis nth_mem)
  moreover have "map_of l p = Some a" using ok l p by (auto simp: bindings_ok_def)
  ultimately show "bound B p = Some a \<and> matchKeyDown d p"
    using l by (simp add: bound_def matchKeyDown_code)
  fix q
  assume q: "q \<in> dom (bound B)" "matchKeyDown d q"
  then obtain b where "(q, b) \<in> set l" using getBinding_in [OF ok] l by force
  moreover have "sorted (map (\<lambda>b. wildcardCount (fst b)) l)" using ok l by (auto simp: bindings_ok_def)
  ultimately show "wildcardCount p \<le> wildcardCount q"
    using find_sorted [OF l(2), of "\<lambda>b. wildcardCount (fst b)" "(q, b)"] q by simp
next
  fix B d q
  assume "bindings_ok B" and get: "getBinding B d = None" and q: "q \<in> dom (bound B)"
  show "\<not> matchKeyDown d q"
  proof
    assume "matchKeyDown d q"
    with getBinding_in \<open>bindings_ok B\<close> q obtain l b where "B (down_code d) = Some l" "(q, b) \<in> set l" by blast
    with get \<open>matchKeyDown d q\<close> show False by (auto simp: getBinding_def find_None_iff)
  qed
qed

section \<open>What is bound and found\<close>

text \<open>
  C26. Of the patterns that were bound and match a key, one with the fewest wildcards is found, with
  the action it was bound to last; if none matches, none is found.
\<close>

theorem most_specific_found:
  "case getBinding (bind_all ps) d of
     None \<Rightarrow> \<forall>q \<in> fst ` set ps. \<not> matchKeyDown d q
   | Some (p, a) \<Rightarrow> map_of (rev ps) p = Some a \<and> matchKeyDown d p \<and>
       (\<forall>q \<in> fst ` set ps. matchKeyDown d q \<longrightarrow> wildcardCount p \<le> wildcardCount q)"
  using binding_lookup.lookup_cases [OF bind_all_ok, of ps d]
  unfolding bound_bind_all dom_map_of_conv_image_fst set_rev .

definition ctrl_shift_a :: key_down where
  "ctrl_shift_a = \<lparr>down_code = 65, down_mods = (\<lambda>m. m = Ctrl \<or> m = Shift)\<rparr>"

definition ctrl_any_a :: key_pattern where
  "ctrl_any_a = \<lparr>pattern_code = 65, pattern_mods = (\<lambda>m. if m = Ctrl then On else Either)\<rparr>"

definition ctrl_shift_a_only :: key_pattern where
  "ctrl_shift_a_only = \<lparr>pattern_code = 65, pattern_mods = (\<lambda>m. if m = Ctrl \<or> m = Shift then On else Off)\<rparr>"

theorem most_specific_found_witness:
  "getBinding (bind_all [(ctrl_any_a, PASS), (ctrl_shift_a_only, DEFAULT), (ctrl_any_a, CANCEL)]) ctrl_shift_a =
     Some (ctrl_shift_a_only, DEFAULT)"
proof -
  let ?ps = "[(ctrl_any_a, PASS), (ctrl_shift_a_only, DEFAULT), (ctrl_any_a, CANCEL)]"
  have m: "matchKeyDown ctrl_shift_a ctrl_any_a" "matchKeyDown ctrl_shift_a ctrl_shift_a_only"
    by (simp_all add: matchKeyDown_def all_modifiers ctrl_shift_a_def ctrl_any_a_def ctrl_shift_a_only_def)
  have w: "wildcardCount ctrl_any_a = 3" "wildcardCount ctrl_shift_a_only = 0" "ctrl_any_a \<noteq> ctrl_shift_a_only"
    by (simp_all add: wildcardCount_def modifier_names_def ctrl_any_a_def ctrl_shift_a_only_def fun_eq_iff
      exI [of _ Shift])
  show ?thesis
    using most_specific_found [of ?ps ctrl_shift_a] m w
    by (cases "getBinding (bind_all ?ps) ctrl_shift_a") (auto split: if_splits)
qed

section \<open>Sequences of keys, written and read\<close>

text \<open>A sequence for a pattern: the modifiers that are wanted, an asterisk if others may be held, the code.\<close>

definition modifier_name :: "modifier \<Rightarrow> jsstring" where
  "modifier_name m = (case m of Shift \<Rightarrow> js ''Shift'' | Ctrl \<Rightarrow> js ''Ctrl'' | Alt \<Rightarrow> js ''Alt'' | Meta \<Rightarrow> js ''Meta'')"

definition spell_modifier :: "key_pattern \<Rightarrow> modifier \<Rightarrow> jsstring" where
  "spell_modifier p m = (if pattern_mods p m = On then modifier_name m @ [43] else [])"

definition spell :: "key_pattern \<Rightarrow> jsstring" where
  "spell p =
     concat (map (spell_modifier p) modifier_names) @
     (if list_ex (\<lambda>m. pattern_mods p m = Either) modifier_names then [42, 43] else []) @ js_of_int (pattern_code p)"

text \<open>What can be written: an asterisk is for all modifiers that are not wanted.\<close>

definition writable :: "int option \<times> (modifier \<Rightarrow> wanted) \<Rightarrow> bool" where
  "writable rv \<longleftrightarrow> (\<forall>k. fst rv = Some k \<longrightarrow> 0 \<le> k) \<and> ((\<forall>m. snd rv m \<noteq> Either) \<or> (\<forall>m. snd rv m \<noteq> Off))"

lemma foldl_nonneg: "0 \<le> v \<Longrightarrow> 0 \<le> b \<Longrightarrow> \<forall>c \<in> set s. 0 \<le> f c \<Longrightarrow> 0 \<le> foldl (\<lambda>v c. b * v + f c) (v::int) s"
  by (induction s arbitrary: v) auto

lemma digits_value_nonneg: "\<forall>c \<in> set d. is_digit c \<Longrightarrow> 0 \<le> digits_value d"
  unfolding digits_value_def by (rule foldl_nonneg) (auto simp: is_digit_def)

lemma hex_value_nonneg: "\<forall>c \<in> set d. is_hex c \<Longrightarrow> 0 \<le> hex_value d"
  unfolding hex_value_def by (rule foldl_nonneg) (auto simp: is_hex_def is_digit_def hex_digit_def)

lemma parseInteger_nonneg: "parseInteger s = Some (i, r) \<Longrightarrow> 0 \<le> i"
  by (auto simp: parseInteger_def Let_def intro!: digits_value_nonneg hex_value_nonneg dest: set_takeWhileD
      split: if_splits)

lemma parseToken_nonneg: "parseToken s = Some (Integer i, r) \<Longrightarrow> 0 \<le> i"
  by (auto simp: parseToken_def dest: parseInteger_nonneg split: list.splits if_splits)

lemma key_codes_nonneg: "map_of key_codes n = Some k \<Longrightarrow> 0 \<le> k"
proof -
  have "list_all (\<lambda>e. 0 \<le> snd e) key_codes" by (simp add: key_codes_def)
  then show "map_of key_codes n = Some k \<Longrightarrow> 0 \<le> k"
    by (fastforce simp: list_all_iff dest: map_of_SomeD)
qed

lemma key_token_writable:
  assumes "key_token t rv = Some rv'" and "writable rv" and "\<And>i. t = Integer i \<Longrightarrow> 0 \<le> i"
  shows "writable rv'"
  using assms
  by (cases rv; cases t)
    (auto simp: key_token_def writable_def dest: key_codes_nonneg split: option.splits if_splits)

definition writable_pattern :: "key_pattern \<Rightarrow> bool" where
  "writable_pattern p \<longleftrightarrow> writable (Some (pattern_code p), pattern_mods p)"

lemma finish_writable: "finish_sequence rv = Some p \<Longrightarrow> writable rv \<Longrightarrow> writable_pattern p"
  by (cases rv) (auto simp: finish_sequence_def writable_pattern_def writable_def)

lemma parse_keys_writable: "parse_keys rv s = Some (p, r) \<Longrightarrow> writable rv \<Longrightarrow> writable_pattern p"
proof (induction rv s rule: parse_keys.induct)
  case (1 rv s)
  show ?case
  proof (cases "s = []")
    case True
    with 1 show ?thesis by (auto simp: parse_keys.simps [of rv] dest: finish_writable)
  next
    case False
    with "1.prems" obtain t u rv' where t: "parseToken (skip_ws s) = Some (t, u)" "key_token t rv = Some rv'"
      by (subst (asm) parse_keys.simps) (auto split: option.splits prod.splits)
    then have ok: "writable rv'" using "1.prems"(2) by (auto intro: key_token_writable dest: parseToken_nonneg)
    then show ?thesis using "1.prems"(1) False t "1.IH" [OF False t(1) _ t(2)]
      by (subst (asm) parse_keys.simps) (auto dest: finish_writable split: list.splits if_splits)
  qed
qed

lemma skip_ws_not [simp]: "\<not> is_ws c \<Longrightarrow> skip_ws (c # s) = c # s"
  by (simp add: skip_ws_def)

lemmas read_key_simps = parseToken_def is_letter_def is_identifier_def lower_ascii_def is_digit_def is_ws_def
  key_token_def modifier_keys_def upper_ascii_def finish_sequence_def

lemma parse_modifier:
  "mods m \<noteq> On \<Longrightarrow> parse_keys (None, mods) (modifier_name m @ 43 # s) = parse_keys (None, mods(m := On)) s"
  by (subst parse_keys.simps, cases m) (simp_all add: modifier_name_def skip_ws_def read_key_simps)

lemma parse_spelled_modifier:
  "mods m \<noteq> On \<Longrightarrow> parse_keys (None, mods) (spell_modifier p m @ s) =
     parse_keys (None, \<lambda>x. if x = m \<and> pattern_mods p m = On then On else mods x) s"
  by (simp add: spell_modifier_def parse_modifier fun_upd_def)

lemma parse_asterisk:
  "parse_keys (None, mods) (42 # 43 # s) = parse_keys (None, \<lambda>m. if mods m = Off then Either else mods m) s"
  by (subst parse_keys.simps) (simp add: skip_ws_def read_key_simps)

lemma parse_number:
  assumes "0 \<le> k"
  shows "parse_keys (None, mods) (js_of_int k) = Some (\<lparr>pattern_code = k, pattern_mods = mods\<rparr>, [])"
proof -
  obtain c s where cs: "js_of_int k = c # s" by (cases "js_of_int k") auto
  have d: "\<forall>x \<in> set (c # s). is_digit x" using js_of_int_digits [OF assms] cs by simp
  have all: "takeWhile is_digit (js_of_int k) = js_of_int k"
    using js_of_int_digits [OF assms] by (simp add: takeWhile_eq_all_conv)
  have "take 2 (js_of_int k) \<noteq> js ''0x''"
    unfolding cs using d by (cases s) (auto simp: is_digit_def)
  then have "parseInteger (js_of_int k) = Some (k, [])"
    unfolding parseInteger_def all Let_def using assms by (simp add: digits_value_of_int)
  moreover have "parseToken (c # s) = map_option (apfst Integer) (parseInteger (c # s))"
    using d by (auto simp: parseToken_def is_letter_def lower_ascii_def is_digit_def)
  ultimately have "parseToken (skip_ws (c # s)) = Some (Integer k, [])" using d by (simp add: cs)
  then show ?thesis
    by (subst parse_keys.simps) (simp add: cs key_token_def finish_sequence_def skip_ws_def)
qed

lemma some_modifier: "list_ex P modifier_names \<longleftrightarrow> (\<exists>m. P m)"
  using all_modifiers [of "\<lambda>m. \<not> P m"] by (auto simp: list_all_iff list_ex_iff)

lemma spelled_is_read:
  assumes "writable_pattern p"
  shows "parseKeySequence (spell p) = Some (p, [])"
proof -
  let ?on = "\<lambda>m. if pattern_mods p m = On then On else Off"
  define tail where "tail = (if list_ex (\<lambda>m. pattern_mods p m = Either) modifier_names then [42, 43] else []) @
    js_of_int (pattern_code p)"
  have "parseKeySequence (spell p) = parse_keys (None, ?on) tail"
  proof -
    have "parseKeySequence (spell p) = parse_keys (None, \<lambda>_. Off)
        (spell_modifier p Shift @ spell_modifier p Ctrl @ spell_modifier p Alt @ spell_modifier p Meta @ tail)"
      by (simp add: parseKeySequence_def spell_def modifier_names_def tail_def)
    also have "\<dots> = parse_keys (None, ?on) tail"
      by (simp add: parse_spelled_modifier)
        (rule arg_cong [of _ _ "\<lambda>f. parse_keys (None, f) tail"], rule ext, case_tac x, simp_all)
    finally show ?thesis .
  qed
  also have "\<dots> = Some (p, [])"
  proof (cases "\<exists>m. pattern_mods p m = Either")
    case True
    with assms have "(\<lambda>m. if ?on m = Off then Either else ?on m) = pattern_mods p"
      by (auto simp: writable_pattern_def writable_def fun_eq_iff) (metis wanted.exhaust)
    then show ?thesis using True assms
      by (simp add: tail_def parse_asterisk parse_number some_modifier writable_pattern_def writable_def)
  next
    case False
    then have "?on = pattern_mods p" by (auto simp: fun_eq_iff) (metis wanted.exhaust)
    then show ?thesis using False assms
      by (simp add: tail_def parse_number some_modifier writable_pattern_def writable_def)
  qed
  finally show ?thesis .
qed

text \<open>
  C27. A sequence of keys that is read, however written, is read the same from its spelling with the
  modifiers in order and the code as a number.
\<close>

theorem spelling_is_read:
  assumes "parseKeySequence s = Some (p, r)"
  shows "parseKeySequence (spell p) = Some (p, [])"
  using assms spelled_is_read parse_keys_writable unfolding parseKeySequence_def
  by (auto simp: parseKeySequence_def writable_def)

theorem spelling_is_read_witness:
  "\<exists>p. parseKeySequence (js ''ALT - * -control+Escape'') = Some (p, []) \<and> spell p = js ''Ctrl+Alt+*+27'' \<and>
     parseKeySequence (spell p) = Some (p, [])"
proof -
  let ?p = "\<lparr>pattern_code = 27, pattern_mods = (\<lambda>m. if m = Ctrl \<or> m = Alt then On else Either)\<rparr>"
  have "parseKeySequence (js ''ALT - * -control+Escape'') = Some (?p, [])"
    by (simp add: parseKeySequence_def parse_keys.simps skip_ws_def read_key_simps key_codes_def fun_eq_iff)
  moreover have "spell ?p = js ''Ctrl+Alt+*+27''"
    by (simp add: spell_def modifier_names_def spell_modifier_def modifier_name_def js_of_int_def
        nat_digits.simps digit_unit_def)
  ultimately show ?thesis using spelling_is_read by blast
qed
end
