(* ===== verification/Storage.thy ===== *)
theory Storage
  imports Palette "HOL-Library.AList"
begin

text \<open>
  The storage of preferences (hterm_all-1.91.js): \<open>lib.Storage.generateStorageChanges\<close> and the state
  of \<open>lib.Storage.Memory\<close>, in which every change is a new object.
\<close>

section \<open>Values\<close>

text \<open>
  What is stored, as JSON has it: an array or an object is its text with the identity of the object,
  by which JavaScript compares it. Numbers are whole.
\<close>

datatype pref_value = NullValue | BoolValue bool | NumberValue int | StringValue jsstring | ObjectValue nat jsstring

datatype js_type = UndefinedType | ObjectType | BooleanType | NumberType | StringType

definition js_typeof :: "pref_value option \<Rightarrow> js_type" where
  "js_typeof v =
     (case v of
        None \<Rightarrow> UndefinedType
      | Some NullValue \<Rightarrow> ObjectType
      | Some (ObjectValue i s) \<Rightarrow> ObjectType
      | Some (BoolValue b) \<Rightarrow> BooleanType
      | Some (NumberValue i) \<Rightarrow> NumberType
      | Some (StringValue s) \<Rightarrow> StringType)"

text \<open>\<open>lib.PreferenceManager.prototype.diff\<close>; \<open>None\<close> is \<open>undefined\<close>.\<close>

definition pref_diff :: "pref_value option \<Rightarrow> pref_value option \<Rightarrow> bool" where
  "pref_diff a b =
     (if js_typeof a \<noteq> js_typeof b then True
      else if js_typeof a = ObjectType then \<not> (a = Some NullValue \<and> b = Some NullValue)
      else a \<noteq> b)"

text \<open>\<open>JSON.parse(JSON.stringify(v))\<close> is a new object, with the next identity.\<close>

definition copy_value :: "nat \<Rightarrow> pref_value \<Rightarrow> pref_value" where
  "copy_value n v = (case v of ObjectValue i s \<Rightarrow> ObjectValue n s | _ \<Rightarrow> v)"

text \<open>The same as JSON, and so for \<open>undefined\<close>.\<close>

definition same_value :: "pref_value \<Rightarrow> pref_value \<Rightarrow> bool" where
  "same_value a b \<longleftrightarrow> copy_value 0 a = copy_value 0 b"

definition same_option :: "pref_value option \<Rightarrow> pref_value option \<Rightarrow> bool" where
  "same_option = rel_option same_value"

lemma same_value_refl [simp]: "same_value a a"
  by (simp add: same_value_def)

lemma same_value_copy [simp]: "same_value a (copy_value n b) = same_value a b" "same_value (copy_value n a) b = same_value a b"
  by (simp_all add: same_value_def copy_value_def split: pref_value.split)

lemma same_option_refl [simp]: "same_option a a"
  by (cases a) (simp_all add: same_option_def)

lemma same_option_trans: "same_option a b \<Longrightarrow> same_option b c \<Longrightarrow> same_option a c"
  by (cases a; cases b; cases c) (simp_all add: same_option_def same_value_def)

lemma same_option_sym: "same_option a b \<Longrightarrow> same_option b a"
  by (cases a; cases b) (simp_all add: same_option_def same_value_def)

lemma not_diff_same: "\<not> pref_diff a b \<Longrightarrow> a = b"
  by (auto simp: pref_diff_def split: if_splits)

section \<open>Changes\<close>

text \<open>The items are in the order in which the object has its keys.\<close>

type_synonym items = "(jsstring \<times> pref_value) list"

record change =
  oldValue :: "pref_value option"
  newValue :: "pref_value option"

type_synonym changes = "(jsstring \<times> change) list"

definition changed_item :: "items \<Rightarrow> jsstring \<times> pref_value \<Rightarrow> (jsstring \<times> change) option" where
  "changed_item oldStorage = (\<lambda>(key, v).
     case map_of oldStorage key of
       Some u \<Rightarrow> if u \<noteq> v then Some (key, \<lparr>oldValue = Some u, newValue = Some v\<rparr>) else None
     | None \<Rightarrow> Some (key, \<lparr>oldValue = None, newValue = Some v\<rparr>))"

definition deleted_item :: "items \<Rightarrow> jsstring \<times> pref_value \<Rightarrow> (jsstring \<times> change) option" where
  "deleted_item newStorage = (\<lambda>(key, u).
     if map_of newStorage key = None then Some (key, \<lparr>oldValue = Some u, newValue = None\<rparr>) else None)"

definition generateStorageChanges :: "items \<Rightarrow> items \<Rightarrow> changes" where
  "generateStorageChanges oldStorage newStorage =
     List.map_filter (changed_item oldStorage) newStorage @ List.map_filter (deleted_item newStorage) oldStorage"

section \<open>The storage in memory\<close>

text \<open>What \<open>setItems\<close> and \<open>removeItems\<close> make of the items; \<open>n\<close> is the next identity.\<close>

definition memory_set :: "nat \<Rightarrow> jsstring \<Rightarrow> pref_value \<Rightarrow> items \<Rightarrow> items" where
  "memory_set n key v s = AList.update key (copy_value n v) s"

definition memory_remove :: "jsstring list \<Rightarrow> items \<Rightarrow> items" where
  "memory_remove ks s = fold AList.delete ks s"

definition memory_get :: "jsstring list \<Rightarrow> items \<Rightarrow> items" where
  "memory_get ks s = List.map_filter (\<lambda>k. map_option (Pair k) (map_of s k)) ks"

lemma memory_remove_map: "map_of (memory_remove ks s) = (\<lambda>k. if k \<in> set ks then None else map_of s k)"
  unfolding memory_remove_def
  by (induction ks arbitrary: s) (auto simp: fun_eq_iff AList.delete_conv')

lemma memory_remove_distinct: "distinct (map fst s) \<Longrightarrow> distinct (map fst (memory_remove ks s))"
  unfolding memory_remove_def by (induction ks arbitrary: s) (auto simp: AList.distinct_delete)

lemma memory_set_map: "map_of (memory_set n k v s) = (map_of s)(k \<mapsto> copy_value n v)"
  by (simp add: memory_set_def AList.update_conv')

lemma memory_set_distinct: "distinct (map fst s) \<Longrightarrow> distinct (map fst (memory_set n k v s))"
  by (simp add: memory_set_def AList.distinct_update)

section \<open>What observers rely on\<close>

text \<open>
  A storage that reports its changes: for each key whose value is another one, and only for those,
  the new value, once. \<open>good\<close> is what holds of its states.
\<close>

locale change_log =
  fixes lookup :: "'s \<Rightarrow> jsstring \<rightharpoonup> pref_value" and changes_of :: "'s \<Rightarrow> 's \<Rightarrow> changes" and good :: "'s \<Rightarrow> bool"
  assumes once: "\<lbrakk>good s; good t\<rbrakk> \<Longrightarrow> distinct (map fst (changes_of s t))"
    and reported: "\<lbrakk>good s; good t\<rbrakk> \<Longrightarrow> map_option newValue (map_of (changes_of s t) k) =
      (if lookup s k = lookup t k then None else Some (lookup t k))"
begin

text \<open>A copy that takes the new values of what is reported is the storage.\<close>

lemma replayed:
  assumes "good s" "good t"
  shows "(\<lambda>k. case map_of (changes_of s t) k of None \<Rightarrow> lookup s k | Some c \<Rightarrow> newValue c) = lookup t"
proof
  fix k
  show "(case map_of (changes_of s t) k of None \<Rightarrow> lookup s k | Some c \<Rightarrow> newValue c) = lookup t k"
    using reported [OF assms, of k] by (cases "map_of (changes_of s t) k") (auto split: if_splits)
qed

lemma unreported: "\<lbrakk>good s; good t; map_of (changes_of s t) k = None\<rbrakk> \<Longrightarrow> lookup t k = lookup s k"
  using reported [of s t k] by (auto split: if_splits)

lemma reported_new: "\<lbrakk>good s; good t; map_of (changes_of s t) k = Some c\<rbrakk> \<Longrightarrow> newValue c = lookup t k"
  using reported [of s t k] by (auto split: if_splits)

end

lemma map_of_map_filter:
  assumes "distinct (map fst xs)" and "\<And>k v y. f (k, v) = Some y \<Longrightarrow> fst y = k"
  shows "map_of (List.map_filter f xs) k =
    (case map_of xs k of None \<Rightarrow> None | Some v \<Rightarrow> map_option snd (f (k, v)))"
  using assms(1)
proof (induction xs)
  case (Cons x xs)
  obtain a v where x: "x = (a, v)" by fastforce
  show ?case using Cons assms(2) [of a v]
    by (cases "f (a, v)") (auto simp: x map_of_eq_None_iff [THEN iffD2] split: option.split)
qed simp

lemma fst_map_filter:
  assumes "\<And>k v y. f (k, v) = Some y \<Longrightarrow> fst y = k"
  shows "map fst (List.map_filter f xs) = map fst (filter (\<lambda>x. f x \<noteq> None) xs)"
proof (induction xs)
  case (Cons x xs)
  show ?case using assms [of "fst x" "snd x"] Cons by (cases "f x") auto
qed simp

lemma changed_key: "changed_item s (k, v) = Some y \<Longrightarrow> fst y = k" "deleted_item s (k, v) = Some y \<Longrightarrow> fst y = k"
  by (auto simp: changed_item_def deleted_item_def split: option.splits if_splits)

interpretation memory: change_log map_of generateStorageChanges "\<lambda>s. distinct (map fst s)"
proof
  fix s t :: items
  assume s: "distinct (map fst s)" and t: "distinct (map fst t)"
  have keys: "map fst (List.map_filter (changed_item s) t) = map fst (filter (\<lambda>x. changed_item s x \<noteq> None) t)"
      "map fst (List.map_filter (deleted_item t) s) = map fst (filter (\<lambda>x. deleted_item t x \<noteq> None) s)"
    by (rule fst_map_filter, erule changed_key)+
  have maps: "map_of (List.map_filter (changed_item s) t) k =
      (case map_of t k of None \<Rightarrow> None | Some v \<Rightarrow> map_option snd (changed_item s (k, v)))"
      "map_of (List.map_filter (deleted_item t) s) k =
      (case map_of s k of None \<Rightarrow> None | Some v \<Rightarrow> map_option snd (deleted_item t (k, v)))" for k
    by (rule map_of_map_filter [OF t], erule changed_key) (rule map_of_map_filter [OF s], erule changed_key)
  have "set (map fst (List.map_filter (changed_item s) t)) \<inter> set (map fst (List.map_filter (deleted_item t) s)) = {}"
    unfolding keys by (auto simp: deleted_item_def map_of_eq_None_iff rev_image_eqI split: if_splits)
  then show "distinct (map fst (generateStorageChanges s t))"
    using s t by (simp add: generateStorageChanges_def keys distinct_map_filter)
  fix k
  show "map_option newValue (map_of (generateStorageChanges s t) k) =
      (if map_of s k = map_of t k then None else Some (map_of t k))"
    unfolding generateStorageChanges_def map_of_append map_add_def maps
    by (auto simp: changed_item_def deleted_item_def split: option.split)
qed

text \<open>
  What the storage reports of a change is all there is to it and no more: a copy of the old items that
  takes, for each key that is reported, the new value, or loses the key if there is none, has what the new
  items have; and no key is reported twice, or with the value it had.
\<close>

theorem changes_replayed:
  assumes "distinct (map fst s)" "distinct (map fst t)"
  shows "(\<lambda>k. case map_of (generateStorageChanges s t) k of None \<Rightarrow> map_of s k | Some c \<Rightarrow> newValue c) = map_of t \<and>
    distinct (map fst (generateStorageChanges s t)) \<and>
    (\<forall>k c. map_of (generateStorageChanges s t) k = Some c \<longrightarrow> newValue c \<noteq> map_of s k)"
proof (intro conjI allI impI)
  fix k c
  assume "map_of (generateStorageChanges s t) k = Some c"
  with memory.reported [OF assms, of k] show "newValue c \<noteq> map_of s k" by (auto split: if_splits)
qed (rule memory.replayed [OF assms], rule memory.once [OF assms])

lemma changes_replayed_witness:
  "(\<lambda>k. case map_of (generateStorageChanges [(js ''a'', NumberValue 1)] [(js ''b'', NullValue)]) k of
      None \<Rightarrow> map_of [(js ''a'', NumberValue 1)] k | Some c \<Rightarrow> newValue c) = map_of [(js ''b'', NullValue)]"
  by (rule changes_replayed [THEN conjunct1]) simp_all

end
