(* ===== verification/Keyboard.thy ===== *)
theory Keyboard
  imports VtState KeyBindings Storage "HOL-Library.Word"
begin

unbundle bit_operations_syntax

text \<open>
  The keyboard of the terminal (hterm_all-1.91.js): \<open>hterm.Keyboard\<close> and \<open>hterm.Keyboard.KeyMap\<close>, which
  turn the events of keys into what is sent to the host, what is called on the terminal, and what is
  left to the browser.
\<close>

section \<open>Actions of keys\<close>

text \<open>
  An action is a value, or a function: one of the macros of \<open>KeyMap.reset\<close>, each with its
  arguments, or a method of the map.
\<close>

datatype key_method =
    OnKeyInsert | OnKeyHome | OnKeyEnd | OnKeyPageUp | OnKeyDel | OnKeyPageDown | OnKeyArrowUp | OnKeyArrowDown
  | OnClear | OnF11 | OnCtrlNum | OnAltNum | OnMetaNum | OnCtrlTab | OnCtrlW | OnCtrlT | OnCtrlShiftA
  | OnCtrlShiftF | OnCtrlC | OnCtrlN | OnCtrlV | OnMetaN | OnMetaC | OnMetaV | OnZoom

datatype key_def_action =
    Act key_action
  | Ac key_def_action key_def_action
  | Bs key_def_action key_def_action
  | Sh key_def_action key_def_action
  | AltIf key_def_action key_def_action
  | Mod key_def_action key_def_action
  | Med key_def_action
  | Method key_method

abbreviation Csi :: "string \<Rightarrow> key_def_action" where "Csi s \<equiv> Act (Keys (27 # 91 # js s))"
abbreviation Ss3 :: "string \<Rightarrow> key_def_action" where "Ss3 s \<equiv> Act (Keys (27 # 79 # js s))"

record key_def =
  keyCap :: jsstring
  normal :: key_def_action
  control :: key_def_action
  alt :: key_def_action
  meta :: key_def_action

definition key :: "int \<Rightarrow> jsstring \<Rightarrow> key_def_action \<Rightarrow> key_def_action \<Rightarrow> key_def_action \<Rightarrow> key_def_action \<Rightarrow>
    int \<times> key_def" where
  "key code cap n c a m = (code, \<lparr>keyCap = cap, normal = n, control = c, alt = a, meta = m\<rparr>)"

text \<open>\<open>String.fromCharCode\<close> takes the number modulo \<open>2 ^ 16\<close>.\<close>

definition fromCharCode :: "int \<Rightarrow> jsstring" where
  "fromCharCode c = [c mod 65536]"

definition ctl :: "code_unit \<Rightarrow> key_action" where
  "ctl c = Keys (fromCharCode (c - 64))"

section \<open>The map of the keys\<close>

text \<open>Firefox numbers some keys in its own way.\<close>

definition keycapSC :: "bool \<Rightarrow> int" where "keycapSC firefox = (if firefox then 59 else 186)"
definition keycapEP :: "bool \<Rightarrow> int" where "keycapEP firefox = (if firefox then 61 else 187)"
definition keycapMU :: "bool \<Rightarrow> int" where "keycapMU firefox = (if firefox then 173 else 189)"

definition firefox_keys :: "(int \<times> key_def) list" where
  "firefox_keys = [key 171 (js ''+*'') (Act DEFAULT) (Method OnZoom) (Act DEFAULT) (Method OnZoom)]"

definition first_row :: "(int \<times> key_def) list" where
  "first_row =
    [key 0 (js ''[UNKNOWN]'') (Act PASS) (Act PASS) (Act PASS) (Act PASS),
     key 27 (js ''[ESC]'') (Act (Keys [27])) (Act DEFAULT) (Act DEFAULT) (Act DEFAULT),
     key 112 (js ''[F1]'') (Mod (Ss3 ''P'') (Csi ''P'')) (Act DEFAULT) (Csi ''23~'') (Act DEFAULT),
     key 113 (js ''[F2]'') (Mod (Ss3 ''Q'') (Csi ''Q'')) (Act DEFAULT) (Csi ''24~'') (Act DEFAULT),
     key 114 (js ''[F3]'') (Mod (Ss3 ''R'') (Csi ''R'')) (Act DEFAULT) (Csi ''25~'') (Act DEFAULT),
     key 115 (js ''[F4]'') (Mod (Ss3 ''S'') (Csi ''S'')) (Act DEFAULT) (Csi ''26~'') (Act DEFAULT),
     key 116 (js ''[F5]'') (Csi ''15~'') (Act DEFAULT) (Csi ''28~'') (Act DEFAULT),
     key 117 (js ''[F6]'') (Csi ''17~'') (Act DEFAULT) (Csi ''29~'') (Act DEFAULT),
     key 118 (js ''[F7]'') (Csi ''18~'') (Act DEFAULT) (Csi ''31~'') (Act DEFAULT),
     key 119 (js ''[F8]'') (Csi ''19~'') (Act DEFAULT) (Csi ''32~'') (Act DEFAULT),
     key 120 (js ''[F9]'') (Csi ''20~'') (Act DEFAULT) (Csi ''33~'') (Act DEFAULT),
     key 121 (js ''[F10]'') (Csi ''21~'') (Act DEFAULT) (Csi ''34~'') (Act DEFAULT),
     key 122 (js ''[F11]'') (Method OnF11) (Act DEFAULT) (Csi ''42~'') (Act DEFAULT),
     key 123 (js ''[F12]'') (Csi ''24~'') (Act DEFAULT) (Csi ''43~'') (Act DEFAULT)]"

definition second_row :: "bool \<Rightarrow> (int \<times> key_def) list" where
  "second_row firefox =
    [key 192 (js ''`~'') (Act DEFAULT) (Sh (Act (ctl 64)) (Act (ctl 94))) (Act DEFAULT) (Act PASS),
     key 49 (js ''1!'') (Act DEFAULT) (Method OnCtrlNum) (Method OnAltNum) (Method OnMetaNum),
     key 50 (js ''2@'') (Act DEFAULT) (Method OnCtrlNum) (Method OnAltNum) (Method OnMetaNum),
     key 51 (js ''3#'') (Act DEFAULT) (Method OnCtrlNum) (Method OnAltNum) (Method OnMetaNum),
     key 52 (js ''4$'') (Act DEFAULT) (Method OnCtrlNum) (Method OnAltNum) (Method OnMetaNum),
     key 53 (js ''5%'') (Act DEFAULT) (Method OnCtrlNum) (Method OnAltNum) (Method OnMetaNum),
     key 54 (js ''6^'') (Act DEFAULT) (Method OnCtrlNum) (Method OnAltNum) (Method OnMetaNum),
     key 55 (js ''7&'') (Act DEFAULT) (Method OnCtrlNum) (Method OnAltNum) (Method OnMetaNum),
     key 56 (js ''8*'') (Act DEFAULT) (Method OnCtrlNum) (Method OnAltNum) (Method OnMetaNum),
     key 57 (js ''9('') (Act DEFAULT) (Method OnCtrlNum) (Method OnAltNum) (Method OnMetaNum),
     key 48 (js ''0)'') (Act DEFAULT) (Method OnZoom) (Method OnAltNum) (Method OnZoom),
     key (keycapMU firefox) (js ''-_'') (Act DEFAULT) (Method OnZoom) (Act DEFAULT) (Method OnZoom),
     key (keycapEP firefox) (js ''=+'') (Act DEFAULT) (Method OnZoom) (Act DEFAULT) (Method OnZoom),
     key 8 (js ''[BKSP]'') (Bs (Act (Keys [127])) (Act (Keys [8]))) (Bs (Act (Keys [8])) (Act (Keys [127]))) (Act DEFAULT) (Act DEFAULT)]"

definition third_row :: "(int \<times> key_def) list" where
  "third_row =
    [key 9 (js ''[TAB]'') (Sh (Act (Keys [9])) (Csi ''Z'')) (Method OnCtrlTab) (Act PASS) (Act DEFAULT),
     key 81 (js ''qQ'') (Act DEFAULT) (Act (ctl 81)) (Act DEFAULT) (Act DEFAULT),
     key 87 (js ''wW'') (Act DEFAULT) (Method OnCtrlW) (Act DEFAULT) (Act DEFAULT),
     key 69 (js ''eE'') (Act DEFAULT) (Act (ctl 69)) (Act DEFAULT) (Act DEFAULT),
     key 82 (js ''rR'') (Act DEFAULT) (Act (ctl 82)) (Act DEFAULT) (Act DEFAULT),
     key 84 (js ''tT'') (Act DEFAULT) (Method OnCtrlT) (Act DEFAULT) (Act DEFAULT),
     key 89 (js ''yY'') (Act DEFAULT) (Act (ctl 89)) (Act DEFAULT) (Act DEFAULT),
     key 85 (js ''uU'') (Act DEFAULT) (Act (ctl 85)) (Act DEFAULT) (Act DEFAULT),
     key 73 (js ''iI'') (Act DEFAULT) (Act (ctl 73)) (Act DEFAULT) (Act DEFAULT),
     key 79 (js ''oO'') (Act DEFAULT) (Act (ctl 79)) (Act DEFAULT) (Act DEFAULT),
     key 80 (js ''pP'') (Act DEFAULT) (Act (ctl 80)) (Act DEFAULT) (Act DEFAULT),
     key 219 (js ''[{'') (Act DEFAULT) (Act (ctl 91)) (Act DEFAULT) (Act DEFAULT),
     key 221 (js '']}'') (Act DEFAULT) (Act (ctl 93)) (Act DEFAULT) (Act DEFAULT),
     key 220 ([92, 124]) (Act DEFAULT) (Act (ctl 92)) (Act DEFAULT) (Act DEFAULT)]"

definition fourth_row :: "bool \<Rightarrow> (int \<times> key_def) list" where
  "fourth_row firefox =
    [key 20 (js ''[CAPS]'') (Act PASS) (Act PASS) (Act PASS) (Act DEFAULT),
     key 65 (js ''aA'') (Act DEFAULT) (Sh (Act (ctl 65)) (Method OnCtrlShiftA)) (Act DEFAULT) (Act DEFAULT),
     key 83 (js ''sS'') (Act DEFAULT) (Act (ctl 83)) (Act DEFAULT) (Act DEFAULT),
     key 68 (js ''dD'') (Act DEFAULT) (Act (ctl 68)) (Act DEFAULT) (Act DEFAULT),
     key 70 (js ''fF'') (Act DEFAULT) (Sh (Act (ctl 70)) (Method OnCtrlShiftF)) (Act DEFAULT) (Act DEFAULT),
     key 71 (js ''gG'') (Act DEFAULT) (Act (ctl 71)) (Act DEFAULT) (Act DEFAULT),
     key 72 (js ''hH'') (Act DEFAULT) (Act (ctl 72)) (Act DEFAULT) (Act DEFAULT),
     key 74 (js ''jJ'') (Act DEFAULT) (Sh (Act (ctl 74)) (Act PASS)) (Act DEFAULT) (Act DEFAULT),
     key 75 (js ''kK'') (Act DEFAULT) (Sh (Act (ctl 75)) (Method OnClear)) (Act DEFAULT) (Act DEFAULT),
     key 76 (js ''lL'') (Act DEFAULT) (Sh (Act (ctl 76)) (Act PASS)) (Act DEFAULT) (Act DEFAULT),
     key (keycapSC firefox) (js '';:'') (Act DEFAULT) (Act STRIP) (Act DEFAULT) (Act DEFAULT),
     key 222 ([39, 34]) (Act DEFAULT) (Act STRIP) (Act DEFAULT) (Act DEFAULT),
     key 13 (js ''[ENTER]'') (Act (Keys [13])) (Act DEFAULT) (Act DEFAULT) (Act DEFAULT)]"

definition fifth_row :: "(int \<times> key_def) list" where
  "fifth_row =
    [key 16 (js ''[SHIFT]'') (Act PASS) (Act PASS) (Act PASS) (Act DEFAULT),
     key 90 (js ''zZ'') (Act DEFAULT) (Act (ctl 90)) (Act DEFAULT) (Act DEFAULT),
     key 88 (js ''xX'') (Act DEFAULT) (Act (ctl 88)) (Act DEFAULT) (Act DEFAULT),
     key 67 (js ''cC'') (Act DEFAULT) (Method OnCtrlC) (Act DEFAULT) (Method OnMetaC),
     key 86 (js ''vV'') (Act DEFAULT) (Method OnCtrlV) (Act DEFAULT) (Method OnMetaV),
     key 66 (js ''bB'') (Act DEFAULT) (Act (ctl 66)) (Act DEFAULT) (Act DEFAULT),
     key 78 (js ''nN'') (Act DEFAULT) (Method OnCtrlN) (Act DEFAULT) (Method OnMetaN),
     key 77 (js ''mM'') (Act DEFAULT) (Act (ctl 77)) (Act DEFAULT) (Act DEFAULT),
     key 188 (js '',<'') (Act DEFAULT) (AltIf (Act STRIP) (Act PASS)) (Act DEFAULT) (Act DEFAULT),
     key 190 (js ''.>'') (Act DEFAULT) (AltIf (Act STRIP) (Act PASS)) (Act DEFAULT) (Act DEFAULT),
     key 191 (js ''/?'') (Act DEFAULT) (Sh (Act (ctl 95)) (Act (ctl 63))) (Act DEFAULT) (Act DEFAULT)]"

definition sixth_row :: "(int \<times> key_def) list" where
  "sixth_row =
    [key 17 (js ''[CTRL]'') (Act PASS) (Act PASS) (Act PASS) (Act PASS),
     key 18 (js ''[ALT]'') (Act PASS) (Act PASS) (Act PASS) (Act PASS),
     key 91 (js ''[LAPL]'') (Act PASS) (Act PASS) (Act PASS) (Act PASS),
     key 32 (js '' '') (Act DEFAULT) (Act (ctl 64)) (Act DEFAULT) (Act DEFAULT),
     key 92 (js ''[RAPL]'') (Act PASS) (Act PASS) (Act PASS) (Act PASS),
     key 93 (js ''[RMENU]'') (Act PASS) (Act PASS) (Act PASS) (Act PASS),
     key 42 (js ''[PRTSCR]'') (Act PASS) (Act PASS) (Act PASS) (Act PASS),
     key 145 (js ''[SCRLK]'') (Act PASS) (Act PASS) (Act PASS) (Act PASS),
     key 19 (js ''[BREAK]'') (Act PASS) (Act PASS) (Act PASS) (Act PASS)]"

definition cursor_keys :: "(int \<times> key_def) list" where
  "cursor_keys =
    [key 45 (js ''[INSERT]'') (Method OnKeyInsert) (Act DEFAULT) (Act DEFAULT) (Act DEFAULT),
     key 36 (js ''[HOME]'') (Method OnKeyHome) (Act DEFAULT) (Act DEFAULT) (Act DEFAULT),
     key 33 (js ''[PGUP]'') (Method OnKeyPageUp) (Act DEFAULT) (Act DEFAULT) (Act DEFAULT),
     key 46 (js ''[DEL]'') (Method OnKeyDel) (Act DEFAULT) (Act DEFAULT) (Act DEFAULT),
     key 35 (js ''[END]'') (Method OnKeyEnd) (Act DEFAULT) (Act DEFAULT) (Act DEFAULT),
     key 34 (js ''[PGDOWN]'') (Method OnKeyPageDown) (Act DEFAULT) (Act DEFAULT) (Act DEFAULT),
     key 38 (js ''[UP]'') (Method OnKeyArrowUp) (Act DEFAULT) (Act DEFAULT) (Act DEFAULT),
     key 40 (js ''[DOWN]'') (Method OnKeyArrowDown) (Act DEFAULT) (Act DEFAULT) (Act DEFAULT),
     key 39 (js ''[RIGHT]'') (Ac (Csi ''C'') (Ss3 ''C'')) (Act DEFAULT) (Act DEFAULT) (Act DEFAULT),
     key 37 (js ''[LEFT]'') (Ac (Csi ''D'') (Ss3 ''D'')) (Act DEFAULT) (Act DEFAULT) (Act DEFAULT),
     key 144 (js ''[NUMLOCK]'') (Act PASS) (Act PASS) (Act PASS) (Act PASS),
     key 12 (js ''[CLEAR]'') (Act PASS) (Act PASS) (Act PASS) (Act PASS)]"

definition keypad :: "(int \<times> key_def) list" where
  "keypad =
    [key 96 (js ''[KP0]'') (Act DEFAULT) (Act DEFAULT) (Act DEFAULT) (Act DEFAULT),
     key 97 (js ''[KP1]'') (Act DEFAULT) (Act DEFAULT) (Act DEFAULT) (Act DEFAULT),
     key 98 (js ''[KP2]'') (Act DEFAULT) (Act DEFAULT) (Act DEFAULT) (Act DEFAULT),
     key 99 (js ''[KP3]'') (Act DEFAULT) (Act DEFAULT) (Act DEFAULT) (Act DEFAULT),
     key 100 (js ''[KP4]'') (Act DEFAULT) (Act DEFAULT) (Act DEFAULT) (Act DEFAULT),
     key 101 (js ''[KP5]'') (Act DEFAULT) (Act DEFAULT) (Act DEFAULT) (Act DEFAULT),
     key 102 (js ''[KP6]'') (Act DEFAULT) (Act DEFAULT) (Act DEFAULT) (Act DEFAULT),
     key 103 (js ''[KP7]'') (Act DEFAULT) (Act DEFAULT) (Act DEFAULT) (Act DEFAULT),
     key 104 (js ''[KP8]'') (Act DEFAULT) (Act DEFAULT) (Act DEFAULT) (Act DEFAULT),
     key 105 (js ''[KP9]'') (Act DEFAULT) (Act DEFAULT) (Act DEFAULT) (Act DEFAULT),
     key 107 (js ''[KP+]'') (Act DEFAULT) (Method OnZoom) (Act DEFAULT) (Method OnZoom),
     key 109 (js ''[KP-]'') (Act DEFAULT) (Method OnZoom) (Act DEFAULT) (Method OnZoom),
     key 106 (js ''[KP*]'') (Act DEFAULT) (Act DEFAULT) (Act DEFAULT) (Act DEFAULT),
     key 111 (js ''[KP/]'') (Act DEFAULT) (Act DEFAULT) (Act DEFAULT) (Act DEFAULT),
     key 110 (js ''[KP.]'') (Act DEFAULT) (Act DEFAULT) (Act DEFAULT) (Act DEFAULT)]"

definition cros_keys :: "(int \<times> key_def) list" where
  "cros_keys =
    [key 166 (js ''[BACK]'') (Med (Mod (Ss3 ''P'') (Csi ''P''))) (Act DEFAULT) (Csi ''23~'') (Act DEFAULT),
     key 167 (js ''[FWD]'') (Med (Mod (Ss3 ''Q'') (Csi ''Q''))) (Act DEFAULT) (Csi ''24~'') (Act DEFAULT),
     key 168 (js ''[RELOAD]'') (Med (Mod (Ss3 ''R'') (Csi ''R''))) (Act DEFAULT) (Csi ''25~'') (Act DEFAULT),
     key 183 (js ''[FSCR]'') (Med (Mod (Ss3 ''S'') (Csi ''S''))) (Act DEFAULT) (Csi ''26~'') (Act DEFAULT),
     key 182 (js ''[WINS]'') (Med (Csi ''15~'')) (Act DEFAULT) (Csi ''28~'') (Act DEFAULT),
     key 216 (js ''[BRIT-]'') (Med (Csi ''17~'')) (Act DEFAULT) (Csi ''29~'') (Act DEFAULT),
     key 217 (js ''[BRIT+]'') (Med (Csi ''18~'')) (Act DEFAULT) (Csi ''31~'') (Act DEFAULT),
     key 173 (js ''[MUTE]'') (Med (Csi ''19~'')) (Act DEFAULT) (Csi ''32~'') (Act DEFAULT),
     key 174 (js ''[VOL-]'') (Med (Csi ''20~'')) (Act DEFAULT) (Csi ''33~'') (Act DEFAULT),
     key 175 (js ''[VOL+]'') (Med (Csi ''21~'')) (Act DEFAULT) (Csi ''34~'') (Act DEFAULT),
     key 152 (js ''[POWER]'') (Act DEFAULT) (Act DEFAULT) (Act DEFAULT) (Act DEFAULT),
     key 179 (js ''[PLAY]'') (Med (Csi ''18~'')) (Act DEFAULT) (Csi ''31~'') (Act DEFAULT),
     key 154 (js ''[DOGS]'') (Med (Csi ''23~'')) (Act DEFAULT) (Csi ''42~'') (Act DEFAULT),
     key 153 (js ''[ASSIST]'') (Act DEFAULT) (Act DEFAULT) (Act DEFAULT) (Act DEFAULT)]"

text \<open>\<open>KeyMap.reset\<close> adds them in this order, a later one in place of an earlier; \<open>addKeyDef\<close> warns of it.\<close>

definition addKeyDef :: "int \<times> key_def \<Rightarrow> (int \<rightharpoonup> key_def) \<Rightarrow> (int \<rightharpoonup> key_def)" where
  "addKeyDef d defs = defs(fst d \<mapsto> snd d)"

definition reset_keys :: "bool \<Rightarrow> bool \<Rightarrow> (int \<rightharpoonup> key_def)" where
  "reset_keys firefox cros =
     fold addKeyDef
       ((if firefox then firefox_keys else []) @ first_row @ second_row firefox @ third_row @ fourth_row firefox @
        fifth_row @ sixth_row @ cursor_keys @ keypad @ (if cros then cros_keys else [])) Map.empty"

section \<open>The keyboard and its surroundings\<close>

text \<open>
  The fields that control sequences set, those of preferences, the bindings, the map, and the alt
  keys that are held, one bit for each location. Preferences that are asked for truth are so here; three are
  compared with the shift key by \<open>===\<close>, which no value but a boolean passes, and are kept as they are.
\<close>

record keyboard = keyboard_modes +
  altGrMode :: jsstring
  shiftInsertPaste :: bool
  homeKeysScroll :: pref_value
  pageKeysScroll :: pref_value
  ctrlPlusMinusZeroZoom :: pref_value
  ctrlCCopy :: bool
  ctrlVPaste :: bool
  passMetaV :: bool
  altIsMeta :: bool
  altBackspaceIsMetaBackspace :: bool
  altKeyPressed :: "32 word"
  mediaKeysAreFKeys :: bool
  key_bindings :: bindings
  keyDefs :: "int \<rightharpoonup> key_def"

text \<open>
  What the map asks the terminal, the document and the window: the preferences for keys of the
  browser, whether anything is selected, whether pasting fails, the size of the font.
\<close>

record key_host =
  passCtrlNumber :: bool
  passAltNumber :: bool
  passMetaNumber :: bool
  passCtrlTab :: bool
  passCtrlW :: bool
  passCtrlT :: bool
  passCtrlN :: bool
  clearSelectionAfterCopy :: bool
  selection_collapsed :: bool
  paste_fails :: bool
  font_size :: int
  popup_window :: bool

record key_event =
  keyCode :: int
  shift_held :: bool
  ctrl_held :: bool
  alt_held :: bool
  meta_held :: bool
  location :: int
  charCode :: int
  which :: int

definition any_modifier :: "key_event \<Rightarrow> bool" where
  "any_modifier e \<longleftrightarrow> shift_held e \<or> ctrl_held e \<or> alt_held e \<or> meta_held e"

section \<open>Methods of the map\<close>

text \<open>Each gives its action and what it calls on the terminal.\<close>

definition no_call :: "key_action \<Rightarrow> key_action \<times> terminal_call list" where
  "no_call a = (a, [])"

definition cancel_after :: "terminal_call \<Rightarrow> key_action \<times> terminal_call list" where
  "cancel_after c = (CANCEL, [c])"

definition collapse_later :: "key_host \<Rightarrow> terminal_call list" where
  "collapse_later H = (if clearSelectionAfterCopy H then [CallCollapseSelection] else [])"

definition cursor_key :: "bool \<Rightarrow> code_unit \<Rightarrow> key_action" where
  "cursor_key application c = Keys (if application then [27, 79, c] else [27, 91, c])"

definition home_key :: "keyboard \<Rightarrow> key_event \<Rightarrow> code_unit \<Rightarrow> terminal_call \<Rightarrow> key_action \<times> terminal_call list" where
  "home_key K e c call =
     (if homeKeysScroll K = BoolValue (shift_held e)
      then no_call (cursor_key (\<not> (alt_held e \<or> ctrl_held e \<or> shift_held e) \<and> applicationCursor K) c)
      else cancel_after call)"

definition page_key :: "keyboard \<Rightarrow> key_event \<Rightarrow> code_unit \<Rightarrow> terminal_call \<Rightarrow> key_action \<times> terminal_call list" where
  "page_key K e c call =
     (if pageKeysScroll K = BoolValue (shift_held e) then no_call (Keys [27, 91, c, 126]) else cancel_after call)"

definition arrow_key :: "keyboard \<Rightarrow> key_event \<Rightarrow> code_unit \<Rightarrow> terminal_call \<Rightarrow> key_action \<times> terminal_call list" where
  "arrow_key K e c call =
     (if \<not> applicationCursor K \<and> shift_held e then cancel_after call
      else no_call (cursor_key (\<not> any_modifier e \<and> applicationCursor K) c))"

definition ctrl_num :: "key_host \<Rightarrow> key_event \<Rightarrow> jsstring \<Rightarrow> key_action" where
  "ctrl_num H e cap =
     (if passCtrlNumber H \<and> \<not> shift_held e then PASS
      else (case map_of [(js ''1'', Keys [49]), (js ''2'', ctl 64), (js ''3'', ctl 91), (js ''4'', ctl 92),
                         (js ''5'', ctl 93), (js ''6'', ctl 94), (js ''7'', ctl 95), (js ''8'', Keys [127]),
                         (js ''9'', Keys [57])] (take 1 cap) of
              Some a \<Rightarrow> a
            | None \<Rightarrow> PASS))"

definition ctrl_c :: "keyboard \<Rightarrow> key_host \<Rightarrow> key_event \<Rightarrow> key_action \<times> terminal_call list" where
  "ctrl_c K H e =
     (if \<not> selection_collapsed H \<and> ctrlCCopy K \<and> \<not> shift_held e then (PASS, collapse_later H)
      else if \<not> selection_collapsed H \<and> \<not> ctrlCCopy K \<and> shift_held e
      then (CANCEL, collapse_later H @ [CallCopySelection])
      else no_call (Keys [3]))"

definition meta_c :: "key_host \<Rightarrow> key_event \<Rightarrow> jsstring \<Rightarrow> key_action \<times> terminal_call list" where
  "meta_c H e cap =
     (if shift_held e \<or> selection_collapsed H
      then no_call (Keys (js_substr cap (if shift_held e then 1 else 0) (Some 1)))
      else (PASS, collapse_later H))"

definition zoom :: "keyboard \<Rightarrow> key_host \<Rightarrow> key_event \<Rightarrow> jsstring \<Rightarrow> key_action \<times> terminal_call list" where
  "zoom K H e cap =
     (if ctrlPlusMinusZeroZoom K = BoolValue (shift_held e)
      then no_call (if cap = js ''-_'' then Keys [31] else CANCEL)
      else cancel_after (CallSetFontSize
        (if take 1 cap = js ''0'' then 0
         else if take 1 cap = js ''-'' \<or> cap = js ''[KP-]'' then font_size H - 1
         else font_size H + 1)))"

fun call_method :: "keyboard \<Rightarrow> key_host \<Rightarrow> key_event \<Rightarrow> jsstring \<Rightarrow> key_method \<Rightarrow> key_action \<times> terminal_call list" where
  "call_method K H e cap OnKeyInsert = no_call (if shiftInsertPaste K \<and> shift_held e then PASS else Keys (27 # js ''[2~''))"
| "call_method K H e cap OnKeyHome = home_key K e 72 CallScrollHome"
| "call_method K H e cap OnKeyEnd = home_key K e 70 CallScrollEnd"
| "call_method K H e cap OnKeyPageUp = page_key K e 53 CallScrollPageUp"
| "call_method K H e cap OnKeyDel =
     no_call (Keys (if altBackspaceIsMetaBackspace K \<and> altKeyPressed K \<noteq> 0 \<and> \<not> alt_held e then [27, 127]
                  else 27 # js ''[3~''))"
| "call_method K H e cap OnKeyPageDown = page_key K e 54 CallScrollPageDown"
| "call_method K H e cap OnKeyArrowUp = arrow_key K e 65 CallScrollLineUp"
| "call_method K H e cap OnKeyArrowDown = arrow_key K e 66 CallScrollLineDown"
| "call_method K H e cap OnClear = cancel_after CallWipeContents"
| "call_method K H e cap OnF11 = no_call (if \<not> popup_window H \<and> \<not> shift_held e then PASS else Keys (27 # js ''[23~''))"
| "call_method K H e cap OnCtrlNum = no_call (ctrl_num H e cap)"
| "call_method K H e cap OnAltNum = no_call (if passAltNumber H \<and> \<not> shift_held e then PASS else DEFAULT)"
| "call_method K H e cap OnMetaNum = no_call (if passMetaNumber H \<and> \<not> shift_held e then PASS else DEFAULT)"
| "call_method K H e cap OnCtrlTab = no_call (if passCtrlTab H then PASS else STRIP)"
| "call_method K H e cap OnCtrlW = no_call (if passCtrlW H then PASS else Keys [23])"
| "call_method K H e cap OnCtrlT = no_call (if passCtrlT H then PASS else Keys [20])"
| "call_method K H e cap OnCtrlShiftA = cancel_after CallSelectAll"
| "call_method K H e cap OnCtrlShiftF = cancel_after CallFindBar"
| "call_method K H e cap OnCtrlC = ctrl_c K H e"
| "call_method K H e cap OnCtrlN =
     (if passCtrlN H then no_call PASS else if shift_held e then cancel_after CallOpenWindow else no_call (Keys [14]))"
| "call_method K H e cap OnCtrlV =
     (if shift_held e \<noteq> ctrlVPaste K then (if paste_fails H then PASS else CANCEL, [CallPaste]) else no_call (Keys [22]))"
| "call_method K H e cap OnMetaN = (if shift_held e then cancel_after CallOpenWindow else no_call DEFAULT)"
| "call_method K H e cap OnMetaC = meta_c H e cap"
| "call_method K H e cap OnMetaV = no_call (if shift_held e \<or> passMetaV K then PASS else DEFAULT)"
| "call_method K H e cap OnZoom = zoom K H e cap"

text \<open>
  A resolved action: the action, what was called, and whether \<open>e.maskShiftKey\<close> was set.
\<close>

type_synonym resolved = "key_action \<times> terminal_call list \<times> bool"

fun resolve :: "keyboard \<Rightarrow> key_host \<Rightarrow> key_event \<Rightarrow> jsstring \<Rightarrow> key_def_action \<Rightarrow> resolved" where
  "resolve K H e cap (Act a) = (a, [], False)"
| "resolve K H e cap (Ac a b) = resolve K H e cap (if any_modifier e \<or> \<not> applicationCursor K then a else b)"
| "resolve K H e cap (Bs a b) = resolve K H e cap (if \<not> backspaceSendsBackspace K then a else b)"
| "resolve K H e cap (Sh a b) =
     (let (x, calls, mask) = resolve K H e cap (if \<not> shift_held e then a else b) in (x, calls, True))"
| "resolve K H e cap (AltIf a b) = resolve K H e cap (if \<not> alt_held e then a else b)"
| "resolve K H e cap (Mod a b) = resolve K H e cap (if \<not> any_modifier e then a else b)"
| "resolve K H e cap (Med a) =
     (if \<not> mediaKeysAreFKeys K then (if keyCode e \<in> {166, 167, 168} then CANCEL else PASS, [], False)
      else resolve K H e cap a)"
| "resolve K H e cap (Method m) = (let (x, calls) = call_method K H e cap m in (x, calls, False))"

section \<open>Keys that are pressed\<close>

text \<open>
  What comes of an event, in order: calls on the terminal, \<open>contextMenu.hide()\<close>, the event kept
  from the browser, a keystroke for the host, a warning on the console.
\<close>

datatype key_output =
    Called terminal_call | HideContextMenu | PreventDefault | StopPropagation | SendKeys jsstring | InvalidAction

text \<open>The modifiers an event counts with: the alt key may be the meta key, or mean AltGr.\<close>

record held =
  shift_on :: bool
  control_on :: bool
  alt_on :: bool
  meta_on :: bool

text \<open>\<open>/^\[\w+\]$/\<close>\<close>

definition word_unit :: "code_unit \<Rightarrow> bool" where
  "word_unit c \<longleftrightarrow> is_identifier c"

definition isPrintable :: "jsstring \<Rightarrow> bool" where
  "isPrintable cap \<longleftrightarrow> \<not> (3 \<le> length cap \<and> hd cap = 91 \<and> last cap = 93 \<and> list_all word_unit (butlast (tl cap)))"

definition means_altgr :: "keyboard \<Rightarrow> jsstring \<Rightarrow> held \<Rightarrow> bool" where
  "means_altgr K cap h \<longleftrightarrow> isPrintable cap \<and>
     (altGrMode K = js ''ctrl-alt'' \<and> control_on h \<and> alt_on h \<or>
      altGrMode K = js ''right-alt'' \<and> altKeyPressed K AND 2 \<noteq> 0 \<or>
      altGrMode K = js ''left-alt'' \<and> altKeyPressed K AND 1 \<noteq> 0)"

definition modifiers_held :: "keyboard \<Rightarrow> key_event \<Rightarrow> jsstring \<Rightarrow> held" where
  "modifiers_held K e cap =
     (let h = \<lparr>shift_on = shift_held e, control_on = ctrl_held e, alt_on = \<not> altIsMeta K \<and> alt_held e,
               meta_on = meta_held e \<or> altIsMeta K \<and> alt_held e\<rparr>
      in if means_altgr K cap h then h\<lparr>control_on := False, alt_on := False\<rparr> else h)"

text \<open>\<open>getKeyDefAction\<close>, with the type it resolves to.\<close>

datatype action_type = NormalKey | ControlKey | AltKey | MetaKey

definition def_action :: "action_type \<Rightarrow> key_def \<Rightarrow> key_def_action" where
  "def_action t = (case t of NormalKey \<Rightarrow> normal | ControlKey \<Rightarrow> control | AltKey \<Rightarrow> alt | MetaKey \<Rightarrow> meta)"

definition getKeyDefAction :: "keyboard \<Rightarrow> key_host \<Rightarrow> key_event \<Rightarrow> key_def \<Rightarrow> action_type \<Rightarrow>
    action_type \<times> resolved" where
  "getKeyDefAction K H e d t =
     (let (a, calls, mask) = resolve K H e (keyCap d) (def_action t d)
      in if a = DEFAULT \<and> t \<noteq> NormalKey then
           (let (b, calls', mask') = resolve K H e (keyCap d) (normal d)
            in (NormalKey, b, calls @ calls', mask \<or> mask'))
         else (t, a, calls, mask))"

definition pressed_type :: "held \<Rightarrow> action_type" where
  "pressed_type h = (if control_on h then ControlKey else if alt_on h then AltKey else if meta_on h then MetaKey else NormalKey)"

definition key_down_of :: "key_event \<Rightarrow> held \<Rightarrow> key_down" where
  "key_down_of e h = \<lparr>down_code = keyCode e, down_mods =
     (\<lambda>m. case m of Shift \<Rightarrow> shift_held e | Ctrl \<Rightarrow> control_on h | Alt \<Rightarrow> alt_on h | Meta \<Rightarrow> meta_on h)\<rparr>"

text \<open>The action of a binding, before that of the map.\<close>

definition choose_action :: "keyboard \<Rightarrow> key_host \<Rightarrow> key_event \<Rightarrow> key_def \<Rightarrow> held \<Rightarrow>
    action_type \<times> key_action \<times> terminal_call list \<times> held" where
  "choose_action K H e d h =
     (case getBinding (key_bindings K) (key_down_of e h) of
        Some (p, a) \<Rightarrow>
          (let none = \<lparr>shift_on = False, control_on = False, alt_on = False, meta_on = False\<rparr>
           in case a of
                Function c \<Rightarrow> (NormalKey, CANCEL, [c], none)
              | _ \<Rightarrow> (NormalKey, a, [], none))
      | None \<Rightarrow>
          (let (t, a, calls, mask) = getKeyDefAction K H e d (pressed_type h)
           in (t, a, calls, h\<lparr>shift_on := \<not> mask \<and> shift_held e\<rparr>)))"

text \<open>\<open>STRIP\<close>: the normal action without the modifiers.\<close>

definition strip_action :: "keyboard \<Rightarrow> key_host \<Rightarrow> key_event \<Rightarrow> key_def \<Rightarrow> held \<Rightarrow> key_action \<times> terminal_call list" where
  "strip_action K H e d h =
     (let (a, calls, mask) = resolve K H e (keyCap d) (normal d)
      in (if a = DEFAULT \<and> length (keyCap d) = 2 then Keys (js_substr (keyCap d) (if shift_on h then 1 else 0) (Some 1))
          else a, calls))"

definition strip_modifier :: "action_type \<Rightarrow> held \<Rightarrow> held" where
  "strip_modifier t h =
     (case t of NormalKey \<Rightarrow> h | ControlKey \<Rightarrow> h\<lparr>control_on := False\<rparr> | AltKey \<Rightarrow> h\<lparr>alt_on := False\<rparr>
      | MetaKey \<Rightarrow> h\<lparr>meta_on := False\<rparr>)"

text \<open>A control sequence with the modifiers as its last parameter.\<close>

definition modifier_number :: "held \<Rightarrow> int" where
  "modifier_number h = 1 + of_bool (shift_on h) + 2 * of_bool (alt_on h) + 4 * of_bool (control_on h) + 8 * of_bool (meta_on h)"

definition add_modifiers :: "held \<Rightarrow> jsstring \<Rightarrow> jsstring" where
  "add_modifiers h s =
     (let m = 59 # js_of_int (modifier_number h)
      in if length s = 3 then [27, 91, 49] @ m @ js_substr s 2 (Some 1)
         else js_substr s 0 (Some (int (length s) - 1)) @ m @ js_substr s (int (length s) - 1) None)"

definition default_keys :: "key_def \<Rightarrow> held \<Rightarrow> jsstring" where
  "default_keys d h =
     (if control_on h \<and> keyCap d \<noteq> [] \<and> 64 \<le> hd (keyCap d) \<and> hd (keyCap d) \<le> 95 then fromCharCode (hd (keyCap d) - 64)
      else js_substr (keyCap d) (if shift_on h then 1 else 0) (Some 1))"

definition add_prefixes :: "keyboard \<Rightarrow> held \<Rightarrow> jsstring \<Rightarrow> jsstring" where
  "add_prefixes K h s =
     (let s = (if alt_on h \<and> altSendsWhat K = js ''8-bit'' \<and> length s = 1 then fromCharCode (hd s + 128) else s)
      in if alt_on h \<and> altSendsWhat K = js ''escape'' \<or> meta_on h \<and> metaSendsEscape K then 27 # s else s)"

definition key_text :: "keyboard \<Rightarrow> key_def \<Rightarrow> held \<Rightarrow> key_action \<Rightarrow> jsstring option" where
  "key_text K d h a =
     (case a of
        Keys s \<Rightarrow>
          Some (if take 2 s = [27, 91] \<and> (alt_on h \<or> control_on h \<or> shift_on h \<or> meta_on h) then add_modifiers h s
                else add_prefixes K h s)
      | DEFAULT \<Rightarrow> Some (add_prefixes K h (default_keys d h))
      | _ \<Rightarrow> None)"

text \<open>From the action on: the key is left to the browser, or kept from it and sent.\<close>

definition perform :: "keyboard \<Rightarrow> key_host \<Rightarrow> key_event \<Rightarrow> key_def \<Rightarrow> action_type \<Rightarrow> key_action \<Rightarrow> held \<Rightarrow> key_output list" where
  "perform K H e d t action h =
     (let action = (if alt_on h \<and> altSendsWhat K = js ''browser-key'' \<and> action = DEFAULT then PASS else action);
          hide = (if action \<noteq> PASS then [HideContextMenu] else [])
      in if action = PASS \<or> action = DEFAULT \<and> \<not> (control_on h \<or> alt_on h \<or> meta_on h) then hide
         else
           (let (action, calls, h) =
                  (if action = STRIP
                   then (let h = h\<lparr>alt_on := False, control_on := False\<rparr>; (a, calls) = strip_action K H e d h
                         in (a, calls, h))
                   else (action, [], h))
            in hide @ map Called calls @ [PreventDefault, StopPropagation] @
               (if action = CANCEL then []
                else (case key_text K d (strip_modifier t h) action of
                        None \<Rightarrow> [InvalidAction]
                      | Some s \<Rightarrow> [SendKeys s]))))"

definition press_alt :: "key_event \<Rightarrow> keyboard \<Rightarrow> keyboard" where
  "press_alt e K =
     (if keyCode e = 18 then K\<lparr>altKeyPressed := altKeyPressed K OR push_bit (nat ((location e - 1) mod 32)) 1\<rparr>
      else K)"

text \<open>A key without a definition is given that of the code 0; \<open>None\<close> if there is none.\<close>

definition find_def :: "key_event \<Rightarrow> keyboard \<Rightarrow> (key_def \<times> keyboard) option" where
  "find_def e K =
     (case keyDefs K (keyCode e) of
        Some d \<Rightarrow> Some (d, K)
      | None \<Rightarrow> map_option (\<lambda>d. (d, K\<lparr>keyDefs := addKeyDef (keyCode e, d) (keyDefs K)\<rparr>)) (keyDefs K 0))"

definition onKeyDown :: "key_host \<Rightarrow> key_event \<Rightarrow> keyboard \<Rightarrow> (keyboard \<times> key_output list) option" where
  "onKeyDown H e K = do {
     (d, K) \<leftarrow> find_def e (press_alt e K);
     let (t, action, calls, h) = choose_action K H e d (modifiers_held K e (keyCap d));
     Some (K, map Called calls @ perform K H e d t action h)
   }"

section \<open>The other events\<close>

text \<open>\<open>toLowerCase\<close> of the character of a key code, which is below 256.\<close>

definition lower_latin1 :: "code_unit \<Rightarrow> code_unit" where
  "lower_latin1 c = (if 65 \<le> c \<and> c \<le> 90 \<or> 192 \<le> c \<and> c \<le> 222 \<and> c \<noteq> 215 then c + 32 else c)"

definition onKeyPress :: "key_event \<Rightarrow> keyboard \<Rightarrow> key_output list" where
  "onKeyPress e K =
     (let typed = map lower_ascii (fromCharCode (which e));
          ch = (if alt_held e \<and> altSendsWhat K = js ''browser-key'' \<and> charCode e = 0 then
                  (if shift_held e then fromCharCode (keyCode e) else map lower_latin1 (fromCharCode (keyCode e)))
                else if 32 \<le> charCode e then fromCharCode (charCode e)
                else [])
      in if (ctrl_held e \<or> meta_held e) \<and> (typed = js ''c'' \<or> typed = js ''v'') \<or> keyCode e = 9 then []
         else (if ch = [] then [] else [SendKeys ch]) @ [PreventDefault, StopPropagation])"

definition onKeyUp :: "key_event \<Rightarrow> keyboard \<Rightarrow> keyboard" where
  "onKeyUp e K =
     (if keyCode e = 18
      then K\<lparr>altKeyPressed := altKeyPressed K AND NOT (push_bit (nat ((location e - 1) mod 32)) 1)\<rparr>
      else K)"

definition onFocusOut :: "keyboard \<Rightarrow> keyboard" where
  "onFocusOut K = K\<lparr>altKeyPressed := 0\<rparr>"

definition onTextInput :: "jsstring \<Rightarrow> key_output list" where
  "onTextInput s = (if s = [] then [] else [SendKeys s])"

text \<open>A keyboard after its constructor, in a browser and on a system.\<close>

definition new_keys :: "bool \<Rightarrow> bool \<Rightarrow> keyboard" where
  "new_keys firefox cros =
     \<lparr>applicationCursor = False, applicationKeypad = False, backspaceSendsBackspace = False, metaSendsEscape = True,
      altSendsWhat = js ''escape'', previousAltSendsWhat = None, altGrMode = js ''none'', shiftInsertPaste = True,
      homeKeysScroll = BoolValue False, pageKeysScroll = BoolValue False, ctrlPlusMinusZeroZoom = BoolValue True,
      ctrlCCopy = False, ctrlVPaste = False,
      passMetaV = True, altIsMeta = False, altBackspaceIsMetaBackspace = False, altKeyPressed = 0,
      mediaKeysAreFKeys = False, key_bindings = Map.empty, keyDefs = reset_keys firefox cros\<rparr>"

section \<open>A key is sent or left to the browser\<close>

definition keystrokes :: "key_output list \<Rightarrow> jsstring list" where
  "keystrokes out = List.map_filter (\<lambda>r. case r of SendKeys s \<Rightarrow> Some s | _ \<Rightarrow> None) out"

lemma keystrokes_simps [simp]:
  "keystrokes [] = []" "keystrokes (SendKeys s # out) = s # keystrokes out"
  "keystrokes (Called c # out) = keystrokes out" "keystrokes (HideContextMenu # out) = keystrokes out"
  "keystrokes (PreventDefault # out) = keystrokes out" "keystrokes (StopPropagation # out) = keystrokes out"
  "keystrokes (InvalidAction # out) = keystrokes out"
  by (simp_all add: keystrokes_def)

lemma keystrokes_append [simp]: "keystrokes (out @ out') = keystrokes out @ keystrokes out'"
  by (simp add: keystrokes_def List.map_filter_def)

lemma keystrokes_called [simp]: "keystrokes (map Called calls) = []"
  by (induction calls) simp_all

definition at_most_one_kept :: "key_output list \<Rightarrow> bool" where
  "at_most_one_kept out \<longleftrightarrow> keystrokes out = [] \<or> (\<exists>s. keystrokes out = [s]) \<and> PreventDefault \<in> set out"

lemma perform_keeps: "at_most_one_kept (map Called calls @ perform K H e d t a h)"
  by (auto simp: at_most_one_kept_def perform_def Let_def split: option.splits prod.splits)

text \<open>
  For a key going down at most one text is sent, and only if the event is kept from the
  browser, which then reports no character for it; a reported character is sent the same way.
\<close>

theorem sent_once:
  "(\<forall>K' out. onKeyDown H e K = Some (K', out) \<longrightarrow> at_most_one_kept out) \<and> at_most_one_kept (onKeyPress e' K)"
proof
  have "at_most_one_kept out" if "onKeyDown H e K = Some (K', out)" for K' out
  proof -
    from that obtain d J where "out = (let (t, a, calls, h) = choose_action J H e d (modifiers_held J e (keyCap d))
        in map Called calls @ perform J H e d t a h)"
      by (auto simp: onKeyDown_def Let_def Option.bind_eq_Some_conv case_prod_beta)
    then show ?thesis by (simp add: case_prod_beta Let_def perform_keeps)
  qed
  then show "\<forall>K' out. onKeyDown H e K = Some (K', out) \<longrightarrow> at_most_one_kept out" by blast
  show "at_most_one_kept (onKeyPress e' K)"
    by (simp add: onKeyPress_def Let_def at_most_one_kept_def)
qed

section \<open>Keys of the stock map\<close>

lemmas stock_rows = first_row_def second_row_def third_row_def fourth_row_def fifth_row_def sixth_row_def
  cursor_keys_def keypad_def cros_keys_def firefox_keys_def

text \<open>A key without bindings, and without AltGr, acts by its definition.\<close>

definition sends :: "jsstring \<Rightarrow> key_output list" where
  "sends s = [HideContextMenu, PreventDefault, StopPropagation, SendKeys s]"

definition counted :: "keyboard \<Rightarrow> key_event \<Rightarrow> held" where
  "counted K e = \<lparr>shift_on = shift_held e, control_on = ctrl_held e, alt_on = \<not> altIsMeta K \<and> alt_held e,
     meta_on = meta_held e \<or> altIsMeta K \<and> alt_held e\<rparr>"

lemma unbound_action:
  assumes "keyDefs K (keyCode e) = Some d" and "keyCode e \<noteq> 18" and "key_bindings K (keyCode e) = None"
    and "\<not> means_altgr K (keyCap d) (counted K e)"
    and "getKeyDefAction K H e d (pressed_type (counted K e)) = (t, a, calls, masked)"
  shows "onKeyDown H e K = Some (K, map Called calls @
    perform K H e d t a ((counted K e)\<lparr>shift_on := \<not> masked \<and> shift_held e\<rparr>))"
proof -
  have "modifiers_held K e (keyCap d) = counted K e"
    using assms(4) by (simp add: modifiers_held_def counted_def Let_def)
  moreover have "getBinding (key_bindings K) (key_down_of e h) = None" for h
    using assms(3) by (simp add: getBinding_def key_down_of_def)
  ultimately show ?thesis using assms
    by (simp add: onKeyDown_def find_def_def press_alt_def choose_action_def)
qed

lemma unbound_result:
  assumes "keyDefs K (keyCode e) = Some d" and "keyCode e \<noteq> 18" and "key_bindings K (keyCode e) = None"
    and "\<not> means_altgr K (keyCap d) (counted K e)"
  shows "onKeyDown H e K = Some (K,
    case getKeyDefAction K H e d (pressed_type (counted K e)) of (t, a, calls, masked) \<Rightarrow>
      map Called calls @ perform K H e d t a ((counted K e)\<lparr>shift_on := \<not> masked \<and> shift_held e\<rparr>))"
  using unbound_action [OF assms] by (cases "getKeyDefAction K H e d (pressed_type (counted K e))") simp

definition default_key :: "jsstring \<Rightarrow> key_def_action \<Rightarrow> key_def" where
  "default_key cap n = \<lparr>keyCap = cap, normal = n, control = Act DEFAULT, alt = Act DEFAULT, meta = Act DEFAULT\<rparr>"

lemma arrow_defs:
  "reset_keys firefox cros 37 = Some (default_key (js ''[LEFT]'') (Ac (Csi ''D'') (Ss3 ''D'')))"
  "reset_keys firefox cros 38 = Some (default_key (js ''[UP]'') (Method OnKeyArrowUp))"
  "reset_keys firefox cros 39 = Some (default_key (js ''[RIGHT]'') (Ac (Csi ''C'') (Ss3 ''C'')))"
  "reset_keys firefox cros 40 = Some (default_key (js ''[DOWN]'') (Method OnKeyArrowDown))"
  by (simp_all add: reset_keys_def addKeyDef_def key_def stock_rows keycapSC_def keycapMU_def keycapEP_def
      default_key_def)

lemma keyCap_default [simp]: "keyCap (default_key cap n) = cap"
  by (simp add: default_key_def)

lemma default_key_action:
  "getKeyDefAction K H e (default_key cap n) t =
     (let (a, calls, masked) = resolve K H e cap n in (NormalKey, a, calls, masked))"
  by (cases t) (simp_all add: getKeyDefAction_def default_key_def def_action_def split: prod.split)

lemma unprintable: "list_all word_unit cap \<Longrightarrow> cap \<noteq> [] \<Longrightarrow> \<not> means_altgr K (91 # cap @ [93]) h"
  by (cases cap) (simp_all add: means_altgr_def isPrintable_def butlast_append)

lemma keys_sent:
  "perform K H e d t (Keys s) h =
     (case key_text K d (strip_modifier t h) (Keys s) of None \<Rightarrow> [] | Some u \<Rightarrow> sends u)"
  by (simp add: perform_def sends_def key_text_def)

definition arrow_final :: "int \<Rightarrow> code_unit" where
  "arrow_final k = (if k = 38 then 65 else if k = 40 then 66 else if k = 39 then 67 else 68)"

lemma arrow_action:
  assumes "k \<in> {37, 38, 39, 40}" and "shift_held e \<Longrightarrow> k \<in> {38, 40} \<Longrightarrow> applicationCursor K"
  shows "\<exists>cap n. reset_keys firefox cros k = Some (default_key (91 # cap @ [93]) n) \<and>
    list_all word_unit cap \<and> cap \<noteq> [] \<and>
    resolve K H e (91 # cap @ [93]) n =
      (cursor_key (\<not> any_modifier e \<and> applicationCursor K) (arrow_final k), [], False)"
proof -
  have w: "list_all word_unit (js ''LEFT'')" "list_all word_unit (js ''UP'')" "list_all word_unit (js ''RIGHT'')"
      "list_all word_unit (js ''DOWN'')"
    by (simp_all add: word_unit_def is_identifier_def is_letter_def lower_ascii_def)
  consider "k = 37" | "k = 38" | "k = 39" | "k = 40" using assms(1) by auto
  then show ?thesis
  proof cases
    case 1 then show ?thesis using w
      by (intro exI [of _ "js ''LEFT''"] exI [of _ "Ac (Csi ''D'') (Ss3 ''D'')"]) (auto simp: arrow_defs cursor_key_def arrow_final_def)
  next
    case 2 then show ?thesis using w assms(2)
      by (intro exI [of _ "js ''UP''"] exI [of _ "Method OnKeyArrowUp"]) (auto simp: arrow_defs arrow_key_def no_call_def arrow_final_def)
  next
    case 3 then show ?thesis using w
      by (intro exI [of _ "js ''RIGHT''"] exI [of _ "Ac (Csi ''C'') (Ss3 ''C'')"]) (auto simp: arrow_defs cursor_key_def arrow_final_def)
  next
    case 4 then show ?thesis using w assms(2)
      by (intro exI [of _ "js ''DOWN''"] exI [of _ "Method OnKeyArrowDown"]) (auto simp: arrow_defs arrow_key_def no_call_def arrow_final_def)
  qed
qed

text \<open>Keys with shift, control and alt for examples, where preferences leave all keys to the terminal.\<close>

definition plain_host :: key_host where
  "plain_host = \<lparr>passCtrlNumber = False, passAltNumber = False, passMetaNumber = False, passCtrlTab = False,
     passCtrlW = False, passCtrlT = False, passCtrlN = False, clearSelectionAfterCopy = True,
     selection_collapsed = True, paste_fails = False, font_size = 15, popup_window = False\<rparr>"

definition press :: "int \<Rightarrow> bool \<Rightarrow> bool \<Rightarrow> bool \<Rightarrow> key_event" where
  "press k s c a = \<lparr>keyCode = k, shift_held = s, ctrl_held = c, alt_held = a, meta_held = False, location = 0,
     charCode = 0, which = k\<rparr>"

text \<open>
  C29. An arrow key of the stock map sends \<open>CSI 1 ; m x\<close> if modifiers are held, with \<open>m\<close> one more than the
  sum of 1 for shift, 2 for alt, 4 for control and 8 for meta; else \<open>SS3 x\<close> or \<open>CSI x\<close> by the mode of the
  cursor keys.
\<close>

theorem arrow_sent:
  assumes "keyDefs K = reset_keys firefox cros" and "keyCode e \<in> {37, 38, 39, 40}"
    and "key_bindings K (keyCode e) = None"
    and "shift_held e \<Longrightarrow> keyCode e \<in> {38, 40} \<Longrightarrow> applicationCursor K"
  shows "onKeyDown H e K = Some (K, sends
    (if any_modifier e
     then 27 # js ''[1;'' @ js_of_int (modifier_number (counted K e)) @ [arrow_final (keyCode e)]
     else if applicationCursor K then [27, 79, arrow_final (keyCode e)]
     else [27, 91, arrow_final (keyCode e)]))"
proof -
  obtain cap n where d: "reset_keys firefox cros (keyCode e) = Some (default_key (91 # cap @ [93]) n)"
      "list_all word_unit cap" "cap \<noteq> []"
    and r: "resolve K H e (91 # cap @ [93]) n =
      (cursor_key (\<not> any_modifier e \<and> applicationCursor K) (arrow_final (keyCode e)), [], False)"
    using arrow_action [OF assms(2) assms(4)] by blast
  have "onKeyDown H e K = Some (K, map Called [] @ perform K H e (default_key (91 # cap @ [93]) n) NormalKey
      (cursor_key (\<not> any_modifier e \<and> applicationCursor K) (arrow_final (keyCode e))) 
      ((counted K e)\<lparr>shift_on := \<not> False \<and> shift_held e\<rparr>))"
    by (rule unbound_action)
      (use assms d r in \<open>auto simp: default_key_action unprintable\<close>)
  then show ?thesis
    by (auto simp: keys_sent cursor_key_def key_text_def strip_modifier_def counted_def any_modifier_def
        add_modifiers_def add_prefixes_def Let_def)
qed

theorem arrow_sent_witness:
  "onKeyDown plain_host
     (press 39 True True False) (new_keys False False) =
   Some (new_keys False False, sends (27 # js ''[1;6C''))"
  by (subst arrow_sent [of _ False False])
    (simp_all add: press_def new_keys_def any_modifier_def modifier_number_def counted_def arrow_final_def js_of_int_def
      nat_digits.simps digit_unit_def)

section \<open>Control characters\<close>

text \<open>What holds of every entry for a code holds of the definition the map has for it.\<close>

definition stock_entries :: "bool \<Rightarrow> bool \<Rightarrow> (int \<times> key_def) list" where
  "stock_entries firefox cros =
     (if firefox then firefox_keys else []) @ first_row @ second_row firefox @ third_row @ fourth_row firefox @
     fifth_row @ sixth_row @ cursor_keys @ keypad @ (if cros then cros_keys else [])"

lemma fold_addKeyDef: "fold addKeyDef ds M = M ++ map_of (rev ds)"
  by (induction ds arbitrary: M) (auto simp: addKeyDef_def map_add_def fun_eq_iff split: option.splits)

lemma reset_keys_entries: "reset_keys firefox cros = map_of (rev (stock_entries firefox cros))"
  by (simp add: reset_keys_def stock_entries_def fold_addKeyDef)

lemma stock_def:
  assumes "k \<in> fst ` set (stock_entries firefox cros)"
    and "list_all (\<lambda>(k, d). k \<in> ks \<longrightarrow> P k d) (stock_entries firefox cros)" and "k \<in> ks"
  shows "\<exists>d. reset_keys firefox cros k = Some d \<and> P k d"
proof -
  obtain d where d: "reset_keys firefox cros k = Some d"
    using assms(1) by (cases "reset_keys firefox cros k") (auto simp: reset_keys_entries map_of_eq_None_iff)
  then have "(k, d) \<in> set (stock_entries firefox cros)"
    by (auto simp: reset_keys_entries dest: map_of_SomeD)
  then show ?thesis using d assms by (auto simp: list_all_iff)
qed

text \<open>What the key for a letter does with control, if neither the browser nor the document wants it.\<close>

definition letters_kept :: "keyboard \<Rightarrow> key_host \<Rightarrow> bool" where
  "letters_kept K H \<longleftrightarrow> \<not> passCtrlN H \<and> \<not> passCtrlT H \<and> \<not> passCtrlW H \<and> \<not> ctrlVPaste K \<and>
     (ctrlCCopy K \<longrightarrow> selection_collapsed H)"

definition control_letter :: "keyboard \<Rightarrow> key_host \<Rightarrow> key_event \<Rightarrow> int \<Rightarrow> key_def \<Rightarrow> bool" where
  "control_letter K H e k d \<longleftrightarrow>
     isPrintable (keyCap d) \<and>
     fst (resolve K H e (keyCap d) (control d)) = Keys [k - 64] \<and>
     fst (snd (resolve K H e (keyCap d) (control d))) = []"

lemma control_letters:
  assumes "letters_kept K H" and "\<not> shift_held e"
  shows "list_all (\<lambda>(k, d). k \<in> {65..90} \<longrightarrow> control_letter K H e k d) (stock_entries firefox cros)"
  unfolding stock_entries_def using assms
  by (simp add: control_letter_def key_def stock_rows keycapSC_def keycapMU_def
      keycapEP_def ctl_def fromCharCode_def letters_kept_def ctrl_c_def no_call_def isPrintable_def) blast

lemma letters_defined:
  assumes "k \<in> {65..90}"
  shows "k \<in> fst ` set (stock_entries firefox cros)"
proof -
  let ?codes = "map fst third_row @ map fst (fourth_row firefox) @ map fst fifth_row"
  have third: "map fst third_row = [9, 81, 87, 69, 82, 84, 89, 85, 73, 79, 80, 219, 221, 220]"
    by (simp add: third_row_def key_def)
  have fourth: "map fst (fourth_row firefox) = [20, 65, 83, 68, 70, 71, 72, 74, 75, 76, keycapSC firefox, 222, 13]"
    by (simp add: fourth_row_def key_def)
  have fifth: "map fst fifth_row = [16, 90, 88, 67, 86, 66, 78, 77, 188, 190, 191]"
    by (simp add: fifth_row_def key_def)
  have "list_all (\<lambda>k. k \<in> set ?codes) [65..90]"
    unfolding third fourth fifth by (simp add: upto_rec1)
  then have "\<forall>k \<in> set [65..90]. k \<in> set ?codes" unfolding list_all_iff .
  then have "k \<in> set ?codes" by (rule bspec) (use assms in \<open>simp only: set_upto\<close>)
  then show ?thesis by (auto simp: stock_entries_def)
qed

text \<open>
  A letter with control and without shift sends the control character of the letter, after an
  escape if the alt or meta key asks for it, unless preferences give the key to the browser.
\<close>

theorem control_letter_sent:
  assumes "keyDefs K = reset_keys firefox cros" and "65 \<le> keyCode e" and "keyCode e \<le> 90"
    and "key_bindings K (keyCode e) = None" and "letters_kept K H" and "altGrMode K = js ''none''"
    and "ctrl_held e" and "\<not> shift_held e"
  shows "onKeyDown H e K = Some (K, sends (add_prefixes K (counted K e) [keyCode e - 64]))"
proof -
  obtain d where d: "reset_keys firefox cros (keyCode e) = Some d" "control_letter K H e (keyCode e) d"
    using stock_def [OF letters_defined control_letters [OF assms(5,8)], of "keyCode e" firefox cros] assms(2,3)
    by auto
  then obtain masked where r: "resolve K H e (keyCap d) (control d) = (Keys [keyCode e - 64], [], masked)"
    by (cases "resolve K H e (keyCap d) (control d)") (auto simp: control_letter_def)
  have "onKeyDown H e K = Some (K, map Called [] @ perform K H e d ControlKey (Keys [keyCode e - 64])
      ((counted K e)\<lparr>shift_on := \<not> masked \<and> shift_held e\<rparr>))"
    by (rule unbound_action)
      (use assms d r in \<open>auto simp: getKeyDefAction_def def_action_def pressed_type_def counted_def means_altgr_def\<close>)
  then show ?thesis using assms
    by (simp add: keys_sent key_text_def strip_modifier_def add_prefixes_def counted_def)
qed

theorem control_letter_sent_witness:
  "\<exists>K'. onKeyDown plain_host
     (press 90 False True True) (new_keys False False) = Some (K', sends [27, 26])"
  by (subst control_letter_sent [of _ False False])
    (simp_all add: press_def plain_host_def new_keys_def letters_kept_def add_prefixes_def counted_def)

section \<open>Keys that are bound\<close>

text \<open>Adding bindings from a map is adding those of its entries that can be read.\<close>

definition parsed_entry :: "jsstring \<times> binding_action \<Rightarrow> binding option" where
  "parsed_entry = (\<lambda>(key, act). case parseKeySequence key of
     Some (p, []) \<Rightarrow> map_option (Pair p) (parse_action act) | _ \<Rightarrow> None)"

lemma add_map_bind_all: "add_map m (bind_all ps) = bind_all (ps @ List.map_filter parsed_entry m)"
proof (induction m arbitrary: ps)
  case Nil
  show ?case by (simp add: add_map_def)
next
  case (Cons x m)
  obtain key act where x: "x = (key, act)" by fastforce
  have "add_map (x # m) (bind_all ps) = add_map m (addBinding key act (bind_all ps))"
    by (simp add: add_map_def x)
  also have "addBinding key act (bind_all ps) =
      bind_all (case parsed_entry x of None \<Rightarrow> ps | Some b \<Rightarrow> ps @ [b])"
    by (auto simp: addBinding_def parsed_entry_def x bind_all_def split: option.split list.split)
  also have "add_map m \<dots> = bind_all ((case parsed_entry x of None \<Rightarrow> ps | Some b \<Rightarrow> ps @ [b]) @
      List.map_filter parsed_entry m)"
    by (rule Cons.IH)
  finally show ?case by (simp split: option.split)
qed

definition user_bindings :: "jsstring \<Rightarrow> (jsstring \<times> binding_action) list \<Rightarrow> binding list" where
  "user_bindings os m = List.map_filter parsed_entry (OsDefaults os) @ List.map_filter parsed_entry m"

lemma addBindings_bind_all: "addBindings os m True Map.empty = bind_all (user_bindings os m)"
proof -
  have empty: "Map.empty = bind_all []" by (simp add: bind_all_def)
  show ?thesis by (simp add: addBindings_def empty add_map_bind_all user_bindings_def)
qed

text \<open>
  C28. With the bindings of the system and then those of a user, a key whose modifiers a pattern names
  exactly sends the text last bound to that pattern, as it is, whatever its modifiers and the map.
\<close>

theorem bound_text_sent:
  assumes "key_bindings K = addBindings os m True Map.empty"
    and "map_of (rev (user_bindings os m)) p = Some (Keys s)" and "wildcardCount p = 0"
    and "keyDefs K (keyCode e) = Some d" and "keyCode e \<noteq> 18"
    and "matchKeyDown (key_down_of e (modifiers_held K e (keyCap d))) p"
  shows "onKeyDown H e K = Some (K, sends s)"
proof -
  have "bound (bind_all (user_bindings os m)) p = Some (Keys s)"
    using assms(2) by (simp add: bound_bind_all)
  then have "getBinding (key_bindings K) (key_down_of e (modifiers_held K e (keyCap d))) = Some (p, Keys s)"
    unfolding assms(1) addBindings_bind_all by (rule binding_lookup.exact_wins [OF bind_all_ok]) (use assms in auto)
  then show ?thesis using assms(4,5)
    by (simp add: onKeyDown_def find_def_def press_alt_def choose_action_def keys_sent key_text_def strip_modifier_def
        add_prefixes_def)
qed

definition ctrl_p :: key_pattern where
  "ctrl_p = \<lparr>pattern_code = 80, pattern_mods = (\<lambda>m. if m = Ctrl then On else Off)\<rparr>"

definition greeting_map :: "(jsstring \<times> binding_action) list" where
  "greeting_map = [(js ''Ctrl + P'', ActionText (32 # 34 # js ''hi!'' @ [34])), (js ''Ctrl-*-P'', ActionText (js ''PASS''))]"

lemma read_greetings:
  "parsed_entry (js ''Ctrl + P'', ActionText (32 # 34 # js ''hi!'' @ [34])) = Some (ctrl_p, Keys (js ''hi!''))"
  "parsed_entry (js ''Ctrl-*-P'', ActionText (js ''PASS'')) =
     Some (ctrl_p\<lparr>pattern_mods := \<lambda>m. if m = Ctrl then On else Either\<rparr>, PASS)"
  by (simp_all add: parsed_entry_def parseKeySequence_def parse_keys.simps skip_ws_def read_key_simps key_codes_def
      fun_eq_iff parse_action_def parseKeyAction_def named_actions_def ctrl_p_def)

lemma greeting_bound:
  "map_of (rev (user_bindings os greeting_map)) ctrl_p = Some (Keys (js ''hi!''))"
proof -
  have "user_bindings os greeting_map = List.map_filter parsed_entry (OsDefaults os) @
      [(ctrl_p, Keys (js ''hi!'')), (ctrl_p\<lparr>pattern_mods := \<lambda>m. if m = Ctrl then On else Either\<rparr>, PASS)]"
    using read_greetings by (simp add: user_bindings_def greeting_map_def)
  then show ?thesis by (simp add: ctrl_p_def fun_eq_iff exI [of _ Shift])
qed

theorem bound_text_sent_witness:
  "let K = (new_keys False False)\<lparr>key_bindings := addBindings (js ''mac'') greeting_map True Map.empty\<rparr>;
      e = (press 80 False True False)
   in \<forall>H. onKeyDown H e K = Some (K, sends (js ''hi!''))"
proof -
  obtain d where d: "reset_keys False False 80 = Some d"
    using stock_def [where k = 80 and ks = "{65..90}" and P = "\<lambda>k d. True", OF letters_defined]
    by (auto simp: list_all_iff)
  show ?thesis
    unfolding Let_def
    by (intro allI bound_text_sent [where d = d, OF _ greeting_bound])
      (use d in \<open>simp_all add: press_def new_keys_def ctrl_p_def wildcardCount_def modifier_names_def
        matchKeyDown_def modifiers_held_def means_altgr_def key_down_of_def\<close>)
qed

section \<open>Keys that send something else\<close>

lemma stock_tab: "reset_keys firefox cros 9 = Some \<lparr>keyCap = js ''[TAB]'', normal = Sh (Act (Keys [9])) (Csi ''Z''),
    control = Method OnCtrlTab, alt = Act PASS, meta = Act DEFAULT\<rparr>"
  by (simp add: reset_keys_def addKeyDef_def key_def stock_rows keycapSC_def keycapMU_def keycapEP_def)

text \<open>
  Tab with shift and control sends \<open>CSI 1 ; 2 Z\<close>, not the \<open>CSI Z\<close> it sends with shift alone: the
  modifier the action accounts for is stripped after shift was decided on.
\<close>

theorem control_shift_tab_sent:
  assumes "keyDefs K = reset_keys firefox cros" and "keyCode e = 9" and "key_bindings K 9 = None"
    and "\<not> passCtrlTab H" and "shift_held e" and "\<not> alt_held e" and "\<not> meta_held e"
  shows "onKeyDown H e K = Some (K, sends (if ctrl_held e then 27 # js ''[1;2Z'' else 27 # js ''[Z''))"
proof -
  have "\<not> means_altgr K (js ''[TAB]'') (counted K e)"
    by (simp add: means_altgr_def isPrintable_def word_unit_def is_identifier_def is_letter_def lower_ascii_def)
  moreover have "counted K e = \<lparr>shift_on = True, control_on = ctrl_held e, alt_on = False, meta_on = False\<rparr>"
    using assms by (simp add: counted_def)
  ultimately show ?thesis
    using unbound_result [of K e "the (reset_keys firefox cros 9)" H] assms
    by (auto simp: stock_tab getKeyDefAction_def def_action_def pressed_type_def no_call_def perform_def strip_action_def
        key_text_def strip_modifier_def add_modifiers_def modifier_number_def sends_def js_of_int_def nat_digits.simps
        digit_unit_def add_prefixes_def)
qed

theorem control_shift_tab_sent_witness:
  "\<exists>K'. onKeyDown plain_host
     (press 9 True True False) (new_keys True True) = Some (K', sends (27 # js ''[1;2Z''))"
  by (subst control_shift_tab_sent [of _ True True]) (simp_all add: press_def plain_host_def new_keys_def)

definition keypad_keys :: "int set" where
  "keypad_keys = {96, 97, 98, 99, 100, 101, 102, 103, 104, 105, 106, 110, 111}"

lemma keypad_defs:
  "list_all (\<lambda>(k, d). k \<in> keypad_keys \<longrightarrow> hd (keyCap d) = 91 \<and> keyCap d \<noteq> [] \<and> (\<exists>cap. d = default_key cap (Act DEFAULT)))
     (stock_entries firefox cros)"
  unfolding stock_entries_def
  by (simp add: key_def stock_rows keycapSC_def keycapMU_def keycapEP_def keypad_keys_def default_key_def)

lemma keypad_defined:
  assumes "k \<in> keypad_keys"
  shows "k \<in> fst ` set (stock_entries firefox cros)"
proof -
  have "map fst keypad = [96, 97, 98, 99, 100, 101, 102, 103, 104, 105, 107, 109, 106, 111, 110]"
    by (simp add: keypad_def key_def)
  then have "k \<in> set (map fst keypad)" using assms unfolding keypad_keys_def by auto
  then show ?thesis by (auto simp: stock_entries_def)
qed

text \<open>
  A digit or an operator of the keypad with control sends an escape: the name of the key, in
  brackets, is taken for the character on it.
\<close>

theorem control_keypad_sent:
  assumes "keyDefs K = reset_keys firefox cros" and "keyCode e \<in> keypad_keys" and "key_bindings K (keyCode e) = None"
    and "altGrMode K = js ''none''" and "ctrl_held e" and "\<not> alt_held e" and "\<not> meta_held e"
  shows "onKeyDown H e K = Some (K, sends [27])"
proof -
  obtain d cap where d: "reset_keys firefox cros (keyCode e) = Some d" "hd (keyCap d) = 91" "keyCap d \<noteq> []"
      "d = default_key cap (Act DEFAULT)"
    using stock_def [OF keypad_defined keypad_defs, of "keyCode e" firefox cros] assms(2) by auto
  have "keyCode e \<noteq> 18" using assms(2) by (auto simp: keypad_keys_def)
  then show ?thesis
    using unbound_result [of K e d H] assms d
    by (simp add: means_altgr_def default_key_action perform_def key_text_def strip_modifier_def default_keys_def
        counted_def pressed_type_def sends_def add_prefixes_def fromCharCode_def)
qed

theorem control_keypad_sent_witness:
  "\<exists>K'. onKeyDown plain_host (press 105 False True False) (new_keys False True) = Some (K', sends [27])"
  by (subst control_keypad_sent [of _ False True]) (simp_all add: press_def new_keys_def keypad_keys_def)

lemma stock_c: "reset_keys firefox cros 67 = Some \<lparr>keyCap = js ''cC'', normal = Act DEFAULT, control = Method OnCtrlC,
    alt = Act DEFAULT, meta = Method OnMetaC\<rparr>"
  by (simp add: reset_keys_def addKeyDef_def key_def stock_rows keycapSC_def keycapMU_def keycapEP_def)

lemma stock_slash: "reset_keys firefox cros 191 = Some \<lparr>keyCap = js ''/?'', normal = Act DEFAULT,
    control = Sh (Act (ctl 95)) (Act (ctl 63)), alt = Act DEFAULT, meta = Act DEFAULT\<rparr>"
  by (simp add: reset_keys_def addKeyDef_def key_def stock_rows keycapSC_def keycapMU_def keycapEP_def)

lemma stock_space: "reset_keys firefox cros 32 = Some \<lparr>keyCap = js '' '', normal = Act DEFAULT, control = Act (ctl 64),
    alt = Act DEFAULT, meta = Act DEFAULT\<rparr>"
  by (simp add: reset_keys_def addKeyDef_def key_def stock_rows keycapSC_def keycapMU_def keycapEP_def)

lemmas unbound_simps = means_altgr_def getKeyDefAction_def def_action_def pressed_type_def no_call_def perform_def
  key_text_def strip_modifier_def sends_def add_prefixes_def default_keys_def counted_def ctl_def fromCharCode_def

text \<open>
  Meta and C send \<open>c\<close> without an escape; control, shift and the slash send the character \<open>U+FFFF\<close>;
  alt, shift and space send only the escape.
\<close>

theorem meta_c_sent:
  assumes "keyDefs K = reset_keys firefox cros" and "keyCode e = 67" and "key_bindings K 67 = None"
    and "altGrMode K = js ''none''" and "meta_held e" and "\<not> ctrl_held e" and "\<not> alt_held e" and "\<not> shift_held e"
    and "selection_collapsed H"
  shows "onKeyDown H e K = Some (K, sends (js ''c''))"
  using unbound_result [of K e "the (reset_keys firefox cros 67)" H] assms
  by (simp add: stock_c unbound_simps meta_c_def)

theorem control_slash_sent:
  assumes "keyDefs K = reset_keys firefox cros" and "keyCode e = 191" and "key_bindings K 191 = None"
    and "altGrMode K = js ''none''" and "ctrl_held e" and "shift_held e" and "\<not> alt_held e" and "\<not> meta_held e"
  shows "onKeyDown H e K = Some (K, sends [65535])"
  using unbound_result [of K e "the (reset_keys firefox cros 191)" H] assms
  by (simp add: stock_slash unbound_simps)

theorem alt_space_sent:
  assumes "keyDefs K = reset_keys firefox cros" and "keyCode e = 32" and "key_bindings K 32 = None"
    and "altGrMode K = js ''none''" and "alt_held e" and "shift_held e" and "\<not> ctrl_held e" and "\<not> meta_held e"
    and "\<not> altIsMeta K" and "altSendsWhat K = js ''escape''"
  shows "onKeyDown H e K = Some (K, sends [27])"
  using unbound_result [of K e "the (reset_keys firefox cros 32)" H] assms
  by (simp add: stock_space unbound_simps)
end
