(* ===== verification/VtKeys.thy ===== *)
theory VtKeys
  imports VtProps Keyboard
begin

text \<open>
  The interpreter and the keyboard together (hterm_all-1.91.js): the modes that a program sets by
  control sequences are fields of \<open>terminal.keyboard\<close>, which the events of keys read.
\<close>

section \<open>One keyboard\<close>

text \<open>The keyboard of a terminal whose interpreter has set the modes \<open>M\<close>.\<close>

definition with_modes :: "keyboard_modes \<Rightarrow> keyboard \<Rightarrow> keyboard" where
  "with_modes M K = K\<lparr>applicationCursor := applicationCursor M, applicationKeypad := applicationKeypad M,
     backspaceSendsBackspace := backspaceSendsBackspace M, metaSendsEscape := metaSendsEscape M,
     altSendsWhat := altSendsWhat M, previousAltSendsWhat := previousAltSendsWhat M\<rparr>"

section \<open>The mode of the cursor keys\<close>

text \<open>\<open>CSI ? n h\<close> sets and \<open>CSI ? n l\<close> resets a mode.\<close>

definition mode_sequence :: "bool \<Rightarrow> int \<Rightarrow> jsstring" where
  "mode_sequence state n = 27 # 91 # [63] @ join_args [js_of_int n] @ [if state then 104 else 108]"

lemma mode_entry: "map_of CSI ([63] @ [if state then 104 else 108]) = Some (private_modes state)"
  by (simp add: CSI_def)

lemma nth_arg_number:
  assumes "args p = [js_of_int n]" and "0 \<le> n"
  shows "nth_arg 0 p \<bind> parse_int = Some n"
proof -
  have all: "takeWhile is_digit (js_of_int n) = js_of_int n"
    using js_of_int_digits [OF assms(2)] by (simp add: takeWhile_eq_all_conv)
  show ?thesis
    unfolding nth_arg_def assms(1) using assms(2) by (simp add: parse_int_def all Let_def digits_value_of_int)
qed

lemma mode_interpreted:
  assumes "at_rest p" and "0 \<le> n" and "map_of (dec_modes H state) n = Some f"
  shows "\<exists>p'. at_rest p' \<and> vt_interpret H (mode_sequence state n) (p, m) =
    map_option (Pair p') (f (m\<lparr>leadingModifier := [63], trailingModifier := []\<rparr>))"
proof -
  let ?p = "resetBuf (mode_sequence state n) p"
  let ?m = "m\<lparr>leadingModifier := [63], trailingModifier := []\<rparr>"
  have start: "at_rest ?p"
      "peekRemainingBuf ?p = 27 # 91 # [63] @ join_args [js_of_int n] @ (if state then 104 else 108) # []"
    using assms(1) by (simp_all add: at_rest_def resetBuf_def peekRemainingBuf_def mode_sequence_def)
  have a: "\<forall>a \<in> set [js_of_int n]. list_all is_digit a" "[js_of_int n] \<noteq> [[]]"
    using js_of_int_digits [OF assms(2)] by (simp_all add: list_all_iff)
  have f: "64 \<le> (if state then 104 else 108 :: int)" "(if state then 104 else 108 :: int) \<le> 126" by simp_all
  have marker: "\<forall>c \<in> set [63]. marker c" by (simp add: marker_def)
  obtain p' p'' where p: "args p' = [js_of_int n]" "at_rest p''" "peekRemainingBuf p'' = []"
    "interpret_loop H ?p m =
      for_args (\<lambda>i. setDECMode H i p' state) [0..<length (args p')] ?m \<bind> interpret_loop H p''"
    using csi_act [OF start marker a f mode_entry [unfolded private_modes_def]] by blast
  have "interpret_loop H p'' m' = Some (p'', m')" for m'
    using p(2,3) by (simp add: interpret_loop_unfold [of H p''] isComplete_rest)
  moreover have "for_args (\<lambda>i. setDECMode H i p' state) [0..<length (args p')] ?m = f ?m"
    using p(1) nth_arg_number [OF p(1) assms(2)] assms(3) by (cases "f ?m") (simp_all add: setDECMode_def)
  ultimately have "interpret_loop H ?p m = map_option (Pair p'') (f ?m)"
    using p(4) by (cases "f ?m") simp_all
  then show ?thesis using p(2) by (auto simp: vt_interpret_def)
qed

text \<open>
  C30. After \<open>CSI ? 1 h\<close> an arrow key without modifiers sends \<open>SS3 x\<close>, after \<open>CSI ? 1 l\<close> it sends
  \<open>CSI x\<close>, and the terminal itself is as before.
\<close>

theorem cursor_mode_reaches_keys:
  assumes "at_rest p" and "keyDefs K = reset_keys firefox cros" and "keyCode e \<in> {37, 38, 39, 40}"
    and "key_bindings K (keyCode e) = None" and "\<not> any_modifier e"
  shows "\<exists>p' m'. vt_interpret H (mode_sequence state 1) (p, m) = Some (p', m') \<and> at_rest p' \<and>
    vt_terminal m' = vt_terminal m \<and> events m' = events m \<and>
    onKeyDown KH e (with_modes (keyboard m') K) =
      Some (with_modes (keyboard m') K, sends [27, if state then 79 else 91, arrow_final (keyCode e)])"
proof -
  have f: "map_of (dec_modes H state) 1 = Some (keyboard_mode (\<lambda>k. k\<lparr>applicationCursor := state\<rparr>))"
    by (simp add: dec_modes_def)
  let ?m = "m\<lparr>leadingModifier := [63], trailingModifier := [], keyboard := (keyboard m)\<lparr>applicationCursor := state\<rparr>\<rparr>"
  obtain p' where p': "at_rest p'" "vt_interpret H (mode_sequence state 1) (p, m) = Some (p', ?m)"
    using mode_interpreted [OF assms(1) _ f, of m] by (auto simp: keyboard_mode_def)
  have "onKeyDown KH e (with_modes (keyboard ?m) K) =
      Some (with_modes (keyboard ?m) K, sends [27, if state then 79 else 91, arrow_final (keyCode e)])"
    using assms by (subst arrow_sent [of _ firefox cros]) (auto simp: with_modes_def any_modifier_def)
  then show ?thesis using p' by auto
qed

theorem cursor_mode_reaches_keys_witness:
  "\<exists>t m p' m'. new_vt t = Some m \<and>
     vt_interpret unit_host (mode_sequence True 1) (new_parse_state, m) = Some (p', m') \<and>
     onKeyDown plain_host (press 38 False False False) (with_modes (keyboard m') (new_keys False False)) =
       Some (with_modes (keyboard m') (new_keys False False), sends (27 # js ''OA''))"
proof -
  obtain m where m: "new_vt undefined = Some m" by (rule new_vt_result)
  have rest: "at_rest new_parse_state" by (simp add: at_rest_def new_parse_state_def)
  have "keyDefs (new_keys False False) = reset_keys False False" "key_bindings (new_keys False False) 38 = None"
    by (simp_all add: new_keys_def)
  with cursor_mode_reaches_keys [OF rest, of "new_keys False False" False False "press 38 False False False" unit_host True
      m plain_host] m
  show ?thesis by (auto simp: press_def any_modifier_def arrow_final_def)
qed

end
