(* ===== verification/Preferences.thy ===== *)
theory Preferences
  imports Storage
begin

text \<open>
  \<open>lib.PreferenceManager\<close> and \<open>lib.Storage.Memory\<close> (hterm_all-1.91.js): the managers of a page, the
  storage they share, and the tasks by which a change of the storage reaches them later.
\<close>

section \<open>State\<close>

text \<open>
  A preference has its default value, its own value, \<open>None\<close> being \<open>DEFAULT_VALUE\<close>, and observers; these
  are functions of other code and stand for what they are called with.
\<close>

record pref_record =
  defaultValue :: pref_value
  currentValue :: "pref_value option"
  observers :: "nat list"

record manager =
  prefix :: jsstring
  isActive :: bool
  prefRecords :: "(jsstring \<times> pref_record) list"
  globalObservers :: "nat list"
  isImportingJson :: bool

text \<open>
  The tasks of the event loop, first in, first out: what \<open>update_\<close> does after \<open>await\<close>, the notification
  that \<open>set\<close> puts off, and the two turns after which items that were asked for arrive. The calls of
  observers are recorded in order.
\<close>

datatype pref_task =
    ChangeEvent changes | NotifyLater nat jsstring | ItemsRead nat items | ItemsArrived nat items

datatype observer_call = GlobalCall nat jsstring pref_value | RecordCall nat pref_value jsstring nat

record pref_world =
  stored :: items
  storageObservers :: "nat list"
  managers :: "manager list"
  pref_tasks :: "pref_task list"
  observer_calls :: "observer_call list"
  next_object :: nat

section \<open>Records of a manager\<close>

text \<open>
  \<open>None\<close> is an exception: the name is not known. A name that is one of a member every object has is
  left out, and \<open>None\<close> too; its value is taken for a record, and most operations throw then.
\<close>

definition inherited_name :: "jsstring \<Rightarrow> bool" where
  "inherited_name name \<longleftrightarrow> name \<in> js ` set object_members"

definition record_get :: "pref_record \<Rightarrow> pref_value" where
  "record_get r = (case currentValue r of None \<Rightarrow> defaultValue r | Some v \<Rightarrow> v)"

definition manager_record :: "nat \<Rightarrow> jsstring \<Rightarrow> pref_world \<Rightarrow> pref_record option" where
  "manager_record m name W = map_of (prefRecords (managers W ! m)) name"

definition update_manager :: "nat \<Rightarrow> (manager \<Rightarrow> manager) \<Rightarrow> pref_world \<Rightarrow> pref_world" where
  "update_manager m f W = W\<lparr>managers := (managers W)[m := f (managers W ! m)]\<rparr>"

definition put_record :: "nat \<Rightarrow> jsstring \<Rightarrow> pref_record \<Rightarrow> pref_world \<Rightarrow> pref_world" where
  "put_record m name r = update_manager m (\<lambda>M. M\<lparr>prefRecords := AList.update name r (prefRecords M)\<rparr>)"

definition getDefault :: "nat \<Rightarrow> jsstring \<Rightarrow> pref_world \<Rightarrow> pref_value option" where
  "getDefault m name W = map_option defaultValue (manager_record m name W)"

definition pref_key :: "nat \<Rightarrow> jsstring \<Rightarrow> pref_world \<Rightarrow> jsstring" where
  "pref_key m name W = prefix (managers W ! m) @ name"

definition pref_get :: "nat \<Rightarrow> jsstring \<Rightarrow> pref_world \<Rightarrow> pref_value option" where
  "pref_get m name W = map_option record_get (manager_record m name W)"

text \<open>A value that is the default is given as a copy, whose identity nothing compares.\<close>

definition notifyChange :: "nat \<Rightarrow> jsstring \<Rightarrow> pref_world \<Rightarrow> pref_world option" where
  "notifyChange m name W =
     (case manager_record m name W of
        None \<Rightarrow> None
      | Some r \<Rightarrow> Some (W\<lparr>observer_calls := observer_calls W @
          map (\<lambda>i. GlobalCall i name (record_get r)) (globalObservers (managers W ! m)) @
          map (\<lambda>i. RecordCall i (record_get r) name m) (observers r)\<rparr>))"

fun notify_each :: "nat \<Rightarrow> jsstring list \<Rightarrow> pref_world \<Rightarrow> pref_world option" where
  "notify_each m [] W = Some W"
| "notify_each m (name # names) W = Option.bind (notifyChange m name W) (notify_each m names)"

definition notifyAll :: "nat \<Rightarrow> pref_world \<Rightarrow> pref_world option" where
  "notifyAll m W = notify_each m (map fst (prefRecords (managers W ! m))) W"

section \<open>The storage\<close>

definition add_task :: "pref_task \<Rightarrow> pref_world \<Rightarrow> pref_world" where
  "add_task t W = W\<lparr>pref_tasks := pref_tasks W @ [t]\<rparr>"

definition storage_update :: "items \<Rightarrow> pref_world \<Rightarrow> pref_world" where
  "storage_update newStorage W =
     add_task (ChangeEvent (generateStorageChanges (stored W) newStorage)) (W\<lparr>stored := newStorage\<rparr>)"

definition storage_setItem :: "jsstring \<Rightarrow> pref_value \<Rightarrow> pref_world \<Rightarrow> pref_world" where
  "storage_setItem key v W =
     storage_update (memory_set (next_object W) key v (stored W)) (W\<lparr>next_object := next_object W + 1\<rparr>)"

definition storage_removeItems :: "jsstring list \<Rightarrow> pref_world \<Rightarrow> pref_world" where
  "storage_removeItems ks W = storage_update (memory_remove ks (stored W)) W"

section \<open>Managers\<close>

definition activate :: "nat \<Rightarrow> pref_world \<Rightarrow> pref_world option" where
  "activate m W =
     (if isActive (managers W ! m) then None
      else Some (update_manager m (\<lambda>M. M\<lparr>isActive := True\<rparr>) (W\<lparr>storageObservers := storageObservers W @ [m]\<rparr>)))"

definition deactivate :: "nat \<Rightarrow> pref_world \<Rightarrow> pref_world option" where
  "deactivate m W =
     (if \<not> isActive (managers W ! m) then None
      else Some (update_manager m (\<lambda>M. M\<lparr>isActive := False\<rparr>) (W\<lparr>storageObservers := remove1 m (storageObservers W)\<rparr>)))"

definition new_manager :: "jsstring \<Rightarrow> pref_world \<Rightarrow> pref_world" where
  "new_manager pre W =
     W\<lparr>storageObservers := storageObservers W @ [length (managers W)],
       managers := managers W @ [\<lparr>prefix = (if pre \<noteq> [] \<and> last pre = 47 then pre else pre @ [47]), isActive = True,
         prefRecords = [], globalObservers = [], isImportingJson = False\<rparr>]\<rparr>"

definition changeDefault :: "nat \<Rightarrow> jsstring \<Rightarrow> pref_value \<Rightarrow> pref_world \<Rightarrow> pref_world option" where
  "changeDefault m name v W =
     (case manager_record m name W of
        None \<Rightarrow> None
      | Some r \<Rightarrow>
          if \<not> pref_diff (Some (defaultValue r)) (Some v) then Some W
          else
            (let W = put_record m name (r\<lparr>defaultValue := v\<rparr>) W
             in if currentValue r \<noteq> None then Some W else notifyChange m name W))"

fun changeDefaults :: "nat \<Rightarrow> items \<Rightarrow> pref_world \<Rightarrow> pref_world option" where
  "changeDefaults m [] W = Some W"
| "changeDefaults m ((name, v) # its) W = Option.bind (changeDefault m name v W) (changeDefaults m its)"

definition add_record_observer :: "nat \<Rightarrow> jsstring \<Rightarrow> nat \<Rightarrow> pref_world \<Rightarrow> pref_world option" where
  "add_record_observer m name i W =
     map_option (\<lambda>r. put_record m name (r\<lparr>observers := observers r @ [i]\<rparr>) W) (manager_record m name W)"

definition remove_record_observer :: "nat \<Rightarrow> jsstring \<Rightarrow> nat \<Rightarrow> pref_world \<Rightarrow> pref_world option" where
  "remove_record_observer m name i W =
     map_option (\<lambda>r. put_record m name (r\<lparr>observers := remove1 i (observers r)\<rparr>) W) (manager_record m name W)"

definition add_global_observer :: "nat \<Rightarrow> nat \<Rightarrow> pref_world \<Rightarrow> pref_world" where
  "add_global_observer m i = update_manager m (\<lambda>M. M\<lparr>globalObservers := globalObservers M @ [i]\<rparr>)"

definition definePreference :: "nat \<Rightarrow> jsstring \<Rightarrow> pref_value \<Rightarrow> nat option \<Rightarrow> pref_world \<Rightarrow> pref_world option" where
  "definePreference m name v onChange W = do {
     W \<leftarrow> (case manager_record m name W of
             Some r \<Rightarrow> changeDefault m name v W
           | None \<Rightarrow>
               if inherited_name name then None
               else Some (put_record m name \<lparr>defaultValue = v, currentValue = None, observers = []\<rparr> W));
     (case onChange of None \<Rightarrow> Some W | Some i \<Rightarrow> add_record_observer m name i W)
   }"

fun definePreferences :: "nat \<Rightarrow> (jsstring \<times> pref_value \<times> nat option) list \<Rightarrow> pref_world \<Rightarrow> pref_world option" where
  "definePreferences m [] W = Some W"
| "definePreferences m ((name, v, onChange) # ds) W =
     Option.bind (definePreference m name v onChange W) (definePreferences m ds)"

fun add_observers :: "nat \<Rightarrow> (jsstring \<times> nat) list \<Rightarrow> pref_world \<Rightarrow> pref_world option" where
  "add_observers m [] W = Some W"
| "add_observers m ((name, i) # os) W = Option.bind (add_record_observer m name i W) (add_observers m os)"

definition addObservers :: "nat \<Rightarrow> nat option \<Rightarrow> (jsstring \<times> nat) list \<Rightarrow> pref_world \<Rightarrow> pref_world option" where
  "addObservers m global os W =
     add_observers m os (case global of None \<Rightarrow> W | Some i \<Rightarrow> add_global_observer m i W)"

text \<open>
  \<open>set\<close> compares with the value that \<open>get\<close> returns, and again with the default. It changes the
  storage at once; the event of the storage and the notification are tasks.
\<close>

definition pref_set :: "nat \<Rightarrow> jsstring \<Rightarrow> pref_value \<Rightarrow> bool \<Rightarrow> pref_world \<Rightarrow> pref_world option" where
  "pref_set m name v saveToStorage W =
     (case manager_record m name W of
        None \<Rightarrow> None
      | Some r \<Rightarrow>
          if \<not> pref_diff (Some (record_get r)) (Some v) then Some W
          else
            (let key = pref_key m name W;
                 W = (if pref_diff (Some (defaultValue r)) (Some v) then
                        (let W = put_record m name (r\<lparr>currentValue := Some v\<rparr>) W
                         in if saveToStorage then storage_setItem key v W else W)
                      else
                        (let W = put_record m name (r\<lparr>currentValue := None\<rparr>) W
                         in if saveToStorage then storage_removeItems [key] W else W))
             in Some (add_task (NotifyLater m name) W)))"

definition pref_reset :: "nat \<Rightarrow> jsstring \<Rightarrow> pref_world \<Rightarrow> pref_world option" where
  "pref_reset m name W =
     (case manager_record m name W of
        None \<Rightarrow> None
      | Some r \<Rightarrow>
          (let W = storage_removeItems [pref_key m name W] W
           in if currentValue r \<noteq> None then notifyChange m name (put_record m name (r\<lparr>currentValue := None\<rparr>) W)
              else Some W))"

definition pref_resetAll :: "nat \<Rightarrow> pref_world \<Rightarrow> pref_world option" where
  "pref_resetAll m W =
     (let M = managers W ! m;
          changed = map fst (filter (\<lambda>(name, r). currentValue r \<noteq> None) (prefRecords M));
          W = update_manager m (\<lambda>M. M\<lparr>prefRecords := map (apsnd (\<lambda>r. r\<lparr>currentValue := None\<rparr>)) (prefRecords M)\<rparr>) W
      in notify_each m changed (storage_removeItems (map (\<lambda>(name, r). prefix M @ name) (prefRecords M)) W))"

text \<open>The items are those of the storage when they are asked for.\<close>

definition readStorage :: "nat \<Rightarrow> pref_world \<Rightarrow> pref_world" where
  "readStorage m W =
     add_task (ItemsRead m (memory_get (map (\<lambda>(name, r). prefix (managers W ! m) @ name) (prefRecords (managers W ! m)))
       (stored W))) W"

fun take_items :: "nat \<Rightarrow> items \<Rightarrow> pref_world \<Rightarrow> pref_world option" where
  "take_items m [] W = Some W"
| "take_items m ((key, v) # its) W =
     (let name = drop (length (prefix (managers W ! m))) key
      in case manager_record m name W of
           None \<Rightarrow> None
         | Some r \<Rightarrow> take_items m its (put_record m name (r\<lparr>currentValue := Some v\<rparr>) W))"

section \<open>Changes of the storage\<close>

definition take_change :: "nat \<Rightarrow> jsstring \<times> change \<Rightarrow> pref_world \<Rightarrow> pref_world option" where
  "take_change m = (\<lambda>(key, c) W.
     let pre = prefix (managers W ! m); name = drop (length pre) key
     in if take (length pre) key \<noteq> pre then Some W
        else case manager_record m name W of
          None \<Rightarrow> if inherited_name name \<and> newValue c \<noteq> None then None else Some W
        | Some r \<Rightarrow>
            if pref_diff (currentValue r) (newValue c) then
              notifyChange m name
                (put_record m name
                  (r\<lparr>currentValue := (if newValue c = Some NullValue then None else newValue c)\<rparr>) W)
            else Some W)"

fun onStorageChange :: "nat \<Rightarrow> changes \<Rightarrow> pref_world \<Rightarrow> pref_world option" where
  "onStorageChange m [] W = Some W"
| "onStorageChange m (kc # cs) W = Option.bind (take_change m kc W) (onStorageChange m cs)"

fun notify_observers :: "nat list \<Rightarrow> changes \<Rightarrow> pref_world \<Rightarrow> pref_world option" where
  "notify_observers [] cs W = Some W"
| "notify_observers (m # ms) cs W = Option.bind (onStorageChange m cs W) (notify_observers ms cs)"

section \<open>Import and export\<close>

text \<open>Of a manager without lists of children.\<close>

definition exportAsJson :: "nat \<Rightarrow> pref_world \<Rightarrow> items" where
  "exportAsJson m W = List.map_filter (\<lambda>(name, r). map_option (Pair name) (currentValue r)) (prefRecords (managers W ! m))"

fun import_items :: "nat \<Rightarrow> items \<Rightarrow> pref_world \<Rightarrow> pref_world option" where
  "import_items m [] W = Some W"
| "import_items m ((name, v) # its) W = Option.bind (pref_set m name v True W) (import_items m its)"

definition importFromJson :: "nat \<Rightarrow> items \<Rightarrow> pref_world \<Rightarrow> pref_world option" where
  "importFromJson m its W = import_items m its (update_manager m (\<lambda>M. M\<lparr>isImportingJson := True\<rparr>) W)"

section \<open>What a page does\<close>

datatype pref_op =
    NewManager jsstring | Define nat jsstring pref_value "nat option" | Set nat jsstring pref_value bool
  | Reset nat jsstring | ResetAll nat | ChangeDefault nat jsstring pref_value | Import nat items | NotifyAll nat
  | AddObserver nat jsstring nat | RemoveObserver nat jsstring nat | AddGlobal nat nat | Activate nat | Deactivate nat
  | ReadStorage nat | Turn

definition run_task :: "pref_task \<Rightarrow> pref_world \<Rightarrow> pref_world option" where
  "run_task t W =
     (case t of
        ChangeEvent cs \<Rightarrow> notify_observers (storageObservers W) cs W
      | NotifyLater m name \<Rightarrow> notifyChange m name W
      | ItemsRead m its \<Rightarrow> Some (add_task (ItemsArrived m its) W)
      | ItemsArrived m its \<Rightarrow> take_items m its W)"

fun pref_step :: "pref_op \<Rightarrow> pref_world \<Rightarrow> pref_world option" where
  "pref_step (NewManager pre) W = Some (new_manager pre W)"
| "pref_step (Define m name v i) W = definePreference m name v i W"
| "pref_step (Set m name v save) W = pref_set m name v save W"
| "pref_step (Reset m name) W = pref_reset m name W"
| "pref_step (ResetAll m) W = pref_resetAll m W"
| "pref_step (ChangeDefault m name v) W = changeDefault m name v W"
| "pref_step (Import m its) W = importFromJson m its W"
| "pref_step (NotifyAll m) W = notifyAll m W"
| "pref_step (AddObserver m name i) W = add_record_observer m name i W"
| "pref_step (RemoveObserver m name i) W = remove_record_observer m name i W"
| "pref_step (AddGlobal m i) W = Some (add_global_observer m i W)"
| "pref_step (Activate m) W = activate m W"
| "pref_step (Deactivate m) W = deactivate m W"
| "pref_step (ReadStorage m) W = Some (readStorage m W)"
| "pref_step Turn W =
     (case pref_tasks W of [] \<Rightarrow> Some W | t # ts \<Rightarrow> run_task t (W\<lparr>pref_tasks := ts\<rparr>))"

fun pref_run :: "pref_op list \<Rightarrow> pref_world \<Rightarrow> pref_world option" where
  "pref_run [] W = Some W"
| "pref_run (a # as) W = Option.bind (pref_step a W) (pref_run as)"

definition new_world :: pref_world where
  "new_world = \<lparr>stored = [], storageObservers = [], managers = [], pref_tasks = [], observer_calls = [], next_object = 0\<rparr>"

end
