(* ===== verification/PreferenceSync.thy ===== *)
theory PreferenceSync
  imports Preferences
begin

text \<open>
  The managers of preferences and the storage they share: how far a manager may lag behind what is stored,
  which every operation and every turn keeps, and what follows when nothing is under way any more.
\<close>

section \<open>What a step leaves\<close>

text \<open>The managers are the same, with their prefixes, and observe the storage; \<open>frame\<close>: nor does it change.\<close>

definition same_managers :: "pref_world \<Rightarrow> pref_world \<Rightarrow> bool" where
  "same_managers W W' \<longleftrightarrow> storageObservers W' = storageObservers W \<and> map prefix (managers W') = map prefix (managers W)"

definition frame :: "pref_world \<Rightarrow> pref_world \<Rightarrow> bool" where
  "frame W W' \<longleftrightarrow> same_managers W W' \<and> stored W' = stored W \<and> pref_tasks W' = pref_tasks W"

definition current :: "nat \<Rightarrow> jsstring \<Rightarrow> pref_world \<Rightarrow> pref_value option option" where
  "current m name W = map_option currentValue (manager_record m name W)"

lemma same_managers_refl [simp]: "same_managers W W" and frame_refl [simp]: "frame W W"
  by (simp_all add: same_managers_def frame_def)

lemma same_managers_trans: "same_managers U V \<Longrightarrow> same_managers V W \<Longrightarrow> same_managers U W"
  by (simp add: same_managers_def)

lemma frame_trans: "frame U V \<Longrightarrow> frame V W \<Longrightarrow> frame U W"
  by (auto simp: frame_def dest: same_managers_trans)

lemma same_managers_length: "same_managers W W' \<Longrightarrow> length (managers W') = length (managers W)"
  unfolding same_managers_def by (metis length_map)

lemma same_managers_key:
  assumes "same_managers W W'" and "m < length (managers W)"
  shows "pref_key m name W' = pref_key m name W"
proof -
  have "map prefix (managers W') ! m = map prefix (managers W) ! m" using assms by (simp add: same_managers_def)
  then show ?thesis using assms same_managers_length [OF assms(1)] by (simp add: pref_key_def)
qed

text \<open>Changing one record.\<close>

lemma put_record_frame: "m < length (managers W) \<Longrightarrow> frame W (put_record m name r W)"
  by (auto simp: put_record_def update_manager_def frame_def same_managers_def map_update intro!: list_update_same_conv [THEN iffD2])

lemma put_record_record:
  "m < length (managers W) \<Longrightarrow> manager_record m' name' (put_record m name r W) =
    (if m' = m \<and> name' = name then Some r else manager_record m' name' W)"
  by (auto simp: put_record_def update_manager_def manager_record_def AList.update_conv' nth_list_update)

lemma put_record_current:
  "m < length (managers W) \<Longrightarrow> current m' name' (put_record m name r W) =
    (if m' = m \<and> name' = name then Some (currentValue r) else current m' name' W)"
  by (simp add: current_def put_record_record)

lemma notifyChange_result:
  assumes "notifyChange m name W = Some W'"
  shows "frame W W' \<and> managers W' = managers W"
  using assms by (auto simp: notifyChange_def frame_def same_managers_def split: option.splits)

lemma notify_each_result:
  assumes "notify_each m names W = Some W'"
  shows "frame W W' \<and> managers W' = managers W"
  using assms
proof (induction names arbitrary: W)
  case (Cons name names)
  then obtain V where "notifyChange m name W = Some V" "notify_each m names V = Some W'"
    by (auto simp: Option.bind_eq_Some_conv)
  with Cons.IH [of V] notifyChange_result [of m name W V] show ?case by (auto dest: frame_trans)
qed simp

lemma current_managers: "managers W' = managers W \<Longrightarrow> current m name W' = current m name W"
  by (simp add: current_def manager_record_def)

lemma current_record: "manager_record m name W = Some r \<Longrightarrow> current m name W = Some (currentValue r)"
  by (simp add: current_def)

lemma world_updates [simp]:
  "manager_record m name (W\<lparr>next_object := n\<rparr>) = manager_record m name W"
  "current m name (W\<lparr>next_object := n\<rparr>) = current m name W"
  "pref_key m name (W\<lparr>next_object := n\<rparr>) = pref_key m name W"
  "manager_record m name (W\<lparr>pref_tasks := ts\<rparr>) = manager_record m name W"
  "current m name (W\<lparr>pref_tasks := ts\<rparr>) = current m name W"
  "pref_key m name (W\<lparr>pref_tasks := ts\<rparr>) = pref_key m name W"
  by (simp_all add: manager_record_def current_def pref_key_def)

section \<open>A manager and the storage\<close>

text \<open>
  The last value that the events on their way have for a key; a preference lags behind the storage if
  it is what the storage has, or will be.
\<close>

fun pending :: "pref_task list \<Rightarrow> jsstring \<Rightarrow> pref_value option option" where
  "pending [] k = None"
| "pending (t # ts) k =
     (case pending ts k of
        Some v \<Rightarrow> Some v
      | None \<Rightarrow> (case t of ChangeEvent cs \<Rightarrow> map_option newValue (map_of cs k) | _ \<Rightarrow> None))"

definition lags :: "items \<Rightarrow> pref_task list \<Rightarrow> jsstring \<Rightarrow> pref_value option \<Rightarrow> bool" where
  "lags s ts k c \<longleftrightarrow> same_option (case pending ts k of Some v \<Rightarrow> v | None \<Rightarrow> c) (map_of s k)"

lemma pending_snoc: "pending (ts @ [t]) k =
    (case t of
       ChangeEvent cs \<Rightarrow> (case map_of cs k of Some c \<Rightarrow> Some (newValue c) | None \<Rightarrow> pending ts k)
     | _ \<Rightarrow> pending ts k)"
  by (induction ts) (auto split: option.split pref_task.split)

lemma lags_notify [simp]: "lags s (ts @ [NotifyLater m name]) k c \<longleftrightarrow> lags s ts k c"
  "lags s (NotifyLater m name # ts) k c \<longleftrightarrow> lags s ts k c"
  by (simp_all add: lags_def pending_snoc split: option.split)

lemma lags_update:
  assumes "distinct (map fst s)" "distinct (map fst t)" "lags s ts k c"
  shows "lags t (ts @ [ChangeEvent (generateStorageChanges s t)]) k c"
  using assms(3) memory.unreported [OF assms(1,2), of k] memory.reported_new [OF assms(1,2), of k]
  by (cases "map_of (generateStorageChanges s t) k") (auto simp: lags_def pending_snoc)

lemma lags_taken:
  assumes "distinct (map fst s)" "distinct (map fst t)" "lags s ts k c" "same_option c' (map_of t k)"
  shows "lags t (ts @ [ChangeEvent (generateStorageChanges s t)]) k c'"
  using assms(3,4) memory.unreported [OF assms(1,2), of k] memory.reported_new [OF assms(1,2), of k]
  by (cases "map_of (generateStorageChanges s t) k") (auto simp: lags_def pending_snoc split: option.splits)

lemma lags_event:
  assumes "lags s (ChangeEvent cs # ts) k c"
  shows "case map_of cs k of None \<Rightarrow> lags s ts k c | Some d \<Rightarrow> lags s ts k (newValue d)"
  using assms by (auto simp: lags_def split: option.splits)

lemma lags_same: "lags s ts k c \<Longrightarrow> same_option c' c \<Longrightarrow> lags s ts k c'"
  unfolding lags_def by (cases "pending ts k") (auto intro: same_option_trans)

section \<open>An event of the storage\<close>

lemma append_drop_key: "take (length p) k = p \<Longrightarrow> p @ drop (length p) k = k"
  by (metis append_take_drop_id)

text \<open>Taking a change: nothing else changes, and the preferences of its key have the new value.\<close>

lemma take_change_result:
  assumes "take_change m (k, d) W = Some W'" and "m < length (managers W)" and "newValue d \<noteq> Some NullValue"
  shows "frame W W'"
    and "current m' name' W' = Some c \<Longrightarrow>
      current m' name' W = Some c \<or> current m' name' W \<noteq> None \<and> pref_key m' name' W = k \<and> same_option c (newValue d)"
    and "current m name W' = Some c \<Longrightarrow> pref_key m name W = k \<Longrightarrow> same_option c (newValue d)"
proof -
  let ?p = "prefix (managers W ! m)" let ?n = "drop (length ?p) k"
  have unchanged: "frame W W \<and> (current m' name' W = Some c \<longrightarrow> current m' name' W = Some c)" by simp
  have all: "frame W W' \<and> (current m' name' W' = Some c \<longrightarrow>
      current m' name' W = Some c \<or> current m' name' W \<noteq> None \<and> pref_key m' name' W = k \<and> same_option c (newValue d)) \<and>
      (current m name W' = Some c \<longrightarrow> pref_key m name W = k \<longrightarrow> same_option c (newValue d))" for m' name' name c
  proof (cases "take (length ?p) k = ?p")
    case False
    then have "W' = W" "pref_key m name W \<noteq> k" for name
      using assms(1) by (auto simp: take_change_def Let_def pref_key_def)
    then show ?thesis by simp
  next
    case True
    then have key: "?p @ ?n = k" by (rule append_drop_key)
    then have uniq: "pref_key m name W = k \<longleftrightarrow> name = ?n" for name
      unfolding pref_key_def by (metis same_append_eq)
    show ?thesis
    proof (cases "manager_record m ?n W")
      case None
      then have "W' = W" using assms(1) True by (simp add: take_change_def Let_def split: if_splits)
      with None uniq [of name] show ?thesis by (auto simp: current_def)
    next
      case (Some r)
      show ?thesis
      proof (cases "pref_diff (currentValue r) (newValue d)")
        case False
        then have "W' = W" using assms(1) True Some by (auto simp: take_change_def Let_def)
        with not_diff_same [OF False] Some uniq [of name] show ?thesis by (auto simp: current_def)
      next
        case diff: True
        let ?W = "put_record m ?n (r\<lparr>currentValue := newValue d\<rparr>) W"
        have "notifyChange m ?n ?W = Some W'"
          using assms(1,3) True Some diff by (auto simp: take_change_def Let_def)
        then have r: "frame ?W W' \<and> managers W' = managers ?W" by (rule notifyChange_result)
        then have f: "frame W W'" using frame_trans [OF put_record_frame [OF assms(2)]] by blast
        have cur: "current m' name' W' =
            (if m' = m \<and> name' = ?n then Some (newValue d) else current m' name' W)" for m' name'
          using current_managers [of W' ?W m' name'] r put_record_current [OF assms(2), of m' name' ?n] by simp
        have "pref_key m ?n W = k" using uniq by blast
        moreover have "current m ?n W \<noteq> None" using Some by (simp add: current_def)
        ultimately show ?thesis using f cur [of m' name'] cur [of m name] uniq [of name]
          by (cases "m' = m \<and> name' = ?n"; cases "name = ?n") auto
      qed
    qed
  qed
  show "frame W W'" using all by blast
  show "current m' name' W' = Some c \<Longrightarrow>
      current m' name' W = Some c \<or> current m' name' W \<noteq> None \<and> pref_key m' name' W = k \<and> same_option c (newValue d)"
    using all by blast
  show "current m name W' = Some c \<Longrightarrow> pref_key m name W = k \<Longrightarrow> same_option c (newValue d)" using all by blast
qed

text \<open>
  After an event every preference is as it was, which for the managers in \<open>S\<close> is so only for keys that
  did not change, or has the new value.
\<close>

definition took :: "changes \<Rightarrow> nat set \<Rightarrow> pref_world \<Rightarrow> pref_world \<Rightarrow> bool" where
  "took cs S W W' \<longleftrightarrow> frame W W' \<and>
     (\<forall>m name c. m < length (managers W) \<longrightarrow> current m name W' = Some c \<longrightarrow>
        current m name W = Some c \<and> (m \<in> S \<longrightarrow> pref_key m name W \<notin> fst ` set cs) \<or>
        current m name W \<noteq> None \<and> (\<exists>d. (pref_key m name W, d) \<in> set cs \<and> same_option c (newValue d)))"

lemma tookD:
  assumes "took cs S W W'" "m < length (managers W)" "current m name W' = Some c"
  shows "current m name W = Some c \<and> (m \<in> S \<longrightarrow> pref_key m name W \<notin> fst ` set cs) \<or>
    current m name W \<noteq> None \<and> (\<exists>d. (pref_key m name W, d) \<in> set cs \<and> same_option c (newValue d))"
  using assms unfolding took_def by blast

lemma frame_managers: "frame W V \<Longrightarrow> length (managers V) = length (managers W)"
  "frame W V \<Longrightarrow> m < length (managers W) \<Longrightarrow> pref_key m name V = pref_key m name W"
  by (auto simp: frame_def same_managers_length same_managers_key)

lemma took_append:
  assumes "took cs S W V" "took cs' S V W'"
  shows "took (cs @ cs') S W W'"
proof -
  have f: "frame W V" "frame V W'" using assms by (auto simp: took_def)
  show ?thesis unfolding took_def
  proof (intro conjI allI impI)
    show "frame W W'" using f by (rule frame_trans)
    fix m name c
    assume m: "m < length (managers W)" and c: "current m name W' = Some c"
    from tookD [OF assms(2) _ c] m frame_managers [OF f(1)]
    consider "current m name V = Some c" "m \<in> S \<longrightarrow> pref_key m name W \<notin> fst ` set cs'"
      | d where "current m name V \<noteq> None" "(pref_key m name W, d) \<in> set cs'" "same_option c (newValue d)" by auto
    then show "current m name W = Some c \<and> (m \<in> S \<longrightarrow> pref_key m name W \<notin> fst ` set (cs @ cs')) \<or>
        current m name W \<noteq> None \<and> (\<exists>d. (pref_key m name W, d) \<in> set (cs @ cs') \<and> same_option c (newValue d))"
    proof cases
      case 1
      with tookD [OF assms(1) m] show ?thesis by auto
    next
      case 2
      from 2(1) obtain c' where "current m name V = Some c'" by auto
      with tookD [OF assms(1) m this] 2 show ?thesis by auto
    qed
  qed
qed

lemma took_union:
  assumes "took cs S W V" "took cs S' V W'"
  shows "took cs (S \<union> S') W W'"
proof -
  have f: "frame W V" "frame V W'" using assms by (auto simp: took_def)
  show ?thesis unfolding took_def
  proof (intro conjI allI impI)
    show "frame W W'" using f by (rule frame_trans)
    fix m name c
    assume m: "m < length (managers W)" and c: "current m name W' = Some c"
    from tookD [OF assms(2) _ c] m frame_managers [OF f(1)]
    consider "current m name V = Some c" "m \<in> S' \<longrightarrow> pref_key m name W \<notin> fst ` set cs"
      | d where "current m name V \<noteq> None" "(pref_key m name W, d) \<in> set cs" "same_option c (newValue d)" by auto
    then show "current m name W = Some c \<and> (m \<in> S \<union> S' \<longrightarrow> pref_key m name W \<notin> fst ` set cs) \<or>
        current m name W \<noteq> None \<and> (\<exists>d. (pref_key m name W, d) \<in> set cs \<and> same_option c (newValue d))"
    proof cases
      case 1
      with tookD [OF assms(1) m] show ?thesis by auto
    next
      case 2
      from 2(1) obtain c' where "current m name V = Some c'" by auto
      with tookD [OF assms(1) m this] 2 show ?thesis by auto
    qed
  qed
qed

lemma took_nothing: "took [] S W W"
  by (simp add: took_def)

lemma take_change_took:
  assumes "take_change m (k, d) W = Some W'" "m < length (managers W)" "newValue d \<noteq> Some NullValue"
  shows "took [(k, d)] {m} W W'"
  unfolding took_def
proof (intro conjI allI impI)
  note r = take_change_result [OF assms]
  show f: "frame W W'" by (rule r(1))
  fix m' name c
  assume m': "m' < length (managers W)" and c: "current m' name W' = Some c"
  have "pref_key m' name W' = pref_key m' name W" using frame_managers [OF f] m' by simp
  then show "current m' name W = Some c \<and> (m' \<in> {m} \<longrightarrow> pref_key m' name W \<notin> fst ` set [(k, d)]) \<or>
      current m' name W \<noteq> None \<and> (\<exists>e. (pref_key m' name W, e) \<in> set [(k, d)] \<and> same_option c (newValue e))"
    using r(2) [OF c] r(3) [of name c] c by auto
qed

lemma onStorageChange_took:
  assumes "onStorageChange m cs W = Some W'" "m < length (managers W)"
    and "\<forall>d \<in> snd ` set cs. newValue d \<noteq> Some NullValue"
  shows "took cs {m} W W'"
  using assms
proof (induction cs arbitrary: W)
  case (Cons kc cs)
  obtain k d where kc: "kc = (k, d)" by fastforce
  from Cons.prems(1) obtain V where V: "take_change m (k, d) W = Some V" "onStorageChange m cs V = Some W'"
    by (auto simp: Option.bind_eq_Some_conv kc)
  have first: "took [(k, d)] {m} W V" using take_change_took [OF V(1)] Cons.prems kc by simp
  then have "m < length (managers V)" using Cons.prems(2) frame_managers(1) by (auto simp: took_def)
  with Cons.IH [OF V(2)] Cons.prems(3) have "took cs {m} V W'" by simp
  with first show ?case using took_append kc by fastforce
qed (simp add: took_nothing)

lemma notify_observers_took:
  assumes "notify_observers ms cs W = Some W'" "\<forall>m \<in> set ms. m < length (managers W)"
    and "\<forall>d \<in> snd ` set cs. newValue d \<noteq> Some NullValue"
  shows "took cs (set ms) W W'"
  using assms
proof (induction ms arbitrary: W)
  case Nil
  then show ?case by (simp add: took_def)
next
  case (Cons m ms)
  from Cons.prems(1) obtain V where V: "onStorageChange m cs W = Some V" "notify_observers ms cs V = Some W'"
    by (auto simp: Option.bind_eq_Some_conv)
  have first: "took cs {m} W V" using onStorageChange_took [OF V(1)] Cons.prems by simp
  then have "length (managers V) = length (managers W)" using frame_managers(1) by (auto simp: took_def)
  with Cons.IH [OF V(2)] Cons.prems have "took cs (set ms) V W'" by simp
  with first show ?case using took_union by fastforce
qed

section \<open>Managers that share a storage\<close>

text \<open>
  Every manager observes the storage, no value that is stored or on its way is \<open>null\<close>, no items are
  being read, and every preference lags behind the storage at most.
\<close>

definition event_ok :: "pref_task \<Rightarrow> bool" where
  "event_ok t =
     (case t of
        ChangeEvent cs \<Rightarrow> distinct (map fst cs) \<and> (\<forall>d \<in> snd ` set cs. newValue d \<noteq> Some NullValue)
      | NotifyLater m name \<Rightarrow> True
      | _ \<Rightarrow> False)"

definition prefs_ok :: "pref_world \<Rightarrow> bool" where
  "prefs_ok W \<longleftrightarrow>
     distinct (map fst (stored W)) \<and> (\<forall>k. map_of (stored W) k \<noteq> Some NullValue) \<and>
     (\<forall>t \<in> set (pref_tasks W). event_ok t) \<and> set (storageObservers W) = {..<length (managers W)} \<and>
     (\<forall>m name c. m < length (managers W) \<longrightarrow> current m name W = Some c \<longrightarrow>
        lags (stored W) (pref_tasks W) (pref_key m name W) c)"

lemma prefs_okD:
  assumes "prefs_ok W"
  shows "distinct (map fst (stored W))" "map_of (stored W) k \<noteq> Some NullValue"
    "\<forall>t \<in> set (pref_tasks W). event_ok t" "set (storageObservers W) = {..<length (managers W)}"
    "m < length (managers W) \<Longrightarrow> current m name W = Some c \<Longrightarrow> lags (stored W) (pref_tasks W) (pref_key m name W) c"
  using assms unfolding prefs_ok_def by blast+

text \<open>A step that only changes values, and one that also changes what is stored.\<close>

lemma prefs_ok_frame:
  assumes "prefs_ok W" "frame W W'"
    and "\<And>m name c. m < length (managers W) \<Longrightarrow> current m name W' = Some c \<Longrightarrow>
      lags (stored W) (pref_tasks W) (pref_key m name W) c"
  shows "prefs_ok W'"
proof -
  have eq: "stored W' = stored W" "pref_tasks W' = pref_tasks W" "storageObservers W' = storageObservers W"
    using assms(2) by (auto simp: frame_def same_managers_def)
  have "\<forall>m name c. m < length (managers W) \<longrightarrow> current m name W' = Some c \<longrightarrow>
      lags (stored W) (pref_tasks W) (pref_key m name W') c"
    using assms(3) frame_managers(2) [OF assms(2)] by simp
  then show ?thesis
    using assms(1) unfolding prefs_ok_def eq frame_managers(1) [OF assms(2)] by blast
qed

lemma prefs_ok_update:
  assumes "prefs_ok W" "same_managers W V" "stored V = stored W" "pref_tasks V = pref_tasks W"
    and "distinct (map fst t)" "\<forall>k. map_of t k \<noteq> Some NullValue"
    and "\<And>m name c. m < length (managers W) \<Longrightarrow> current m name V = Some c \<Longrightarrow>
      \<exists>c0. current m name W = Some c0 \<and> (c0 = c \<or> same_option c (map_of t (pref_key m name W)))"
  shows "prefs_ok (storage_update t V)"
proof -
  have dist: "distinct (map fst (stored W))" using prefs_okD(1) [OF assms(1)] .
  let ?cs = "generateStorageChanges (stored W) t" and ?V = "storage_update t V"
  have V: "stored ?V = t" "pref_tasks ?V = pref_tasks W @ [ChangeEvent ?cs]" "managers ?V = managers V"
      "storageObservers ?V = storageObservers W"
    using assms(2-4) by (simp_all add: storage_update_def add_task_def same_managers_def)
  have d: "distinct (map fst ?cs)" using memory.once [OF dist assms(5)] .
  have "newValue c \<noteq> Some NullValue" if "c \<in> snd ` set ?cs" for c
  proof -
    from that obtain k where "(k, c) \<in> set ?cs" by auto
    then have "map_of ?cs k = Some c" using d by simp
    then show ?thesis using memory.reported_new [OF dist assms(5)] assms(6) by simp
  qed
  then have ev: "event_ok (ChangeEvent ?cs)" using d by (simp add: event_ok_def)
  have "lags t (pref_tasks W @ [ChangeEvent ?cs]) (pref_key m name V) c"
    if m: "m < length (managers W)" and c: "current m name V = Some c" for m name c
  proof -
    have key: "pref_key m name V = pref_key m name W" using same_managers_key [OF assms(2) m] .
    from assms(7) [OF m c] obtain c0 where c0: "current m name W = Some c0"
        "c0 = c \<or> same_option c (map_of t (pref_key m name W))" by blast
    have l: "lags (stored W) (pref_tasks W) (pref_key m name W) c0" using prefs_okD(5) [OF assms(1) m c0(1)] .
    from c0(2) show ?thesis unfolding key
    proof
      assume "c0 = c"
      then show "lags t (pref_tasks W @ [ChangeEvent ?cs]) (pref_key m name W) c"
        using lags_update [OF dist assms(5) l] by simp
    qed (rule lags_taken [OF dist assms(5) l])
  qed
  moreover have "current m name ?V = current m name V" "pref_key m name ?V = pref_key m name V" for m name
    by (rule current_managers [OF V(3)]) (simp add: V(3) pref_key_def)
  moreover have "length (managers V) = length (managers W)" using assms(2) by (rule same_managers_length)
  ultimately have l: "\<forall>m name c. m < length (managers V) \<longrightarrow> current m name ?V = Some c \<longrightarrow>
      lags t (pref_tasks W @ [ChangeEvent ?cs]) (pref_key m name ?V) c" by simp
  have e: "\<forall>t \<in> set (pref_tasks W @ [ChangeEvent ?cs]). event_ok t" using prefs_okD(3) [OF assms(1)] ev by simp
  have o: "set (storageObservers W) = {..<length (managers V)}"
    using prefs_okD(4) [OF assms(1)] same_managers_length [OF assms(2)] by simp
  show ?thesis unfolding prefs_ok_def V(1-4) using assms(5,6) e o l by blast
qed

lemma prefs_ok_notify:
  assumes "prefs_ok W" "notifyChange m name W = Some W'"
  shows "prefs_ok W'"
  using notifyChange_result [OF assms(2)] prefs_okD(5) [OF assms(1)] current_managers [of W' W]
  by (intro prefs_ok_frame [OF assms(1)]) auto

lemma prefs_ok_notify_each:
  assumes "prefs_ok W" "notify_each m names W = Some W'"
  shows "prefs_ok W'"
  using notify_each_result [OF assms(2)] prefs_okD(5) [OF assms(1)] current_managers [of W' W]
  by (intro prefs_ok_frame [OF assms(1)]) auto

lemma prefs_ok_add_notify: "prefs_ok W \<Longrightarrow> prefs_ok (add_task (NotifyLater m name) W)"
  unfolding prefs_ok_def by (auto simp: add_task_def event_ok_def current_def manager_record_def pref_key_def)

text \<open>The steps that leave values as they are.\<close>

lemma prefs_ok_same_values:
  assumes "prefs_ok W" "frame W W'" "\<And>m name. m < length (managers W) \<Longrightarrow> current m name W' = current m name W"
  shows "prefs_ok W'"
  using prefs_okD(5) [OF assms(1)] assms(3) by (intro prefs_ok_frame [OF assms(1,2)]) simp

lemma prefs_ok_put_record:
  assumes "prefs_ok W" "m < length (managers W)" "manager_record m name W = Some r" "currentValue r' = currentValue r"
  shows "prefs_ok (put_record m name r' W)"
  by (rule prefs_ok_same_values [OF assms(1) put_record_frame [OF assms(2)]])
    (use assms in \<open>auto simp: put_record_record [OF assms(2)] current_def\<close>)

lemma prefs_ok_set_item:
  assumes "prefs_ok W" "m < length (managers W)" "manager_record m name W = Some r" "v \<noteq> NullValue"
  shows "prefs_ok (storage_setItem (pref_key m name W) v (put_record m name (r\<lparr>currentValue := Some v\<rparr>) W))"
proof -
  let ?V = "put_record m name (r\<lparr>currentValue := Some v\<rparr>) W" and ?k = "pref_key m name W"
  have f: "frame W ?V" using put_record_frame [OF assms(2)] .
  let ?t = "memory_set (next_object ?V) ?k v (stored W)"
  have "copy_value n v \<noteq> NullValue" for n using assms(4) by (cases v) (simp_all add: copy_value_def)
  then have t: "distinct (map fst ?t)" "\<forall>k. map_of ?t k \<noteq> Some NullValue" "same_option (Some v) (map_of ?t ?k)"
    using prefs_okD(1,2) [OF assms(1)]
    by (auto simp: memory_set_distinct memory_set_map same_option_def)
  have "prefs_ok (storage_update ?t (?V\<lparr>next_object := next_object ?V + 1\<rparr>))"
    by (rule prefs_ok_update [OF assms(1) _ _ _ t(1,2)])
      (use f t(3) assms(3) in \<open>auto simp: frame_def same_managers_def put_record_current [OF assms(2)] current_record
        split: if_splits\<close>)
  moreover have "stored ?V = stored W" using f by (simp add: frame_def)
  ultimately show ?thesis by (simp add: storage_setItem_def)
qed

lemma prefs_ok_remove:
  assumes "prefs_ok W" "same_managers W V" "stored V = stored W" "pref_tasks V = pref_tasks W"
    and "\<And>m name c. m < length (managers W) \<Longrightarrow> current m name V = Some c \<Longrightarrow>
      current m name W = Some c \<or> current m name W \<noteq> None \<and> c = None \<and> pref_key m name W \<in> set ks"
  shows "prefs_ok (storage_removeItems ks V)"
proof -
  let ?t = "memory_remove ks (stored W)"
  have t: "distinct (map fst ?t)" "\<forall>k. map_of ?t k \<noteq> Some NullValue"
    using prefs_okD(1,2) [OF assms(1)] by (simp_all add: memory_remove_distinct memory_remove_map)
  have "prefs_ok (storage_update ?t V)"
  proof (rule prefs_ok_update [OF assms(1-4) t])
    fix m name c
    assume "m < length (managers W)" "current m name V = Some c"
    from assms(5) [OF this]
    show "\<exists>c0. current m name W = Some c0 \<and> (c0 = c \<or> same_option c (map_of ?t (pref_key m name W)))"
      by (auto simp: memory_remove_map)
  qed
  then show ?thesis by (simp add: storage_removeItems_def assms(3))
qed

lemma remove_put_record: "put_record m name r (storage_removeItems ks W) = storage_removeItems ks (put_record m name r W)"
  and remove_update_manager: "update_manager m f (storage_removeItems ks W) = storage_removeItems ks (update_manager m f W)"
  by (simp_all add: put_record_def update_manager_def storage_removeItems_def storage_update_def add_task_def)

lemma prefs_ok_reset_item:
  assumes "prefs_ok W" "m < length (managers W)" "manager_record m name W = Some r"
  shows "prefs_ok (storage_removeItems [pref_key m name W] (put_record m name (r\<lparr>currentValue := None\<rparr>) W))"
proof (rule prefs_ok_remove [OF assms(1)])
  let ?V = "put_record m name (r\<lparr>currentValue := None\<rparr>) W"
  have f: "frame W ?V" using put_record_frame [OF assms(2)] .
  then show "same_managers W ?V" "stored ?V = stored W" "pref_tasks ?V = pref_tasks W" by (simp_all add: frame_def)
  fix m' name' c
  assume "current m' name' ?V = Some c"
  then show "current m' name' W = Some c \<or>
      current m' name' W \<noteq> None \<and> c = None \<and> pref_key m' name' W \<in> set [pref_key m name W]"
    using assms(3) by (auto simp: put_record_current [OF assms(2)] current_record split: if_splits)
qed

lemma prefs_ok_set:
  assumes "prefs_ok W" "m < length (managers W)" "pref_set m name v True W = Some W'" "v \<noteq> NullValue"
  shows "prefs_ok W'"
proof -
  from assms(3) obtain r where r: "manager_record m name W = Some r" by (auto simp: pref_set_def split: option.splits)
  show ?thesis
  proof (cases "pref_diff (Some (record_get r)) (Some v)")
    case False
    with assms(1,3) r show ?thesis by (simp add: pref_set_def)
  next
    case True
    with assms(3) r have W': "W' = add_task (NotifyLater m name)
        (if pref_diff (Some (defaultValue r)) (Some v)
         then storage_setItem (pref_key m name W) v (put_record m name (r\<lparr>currentValue := Some v\<rparr>) W)
         else storage_removeItems [pref_key m name W] (put_record m name (r\<lparr>currentValue := None\<rparr>) W))"
      by (auto simp: pref_set_def Let_def)
    show ?thesis unfolding W'
      using prefs_ok_set_item [OF assms(1,2) r assms(4)] prefs_ok_reset_item [OF assms(1,2) r]
      by (simp add: prefs_ok_add_notify)
  qed
qed

lemma prefs_ok_reset:
  assumes "prefs_ok W" "m < length (managers W)" "pref_reset m name W = Some W'"
  shows "prefs_ok W'"
proof -
  from assms(3) obtain r where r: "manager_record m name W = Some r" by (auto simp: pref_reset_def split: option.splits)
  show ?thesis
  proof (cases "currentValue r")
    case None
    with assms(3) r have "W' = storage_removeItems [pref_key m name W] W" by (simp add: pref_reset_def)
    then show ?thesis using prefs_ok_remove [OF assms(1), of W] by simp
  next
    case (Some v)
    with assms(3) r
    have "notifyChange m name (storage_removeItems [pref_key m name W] (put_record m name (r\<lparr>currentValue := None\<rparr>) W)) = Some W'"
      by (simp add: pref_reset_def Let_def remove_put_record)
    with prefs_ok_notify prefs_ok_reset_item [OF assms(1,2) r] show ?thesis by blast
  qed
qed

lemma prefs_ok_resetAll:
  assumes "prefs_ok W" "m < length (managers W)" "pref_resetAll m W = Some W'"
  shows "prefs_ok W'"
proof -
  let ?M = "managers W ! m"
  let ?V = "update_manager m (\<lambda>M. M\<lparr>prefRecords := map (apsnd (\<lambda>r. r\<lparr>currentValue := None\<rparr>)) (prefRecords M)\<rparr>) W"
  let ?ks = "map (\<lambda>(name, r). prefix ?M @ name) (prefRecords ?M)"
  have rec: "current m' name ?V = (if m' = m then map_option (\<lambda>r. None) (manager_record m name W) else current m' name W)" for m' name
    using assms(2)
    by (simp add: update_manager_def current_def manager_record_def apsnd_def map_prod_def map_of_map comp_def
        option.map_comp split_def [symmetric])
  have "prefs_ok (storage_removeItems ?ks ?V)"
  proof (rule prefs_ok_remove [OF assms(1)])
    show "same_managers W ?V" "stored ?V = stored W" "pref_tasks ?V = pref_tasks W"
      using assms(2) by (auto simp: update_manager_def same_managers_def map_update intro!: list_update_same_conv [THEN iffD2])
    fix m' name c
    assume "current m' name ?V = Some c"
    then have "(if m' = m then map_option (\<lambda>r. None) (manager_record m name W) else current m' name W) = Some c"
      by (simp only: rec)
    then show "current m' name W = Some c \<or> current m' name W \<noteq> None \<and> c = None \<and> pref_key m' name W \<in> set ?ks"
      by (auto simp: current_def manager_record_def pref_key_def split: if_splits dest!: map_of_SomeD intro: rev_image_eqI)
  qed
  with assms(3) prefs_ok_notify_each show ?thesis by (auto simp: pref_resetAll_def Let_def)
qed

lemma prefs_ok_changeDefault:
  assumes "prefs_ok W" "m < length (managers W)" "changeDefault m name v W = Some W'"
  shows "prefs_ok W'"
proof -
  from assms(3) obtain r where r: "manager_record m name W = Some r" by (auto simp: changeDefault_def split: option.splits)
  have "prefs_ok (put_record m name (r\<lparr>defaultValue := v\<rparr>) W)" by (rule prefs_ok_put_record [OF assms(1,2) r]) simp
  with assms r prefs_ok_notify show ?thesis by (auto simp: changeDefault_def Let_def split: if_splits)
qed

lemma prefs_ok_observer:
  assumes "prefs_ok W" "m < length (managers W)"
  shows "add_record_observer m name i W = Some W' \<Longrightarrow> prefs_ok W'"
    and "remove_record_observer m name i W = Some W' \<Longrightarrow> prefs_ok W'"
  using prefs_ok_put_record [OF assms] by (auto simp: add_record_observer_def remove_record_observer_def)

lemma prefs_ok_update_manager:
  assumes "prefs_ok W" "m < length (managers W)" "\<And>M. prefix (f M) = prefix M" "\<And>M. prefRecords (f M) = prefRecords M"
  shows "prefs_ok (update_manager m f W)"
proof (rule prefs_ok_same_values [OF assms(1)])
  show "frame W (update_manager m f W)" using assms(2,3)
    by (auto simp: update_manager_def frame_def same_managers_def map_update intro!: list_update_same_conv [THEN iffD2])
  show "current m' name (update_manager m f W) = current m' name W" for m' name
    using assms(2,4) by (cases "m' = m") (simp_all add: update_manager_def current_def manager_record_def)
qed

text \<open>No step but a new manager changes how many there are.\<close>

lemma length_managers [simp]:
  "length (managers (update_manager m f W)) = length (managers W)"
  "length (managers (put_record m name r W)) = length (managers W)"
  "length (managers (add_task t W)) = length (managers W)"
  "length (managers (storage_setItem k v W)) = length (managers W)"
  "length (managers (storage_removeItems ks W)) = length (managers W)"
  by (simp_all add: update_manager_def put_record_def add_task_def storage_setItem_def storage_removeItems_def
      storage_update_def memory_set_def)

lemma length_pref_set: "pref_set m name v b W = Some W' \<Longrightarrow> length (managers W') = length (managers W)"
  by (auto simp: pref_set_def Let_def split: option.splits if_splits)

lemma prefs_ok_import:
  assumes "prefs_ok W" "m < length (managers W)" "importFromJson m its W = Some W'" "\<forall>v \<in> snd ` set its. v \<noteq> NullValue"
  shows "prefs_ok W'"
proof -
  let ?V = "update_manager m (\<lambda>M. M\<lparr>isImportingJson := True\<rparr>) W"
  have "prefs_ok ?V" using assms(1,2) by (rule prefs_ok_update_manager) simp_all
  moreover have "import_items m its V = Some W' \<Longrightarrow> prefs_ok V \<Longrightarrow> m < length (managers V) \<Longrightarrow> prefs_ok W'" for V
    using assms(4)
  proof (induction its arbitrary: V)
    case (Cons x its)
    obtain name v where x: "x = (name, v)" by fastforce
    from Cons.prems(1) obtain U where U: "pref_set m name v True V = Some U" "import_items m its U = Some W'"
      by (auto simp: Option.bind_eq_Some_conv x)
    have "prefs_ok U" using prefs_ok_set [OF Cons.prems(2,3) U(1)] Cons.prems(4) by (simp add: x)
    then show ?case using Cons.IH [OF U(2)] length_pref_set [OF U(1)] Cons.prems(3,4) by simp
  qed simp
  ultimately show ?thesis using assms(2,3) by (simp add: importFromJson_def)
qed

lemma prefs_ok_turn:
  assumes "prefs_ok W" "pref_step Turn W = Some W'"
  shows "prefs_ok W'"
proof (cases "pref_tasks W")
  case Nil
  with assms show ?thesis by simp
next
  case (Cons t ts)
  let ?W = "W\<lparr>pref_tasks := ts\<rparr>"
  have ev: "event_ok t" "\<forall>t \<in> set ts. event_ok t" using prefs_okD(3) [OF assms(1)] Cons by simp_all
  have run: "run_task t ?W = Some W'" using assms(2) Cons by simp
  have base: "prefs_ok V" if "frame ?W V"
    and "\<And>m name c. m < length (managers W) \<Longrightarrow> current m name V = Some c \<Longrightarrow> lags (stored W) ts (pref_key m name W) c" for V
  proof -
    have V: "stored V = stored W" "pref_tasks V = ts" "storageObservers V = storageObservers W"
      using that(1) by (auto simp: frame_def same_managers_def)
    have n: "length (managers V) = length (managers W)" using frame_managers(1) [OF that(1)] by simp
    have k: "m < length (managers W) \<Longrightarrow> pref_key m name V = pref_key m name W" for m name
      using frame_managers(2) [OF that(1)] by simp
    have "\<forall>m name c. m < length (managers W) \<longrightarrow> current m name V = Some c \<longrightarrow> lags (stored W) ts (pref_key m name V) c"
      using that(2) k by simp
    then show ?thesis using assms(1) ev(2) unfolding prefs_ok_def V n by blast
  qed
  show ?thesis
  proof (cases t)
    case (NotifyLater m name)
    have "prefs_ok ?W"
    proof (rule base)
      fix m' name' c
      assume "m' < length (managers W)" "current m' name' ?W = Some c"
      with prefs_okD(5) [OF assms(1)] have "lags (stored W) (t # ts) (pref_key m' name' W) c" unfolding Cons by simp
      then show "lags (stored W) ts (pref_key m' name' W) c" by (simp add: NotifyLater)
    qed simp
    then show ?thesis using prefs_ok_notify run by (auto simp: run_task_def NotifyLater)
  next
    case (ChangeEvent cs)
    have d: "distinct (map fst cs)" "\<forall>d \<in> snd ` set cs. newValue d \<noteq> Some NullValue"
      using ev(1) by (simp_all add: event_ok_def ChangeEvent)
    have obs: "set (storageObservers ?W) = {..<length (managers W)}" using prefs_okD(4) [OF assms(1)] by simp
    have t: "took cs {..<length (managers W)} ?W W'"
      using notify_observers_took [of "storageObservers ?W" cs ?W W'] run d(2) obs by (simp add: run_task_def ChangeEvent)
    show ?thesis
    proof (rule base)
      show "frame ?W W'" using t by (simp add: took_def)
      fix m name c
      assume m: "m < length (managers W)" and c: "current m name W' = Some c"
      let ?k = "pref_key m name W"
      from tookD [OF t _ c] m
      consider "current m name W = Some c" "?k \<notin> fst ` set cs"
        | e c0 where "current m name W = Some c0" "(?k, e) \<in> set cs" "same_option c (newValue e)" by auto
      then show "lags (stored W) ts ?k c"
      proof cases
        case 1
        with prefs_okD(5) [OF assms(1) m] have "lags (stored W) (ChangeEvent cs # ts) ?k c" by (simp add: Cons ChangeEvent)
        from lags_event [OF this] 1(2) show ?thesis by (simp add: map_of_eq_None_iff [THEN iffD2])
      next
        case 2
        with prefs_okD(5) [OF assms(1) m] have "lags (stored W) (ChangeEvent cs # ts) ?k c0" by (simp add: Cons ChangeEvent)
        from lags_event [OF this] 2(2) d(1) have "lags (stored W) ts ?k (newValue e)" by simp
        then show ?thesis using 2(3) by (rule lags_same)
      qed
    qed
  qed (use ev(1) in \<open>simp_all add: event_ok_def\<close>)
qed

section \<open>What settles\<close>

text \<open>
  The operations that leave what is stored to \<open>set\<close> and \<open>reset\<close>: nothing is set without being stored,
  nothing is set to \<open>null\<close>, and the storage is not read. \<open>n\<close> is the number of managers.
\<close>

fun plain_op :: "nat \<Rightarrow> pref_op \<Rightarrow> bool" where
  "plain_op n (Set m name v save) \<longleftrightarrow> m < n \<and> save \<and> v \<noteq> NullValue"
| "plain_op n (Reset m name) \<longleftrightarrow> m < n"
| "plain_op n (ResetAll m) \<longleftrightarrow> m < n"
| "plain_op n (ChangeDefault m name v) \<longleftrightarrow> m < n"
| "plain_op n (Import m its) \<longleftrightarrow> m < n \<and> list_all (\<lambda>(name, v). v \<noteq> NullValue) its"
| "plain_op n (NotifyAll m) \<longleftrightarrow> m < n"
| "plain_op n (AddObserver m name i) \<longleftrightarrow> m < n"
| "plain_op n (RemoveObserver m name i) \<longleftrightarrow> m < n"
| "plain_op n (AddGlobal m i) \<longleftrightarrow> m < n"
| "plain_op n Turn \<longleftrightarrow> True"
| "plain_op n _ \<longleftrightarrow> False"

text \<open>Nothing is stored or under way, and all managers observe the storage.\<close>

definition fresh :: "pref_world \<Rightarrow> bool" where
  "fresh W \<longleftrightarrow> stored W = [] \<and> pref_tasks W = [] \<and> set (storageObservers W) = set [0..<length (managers W)] \<and>
     list_all (\<lambda>M. list_all (\<lambda>(name, r). currentValue r = None) (prefRecords M)) (managers W)"

lemma fresh_current:
  assumes "fresh W" "m < length (managers W)" "current m name W = Some c"
  shows "c = None"
proof -
  have "list_all (\<lambda>(name, r). currentValue r = None) (prefRecords (managers W ! m))"
    using assms(1,2) by (simp add: fresh_def list_all_length)
  moreover obtain r where "(name, r) \<in> set (prefRecords (managers W ! m))" "c = currentValue r"
    using assms(3) by (auto simp: current_def manager_record_def dest!: map_of_SomeD)
  ultimately show ?thesis unfolding list_all_iff by fastforce
qed

lemma fresh_ok:
  assumes "fresh W"
  shows "prefs_ok W"
proof -
  have f: "stored W = []" "pref_tasks W = []" using assms by (simp_all add: fresh_def)
  have o: "set (storageObservers W) = {..<length (managers W)}" using assms by (simp add: fresh_def atLeast0LessThan)
  have "lags (stored W) (pref_tasks W) (pref_key m name W) c"
    if "m < length (managers W)" "current m name W = Some c" for m name c
    using fresh_current [OF assms that] by (simp add: lags_def f)
  with o show ?thesis unfolding prefs_ok_def by (simp add: f)
qed

lemma length_notifyChange: "notifyChange m name W = Some W' \<Longrightarrow> length (managers W') = length (managers W)"
  by (drule notifyChange_result) simp

lemma length_notify_each: "notify_each m names W = Some W' \<Longrightarrow> length (managers W') = length (managers W)"
  by (drule notify_each_result) simp

lemma length_take_change: "take_change m kc W = Some W' \<Longrightarrow> length (managers W') = length (managers W)"
  by (auto simp: take_change_def Let_def dest: length_notifyChange split: prod.splits option.splits if_splits)

lemma length_onStorageChange: "onStorageChange m cs W = Some W' \<Longrightarrow> length (managers W') = length (managers W)"
  by (induction cs arbitrary: W) (auto simp: Option.bind_eq_Some_conv dest: length_take_change)

lemma length_notify_observers: "notify_observers ms cs W = Some W' \<Longrightarrow> length (managers W') = length (managers W)"
  by (induction ms arbitrary: W) (auto simp: Option.bind_eq_Some_conv dest: length_onStorageChange)

lemma length_import: "import_items m its W = Some W' \<Longrightarrow> length (managers W') = length (managers W)"
proof (induction its arbitrary: W)
  case (Cons x its)
  obtain name v where x: "x = (name, v)" by fastforce
  from Cons.prems obtain V where V: "pref_set m name v True W = Some V" "import_items m its V = Some W'"
    by (auto simp: Option.bind_eq_Some_conv x)
  from Cons.IH [OF V(2)] length_pref_set [OF V(1)] show ?case by simp
qed simp

lemma length_other:
  "pref_reset m name W = Some W' \<Longrightarrow> length (managers W') = length (managers W)"
  "pref_resetAll m W = Some W' \<Longrightarrow> length (managers W') = length (managers W)"
  "changeDefault m name v W = Some W' \<Longrightarrow> length (managers W') = length (managers W)"
  "importFromJson m its W = Some W' \<Longrightarrow> length (managers W') = length (managers W)"
  "add_record_observer m name i W = Some W' \<Longrightarrow> length (managers W') = length (managers W)"
  "remove_record_observer m name i W = Some W' \<Longrightarrow> length (managers W') = length (managers W)"
proof -
  show "pref_reset m name W = Some W' \<Longrightarrow> length (managers W') = length (managers W)"
    by (auto simp: pref_reset_def Let_def dest!: length_notifyChange split: option.splits if_splits)
  show "pref_resetAll m W = Some W' \<Longrightarrow> length (managers W') = length (managers W)"
    by (simp add: pref_resetAll_def Let_def) (drule length_notify_each, simp)
  show "changeDefault m name v W = Some W' \<Longrightarrow> length (managers W') = length (managers W)"
    by (auto simp: changeDefault_def Let_def dest!: length_notifyChange split: option.splits if_splits)
  show "importFromJson m its W = Some W' \<Longrightarrow> length (managers W') = length (managers W)"
    by (simp add: importFromJson_def) (drule length_import, simp)
qed (auto simp: add_record_observer_def remove_record_observer_def)

lemmas length_operations = length_notifyChange length_notify_each length_notify_observers length_import length_pref_set

lemma length_plain:
  assumes "pref_step a W = Some W'" "prefs_ok W" "plain_op n a"
  shows "length (managers W') = length (managers W)"
proof (cases a)
  case Turn
  show ?thesis
  proof (cases "pref_tasks W")
    case (Cons t ts)
    then have "event_ok t" using prefs_okD(3) [OF assms(2)] by simp
    with Cons Turn assms(1) show ?thesis
      by (cases t) (auto simp: event_ok_def run_task_def dest: length_operations)
  qed (use Turn assms(1) in simp)
next
  case (Set m name v save)
  with assms(1) show ?thesis using length_pref_set by simp
next
  case (NotifyAll m)
  with assms(1) show ?thesis using length_notify_each by (simp add: notifyAll_def)
next
  case (AddGlobal m i)
  with assms(1) show ?thesis by (auto simp: add_global_observer_def)
qed (use assms(1,3) length_other in simp_all)

lemma prefs_ok_step:
  assumes "pref_step a W = Some W'" "prefs_ok W" "plain_op (length (managers W)) a"
  shows "prefs_ok W'"
proof (cases a)
  case (Set m name v save)
  with assms show ?thesis using prefs_ok_set [OF assms(2), of m name v W'] by simp
next
  case (Import m its)
  then have "\<forall>v \<in> snd ` set its. v \<noteq> NullValue" using assms(3) by (auto simp: list_all_iff)
  with Import assms show ?thesis using prefs_ok_import [OF assms(2), of m its W'] by simp
next
  case (AddGlobal m i)
  with assms show ?thesis
    using prefs_ok_update_manager [OF assms(2), of m "\<lambda>M. M\<lparr>globalObservers := globalObservers M @ [i]\<rparr>"]
    by (auto simp: add_global_observer_def)
next
  case (NotifyAll m)
  with assms(1) have "notify_each m (map fst (prefRecords (managers W ! m))) W = Some W'" by (simp add: notifyAll_def)
  then show ?thesis by (rule prefs_ok_notify_each [OF assms(2)])
next
  case Turn
  with assms show ?thesis using prefs_ok_turn [OF assms(2), of W'] by simp
next
  case (Reset m name)
  with assms show ?thesis using prefs_ok_reset [OF assms(2), of m name W'] by simp
next
  case (ResetAll m)
  with assms show ?thesis using prefs_ok_resetAll [OF assms(2), of m W'] by simp
next
  case (ChangeDefault m name v)
  with assms show ?thesis using prefs_ok_changeDefault [OF assms(2), of m name v W'] by simp
next
  case (AddObserver m name i)
  with assms show ?thesis using prefs_ok_observer(1) [OF assms(2), of m name i W'] by simp
next
  case (RemoveObserver m name i)
  with assms show ?thesis using prefs_ok_observer(2) [OF assms(2), of m name i W'] by simp
qed (use assms in simp_all)

lemma prefs_ok_run:
  assumes "pref_run as W = Some W'" "prefs_ok W" "list_all (plain_op (length (managers W))) as"
  shows "prefs_ok W'"
  using assms
proof (induction as arbitrary: W)
  case (Cons a as)
  from Cons.prems(1) obtain V where V: "pref_step a W = Some V" "pref_run as V = Some W'"
    by (auto simp: Option.bind_eq_Some_conv)
  have p: "plain_op (length (managers W)) a" using Cons.prems(3) by simp
  show ?case
    using Cons.IH [OF V(2) prefs_ok_step [OF V(1) Cons.prems(2) p]] length_plain [OF V(1) Cons.prems(2) p] Cons.prems(3) by simp
qed simp

text \<open>Each turn ends one task, and these tasks bring no other.\<close>

lemma turn_tasks:
  assumes "prefs_ok W" "pref_step Turn W = Some W'"
  shows "pref_tasks W' = tl (pref_tasks W)"
proof (cases "pref_tasks W")
  case (Cons t ts)
  then have ev: "event_ok t" using prefs_okD(3) [OF assms(1)] by simp
  have run: "run_task t (W\<lparr>pref_tasks := ts\<rparr>) = Some W'" using assms(2) Cons by simp
  show ?thesis
  proof (cases t)
    case (ChangeEvent cs)
    have "took cs (set (storageObservers W)) (W\<lparr>pref_tasks := ts\<rparr>) W'"
      using notify_observers_took [of "storageObservers W" cs "W\<lparr>pref_tasks := ts\<rparr>" W'] run ev
        prefs_okD(4) [OF assms(1)] by (simp add: run_task_def ChangeEvent event_ok_def)
    then show ?thesis using Cons by (simp add: took_def frame_def)
  next
    case (NotifyLater m name)
    then show ?thesis using run Cons notifyChange_result by (fastforce simp: run_task_def frame_def)
  qed (use ev in \<open>simp_all add: event_ok_def\<close>)
qed (use assms in simp)

lemma turns_tasks:
  assumes "prefs_ok W" "pref_run (replicate k Turn) W = Some W'"
  shows "pref_tasks W' = drop k (pref_tasks W)"
  using assms
proof (induction k arbitrary: W)
  case (Suc k)
  from Suc.prems(2) obtain V where V: "pref_step Turn W = Some V" "pref_run (replicate k Turn) V = Some W'"
    by (auto simp: Option.bind_eq_Some_conv)
  have "prefs_ok V" using prefs_ok_turn Suc.prems(1) V(1) by blast
  from Suc.IH [OF this V(2)] turn_tasks [OF Suc.prems(1) V(1)] show ?case by (simp add: drop_Suc)
qed simp

text \<open>What a preference is worth, by what is stored under its key.\<close>

definition agrees :: "nat \<Rightarrow> jsstring \<Rightarrow> pref_world \<Rightarrow> bool" where
  "agrees m name W \<longleftrightarrow>
     (case manager_record m name W of
        None \<Rightarrow> True
      | Some r \<Rightarrow>
          (case map_of (stored W) (pref_key m name W) of
             None \<Rightarrow> record_get r = defaultValue r
           | Some v \<Rightarrow> same_value (record_get r) v))"

lemma settled:
  assumes "prefs_ok W" "pref_tasks W = []" "m < length (managers W)"
  shows "agrees m name W"
proof (cases "manager_record m name W")
  case (Some r)
  from prefs_okD(5) [OF assms(1,3) current_record [OF Some]]
  have "same_option (currentValue r) (map_of (stored W) (pref_key m name W))" by (simp add: lags_def assms(2))
  then show ?thesis
    by (auto simp: agrees_def Some record_get_def same_option_def option_rel_Some1 option_rel_Some2 split: option.splits)
qed (simp add: agrees_def)

text \<open>
  C31. Managers that share a storage agree in the end: whatever is set, reset, imported, or made the
  default, in whichever manager and with events on their way, once the turns have come that are due every
  preference of every manager has the value that is stored under its key, or its default value if there is
  none. Nothing is set to \<open>null\<close> or without being stored, and the storage is not read in between.
\<close>

theorem settled_agree:
  assumes "fresh W" "list_all (plain_op (length (managers W))) as" "pref_run as W = Some V"
    and "pref_run (replicate (length (pref_tasks V)) Turn) V = Some W'" "m < length (managers W')"
  shows "pref_tasks W' = [] \<and> agrees m name W'"
proof -
  have V: "prefs_ok V" using prefs_ok_run [OF assms(3) fresh_ok [OF assms(1)] assms(2)] .
  have "list_all (plain_op (length (managers V))) (replicate (length (pref_tasks V)) Turn)" by (simp add: list_all_length)
  from prefs_ok_run [OF assms(4) V this] have "prefs_ok W'" .
  moreover have "pref_tasks W' = []" using turns_tasks [OF V assms(4)] by simp
  ultimately show ?thesis using settled assms(5) by blast
qed

text \<open>A page with two managers of the same preferences, one number and one list.\<close>

definition two_managers :: pref_world where
  "two_managers = the (pref_run
     [NewManager (js ''/p''), NewManager (js ''/p''), Define 0 (js ''size'') (NumberValue 15) (Some 1),
      Define 1 (js ''size'') (NumberValue 15) (Some 2), Define 0 (js ''map'') (ObjectValue 0 (js ''[]'')) (Some 3),
      Define 1 (js ''map'') (ObjectValue 1 (js ''[]'')) None] new_world)"

definition busy_ops :: "pref_op list" where
  "busy_ops = [Set 0 (js ''size'') (NumberValue 20) True, Set 1 (js ''size'') (NumberValue 21) True, Turn,
     Set 0 (js ''map'') (ObjectValue 2 (js ''[1]'')) True, Turn, ChangeDefault 1 (js ''size'') (NumberValue 12),
     Set 1 (js ''size'') (NumberValue 12) True, Reset 0 (js ''map'')]"

lemma settled_agree_witness:
  "agrees 0 (js ''size'') (the (pref_run (replicate (length (pref_tasks (the (pref_run busy_ops two_managers)))) Turn)
     (the (pref_run busy_ops two_managers))))"
proof -
  let ?V = "the (pref_run busy_ops two_managers)"
  let ?W' = "the (pref_run (replicate (length (pref_tasks ?V)) Turn) ?V)"
  have "fresh two_managers" "list_all (plain_op (length (managers two_managers))) busy_ops"
    "\<not> Option.is_none (pref_run busy_ops two_managers)"
    "\<not> Option.is_none (pref_run (replicate (length (pref_tasks ?V)) Turn) ?V)" "0 < length (managers ?W')"
    by code_simp+
  then show ?thesis
    using settled_agree [of two_managers busy_ops ?V ?W' 0 "js ''size''"] by (simp add: Option.is_none_def)
qed

end
