(* ===== verification/PreferenceOps.thy ===== *)
theory PreferenceOps
  imports PreferenceSync
begin

text \<open>
  What single operations of a preference manager do: setting and reading, import and export, resetting,
  and the order in which a change is reported.
\<close>

section \<open>Setting and reading\<close>

lemma pref_set_get:
  assumes "m < length (managers W)" "manager_record m name W = Some r"
  shows "\<exists>W'. pref_set m name v b W = Some W' \<and> length (managers W') = length (managers W) \<and>
    (\<forall>m' name'. pref_get m' name' W' = (if m' = m \<and> name' = name then Some v else pref_get m' name' W))"
proof -
  have later: "pref_get m' name' (add_task t V) = pref_get m' name' V" "pref_get m' name' (storage_setItem k v V) = pref_get m' name' V"
      "pref_get m' name' (storage_removeItems ks V) = pref_get m' name' V" for m' name' t V k v ks
    by (simp_all add: pref_get_def manager_record_def add_task_def storage_setItem_def storage_removeItems_def storage_update_def)
  have put: "pref_get m' name' (put_record m name r' W) = (if m' = m \<and> name' = name then Some (record_get r') else pref_get m' name' W)"
    for m' name' r' by (simp add: pref_get_def put_record_record [OF assms(1)])
  have now: "pref_get m name W = Some (record_get r)" "record_get (r\<lparr>currentValue := Some v\<rparr>) = v"
      "record_get (r\<lparr>currentValue := None\<rparr>) = defaultValue r"
    using assms(2) by (simp_all add: pref_get_def record_get_def)
  show ?thesis
    using not_diff_same [of "Some (record_get r)" "Some v"] not_diff_same [of "Some (defaultValue r)" "Some v"] assms(2)
      now by (auto simp: pref_set_def Let_def later put)
qed

text \<open>
  A preference that is set has its new value at once, before any event of the storage, whether or not
  that is its default value and is stored, and no other preference of any manager changes. If it
  already has this value nothing else is done: no event and no notification are due.
\<close>

theorem set_then_get:
  assumes "m < length (managers W)" "manager_record m name W = Some r"
  shows "\<exists>W'. pref_set m name v b W = Some W' \<and>
    (\<forall>m' name'. pref_get m' name' W' = (if m' = m \<and> name' = name then Some v else pref_get m' name' W)) \<and>
    (\<not> pref_diff (pref_get m name W) (Some v) \<longrightarrow> W' = W)"
proof -
  from pref_set_get [OF assms, of v b] obtain W' where W': "pref_set m name v b W = Some W'"
      "\<forall>m' name'. pref_get m' name' W' = (if m' = m \<and> name' = name then Some v else pref_get m' name' W)" by blast
  have "W' = W" if "\<not> pref_diff (pref_get m name W) (Some v)"
    using W'(1) that assms(2) by (simp add: pref_set_def pref_get_def)
  with W' show ?thesis by blast
qed

lemma set_then_get_witness:
  "\<exists>W'. pref_set 1 (js ''map'') NullValue False two_managers = Some W' \<and> pref_get 1 (js ''map'') W' = Some NullValue"
proof -
  have m: "1 < length (managers two_managers)" and r: "\<not> Option.is_none (manager_record 1 (js ''map'') two_managers)"
    by code_simp+
  from r obtain r where "manager_record 1 (js ''map'') two_managers = Some r" by (auto simp: Option.is_none_def)
  from set_then_get [OF m this, of NullValue False] show ?thesis by (metis (full_types))
qed

section \<open>Export and import\<close>

lemma import_items_get:
  assumes "m < length (managers W)" "distinct (map fst its)" "\<forall>name \<in> fst ` set its. pref_get m name W \<noteq> None"
  shows "\<exists>W'. import_items m its W = Some W' \<and>
    (\<forall>m' name'. pref_get m' name' W' =
       (if m' = m \<and> map_of its name' \<noteq> None then map_of its name' else pref_get m' name' W))"
  using assms
proof (induction its arbitrary: W)
  case (Cons x its)
  obtain name v where x: "x = (name, v)" by fastforce
  from Cons.prems(3) x obtain r where "manager_record m name W = Some r" by (auto simp: pref_get_def)
  from pref_set_get [OF Cons.prems(1) this, of v True] obtain V
    where V: "pref_set m name v True W = Some V" "length (managers V) = length (managers W)"
      "\<And>m' name'. pref_get m' name' V = (if m' = m \<and> name' = name then Some v else pref_get m' name' W)" by blast
  have "m < length (managers V)" "distinct (map fst its)" "\<forall>name \<in> fst ` set its. pref_get m name V \<noteq> None"
    using Cons.prems V(2,3) x by auto
  from Cons.IH [OF this] obtain W' where W': "import_items m its V = Some W'"
      "\<And>m' name'. pref_get m' name' W' =
        (if m' = m \<and> map_of its name' \<noteq> None then map_of its name' else pref_get m' name' V)" by blast
  have "name \<notin> fst ` set its" using Cons.prems(2) x by simp
  then have "map_of its name = None" by (simp add: map_of_eq_None_iff)
  then show ?case using V(1) W' by (auto simp: x V(3))
qed auto

lemma exportAsJson_map:
  assumes "distinct (map fst (prefRecords (managers W ! m)))"
  shows "map_of (exportAsJson m W) name = Option.bind (manager_record m name W) currentValue"
    and "distinct (map fst (exportAsJson m W))"
proof -
  let ?f = "\<lambda>(name, r). map_option (Pair name) (currentValue r)"
  have key: "fst y = k" if "?f (k, v) = Some y" for k :: jsstring and v :: pref_record and y :: "jsstring \<times> pref_value"
    using that by auto
  show "map_of (exportAsJson m W) name = Option.bind (manager_record m name W) currentValue"
    unfolding exportAsJson_def manager_record_def
    by (subst map_of_map_filter [OF assms key]) (auto split: option.split simp: option.map_comp comp_def option.map_ident)
  show "distinct (map fst (exportAsJson m W))"
    unfolding exportAsJson_def using assms by (subst fst_map_filter [OF key]) (auto simp: distinct_map_filter)
qed

text \<open>
  C32. What \<open>exportAsJson\<close> writes \<open>importFromJson\<close> reads: a manager that imports what another one with the
  same preferences exports, and that had its default values, gives every preference the value it has there
  as soon as the import returns, and no other manager is changed then.
\<close>

theorem export_import:
  assumes "m < length (managers W)" "m' < length (managers W)" "m \<noteq> m'"
    and "distinct (map fst (prefRecords (managers W ! m)))"
    and "prefRecords (managers W ! m') =
      map (apsnd (\<lambda>r. r\<lparr>currentValue := None, observers := []\<rparr>)) (prefRecords (managers W ! m))"
  shows "\<exists>W'. importFromJson m' (exportAsJson m W) W = Some W' \<and>
    (\<forall>name. pref_get m' name W' = pref_get m name W) \<and>
    (\<forall>i name. i \<noteq> m' \<longrightarrow> pref_get i name W' = pref_get i name W)"
proof -
  let ?V = "update_manager m' (\<lambda>M. M\<lparr>isImportingJson := True\<rparr>) W" and ?its = "exportAsJson m W"
  have V: "pref_get i name ?V = pref_get i name W" for i name
    using assms(2) by (cases "i = m'") (simp_all add: update_manager_def pref_get_def manager_record_def)
  have def: "manager_record m' name W =
      map_option (\<lambda>r. r\<lparr>currentValue := None, observers := []\<rparr>) (manager_record m name W)" for name
    by (simp add: manager_record_def assms(5) apsnd_def map_prod_def map_of_map comp_def split_def [symmetric])
  have get: "pref_get m name W = (case map_of ?its name of Some v \<Rightarrow> Some v | None \<Rightarrow> pref_get m' name W)" for name
    by (cases "manager_record m name W"; cases "Option.bind (manager_record m name W) currentValue")
      (simp_all add: exportAsJson_map(1) [OF assms(4)] pref_get_def def record_get_def)
  have "pref_get m' name ?V \<noteq> None" if "name \<in> fst ` set ?its" for name
  proof -
    from that have "map_of ?its name \<noteq> None" by (simp add: map_of_eq_None_iff)
    then have "manager_record m name W \<noteq> None"
      by (cases "manager_record m name W") (simp_all add: exportAsJson_map(1) [OF assms(4)])
    then show ?thesis unfolding V by (auto simp: pref_get_def def)
  qed
  with import_items_get [of m' ?V ?its] exportAsJson_map(2) [OF assms(4)] assms(2)
  obtain W' where W': "import_items m' ?its ?V = Some W'"
      "\<And>i name. pref_get i name W' = (if i = m' \<and> map_of ?its name \<noteq> None then map_of ?its name else pref_get i name W)"
    unfolding V by auto
  have "pref_get m' name W' = pref_get m name W" for name
    using W'(2) [of m' name] get [of name] by (auto split: option.splits)
  with W' show ?thesis by (auto simp: importFromJson_def)
qed

definition unlike_managers :: pref_world where
  "unlike_managers = the (pref_run
     [NewManager (js ''/a''), NewManager (js ''/b''), Define 0 (js ''size'') (NumberValue 15) (Some 1),
      Define 0 (js ''map'') (ObjectValue 0 (js ''[]'')) None, Set 0 (js ''size'') (NumberValue 20) True,
      Define 1 (js ''size'') (NumberValue 15) None, Define 1 (js ''map'') (ObjectValue 0 (js ''[]'')) None] new_world)"

lemma export_import_witness:
  "\<exists>W'. importFromJson 1 (exportAsJson 0 unlike_managers) unlike_managers = Some W' \<and>
     pref_get 1 (js ''size'') W' = pref_get 0 (js ''size'') unlike_managers"
proof -
  have "0 < length (managers unlike_managers)" "1 < length (managers unlike_managers)"
    "distinct (map fst (prefRecords (managers unlike_managers ! 0)))"
    "prefRecords (managers unlike_managers ! 1) =
      map (apsnd (\<lambda>r. r\<lparr>currentValue := None, observers := []\<rparr>)) (prefRecords (managers unlike_managers ! 0))"
    by code_simp+
  from export_import [OF this(1,2) _ this(3,4)] show ?thesis by auto
qed

section \<open>Resetting\<close>

text \<open>
  \<open>resetAll\<close> returns, gives every preference of the manager its default value, leaves the preferences
  of other managers for the event to come, and removes from the storage the keys of this manager's
  preferences, and no others.
\<close>

theorem resetAll_defaults:
  assumes "m < length (managers W)"
  shows "\<exists>W'. pref_resetAll m W = Some W' \<and>
    (\<forall>name. pref_get m name W' = map_option defaultValue (manager_record m name W)) \<and>
    (\<forall>m' name. m' \<noteq> m \<longrightarrow> pref_get m' name W' = pref_get m' name W) \<and>
    (\<forall>k. map_of (stored W') k =
      (if k \<in> (\<lambda>name. pref_key m name W) ` fst ` set (prefRecords (managers W ! m)) then None else map_of (stored W) k))"
proof -
  let ?M = "managers W ! m"
  let ?V = "update_manager m (\<lambda>M. M\<lparr>prefRecords := map (apsnd (\<lambda>r. r\<lparr>currentValue := None\<rparr>)) (prefRecords M)\<rparr>) W"
  let ?ks = "map (\<lambda>(name, r). prefix ?M @ name) (prefRecords ?M)" let ?W = "storage_removeItems ?ks ?V"
  have rec: "manager_record m' name ?W =
      (if m' = m then map_option (\<lambda>r. r\<lparr>currentValue := None\<rparr>) (manager_record m name W) else manager_record m' name W)" for m' name
    using assms
    by (simp add: update_manager_def manager_record_def storage_removeItems_def storage_update_def add_task_def
        apsnd_def map_prod_def map_of_map comp_def split_def [symmetric])
  have each: "\<exists>W'. notify_each m names U = Some W'" if "\<forall>name \<in> set names. manager_record m name U \<noteq> None" for names U
    using that
  proof (induction names arbitrary: U)
    case (Cons name names)
    then obtain X where X: "notifyChange m name U = Some X" by (auto simp: notifyChange_def)
    have "managers X = managers U" using notifyChange_result [OF X] by simp
    with Cons.prems have "\<forall>name \<in> set names. manager_record m name X \<noteq> None" by (simp add: manager_record_def)
    from Cons.IH [OF this] X show ?case by simp
  qed simp
  let ?names = "map fst (filter (\<lambda>(name, r). currentValue r \<noteq> None) (prefRecords ?M))"
  have "\<forall>name \<in> set ?names. manager_record m name ?W \<noteq> None"
    unfolding rec by (auto simp: manager_record_def map_of_eq_None_iff rev_image_eqI)
  from each [OF this] obtain W' where W': "notify_each m ?names ?W = Some W'" by blast
  have same: "managers W' = managers ?W" "stored W' = stored ?W"
    using notify_each_result [OF W'] by (simp_all add: frame_def)
  have "map_of (stored W') = (\<lambda>k. if k \<in> set ?ks then None else map_of (stored W) k)"
    unfolding same(2) by (simp add: storage_removeItems_def storage_update_def add_task_def memory_remove_map update_manager_def)
  moreover have "set ?ks = (\<lambda>name. pref_key m name W) ` fst ` set (prefRecords ?M)"
    by (auto simp: pref_key_def rev_image_eqI)
  moreover have "manager_record m' name W' = manager_record m' name ?W" for m' name
    by (simp only: manager_record_def same(1))
  ultimately show ?thesis using W'
    by (auto simp: pref_resetAll_def Let_def pref_get_def rec record_get_def option.map_comp comp_def)
qed

lemma resetAll_defaults_witness:
  "\<exists>W'. pref_resetAll 0 unlike_managers = Some W' \<and> pref_get 0 (js ''size'') W' = Some (NumberValue 15) \<and>
     map_of (stored W') (js ''/a/size'') = None"
proof -
  have a: "0 < length (managers unlike_managers)"
    and b: "map_option defaultValue (manager_record 0 (js ''size'') unlike_managers) = Some (NumberValue 15)"
    "js ''/a/size'' \<in> set (map (\<lambda>name. pref_key 0 name unlike_managers) (map fst (prefRecords (managers unlike_managers ! 0))))"
    by code_simp+
  from resetAll_defaults [OF a] b show ?thesis by (metis list.set_map)
qed

section \<open>The order of events\<close>

text \<open>
  A manager with a number as a preference, whose value \<open>i\<close> is stored; it reads the storage, \<open>k\<close> turns of the
  event loop pass, the preference is set to \<open>j\<close>, and four more turns pass.
\<close>

definition read_then_set :: "jsstring \<Rightarrow> jsstring \<Rightarrow> int \<Rightarrow> int \<Rightarrow> int \<Rightarrow> nat \<Rightarrow> pref_op list" where
  "read_then_set pre name d i j k =
     [NewManager pre, Define 0 name (NumberValue d) None, Set 0 name (NumberValue i) True, Turn, Turn, ReadStorage 0] @
     replicate k Turn @ [Set 0 name (NumberValue j) True, Turn, Turn, Turn, Turn]"

lemma pref_run_append: "pref_run (as @ bs) W = Option.bind (pref_run as W) (pref_run bs)"
proof (induction as arbitrary: W)
  case (Cons a as)
  then show ?case by (cases "pref_step a W") simp_all
qed simp

lemma turns_idle: "pref_tasks W = [] \<Longrightarrow> pref_run (replicate k Turn) W = Some W"
  by (induction k) simp_all

lemmas pref_run_defs = new_world_def new_manager_def definePreference_def manager_record_def pref_get_def
  put_record_def update_manager_def pref_set_def pref_diff_def js_typeof_def record_get_def Let_def pref_key_def
  storage_setItem_def storage_update_def memory_set_def add_task_def generateStorageChanges_def changed_item_def
  deleted_item_def copy_value_def run_task_def take_change_def notifyChange_def readStorage_def memory_get_def
  List.map_filter_def

text \<open>
  C33. Setting a preference while the storage is being read, with numbers as values, \<open>i\<close> the old one, \<open>j\<close> the new
  one, neither the default. The value \<open>j\<close> is stored, whenever it is set. If it is set in the same turn of the event loop in which the reading began, the items, asked for
  before, arrive after its event and put the old value \<open>i\<close> back: in the end, with nothing left
  to happen, the preference is \<open>i\<close> although \<open>j\<close> is stored. If it is set any number of turns later, before or after
  the items arrive, the event of the storage comes last and the preference ends as \<open>j\<close>.
\<close>

theorem read_race:
  assumes "\<not> inherited_name name" "i \<noteq> d" "j \<noteq> d" "i \<noteq> j"
  shows "\<exists>W. pref_run (read_then_set pre name d i j k) new_world = Some W \<and> pref_tasks W = [] \<and>
    map_of (stored W) (pref_key 0 name W) = Some (NumberValue j) \<and>
    pref_get 0 name W = Some (NumberValue (if k = 0 then i else j))"
proof -
  consider "k = 0" | "k = 1" | n where "k = Suc (Suc n)" by (metis One_nat_def not0_implies_Suc)
  then show ?thesis
    using assms by cases (simp_all add: read_then_set_def pref_run_defs pref_run_append turns_idle)
qed

lemma read_race_witness:
  "\<exists>V W. pref_run (read_then_set (js ''/p'') (js ''size'') 15 20 21 0) new_world = Some V \<and>
     pref_get 0 (js ''size'') V = Some (NumberValue 20) \<and>
     pref_run (read_then_set (js ''/p'') (js ''size'') 15 20 21 1) new_world = Some W \<and>
     pref_get 0 (js ''size'') W = Some (NumberValue 21)"
proof -
  have "\<not> inherited_name (js ''size'')" by code_simp
  note race = read_race [OF this, of 20 15 21 "js ''/p''"]
  obtain V where "pref_run (read_then_set (js ''/p'') (js ''size'') 15 20 21 0) new_world = Some V"
      "pref_get 0 (js ''size'') V = Some (NumberValue 20)" using race [of 0] by auto
  moreover obtain W where "pref_run (read_then_set (js ''/p'') (js ''size'') 15 20 21 1) new_world = Some W"
      "pref_get 0 (js ''size'') W = Some (NumberValue 21)" using race [of 1] by auto
  ultimately show ?thesis by blast
qed

definition set_and_turn :: "pref_value \<Rightarrow> pref_value \<Rightarrow> pref_op list" where
  "set_and_turn d v =
     [NewManager (js ''/p''), Define 0 (js ''map'') d (Some 7), Set 0 (js ''map'') v True, Turn, Turn]"

text \<open>
  A list or object that is set is notified twice to the observers of this very manager, for the event of the
  storage is one more difference: once by the event, with the stored copy as the new value, and once by
  the notification that \<open>set\<close> puts off. A number is notified once.
\<close>

theorem objects_notified_twice:
  "(\<exists>W. pref_run (set_and_turn (ObjectValue a s) (ObjectValue b t)) new_world = Some W \<and> pref_tasks W = [] \<and>
     observer_calls W = replicate 2 (RecordCall 7 (ObjectValue 0 t) (js ''map'') 0)) \<and>
   (\<exists>W. pref_run (set_and_turn (NumberValue i) (NumberValue (i + 1))) new_world = Some W \<and> pref_tasks W = [] \<and>
     observer_calls W = [RecordCall 7 (NumberValue (i + 1)) (js ''map'') 0])"
  by (simp add: set_and_turn_def new_world_def new_manager_def definePreference_def manager_record_def pref_get_def
      put_record_def update_manager_def pref_set_def pref_diff_def js_typeof_def record_get_def Let_def pref_key_def
      storage_setItem_def storage_update_def memory_set_def add_task_def generateStorageChanges_def changed_item_def
      deleted_item_def copy_value_def run_task_def take_change_def notifyChange_def add_record_observer_def
      List.map_filter_def inherited_name_def object_members_def numeral_2_eq_2)

end
