(* ===== verification/DefaultPreferences.thy ===== *)
theory DefaultPreferences
  imports Preferences
begin

text \<open>
  \<open>hterm.PreferenceManager\<close> (hterm_all-1.91.js): the preferences of a terminal as they are declared, in
  their order, each with its title, category, default value, type, and the lines of its help.
\<close>

section \<open>Declarations\<close>

text \<open>A type is a name, or the values to choose from.\<close>

datatype pref_category =
    KeyboardCategory | AppearanceCategory | CopyPasteCategory | SoundsCategory | ScrollingCategory
  | EncodingCategory | ExtensionsCategory | MiscellaneousCategory

datatype pref_type = Named string | Choice "pref_value list"

record preference =
  pref_name :: string
  pref_category :: pref_category
  pref_default :: pref_value
  pref_type :: pref_type
  pref_help :: "string list"

definition categoryDefinitions :: "(pref_category \<times> string) list" where
  "categoryDefinitions =
    [(AppearanceCategory, ''Appearance (fonts, colors, images)''), (CopyPasteCategory, ''Copy & Paste''),
     (EncodingCategory, ''Encoding''), (KeyboardCategory, ''Keyboard''), (ScrollingCategory, ''Scrolling''),
     (SoundsCategory, ''Sounds''), (ExtensionsCategory, ''Extensions''), (MiscellaneousCategory, ''Miscellaneous'')]"

definition definePref :: "string \<Rightarrow> pref_category \<Rightarrow> pref_value \<Rightarrow> pref_type \<Rightarrow> string list \<Rightarrow> preference" where
  "definePref name category v type help =
     \<lparr>pref_name = name, pref_category = category, pref_default = v, pref_type = type, pref_help = help\<rparr>"

definition default_preferences_1 :: "(jsstring \<times> preference) list" where
  "default_preferences_1 = [
    (js ''alt-gr-mode'', definePref ''AltGr key mode'' KeyboardCategory
       NullValue
       (Choice [NullValue, StringValue (js ''none''), StringValue (js ''ctrl-alt''),
         StringValue (js ''left-alt''), StringValue (js ''right-alt'')])
       [''Select an AltGr detection heuristic.'',
        [],
        '''null': Autodetect based on navigator.language:'',
        ''      'en-us' => 'none', else => 'right-alt'' @ [CHR 0x27],
        '''none': Disable any AltGr emulation.'',
        '''ctrl-alt': Assume Ctrl+Alt means AltGr.'',
        '''left-alt': Assume left Alt means AltGr.'',
        '''right-alt': Assume right Alt means AltGr.'']),
    (js ''alt-backspace-is-meta-backspace'', definePref ''Alt+Backspace is Meta+Backspace'' KeyboardCategory
       (BoolValue False)
       (Named ''bool'')
       [''If set, undoes the Chrome OS Alt+Backspace->Delete remap, so that Alt+Backspace indeed '' @
          ''is Alt+Backspace.'']),
    (js ''alt-is-meta'', definePref ''Treat Alt key as Meta key'' KeyboardCategory
       (BoolValue False)
       (Named ''bool'')
       [''Whether the Alt key acts as a Meta key or as a distinct Alt key.'']),
    (js ''alt-sends-what'', definePref ''Alt key modifier handling'' KeyboardCategory
       (StringValue (js ''escape''))
       (Choice [StringValue (js ''escape''), StringValue (js ''8-bit''), StringValue (js ''browser-key'')])
       [''Controls how the Alt key is handled.'',
        [],
        ''  escape: Send an ESC prefix.'',
        ''  8-bit: Add 128 to the typed character as in xterm.'',
        ''  browser-key: Wait for the keypress event and see what the browser'',
        ''    says. (This won't work well on platforms where the browser'',
        ''    performs a default action for some Alt sequences.)'']),
    (js ''audible-bell-sound'', definePref ''Alert bell sound (URI)'' SoundsCategory
       (StringValue (js ''lib-resource:hterm/audio/bell''))
       (Named ''url'')
       [''URL of the terminal bell sound. Leave it blank for no audible bell.'']),
    (js ''desktop-notification-bell'', definePref ''Create desktop notifications for alert bells'' SoundsCategory
       (BoolValue False)
       (Named ''bool'')
       [''If true, terminal bells in the background will create a Web Notification. https://www.w3.org/TR/notifications/'',
        [],
        ''Displaying notifications requires permission from the user. When this option is set to '' @
          ''true, hterm will attempt to ask the user for permission if necessary. Browsers might '' @
          ''not show this permission request if it was not triggered by a user action.'',
        [],
        ''Chrome extensions with the '' @ [CHR 0x22] @ ''notifications'' @ [CHR 0x22] @
          '' permission have permission to display notifications.'']),
    (js ''background-color'', definePref ''Background color'' AppearanceCategory
       (StringValue (js ''rgb(16, 16, 16)''))
       (Named ''color'')
       [''The background color for text with no other color attributes.'']),
    (js ''background-image'', definePref ''Background image'' AppearanceCategory
       (StringValue [])
       (Named ''string'')
       [''CSS value of the background image. Leave it blank for no image.'',
        [],
        ''For example:'',
        ''  url(https://goo.gl/anedTK)'',
        ''  linear-gradient(top bottom, blue, red)'']),
    (js ''background-size'', definePref ''Background image size'' AppearanceCategory
       (StringValue [])
       (Named ''string'')
       [''CSS value of the background image size.'']),
    (js ''background-position'', definePref ''Background image position'' AppearanceCategory
       (StringValue [])
       (Named ''string'')
       [''CSS value of the background image position.'',
        [],
        ''For example:'',
        ''  10% 10%'',
        ''  center'']),
    (js ''backspace-sends-backspace'', definePref ''Backspace key behavior'' KeyboardCategory
       (BoolValue False)
       (Named ''bool'')
       [''If true, the Backspace key will send BS ('' @ [CHR 0x27] @ [CHR 0x5C] @
          ''x08', aka ^H). Otherwise the Backspace key will send '' @ [CHR 0x27] @ [CHR 0x5C] @ ''x7f'.'']),
    (js ''character-map-overrides'', definePref ''Character map overrides'' AppearanceCategory
       NullValue
       (Named ''value'')
       [''This is specified as an object. It is a sparse array, where each property is the character '' @
          ''set code and the value is an object that is a sparse array itself. In that sparse array, '' @
          ''each property is the received character and the value is the displayed character.'',
        [],
        ''For example:'',
        ''{ '' @ [CHR 0x22] @ ''0'' @ [CHR 0x22] @ '': {'',
        ''  '' @ [CHR 0x22] @ ''+'' @ [CHR 0x22] @ '': '' @ [CHR 0x22] @ [CHR 0x5C] @ ''u2192'' @ [CHR 0x22] @ '','',
        ''  '' @ [CHR 0x22] @ '','' @ [CHR 0x22] @ '': '' @ [CHR 0x22] @ [CHR 0x5C] @ ''u2190'' @ [CHR 0x22] @ '','',
        ''  '' @ [CHR 0x22] @ ''-'' @ [CHR 0x22] @ '': '' @ [CHR 0x22] @ [CHR 0x5C] @ ''u2191'' @ [CHR 0x22] @ '','',
        ''  '' @ [CHR 0x22] @ ''.'' @ [CHR 0x22] @ '': '' @ [CHR 0x22] @ [CHR 0x5C] @ ''u2193'' @ [CHR 0x22] @ '','',
        ''  '' @ [CHR 0x22] @ ''0'' @ [CHR 0x22] @ '': '' @ [CHR 0x22] @ [CHR 0x5C] @ ''u2588'' @ [CHR 0x22],
        ''} }'']),
    (js ''close-on-exit'', definePref ''Close window on exit'' MiscellaneousCategory
       (BoolValue True)
       (Named ''bool'')
       [''Whether to close the window when the command finishes executing.'']),
    (js ''cursor-blink'', definePref ''Cursor blink'' AppearanceCategory
       (BoolValue False)
       (Named ''bool'')
       [''Whether the text cursor blinks by default. This can be toggled at runtime via terminal '' @
          ''escape sequences.''])]"

definition default_preferences_2 :: "(jsstring \<times> preference) list" where
  "default_preferences_2 = [
    (js ''cursor-blink-cycle'', definePref ''Cursor blink rate'' AppearanceCategory
       (ObjectValue 0 (js ''[1000,500]''))
       (Named ''value'')
       [''The text cursor blink rate in milliseconds.'',
        [],
        ''A two element array, the first of which is how long the text cursor should be on, second '' @
          ''is how long it should be off.'']),
    (js ''cursor-shape'', definePref ''Text cursor shape'' AppearanceCategory
       (StringValue (js ''BLOCK''))
       (Choice [StringValue (js ''BLOCK''), StringValue (js ''BEAM''), StringValue (js ''UNDERLINE'')])
       [''The shape of the visible text cursor. This can be changed at runtime via terminal escape '' @ ''sequences.'']),
    (js ''cursor-color'', definePref ''Text cursor color'' AppearanceCategory
       (StringValue (js ''rgba(255, 0, 0, 0.5)''))
       (Named ''color'')
       [''The color of the visible text cursor.'']),
    (js ''color-palette-overrides'', definePref ''Initial color palette'' AppearanceCategory
       NullValue
       (Named ''value'')
       [''Override colors in the default palette.'',
        [],
        ''This can be specified as an array or an object. If specified as an object it is assumed '' @
          ''to be a sparse array, where each property is a numeric index into the color palette.'',
        [],
        ''Values can be specified as almost any CSS color value. This includes #RGB, #RRGGBB, rgb(...), '' @
          ''rgba(...), and any color names that are also part of the standard X11 rgb.txt file.'',
        [],
        ''You can use 'null' to specify that the default value should be not be changed. This is '' @
          ''useful for skipping a small number of indices when the value is specified as an array.'',
        [],
        ''For example, these both set color index 1 to blue:'',
        ''  {1: '' @ [CHR 0x22] @ ''#0000ff'' @ [CHR 0x22] @ ''}'',
        ''  [null, '' @ [CHR 0x22] @ ''#0000ff'' @ [CHR 0x22] @ '']'']),
    (js ''copy-on-select'', definePref ''Automatically copy selected content'' CopyPasteCategory
       (BoolValue True)
       (Named ''bool'')
       [''Automatically copy mouse selection to the clipboard.'']),
    (js ''use-default-window-copy'', definePref ''Let the browser handle text copying'' CopyPasteCategory
       (BoolValue False)
       (Named ''bool'')
       [''Whether to use the default browser/OS's copy behavior.'',
        [],
        ''Allow the browser/OS to handle the copy event directly which might improve compatibility '' @
          ''with some systems (where copying doesn't work at all), but makes the text selection less '' @
          ''robust.'',
        [],
        ''For example, long lines that were automatically line wrapped will be copied with the '' @
          ''newlines still in them.'']),
    (js ''clear-selection-after-copy'', definePref ''Automatically clear text selection'' CopyPasteCategory
       (BoolValue True)
       (Named ''bool'')
       [''Whether to clear the selection after copying.'']),
    (js ''ctrl-plus-minus-zero-zoom'', definePref ''Ctrl++/-/0 zoom behavior'' KeyboardCategory
       (BoolValue True)
       (Named ''bool'')
       [''If true, Ctrl+Plus/Minus/Zero controls zoom.'',
        ''If false, Ctrl+Shift+Plus/Minus/Zero controls zoom, Ctrl+Minus sends ^_, Ctrl+Plus/Zero '' @ ''do nothing.'']),
    (js ''ctrl-c-copy'', definePref ''Ctrl+C copy behavior'' KeyboardCategory
       (BoolValue False)
       (Named ''bool'')
       [''Ctrl+C copies if true, send ^C to host if false.'',
        ''Ctrl+Shift+C sends ^C to host if true, copies if false.'']),
    (js ''ctrl-v-paste'', definePref ''Ctrl+V paste behavior'' KeyboardCategory
       (BoolValue False)
       (Named ''bool'')
       [''Ctrl+V pastes if true, send ^V to host if false.'',
        ''Ctrl+Shift+V sends ^V to host if true, pastes if false.'']),
    (js ''east-asian-ambiguous-as-two-column'', definePref ''East Asian Ambiguous use two columns'' KeyboardCategory
       (BoolValue False)
       (Named ''bool'')
       [''Whether East Asian Ambiguous characters have two column width.'']),
    (js ''enable-8-bit-control'', definePref ''Support non-UTF-8 C1 control characters'' KeyboardCategory
       (BoolValue False)
       (Named ''bool'')
       [''True to enable 8-bit control characters, false to ignore them.'',
        [],
        ''We'll respect the two-byte versions of these control characters regardless of this setting.'']),
    (js ''enable-bold'', definePref ''Bold text behavior'' AppearanceCategory
       NullValue
       (Named ''tristate'')
       [''If true, use bold weight font for text with the bold/bright attribute. False to use the '' @
          ''normal weight font. Null to autodetect.'']),
    (js ''enable-bold-as-bright'', definePref ''Use bright colors with bold text'' AppearanceCategory
       (BoolValue True)
       (Named ''bool'')
       [''If true, use bright colors (8-15 on a 16 color palette) for any text with the bold attribute. '' @
          ''False otherwise.'']),
    (js ''enable-blink'', definePref ''Enable blinking text'' AppearanceCategory
       (BoolValue True)
       (Named ''bool'')
       [''If true, respect the blink attribute. False to ignore it.''])]"

definition default_preferences_3 :: "(jsstring \<times> preference) list" where
  "default_preferences_3 = [
    (js ''enable-clipboard-notice'', definePref ''Show notification when copying content'' CopyPasteCategory
       (BoolValue True)
       (Named ''bool'')
       [''Whether to show a message in the terminal when the host writes to the clipboard.'']),
    (js ''enable-clipboard-write'', definePref ''Allow remote clipboard writes'' CopyPasteCategory
       (BoolValue True)
       (Named ''bool'')
       [''Allow the remote host to write directly to the local system clipboard.'',
        ''Read access is never granted regardless of this setting.'',
        [],
        ''This is used to control access to features like OSC-52.'']),
    (js ''enable-dec12'', definePref ''Allow changing of text cursor blinking'' MiscellaneousCategory
       (BoolValue False)
       (Named ''bool'')
       [''Respect the host's attempt to change the text cursor blink status using DEC Private Mode '' @ ''12.'']),
    (js ''enable-csi-j-3'', definePref ''Allow clearing of scrollback buffer (CSI-J-3)'' MiscellaneousCategory
       (BoolValue True)
       (Named ''bool'')
       [''Whether the Erase Saved Lines function (mode 3) of the Erase Display command (CSI-J) '' @
          ''may clear the terminal scrollback buffer.'',
        [],
        ''Enabling this by default is safe.'']),
    (js ''environment'', definePref ''Environment variables'' MiscellaneousCategory
       (ObjectValue 1 (js ''{'' @ [34] @ js ''NCURSES_NO_UTF8_ACS'' @ [34] @ js '':'' @ [34] @ js ''1'' @ [34] @
         js '','' @ [34] @ js ''TERM'' @ [34] @ js '':'' @ [34] @ js ''xterm-256color'' @ [34] @ js '','' @
         [34] @ js ''COLORTERM'' @ [34] @ js '':'' @ [34] @ js ''truecolor'' @ [34] @ js ''}''))
       (Named ''value'')
       [''The initial set of environment variables, as an object.'']),
    (js ''find-result-color'', definePref ''Find results highlight color'' AppearanceCategory
       (StringValue (js ''rgba(102, 204, 255, 0.4)''))
       (Named ''color'')
       [''The background color to highlight find results.'']),
    (js ''find-result-selected-color'', definePref ''Find results selected highlight color'' AppearanceCategory
       (StringValue (js ''rgba(102, 204, 255, 0.8)''))
       (Named ''color'')
       [''The background color to highlight the selected find result.'']),
    (js ''font-family'', definePref ''Text font family'' AppearanceCategory
       (StringValue ([34] @ js ''DejaVu Sans Mono'' @ [34] @ js '', '' @ [34] @ js ''Noto Sans Mono'' @ [34] @
         js '', '' @ [34] @ js ''Everson Mono'' @ [34] @ js '', FreeMono, Menlo, Terminal, monospace''))
       (Named ''string'')
       [''Default font family for the terminal text.'']),
    (js ''font-size'', definePref ''Text font size'' AppearanceCategory
       (NumberValue 15)
       (Named ''int'')
       [''The default font size in pixels.'']),
    (js ''font-smoothing'', definePref ''Text font smoothing'' AppearanceCategory
       (StringValue (js ''antialiased''))
       (Named ''string'')
       [''CSS font-smoothing property.'']),
    (js ''line-height-padding-size'', definePref ''Line height padding size'' AppearanceCategory
       (NumberValue 0)
       (Named ''int'')
       [''The padding size in pixels between each row of the terminal screen.'']),
    (js ''foreground-color'', definePref ''Text color'' AppearanceCategory
       (StringValue (js ''rgb(240, 240, 240)''))
       (Named ''color'')
       [''The foreground color for text with no other color attributes.'']),
    (js ''enable-resize-status'', definePref ''Show terminal dimensions when resized'' AppearanceCategory
       (BoolValue False)
       (Named ''bool'')
       [''Whether to show terminal dimensions when the terminal changes size.'']),
    (js ''hide-mouse-while-typing'', definePref ''Hide mouse cursor while typing'' KeyboardCategory
       NullValue
       (Named ''tristate'')
       [''Whether to automatically hide the mouse cursor when typing. By default, autodetect whether '' @
          ''the platform/OS handles this.'',
        [],
        ''Note: Your operating system might override this setting and thus you might not be able '' @
          ''to always disable it.'']),
    (js ''home-keys-scroll'', definePref ''Home/End key scroll behavior'' KeyboardCategory
       (BoolValue False)
       (Named ''bool'')
       [''If true, Home/End controls the terminal scrollbar and Shift+Home/Shift+End are sent to '' @
          ''the remote host. If false, then Home/End are sent to the remote host and Shift+Home/Shift+End '' @
          ''scrolls.''])]"

definition default_preferences_4 :: "(jsstring \<times> preference) list" where
  "default_preferences_4 = [
    (js ''keybindings'', definePref ''Keyboard bindings/shortcuts'' KeyboardCategory
       NullValue
       (Named ''value'')
       [''A map of key sequence to key actions. Key sequences include zero or more modifier keys '' @
          ''followed by a key code. Key codes can be decimal or hexadecimal numbers, or a key identifier. '' @
          ''Key actions can be specified as a string to send to the host, or an action identifier. '' @
          ''For a full explanation of the format, see https://goo.gl/LWRndr.'',
        [],
        ''Sample keybindings:'',
        ''{'',
        ''  '' @ [CHR 0x22] @ ''Ctrl+Alt+K'' @ [CHR 0x22] @ '': '' @ [CHR 0x22] @ ''clearTerminal'' @ [CHR 0x22] @
          '','',
        ''  '' @ [CHR 0x22] @ ''Ctrl+Shift+L'' @ [CHR 0x22] @ '': '' @ [CHR 0x22] @ ''PASS'' @ [CHR 0x22] @ '','',
        ''  '' @ [CHR 0x22] @ ''Ctrl+H'' @ [CHR 0x22] @ '': '' @ [CHR 0x22] @ '''Hello World'' @ [CHR 0x27] @
          [CHR 0x22],
        ''}'']),
    (js ''keybindings-os-defaults'', definePref ''Use default OS Keyboard bindings/shortcuts'' KeyboardCategory
       (BoolValue False)
       (Named ''bool'')
       [''Whether common OS keyboard bindings should be respected instead of always capturing for '' @
          ''hterm's own use.'']),
    (js ''media-keys-are-fkeys'', definePref ''Media keys are Fkeys'' KeyboardCategory
       (BoolValue False)
       (Named ''bool'')
       [''If true, convert media keys to their Fkey equivalent. If false, let the browser handle '' @ ''the keys.'']),
    (js ''meta-sends-escape'', definePref ''Meta key modifier handling'' KeyboardCategory
       (BoolValue True)
       (Named ''bool'')
       [''Send an ESC prefix when pressing a key while holding the Meta key.'',
        [],
        ''For example, when enabled, pressing Meta+K will send ^[k as if you typed Escape then '' @
          ''k. When disabled, only k will be sent.'']),
    (js ''mouse-right-click-paste'', definePref ''Mouse right clicks paste content'' CopyPasteCategory
       (BoolValue True)
       (Named ''bool'')
       [''Paste on right mouse button clicks.'',
        [],
        ''This option is independent of the '' @ [CHR 0x22] @ ''mouse-paste-button'' @ [CHR 0x22] @ '' setting.'',
        [],
        ''Note: The primary & secondary buttons are handled for you with left & right handed mice.'']),
    (js ''mouse-paste-button'', definePref ''Mouse button paste'' CopyPasteCategory
       NullValue
       (Choice [NullValue, NumberValue 0, NumberValue 1, NumberValue 2, NumberValue 3, NumberValue 4,
         NumberValue 5, NumberValue 6])
       [''The mouse button to use for pasting.'',
        [],
        ''For autodetect, we'll use the middle mouse button for non-X11 platforms (including Chrome '' @
          ''OS). On X11, we'll use the right mouse button (since the window manager should handle '' @
          ''pasting via the middle mouse button).'',
        [],
        ''0 == left (primary) button.'',
        ''1 == middle (auxiliary) button.'',
        ''2 == right (secondary) button.'',
        [],
        ''This option is independent of the setting for right-click paste.'',
        [],
        ''Note: The primary & secondary buttons are handled for you with left & right handed mice.'']),
    (js ''screen-padding-size'', definePref ''Screen padding size'' AppearanceCategory
       (NumberValue 8)
       (Named ''int'')
       [''The padding size in pixels around the border of the terminal screen.'',
        [],
        ''This controls the size of the border around the terminal screen so the user can add some '' @
          ''visible padding to the edges of the screen.'']),
    (js ''screen-border-size'', definePref ''Screen border size'' AppearanceCategory
       (NumberValue 0)
       (Named ''int'')
       [''The border size in pixels around the terminal screen.'',
        [],
        ''This controls the size of the border around the terminal screen to create a visible line '' @
          ''at the edges of the screen.'']),
    (js ''screen-border-color'', definePref ''Screen border color'' AppearanceCategory
       (StringValue (js ''rgb(128, 128, 128)''))
       (Named ''color'')
       [''The color for the border around the terminal screen.'',
        [],
        ''This controls the color of the border around the terminal screen to create a visible '' @
          ''line at the edges of the screen.'']),
    (js ''word-break-match-left'', definePref ''Automatic selection halting (to the left)'' CopyPasteCategory
       (StringValue (js ''[^'' @ [92] @ js ''s['' @ [92] @ js ''](){}<>'' @ [34] @ js '''^!@#$%&*,;:`'' @ [8216] @
         [8220] @ [8249] @ [171] @ js '']''))
       (Named ''string'')
       [''Regular expression to halt matching to the left (start) of a selection.'',
        [],
        ''Normally this is a character class to reject specific characters.'',
        ''We allow '' @ [CHR 0x22] @ ''~'' @ [CHR 0x22] @ '' and '' @ [CHR 0x22] @ ''.'' @ [CHR 0x22] @
          '' by default as paths frequently start with those.'']),
    (js ''word-break-match-right'', definePref ''Automatic selection halting (to the right)'' CopyPasteCategory
       (StringValue (js ''[^'' @ [92] @ js ''s['' @ [92] @ js ''](){}<>'' @ [34] @ js '''^!@#$%&*,;:~.`'' @ [8217] @
         [8221] @ [8250] @ [187] @ js '']''))
       (Named ''string'')
       [''Regular expression to halt matching to the right (end) of a selection.'',
        [],
        ''Normally this is a character class to reject specific characters.'']),
    (js ''word-break-match-middle'', definePref ''Word break characters'' CopyPasteCategory
       (StringValue (js ''[^'' @ [92] @ js ''s['' @ [92] @ js ''](){}<>'' @ [34] @ js '''^]*''))
       (Named ''string'')
       [''Regular expression to match all the characters in the middle.'',
        [],
        ''Normally this is a character class to reject specific characters.'',
        [],
        ''Used to expand the selection surrounding the starting point.''])]"

definition default_preferences_5 :: "(jsstring \<times> preference) list" where
  "default_preferences_5 = [
    (js ''page-keys-scroll'', definePref ''Page Up/Down key scroll behavior'' KeyboardCategory
       (BoolValue False)
       (Named ''bool'')
       [''If true, Page Up/Page Down controls the terminal scrollbar and Shift+Page Up/Shift+Page '' @
          ''Down are sent to the remote host. If false, then Page Up/Page Down are sent to the remote '' @
          ''host and Shift+Page Up/Shift+Page Down scrolls.'']),
    (js ''pass-alt-number'', definePref ''Alt+1..9 switch tab/app behavior'' KeyboardCategory
       NullValue
       (Named ''tristate'')
       [''Whether Alt+1..9 is passed to the browser.'',
        [],
        ''This is handy when running hterm in a browser tab, so that you don't lose Chrome's '' @ [CHR 0x22] @
          ''switch to tab/app'' @ [CHR 0x22] @
          '' keyboard shortcuts. When not running in a tab it's better to send these keys to the '' @
          ''host so they can be used in vim or emacs.'',
        [],
        ''If true, Alt+1..9 will be handled by the browser. If false, Alt+1..9 will be sent to '' @
          ''the host. If null, autodetect based on browser platform and window type.'']),
    (js ''pass-ctrl-number'', definePref ''Ctrl+1..9 switch tab behavior'' KeyboardCategory
       NullValue
       (Named ''tristate'')
       [''Whether Ctrl+1..9 is passed to the browser.'',
        [],
        ''This is handy when running hterm in a browser tab, so that you don't lose Chrome's '' @ [CHR 0x22] @
          ''switch to tab'' @ [CHR 0x22] @
          '' keyboard shortcuts. When not running in a tab it's better to send these keys to the '' @
          ''host so they can be used in vim or emacs.'',
        [],
        ''If true, Ctrl+1..9 will be handled by the browser. If false, Ctrl+1..9 will be sent to '' @
          ''the host. If null, autodetect based on browser platform and window type.'']),
    (js ''pass-ctrl-n'', definePref ''Ctrl+N new window behavior'' KeyboardCategory
       (BoolValue False)
       (Named ''bool'')
       [''Whether Ctrl+N is passed to the browser.'',
        [],
        ''If true, Ctrl+N will be handled by the browser as the '' @ [CHR 0x22] @ ''new window'' @ [CHR 0x22] @
          '' keyboard shortcut. If false, Ctrl+N will be sent to the host.'']),
    (js ''pass-ctrl-t'', definePref ''Ctrl+T new tab behavior'' KeyboardCategory
       (BoolValue False)
       (Named ''bool'')
       [''Whether Ctrl+T is passed to the browser.'',
        [],
        ''If true, Ctrl+T will be handled by the browser as the '' @ [CHR 0x22] @ ''new tab'' @ [CHR 0x22] @
          '' keyboard shortcut. If false, Ctrl+T will be sent to the host.'']),
    (js ''pass-ctrl-tab'', definePref ''Ctrl+Tab switch tab behavior'' KeyboardCategory
       (BoolValue False)
       (Named ''bool'')
       [''Whether Ctrl+Tab and Ctrl+Shift+Tab are passed to the browser.'',
        [],
        ''If true, Ctrl+Tab and Ctrl+Shift+Tab will be handled by the browser as the '' @ [CHR 0x22] @
          ''next/previous tab'' @ [CHR 0x22] @
          '' keyboard shortcut. If false, the Tab key is sent to the host without Ctrl or Shift.'']),
    (js ''pass-ctrl-w'', definePref ''Ctrl+W close tab behavior'' KeyboardCategory
       (BoolValue False)
       (Named ''bool'')
       [''Whether Ctrl+W is passed to the browser.'',
        [],
        ''If true, Ctrl+W will be handled by the browser as the '' @ [CHR 0x22] @ ''close tab'' @ [CHR 0x22] @
          '' keyboard shortcut. If false, Ctrl+W will be sent to the host.'']),
    (js ''pass-meta-number'', definePref ''Meta+1..9 switch tab behavior'' KeyboardCategory
       NullValue
       (Named ''tristate'')
       [''Whether Meta+1..9 is passed to the browser.'',
        [],
        ''This is handy when running hterm in a browser tab, so that you don't lose Chrome's '' @ [CHR 0x22] @
          ''switch to tab'' @ [CHR 0x22] @
          '' keyboard shortcuts. When not running in a tab it's better to send these keys to the '' @
          ''host so they can be used in vim or emacs.'',
        [],
        ''If true, Meta+1..9 will be handled by the browser. If false, Meta+1..9 will be sent to '' @
          ''the host. If null, autodetect based on browser platform and window type.'']),
    (js ''pass-meta-v'', definePref ''Meta+V paste behavior'' KeyboardCategory
       (BoolValue True)
       (Named ''bool'')
       [''Whether Meta+V gets passed to the browser.'',
        [],
        ''On some systems, this is used to paste content.'']),
    (js ''paste-on-drop'', definePref ''Allow drag & drop to paste'' CopyPasteCategory
       (BoolValue True)
       (Named ''bool'')
       [''If true, Drag and dropped text will paste into terminal.'',
        ''If false, dropped text will be ignored.'']),
    (js ''scroll-on-keystroke'', definePref ''Scroll to bottom after keystroke'' ScrollingCategory
       (BoolValue True)
       (Named ''bool'')
       [''Whether to scroll to the bottom on any keystroke.'']),
    (js ''scroll-on-output'', definePref ''Scroll to bottom after new output'' ScrollingCategory
       (BoolValue False)
       (Named ''bool'')
       [''Whether to scroll to the bottom on terminal output.'']),
    (js ''scrollbar-visible'', definePref ''Scrollbar visibility'' ScrollingCategory
       (BoolValue True)
       (Named ''bool'')
       [''The vertical scrollbar mode.''])]"

definition default_preferences_6 :: "(jsstring \<times> preference) list" where
  "default_preferences_6 = [
    (js ''scroll-wheel-may-send-arrow-keys'', definePref ''Emulate arrow keys with scroll wheel'' ScrollingCategory
       (BoolValue False)
       (Named ''bool'')
       [''When using the alternative screen buffer, and DECCKM (Application Cursor Keys) is active, '' @
          ''mouse scroll wheel events will emulate arrow keys.'',
        [],
        ''It can be temporarily disabled by holding the Shift key.'',
        [],
        ''This frequently comes up when using pagers (less) or reading man pages or text editors '' @
          ''(vi/nano) or using screen/tmux.'']),
    (js ''scroll-wheel-move-multiplier'', definePref ''Mouse scroll wheel multiplier'' ScrollingCategory
       (NumberValue 1)
       (Named ''int'')
       [''The multiplier for mouse scroll wheel events when measured in pixels.'',
        [],
        ''Alters how fast the page scrolls.'']),
    (js ''terminal-encoding'', definePref ''Terminal encoding'' EncodingCategory
       (StringValue (js ''utf-8''))
       (Choice [StringValue (js ''iso-2022''), StringValue (js ''utf-8''), StringValue (js ''utf-8-locked'')])
       [''The default terminal encoding (DOCS).'',
        [],
        ''ISO-2022 enables character map translations (like graphics maps).'',
        ''UTF-8 disables support for those.'',
        [],
        ''The locked variant means the encoding cannot be changed at runtime via terminal escape '' @ ''sequences.'',
        [],
        ''You should stick with UTF-8 unless you notice broken rendering with legacy applications.'']),
    (js ''shift-insert-paste'', definePref ''Shift+Insert paste'' KeyboardCategory
       (BoolValue True)
       (Named ''bool'')
       [''Whether Shift+Insert is used for pasting or is sent to the remote host.'']),
    (js ''user-css'', definePref ''Custom CSS (URI)'' AppearanceCategory
       (StringValue [])
       (Named ''url'')
       [''URL of user stylesheet to include in the terminal document.'']),
    (js ''user-css-text'', definePref ''Custom CSS (inline text)'' AppearanceCategory
       (StringValue [])
       (Named ''multiline-string'')
       [''Custom CSS text for styling the terminal.'']),
    (js ''allow-images-inline'', definePref ''Allow inline image display'' ExtensionsCategory
       NullValue
       (Named ''tristate'')
       [''Whether to allow the remote host to display images in the terminal.'',
        [],
        ''By default, we prompt until a choice is made.''])]"

definition defaultPreferences :: "(jsstring \<times> preference) list" where
  "defaultPreferences = default_preferences_1 @ default_preferences_2 @ default_preferences_3 @
     default_preferences_4 @ default_preferences_5 @ default_preferences_6"

end
