(* ===== verification/Profile.thy ===== *)
theory Profile
  imports DefaultPreferences VtKeys
begin

text \<open>
  Profiles of preferences (hterm_all-1.91.js): \<open>hterm.Terminal.prototype.setProfile\<close> and what each
  preference sets, in the interpreter, the keyboard, the terminal and the scroll port.
\<close>

section \<open>State\<close>

text \<open>
  What the terminal asks the scroll port, the document and the cursor to do: only values are passed on. The rest of
  what preferences set is asked for truth where it is a switch, so that a value of another type is one;
  the three switches of keys that are compared with \<open>===\<close> are kept as they are.
\<close>

datatype ui_call =
    BackgroundImage pref_value | BackgroundSize pref_value | BackgroundPosition pref_value
  | CtrlVPaste pref_value | PasteOnDrop pref_value | TextBlink bool | FindResultColor pref_value
  | FindResultSelectedColor pref_value | FontFamily pref_value pref_value | CssCharsize | FontSize int
  | LineHeightPadding jsstring | ScreenPadding int | ScreenBorder int | ScreenBorderColor pref_value
  | ScrollbarVisible pref_value | ScrollWheelMultiplier pref_value | UserCss pref_value | UserCssText pref_value
  | CursorShape pref_value

record profile =
  profileId :: "jsstring option"
  prefs :: pref_world
  own_prefs :: "nat option"
  machine_of :: machine
  host_base :: host
  keys_of :: keyboard
  key_host_of :: key_host
  bell_source :: "jsstring option"
  desktopNotificationBell :: bool
  mouseHideWhileTyping :: bool
  copyOnSelect :: bool
  useDefaultWindowCopy :: bool
  mouseRightClickPaste :: bool
  mousePasteButton :: int
  cursorBlinkCycle :: "int list"
  wordBreakMatchLeft :: pref_value
  wordBreakMatchRight :: pref_value
  wordBreakMatchMiddle :: pref_value
  allowImagesInline :: pref_value
  ui_calls :: "ui_call list"
  reads :: "bool list"
  read_timeouts :: "bool list"
  ready :: bool
  callbacks :: nat

text \<open>
  The surroundings: the system and the window, \<open>navigator.language\<close> in lower case, the text, the members
  and the elements of an object by its JSON, \<open>parseFloat\<close> of a text as the text of the number, whether bold
  text is as wide as normal text, whether notifications are granted, and the resources by name.
  \<open>other_action\<close> is what the keyboard has for an action that is no text.
\<close>

record profile_env =
  os_name :: jsstring
  in_popup :: bool
  language :: jsstring
  object_text :: "jsstring \<Rightarrow> jsstring"
  object_members_of :: "jsstring \<Rightarrow> (jsstring \<times> pref_value) list"
  object_elements :: "jsstring \<Rightarrow> pref_value list option"
  parse_float :: "jsstring \<Rightarrow> jsstring option"
  bold_is_safe :: bool
  notifications_granted :: bool
  resource_url :: "jsstring \<Rightarrow> jsstring option"
  other_action :: "pref_value \<Rightarrow> key_action"

section \<open>Values\<close>

definition cut_prefix :: "jsstring \<Rightarrow> jsstring \<Rightarrow> jsstring option" where
  "cut_prefix p s = (if take (length p) s = p then Some (drop (length p) s) else None)"

definition truthy :: "pref_value \<Rightarrow> bool" where
  "truthy v =
     (case v of
        NullValue \<Rightarrow> False
      | BoolValue b \<Rightarrow> b
      | NumberValue n \<Rightarrow> n \<noteq> 0
      | StringValue s \<Rightarrow> s \<noteq> []
      | ObjectValue i t \<Rightarrow> True)"

definition value_text :: "profile_env \<Rightarrow> pref_value \<Rightarrow> jsstring" where
  "value_text E v =
     (case v of
        NullValue \<Rightarrow> js ''null''
      | BoolValue b \<Rightarrow> js (if b then ''true'' else ''false'')
      | NumberValue n \<Rightarrow> js_of_int n
      | StringValue s \<Rightarrow> s
      | ObjectValue i t \<Rightarrow> object_text E t)"

text \<open>\<open>parseInt(v, 10)\<close>\<close>

definition value_int :: "profile_env \<Rightarrow> pref_value \<Rightarrow> int option" where
  "value_int E v = (case v of NumberValue n \<Rightarrow> Some n | _ \<Rightarrow> parse_signed (value_text E v))"

definition value_members :: "profile_env \<Rightarrow> pref_value \<Rightarrow> (jsstring \<times> pref_value) list" where
  "value_members E v = (case v of ObjectValue i t \<Rightarrow> object_members_of E t | _ \<Rightarrow> [])"

text \<open>\<open>None\<close> is an exception: the preference is not known.\<close>

definition own_pref :: "jsstring \<Rightarrow> profile \<Rightarrow> pref_value option" where
  "own_pref name S = Option.bind (own_prefs S) (\<lambda>m. pref_get m name (prefs S))"

text \<open>
  The surroundings of the interpreter are those at the start and what preferences say: some are kept
  where they are set, the others are read when they are needed.
\<close>

definition string_pref :: "jsstring \<Rightarrow> profile \<Rightarrow> jsstring" where
  "string_pref name S = (case own_pref name S of Some (StringValue s) \<Rightarrow> s | _ \<Rightarrow> [])"

definition host_of :: "profile \<Rightarrow> host" where
  "host_of S = (host_base S)\<lparr>
     cursor_blink_pref := (case own_pref (js ''cursor-blink'') S of Some v \<Rightarrow> truthy v | None \<Rightarrow> False),
     foreground_pref := string_pref (js ''foreground-color'') S,
     background_pref := string_pref (js ''background-color'') S,
     cursor_pref := string_pref (js ''cursor-color'') S\<rparr>"

section \<open>What a preference sets\<close>

text \<open>Parts of the state.\<close>

definition set_keys :: "(keyboard \<Rightarrow> keyboard) \<Rightarrow> profile \<Rightarrow> profile option" where
  "set_keys f S = Some (S\<lparr>keys_of := f (keys_of S)\<rparr>)"

definition set_modes :: "(keyboard_modes \<Rightarrow> keyboard_modes) \<Rightarrow> profile \<Rightarrow> profile option" where
  "set_modes f S = Some (S\<lparr>machine_of := (machine_of S)\<lparr>keyboard := f (keyboard (machine_of S))\<rparr>\<rparr>)"

definition set_key_host :: "(key_host \<Rightarrow> key_host) \<Rightarrow> profile \<Rightarrow> profile option" where
  "set_key_host f S = Some (S\<lparr>key_host_of := f (key_host_of S)\<rparr>)"

definition set_machine :: "(machine \<Rightarrow> machine) \<Rightarrow> profile \<Rightarrow> profile option" where
  "set_machine f S = Some (S\<lparr>machine_of := f (machine_of S)\<rparr>)"

definition run_machine :: "(machine \<Rightarrow> machine option) \<Rightarrow> profile \<Rightarrow> profile option" where
  "run_machine f S = map_option (\<lambda>m. S\<lparr>machine_of := m\<rparr>) (f (machine_of S))"

definition set_host :: "(host \<Rightarrow> host) \<Rightarrow> profile \<Rightarrow> profile option" where
  "set_host f S = Some (S\<lparr>host_base := f (host_base S)\<rparr>)"

definition call_ui :: "ui_call list \<Rightarrow> profile \<Rightarrow> profile option" where
  "call_ui calls S = Some (S\<lparr>ui_calls := ui_calls S @ calls\<rparr>)"

text \<open>Both screens have attributes.\<close>

definition set_attributes :: "(tattrs \<Rightarrow> tattrs) \<Rightarrow> profile \<Rightarrow> profile option" where
  "set_attributes f = set_machine (\<lambda>m. m\<lparr>vt_terminal := (vt_terminal m)
     \<lparr>primaryScreen := (primaryScreen (vt_terminal m))\<lparr>textAttributes := f (textAttributes (primaryScreen (vt_terminal m)))\<rparr>,
      alternateScreen := (alternateScreen (vt_terminal m))\<lparr>textAttributes := f (textAttributes (alternateScreen (vt_terminal m)))\<rparr>\<rparr>\<rparr>)"

definition alt_gr_mode :: "profile_env \<Rightarrow> pref_value \<Rightarrow> jsstring" where
  "alt_gr_mode E v =
     (let v = (case v of
         NullValue \<Rightarrow> js (if language E = js ''en-us'' then ''none'' else ''right-alt'')
       | StringValue s \<Rightarrow> map lower_ascii s
       | _ \<Rightarrow> js ''none'')
      in if v \<in> {js ''none'', js ''ctrl-alt'', js ''left-alt'', js ''right-alt''} then v else js ''none'')"

definition alt_sends :: "profile_env \<Rightarrow> pref_value \<Rightarrow> jsstring" where
  "alt_sends E v =
     (let s = value_text E v in if s \<in> {js ''escape'', js ''8-bit'', js ''browser-key''} then s else js ''escape'')"

text \<open>\<open>/^lib-resource:(\S+)/\<close>\<close>

definition resource_name :: "jsstring \<Rightarrow> jsstring option" where
  "resource_name s =
     (case cut_prefix (js ''lib-resource:'') s of
        None \<Rightarrow> None
      | Some r \<Rightarrow> (let name = takeWhile (\<lambda>c. \<not> is_ws c) r in if name = [] then None else Some name))"

text \<open>\<open>None\<close>: there is no such resource.\<close>

definition set_bell :: "profile_env \<Rightarrow> jsstring \<Rightarrow> profile \<Rightarrow> profile option" where
  "set_bell E s S =
     (case resource_name s of
        None \<Rightarrow> Some (S\<lparr>bell_source := Some s\<rparr>)
      | Some name \<Rightarrow> map_option (\<lambda>url. S\<lparr>bell_source := Some url\<rparr>) (resource_url E name))"

text \<open>
  Resetting a preference from its observer: the observers of this preference are called again, within
  the call, if it had a value of its own. These calls are the result.
\<close>

definition reset_own :: "jsstring \<Rightarrow> profile \<Rightarrow> (observer_call list \<times> profile) option" where
  "reset_own name S = do {
     m \<leftarrow> own_prefs S;
     W \<leftarrow> pref_reset m name (prefs S);
     Some (observer_calls W, S\<lparr>prefs := W\<lparr>observer_calls := []\<rparr>\<rparr>)
   }"

fun bell_again :: "profile_env \<Rightarrow> observer_call list \<Rightarrow> profile \<Rightarrow> profile option" where
  "bell_again E (RecordCall i (StringValue s) name m # calls) S =
     (case set_bell E s S of
        Some S \<Rightarrow> bell_again E calls S
      | None \<Rightarrow> Option.bind (reset_own (js ''audible-bell-sound'') S) (\<lambda>(none, S). bell_again E calls S))"
| "bell_again E (RecordCall i v name m # calls) S = None"
| "bell_again E (GlobalCall i name v # calls) S = bell_again E calls S"
| "bell_again E [] S = Some S"

definition bell_changed :: "profile_env \<Rightarrow> pref_value \<Rightarrow> profile \<Rightarrow> profile option" where
  "bell_changed E v S =
     (case v of
        StringValue s \<Rightarrow>
          (case set_bell E s S of
             Some S \<Rightarrow> Some S
           | None \<Rightarrow> Option.bind (reset_own (js ''audible-bell-sound'') S) (\<lambda>(calls, S). bell_again E calls S))
      | _ \<Rightarrow> None)"

text \<open>A map of overrides has for each character set the characters by character.\<close>

definition character_maps :: "profile_env \<Rightarrow> pref_value \<Rightarrow> (jsstring \<times> glmap) list" where
  "character_maps E v = map (apsnd (\<lambda>v. map (apsnd (value_text E)) (value_members E v))) (value_members E v)"

definition override_maps :: "profile_env \<Rightarrow> pref_value \<Rightarrow> profile \<Rightarrow> profile option" where
  "override_maps E v =
     (case v of
        NullValue \<Rightarrow> set_machine (\<lambda>m. m\<lparr>characterMaps := setOverrides_maps (reset_maps (characterMaps m)) []\<rparr>)
      | ObjectValue i t \<Rightarrow>
          set_machine (\<lambda>m. m\<lparr>characterMaps := setOverrides_maps (reset_maps (characterMaps m)) (character_maps E v)\<rparr>)
      | _ \<Rightarrow> Some)"

definition blink_cycle :: "profile_env \<Rightarrow> pref_value \<Rightarrow> int list" where
  "blink_cycle E v =
     (case v of
        NumberValue n \<Rightarrow> [n, n]
      | ObjectValue i t \<Rightarrow>
          (case object_elements E t of Some (NumberValue on # NumberValue off # rest) \<Rightarrow> [on, off] | _ \<Rightarrow> [100, 100])
      | _ \<Rightarrow> [100, 100])"

text \<open>
  The colors of the palette that are set one by one are those of the current screen; in the end both
  screens have none, and what the terminal keeps are the colors of the preference, by index.
  \<open>None\<close> is an exception.
\<close>

fun stock_colors :: "int \<Rightarrow> jsstring list \<Rightarrow> terminal \<Rightarrow> terminal option" where
  "stock_colors i [] t = Some t"
| "stock_colors i (c # cs) t = Option.bind (setColorPalette (Some i) (Color c) t) (stock_colors (i + 1) cs)"

definition palette_entry :: "profile_env \<Rightarrow> css_text \<Rightarrow> (jsstring \<times> pref_value) list \<Rightarrow> jsstring \<Rightarrow>
    (int \<times> color_value) option option" where
  "palette_entry E T ms entry =
     (case parse_signed entry of
        None \<Rightarrow> Some None
      | Some i \<Rightarrow>
          if i < 0 \<or> 255 < i then Some None
          else
            (case map_of ms (js_of_int i) of
               None \<Rightarrow> Some None
             | Some v \<Rightarrow>
                 if \<not> truthy v then Some None
                 else (case v of StringValue s \<Rightarrow> Some (map_option (Pair i) (normalizeCSS T s)) | _ \<Rightarrow> None)))"

fun override_colors :: "profile_env \<Rightarrow> (jsstring \<times> pref_value) list \<Rightarrow> jsstring list \<Rightarrow> profile \<Rightarrow> profile option" where
  "override_colors E ms [] S = Some S"
| "override_colors E ms (entry # entries) S =
     (case palette_entry E (css (host_base S)) ms entry of
        None \<Rightarrow> None
      | Some None \<Rightarrow> override_colors E ms entries S
      | Some (Some (i, c)) \<Rightarrow>
          Option.bind (run_machine (run (setColorPalette (Some i) c)) S) (\<lambda>S.
            override_colors E ms entries
              (S\<lparr>host_base := (host_base S)\<lparr>palette_pref :=
                (case c of Color s \<Rightarrow> (palette_pref (host_base S))(i \<mapsto> s) | Inherited \<Rightarrow> palette_pref (host_base S))\<rparr>\<rparr>)))"

definition override_palette :: "profile_env \<Rightarrow> pref_value \<Rightarrow> profile \<Rightarrow> profile option" where
  "override_palette E v S =
     (if v \<noteq> NullValue \<and> js_typeof (Some v) \<noteq> ObjectType then Some S
      else do {
        S \<leftarrow> run_machine (run (stock_colors 0 stockPalette)) S;
        S \<leftarrow> set_host (\<lambda>H. H\<lparr>palette_pref := Map.empty\<rparr>) S;
        S \<leftarrow> override_colors E (value_members E v) (map fst (value_members E v)) S;
        set_attributes (\<lambda>ta. ta\<lparr>colorPaletteOverrides := Map.empty\<rparr>) S
      })"

definition syncBoldSafeState :: "profile_env \<Rightarrow> profile \<Rightarrow> profile option" where
  "syncBoldSafeState E S =
     Option.bind (own_pref (js ''enable-bold'') S) (\<lambda>v.
       set_attributes (\<lambda>ta. ta\<lparr>enableBold := (if v = NullValue then bold_is_safe E else truthy v)\<rparr>) S)"

definition syncFontFamily :: "profile_env \<Rightarrow> profile \<Rightarrow> profile option" where
  "syncFontFamily E S = do {
     family \<leftarrow> own_pref (js ''font-family'') S;
     smoothing \<leftarrow> own_pref (js ''font-smoothing'') S;
     S \<leftarrow> call_ui [FontFamily family smoothing, CssCharsize] S;
     syncBoldSafeState E S
   }"

definition syncMousePasteButton :: "profile_env \<Rightarrow> profile \<Rightarrow> profile option" where
  "syncMousePasteButton E S =
     map_option (\<lambda>v. S\<lparr>mousePasteButton :=
       (case v of NumberValue n \<Rightarrow> n | _ \<Rightarrow> if os_name E = js ''linux'' then 2 else 1)\<rparr>) (own_pref (js ''mouse-paste-button'') S)"

definition loadKeyBindings :: "profile_env \<Rightarrow> pref_value \<Rightarrow> pref_value \<Rightarrow> profile \<Rightarrow> profile option" where
  "loadKeyBindings E v useOsDefaults =
     set_keys (\<lambda>k. k\<lparr>key_bindings := addBindings (os_name E)
       (map (apsnd (\<lambda>a. case a of StringValue s \<Rightarrow> ActionText s | _ \<Rightarrow> ActionValue (other_action E a))) (value_members E v))
       (truthy useOsDefaults) Map.empty\<rparr>)"

text \<open>A color of the text or its background: a value that is no string throws.\<close>

definition text_color :: "(host \<Rightarrow> color_value option \<Rightarrow> machine \<Rightarrow> machine option) \<Rightarrow> pref_value \<Rightarrow> profile \<Rightarrow>
    profile option" where
  "text_color set_color v S =
     (case v of StringValue s \<Rightarrow> run_machine (set_color (host_of S) (Some (Color s))) S | _ \<Rightarrow> None)"

text \<open>What is left to the browser if the preference is \<open>null\<close>.\<close>

definition pass_number :: "bool \<Rightarrow> pref_value \<Rightarrow> bool" where
  "pass_number auto v = (if v = NullValue then auto else truthy v)"

section \<open>The observers\<close>

definition key_observers :: "profile_env \<Rightarrow> (jsstring \<times> (pref_value \<Rightarrow> profile \<Rightarrow> profile option)) list" where
  "key_observers E =
    [(js ''alt-gr-mode'', \<lambda>v. set_keys (\<lambda>k. k\<lparr>altGrMode := alt_gr_mode E v\<rparr>)),
     (js ''alt-backspace-is-meta-backspace'', \<lambda>v. set_keys (\<lambda>k. k\<lparr>altBackspaceIsMetaBackspace := truthy v\<rparr>)),
     (js ''alt-is-meta'', \<lambda>v S. Option.bind (set_keys (\<lambda>k. k\<lparr>altIsMeta := truthy v\<rparr>) S)
        (set_host (\<lambda>H. H\<lparr>alt_is_meta := truthy v\<rparr>))),
     (js ''alt-sends-what'', \<lambda>v. set_modes (\<lambda>k. k\<lparr>altSendsWhat := alt_sends E v\<rparr>)),
     (js ''audible-bell-sound'', bell_changed E),
     (js ''desktop-notification-bell'', \<lambda>v S. Some (S\<lparr>desktopNotificationBell := truthy v \<and> notifications_granted E\<rparr>)),
     (js ''background-color'', text_color setBackgroundColor),
     (js ''background-image'', \<lambda>v. call_ui [BackgroundImage v]),
     (js ''background-size'', \<lambda>v. call_ui [BackgroundSize v]),
     (js ''background-position'', \<lambda>v. call_ui [BackgroundPosition v]),
     (js ''backspace-sends-backspace'', \<lambda>v. set_modes (\<lambda>k. k\<lparr>backspaceSendsBackspace := truthy v\<rparr>))]"

definition look_observers :: "profile_env \<Rightarrow> (jsstring \<times> (pref_value \<Rightarrow> profile \<Rightarrow> profile option)) list" where
  "look_observers E =
    [(js ''character-map-overrides'', override_maps E),
     (js ''cursor-blink'', \<lambda>v. run_machine (run_total (setCursorBlink (truthy v)))),
     (js ''cursor-shape'', \<lambda>v. call_ui [CursorShape v]),
     (js ''cursor-blink-cycle'', \<lambda>v S. Some (S\<lparr>cursorBlinkCycle := blink_cycle E v\<rparr>)),
     (js ''cursor-color'', \<lambda>v S. run_machine (setCursorColor (host_of S) (Some (Color (value_text E v)))) S),
     (js ''color-palette-overrides'', override_palette E),
     (js ''copy-on-select'', \<lambda>v S. Some (S\<lparr>copyOnSelect := truthy v\<rparr>)),
     (js ''use-default-window-copy'', \<lambda>v S. Some (S\<lparr>useDefaultWindowCopy := truthy v\<rparr>)),
     (js ''clear-selection-after-copy'', \<lambda>v. set_key_host (\<lambda>h. h\<lparr>clearSelectionAfterCopy := truthy v\<rparr>)),
     (js ''ctrl-plus-minus-zero-zoom'', \<lambda>v. set_keys (\<lambda>k. k\<lparr>ctrlPlusMinusZeroZoom := v\<rparr>)),
     (js ''ctrl-c-copy'', \<lambda>v. set_keys (\<lambda>k. k\<lparr>ctrlCCopy := truthy v\<rparr>)),
     (js ''ctrl-v-paste'', \<lambda>v S. Option.bind (set_keys (\<lambda>k. k\<lparr>ctrlVPaste := truthy v\<rparr>) S) (call_ui [CtrlVPaste v])),
     (js ''paste-on-drop'', \<lambda>v. call_ui [PasteOnDrop v]),
     (js ''east-asian-ambiguous-as-two-column'', \<lambda>v. set_host (\<lambda>H. H\<lparr>screen_env := (screen_env H)
        \<lparr>wc := (wc (screen_env H))\<lparr>regardCjkAmbiguous := truthy v\<rparr>\<rparr>\<rparr>)),
     (js ''enable-8-bit-control'', \<lambda>v. set_machine (\<lambda>m. m\<lparr>enable8BitControl := truthy v\<rparr>)),
     (js ''enable-bold'', \<lambda>v. syncBoldSafeState E),
     (js ''enable-bold-as-bright'', \<lambda>v. set_attributes (\<lambda>ta. ta\<lparr>enableBoldAsBright := truthy v\<rparr>)),
     (js ''enable-blink'', \<lambda>v. call_ui [TextBlink (truthy v)]),
     (js ''enable-clipboard-write'', \<lambda>v. set_host (\<lambda>H. H\<lparr>clipboard_write := truthy v\<rparr>)),
     (js ''enable-dec12'', \<lambda>v. set_machine (\<lambda>m. m\<lparr>enableDec12 := truthy v\<rparr>)),
     (js ''enable-csi-j-3'', \<lambda>v. set_machine (\<lambda>m. m\<lparr>enableCsiJ3 := truthy v\<rparr>)),
     (js ''find-result-color'', \<lambda>v. call_ui [FindResultColor v]),
     (js ''find-result-selected-color'', \<lambda>v. call_ui [FindResultSelectedColor v]),
     (js ''font-family'', \<lambda>v. syncFontFamily E),
     (js ''font-size'', \<lambda>v. case value_int E v of
        Some n \<Rightarrow> if n \<le> 0 then Some else call_ui [FontSize n, CssCharsize] | None \<Rightarrow> Some),
     (js ''font-smoothing'', \<lambda>v. syncFontFamily E),
     (js ''foreground-color'', text_color setForegroundColor)]"

definition page_observers :: "profile_env \<Rightarrow> (jsstring \<times> (pref_value \<Rightarrow> profile \<Rightarrow> profile option)) list" where
  "page_observers E =
    [(js ''hide-mouse-while-typing'', \<lambda>v S. Some (S\<lparr>mouseHideWhileTyping :=
        (if v = NullValue then os_name E \<noteq> js ''cros'' \<and> os_name E \<noteq> js ''mac'' else truthy v)\<rparr>)),
     (js ''home-keys-scroll'', \<lambda>v. set_keys (\<lambda>k. k\<lparr>homeKeysScroll := v\<rparr>)),
     (js ''keybindings'', \<lambda>v S. Option.bind (own_pref (js ''keybindings-os-defaults'') S) (\<lambda>d. loadKeyBindings E v d S)),
     (js ''keybindings-os-defaults'', \<lambda>v S. Option.bind (own_pref (js ''keybindings'') S) (\<lambda>b. loadKeyBindings E b v S)),
     (js ''line-height-padding-size'', \<lambda>v. case parse_float E (value_text E v) of
        Some n \<Rightarrow> call_ui [LineHeightPadding n] | None \<Rightarrow> Some),
     (js ''media-keys-are-fkeys'', \<lambda>v. set_keys (\<lambda>k. k\<lparr>mediaKeysAreFKeys := truthy v\<rparr>)),
     (js ''meta-sends-escape'', \<lambda>v. set_modes (\<lambda>k. k\<lparr>metaSendsEscape := truthy v\<rparr>)),
     (js ''mouse-right-click-paste'', \<lambda>v S. Some (S\<lparr>mouseRightClickPaste := truthy v\<rparr>)),
     (js ''mouse-paste-button'', \<lambda>v. syncMousePasteButton E),
     (js ''page-keys-scroll'', \<lambda>v. set_keys (\<lambda>k. k\<lparr>pageKeysScroll := v\<rparr>)),
     (js ''pass-alt-number'', \<lambda>v. set_key_host (\<lambda>h. h\<lparr>passAltNumber :=
        pass_number (os_name E \<noteq> js ''mac'' \<and> \<not> in_popup E) v\<rparr>)),
     (js ''pass-ctrl-number'', \<lambda>v. set_key_host (\<lambda>h. h\<lparr>passCtrlNumber :=
        pass_number (os_name E \<noteq> js ''mac'' \<and> \<not> in_popup E) v\<rparr>)),
     (js ''pass-ctrl-n'', \<lambda>v. set_key_host (\<lambda>h. h\<lparr>passCtrlN := truthy v\<rparr>)),
     (js ''pass-ctrl-t'', \<lambda>v. set_key_host (\<lambda>h. h\<lparr>passCtrlT := truthy v\<rparr>)),
     (js ''pass-ctrl-tab'', \<lambda>v. set_key_host (\<lambda>h. h\<lparr>passCtrlTab := truthy v\<rparr>)),
     (js ''pass-ctrl-w'', \<lambda>v. set_key_host (\<lambda>h. h\<lparr>passCtrlW := truthy v\<rparr>)),
     (js ''pass-meta-number'', \<lambda>v. set_key_host (\<lambda>h. h\<lparr>passMetaNumber :=
        pass_number (os_name E = js ''mac'' \<and> \<not> in_popup E) v\<rparr>)),
     (js ''pass-meta-v'', \<lambda>v. set_keys (\<lambda>k. k\<lparr>passMetaV := truthy v\<rparr>))]"

text \<open>A size that is not a number, or is negative, is not set.\<close>

definition pixels :: "profile_env \<Rightarrow> (int \<Rightarrow> ui_call) \<Rightarrow> pref_value \<Rightarrow> profile \<Rightarrow> profile option" where
  "pixels E call v = (case value_int E v of Some n \<Rightarrow> if n < 0 then Some else call_ui [call n] | None \<Rightarrow> Some)"

definition scroll_observers :: "profile_env \<Rightarrow> (jsstring \<times> (pref_value \<Rightarrow> profile \<Rightarrow> profile option)) list" where
  "scroll_observers E =
    [(js ''screen-padding-size'', pixels E ScreenPadding),
     (js ''screen-border-size'', pixels E ScreenBorder),
     (js ''screen-border-color'', \<lambda>v. call_ui [ScreenBorderColor v]),
     (js ''scroll-on-keystroke'', \<lambda>v. set_machine (\<lambda>m. m\<lparr>scrollOnKeystroke := truthy v\<rparr>)),
     (js ''scroll-on-output'', \<lambda>v. set_machine (\<lambda>m. m\<lparr>scrollOnOutput := truthy v\<rparr>)),
     (js ''scrollbar-visible'', \<lambda>v. call_ui [ScrollbarVisible v]),
     (js ''scroll-wheel-may-send-arrow-keys'', \<lambda>v. set_machine (\<lambda>m. m\<lparr>scrollWheelArrowKeys := truthy v\<rparr>)),
     (js ''scroll-wheel-move-multiplier'', \<lambda>v. call_ui [ScrollWheelMultiplier v]),
     (js ''shift-insert-paste'', \<lambda>v. set_keys (\<lambda>k. k\<lparr>shiftInsertPaste := truthy v\<rparr>)),
     (js ''terminal-encoding'', \<lambda>v. set_machine (setEncoding (case v of StringValue s \<Rightarrow> s | _ \<Rightarrow> []))),
     (js ''user-css'', \<lambda>v. call_ui [UserCss v]),
     (js ''user-css-text'', \<lambda>v. call_ui [UserCssText v]),
     (js ''word-break-match-left'', \<lambda>v S. Some (S\<lparr>wordBreakMatchLeft := v\<rparr>)),
     (js ''word-break-match-right'', \<lambda>v S. Some (S\<lparr>wordBreakMatchRight := v\<rparr>)),
     (js ''word-break-match-middle'', \<lambda>v S. Some (S\<lparr>wordBreakMatchMiddle := v\<rparr>)),
     (js ''allow-images-inline'', \<lambda>v S. Some (S\<lparr>allowImagesInline := v\<rparr>))]"

definition profile_observers :: "profile_env \<Rightarrow> (jsstring \<times> (pref_value \<Rightarrow> profile \<Rightarrow> profile option)) list" where
  "profile_observers E = key_observers E @ look_observers E @ page_observers E @ scroll_observers E"

text \<open>What observers are called with, in turn.\<close>

fun observe :: "profile_env \<Rightarrow> observer_call list \<Rightarrow> profile \<Rightarrow> profile option" where
  "observe E [] S = Some S"
| "observe E (GlobalCall i name v # calls) S = observe E calls S"
| "observe E (RecordCall i v name m # calls) S =
     Option.bind (if i < length (profile_observers E) then snd (profile_observers E ! i) v S else Some S) (observe E calls)"

definition take_prefs :: "profile_env \<Rightarrow> pref_world \<Rightarrow> profile \<Rightarrow> profile option" where
  "take_prefs E W S = observe E (observer_calls W) (S\<lparr>prefs := W\<lparr>observer_calls := []\<rparr>\<rparr>)"

section \<open>Profiles\<close>

definition profile_prefix :: jsstring where
  "profile_prefix = js ''/hterm/profiles/''"

text \<open>\<open>new hterm.PreferenceManager(profileId)\<close>, the last of the managers.\<close>

definition new_profile_manager :: "jsstring \<Rightarrow> pref_world \<Rightarrow> pref_world option" where
  "new_profile_manager name W =
     definePreferences (length (managers W)) (map (\<lambda>(name, p). (name, pref_default p, None)) defaultPreferences)
       (new_manager (profile_prefix @ name) W)"

text \<open>
  The callback of the constructor sets \<open>ready_\<close> after the preferences are read, but not if the
  profile is the one there is. Of other calls of the program only the number counts.
\<close>

definition setProfile :: "profile_env \<Rightarrow> jsstring \<Rightarrow> bool \<Rightarrow> profile \<Rightarrow> profile option" where
  "setProfile E name callback S =
     (let name = filter (\<lambda>c. c \<noteq> 47) name in
      if profileId S = Some name then Some (S\<lparr>callbacks := callbacks S + (if callback then 1 else 0)\<rparr>)
      else
        (let m = length (managers (prefs S)) in do {
          W \<leftarrow> (case own_prefs S of None \<Rightarrow> Some (prefs S) | Some m \<Rightarrow> deactivate m (prefs S));
          W \<leftarrow> new_profile_manager name W;
          W \<leftarrow> addObservers m None (zip (map fst (profile_observers E)) [0..<length (profile_observers E)]) W;
          take_prefs E (readStorage m W)
            (S\<lparr>profileId := Some name, own_prefs := Some m, reads := reads S @ [callback]\<rparr>)
        }))"

text \<open>
  A step of the storage or the managers; items that arrive start a timeout, after which all
  preferences of the terminal are notified. Only \<open>setProfile\<close> reads the storage.
\<close>

definition prefs_step :: "profile_env \<Rightarrow> pref_op \<Rightarrow> profile \<Rightarrow> profile option" where
  "prefs_step E a S =
     (let arrived = (case (a, pref_tasks (prefs S)) of (Turn, ItemsArrived m its # ts) \<Rightarrow> True | _ \<Rightarrow> False) in
      Option.bind (pref_step a (prefs S)) (\<lambda>W.
        take_prefs E W (if arrived then S\<lparr>reads := tl (reads S), read_timeouts := read_timeouts S @ [reads S \<noteq> [] \<and> hd (reads S)]\<rparr> else S)))"

definition timeout_ends :: "profile_env \<Rightarrow> profile \<Rightarrow> profile option" where
  "timeout_ends E S =
     (case read_timeouts S of
        [] \<Rightarrow> Some S
      | callback # rest \<Rightarrow> do {
          m \<leftarrow> own_prefs S;
          W \<leftarrow> notifyAll m (prefs S);
          S \<leftarrow> take_prefs E W (S\<lparr>read_timeouts := rest\<rparr>);
          Some (if callback then S\<lparr>ready := True, callbacks := callbacks S + 1\<rparr> else S)
        })"

text \<open>\<open>listProfiles\<close>, of the keys that are stored.\<close>

definition listProfiles :: "items \<Rightarrow> jsstring list" where
  "listProfiles its = rev (remdups (rev
     (List.map_filter (\<lambda>(k, v). map_option (takeWhile (\<lambda>c. c \<noteq> 47)) (cut_prefix profile_prefix k)) its)))"

end
