(* ===== verification/ProfileProps.thy ===== *)
theory ProfileProps
  imports Profile
begin

text \<open>
  What is shown of profiles: the declared preferences fit their types and all that is observed is
  declared; each switch of the terminal has the value of its preference once the preferences are read.
\<close>

section \<open>Names\<close>

definition observed_names :: "string list" where
  "observed_names =
    [''alt-gr-mode'', ''alt-backspace-is-meta-backspace'', ''alt-is-meta'', ''alt-sends-what'', ''audible-bell-sound'',
     ''desktop-notification-bell'', ''background-color'', ''background-image'', ''background-size'', ''background-position'',
     ''backspace-sends-backspace'', ''character-map-overrides'', ''cursor-blink'', ''cursor-shape'', ''cursor-blink-cycle'',
     ''cursor-color'', ''color-palette-overrides'', ''copy-on-select'', ''use-default-window-copy'',
     ''clear-selection-after-copy'', ''ctrl-plus-minus-zero-zoom'', ''ctrl-c-copy'', ''ctrl-v-paste'', ''paste-on-drop'',
     ''east-asian-ambiguous-as-two-column'', ''enable-8-bit-control'', ''enable-bold'', ''enable-bold-as-bright'',
     ''enable-blink'', ''enable-clipboard-write'', ''enable-dec12'', ''enable-csi-j-3'', ''find-result-color'',
     ''find-result-selected-color'', ''font-family'', ''font-size'', ''font-smoothing'', ''foreground-color'',
     ''hide-mouse-while-typing'', ''home-keys-scroll'', ''keybindings'', ''keybindings-os-defaults'',
     ''line-height-padding-size'', ''media-keys-are-fkeys'', ''meta-sends-escape'', ''mouse-right-click-paste'',
     ''mouse-paste-button'', ''page-keys-scroll'', ''pass-alt-number'', ''pass-ctrl-number'', ''pass-ctrl-n'', ''pass-ctrl-t'',
     ''pass-ctrl-tab'', ''pass-ctrl-w'', ''pass-meta-number'', ''pass-meta-v'', ''screen-padding-size'', ''screen-border-size'',
     ''screen-border-color'', ''scroll-on-keystroke'', ''scroll-on-output'', ''scrollbar-visible'',
     ''scroll-wheel-may-send-arrow-keys'', ''scroll-wheel-move-multiplier'', ''shift-insert-paste'', ''terminal-encoding'',
     ''user-css'', ''user-css-text'', ''word-break-match-left'', ''word-break-match-right'', ''word-break-match-middle'',
     ''allow-images-inline'']"

lemmas observer_tables = key_observers_def look_observers_def page_observers_def scroll_observers_def

lemma map_fst_observers: "map fst (profile_observers E) = map js observed_names"
  by (simp only: profile_observers_def observer_tables observed_names_def list.map map_append append_Cons append_Nil fst_conv)

lemma length_observers: "length (profile_observers E) = length observed_names"
  using arg_cong [OF map_fst_observers, of length] by simp

definition declared_names :: "string list" where
  "declared_names =
    [''alt-gr-mode'', ''alt-backspace-is-meta-backspace'', ''alt-is-meta'', ''alt-sends-what'',
     ''audible-bell-sound'', ''desktop-notification-bell'', ''background-color'', ''background-image'',
     ''background-size'', ''background-position'', ''backspace-sends-backspace'', ''character-map-overrides'',
     ''close-on-exit'', ''cursor-blink'', ''cursor-blink-cycle'', ''cursor-shape'', ''cursor-color'',
     ''color-palette-overrides'', ''copy-on-select'', ''use-default-window-copy'', ''clear-selection-after-copy'',
     ''ctrl-plus-minus-zero-zoom'', ''ctrl-c-copy'', ''ctrl-v-paste'', ''east-asian-ambiguous-as-two-column'',
     ''enable-8-bit-control'', ''enable-bold'', ''enable-bold-as-bright'', ''enable-blink'',
     ''enable-clipboard-notice'', ''enable-clipboard-write'', ''enable-dec12'', ''enable-csi-j-3'', ''environment'',
     ''find-result-color'', ''find-result-selected-color'', ''font-family'', ''font-size'', ''font-smoothing'',
     ''line-height-padding-size'', ''foreground-color'', ''enable-resize-status'', ''hide-mouse-while-typing'',
     ''home-keys-scroll'', ''keybindings'', ''keybindings-os-defaults'', ''media-keys-are-fkeys'',
     ''meta-sends-escape'', ''mouse-right-click-paste'', ''mouse-paste-button'', ''screen-padding-size'',
     ''screen-border-size'', ''screen-border-color'', ''word-break-match-left'', ''word-break-match-right'',
     ''word-break-match-middle'', ''page-keys-scroll'', ''pass-alt-number'', ''pass-ctrl-number'', ''pass-ctrl-n'',
     ''pass-ctrl-t'', ''pass-ctrl-tab'', ''pass-ctrl-w'', ''pass-meta-number'', ''pass-meta-v'', ''paste-on-drop'',
     ''scroll-on-keystroke'', ''scroll-on-output'', ''scrollbar-visible'', ''scroll-wheel-may-send-arrow-keys'',
     ''scroll-wheel-move-multiplier'', ''terminal-encoding'', ''shift-insert-paste'', ''user-css'',
     ''user-css-text'', ''allow-images-inline'']"

lemma map_fst_preferences: "map fst defaultPreferences = map js declared_names"
  by (simp only: defaultPreferences_def default_preferences_1_def default_preferences_2_def default_preferences_3_def
      default_preferences_4_def default_preferences_5_def default_preferences_6_def declared_names_def
      list.map map_append append_Cons append_Nil fst_conv)

lemma distinct_js: "distinct (map js names) = distinct names"
  by (simp add: distinct_map inj_on_def)

definition unobserved_names :: "string list" where
  "unobserved_names = [''close-on-exit'', ''enable-clipboard-notice'', ''environment'', ''enable-resize-status'']"

lemma mset_declared: "mset declared_names = mset (observed_names @ unobserved_names)"
  by (simp add: declared_names_def observed_names_def unobserved_names_def add_mset_commute)

lemma distinct_declared: "distinct declared_names"
  by code_simp

lemma distinct_observed: "distinct observed_names"
  using mset_eq_imp_distinct_iff [OF mset_declared] distinct_declared by simp

section \<open>What is declared\<close>

definition fits :: "pref_type \<Rightarrow> pref_value \<Rightarrow> bool" where
  "fits t v =
     (case t of
        Choice vs \<Rightarrow> v \<in> set vs
      | Named n \<Rightarrow>
          if n = ''bool'' then (case v of BoolValue b \<Rightarrow> True | _ \<Rightarrow> False)
          else if n = ''int'' then (case v of NumberValue i \<Rightarrow> True | _ \<Rightarrow> False)
          else if n = ''tristate'' then (case v of NullValue \<Rightarrow> True | BoolValue b \<Rightarrow> True | _ \<Rightarrow> False)
          else if n = ''value'' then True
          else if n \<in> {''string'', ''url'', ''color'', ''multiline-string''} then (case v of StringValue s \<Rightarrow> True | _ \<Rightarrow> False)
          else False)"

text \<open>
  C36. The preferences a terminal declares: no name is declared twice, every default value is of the declared
  type, every preference that \<open>setProfile\<close> observes is declared, so that \<open>addObservers\<close> does not throw,
  and all but four are observed, each once.
\<close>

theorem preferences_declared:
  "distinct (map fst defaultPreferences) \<and>
   list_all (\<lambda>(name, p). fits (pref_type p) (pref_default p)) defaultPreferences \<and>
   distinct (map fst (profile_observers E)) \<and>
   mset (map fst defaultPreferences) = mset (map fst (profile_observers E)) + mset (map js unobserved_names)"
proof (intro conjI)
  show "distinct (map fst defaultPreferences)"
    unfolding map_fst_preferences distinct_js by (rule distinct_declared)
  show "list_all (\<lambda>(name, p). fits (pref_type p) (pref_default p)) defaultPreferences" by code_simp
  show "distinct (map fst (profile_observers E))"
    unfolding map_fst_observers distinct_js by (rule distinct_observed)
  show "mset (map fst defaultPreferences) = mset (map fst (profile_observers E)) + mset (map js unobserved_names)"
    unfolding map_fst_preferences map_fst_observers mset_map mset_declared by simp
qed

section \<open>Switches\<close>

text \<open>The preferences that turn something on or off, and where that is. Of the three the keyboard keeps as they
  are, the truth is taken; booleans, as declared, are what the keys compare them with.\<close>

definition key_switches :: "(string \<times> (profile \<Rightarrow> bool)) list" where
  "key_switches =
    [(''alt-backspace-is-meta-backspace'', \<lambda>S. altBackspaceIsMetaBackspace (keys_of S)),
     (''alt-is-meta'', \<lambda>S. altIsMeta (keys_of S)),
     (''ctrl-plus-minus-zero-zoom'', \<lambda>S. truthy (ctrlPlusMinusZeroZoom (keys_of S))),
     (''ctrl-c-copy'', \<lambda>S. ctrlCCopy (keys_of S)),
     (''ctrl-v-paste'', \<lambda>S. ctrlVPaste (keys_of S)),
     (''home-keys-scroll'', \<lambda>S. truthy (homeKeysScroll (keys_of S))),
     (''page-keys-scroll'', \<lambda>S. truthy (pageKeysScroll (keys_of S))),
     (''media-keys-are-fkeys'', \<lambda>S. mediaKeysAreFKeys (keys_of S)),
     (''pass-meta-v'', \<lambda>S. passMetaV (keys_of S)),
     (''shift-insert-paste'', \<lambda>S. shiftInsertPaste (keys_of S)),
     (''backspace-sends-backspace'', \<lambda>S. backspaceSendsBackspace (keyboard (machine_of S))),
     (''meta-sends-escape'', \<lambda>S. metaSendsEscape (keyboard (machine_of S))),
     (''pass-ctrl-n'', \<lambda>S. passCtrlN (key_host_of S)),
     (''pass-ctrl-t'', \<lambda>S. passCtrlT (key_host_of S)),
     (''pass-ctrl-tab'', \<lambda>S. passCtrlTab (key_host_of S)),
     (''pass-ctrl-w'', \<lambda>S. passCtrlW (key_host_of S)),
     (''clear-selection-after-copy'', \<lambda>S. clearSelectionAfterCopy (key_host_of S))]"

definition machine_switches :: "(string \<times> (profile \<Rightarrow> bool)) list" where
  "machine_switches =
    [(''enable-8-bit-control'', \<lambda>S. enable8BitControl (machine_of S)),
     (''enable-dec12'', \<lambda>S. enableDec12 (machine_of S)),
     (''enable-csi-j-3'', \<lambda>S. enableCsiJ3 (machine_of S)),
     (''scroll-on-keystroke'', \<lambda>S. scrollOnKeystroke (machine_of S)),
     (''scroll-on-output'', \<lambda>S. scrollOnOutput (machine_of S)),
     (''scroll-wheel-may-send-arrow-keys'', \<lambda>S. scrollWheelArrowKeys (machine_of S)),
     (''cursor-blink'', \<lambda>S. cursorBlink (options (vt_terminal (machine_of S)))),
     (''enable-bold-as-bright'', \<lambda>S. enableBoldAsBright (textAttributes (current (vt_terminal (machine_of S))))),
     (''enable-clipboard-write'', \<lambda>S. clipboard_write (host_base S)),
     (''east-asian-ambiguous-as-two-column'', \<lambda>S. regardCjkAmbiguous (wc (screen_env (host_base S)))),
     (''copy-on-select'', copyOnSelect),
     (''use-default-window-copy'', useDefaultWindowCopy),
     (''mouse-right-click-paste'', mouseRightClickPaste)]"

definition switches :: "(string \<times> (profile \<Rightarrow> bool)) list" where
  "switches = key_switches @ machine_switches"

text \<open>After a call for the preference \<open>name\<close> with \<open>v\<close>, its switch is \<open>v\<close> and the others are as they were.\<close>

definition switched :: "jsstring \<Rightarrow> pref_value \<Rightarrow> profile \<Rightarrow> profile \<Rightarrow> bool" where
  "switched name v S S' \<longleftrightarrow>
     list_all (\<lambda>(n, on). on S' = (if js n = name then truthy v else on S)) switches"

definition unswitched :: "profile \<Rightarrow> profile \<Rightarrow> bool" where
  "unswitched S S' \<longleftrightarrow> list_all (\<lambda>(n, on). on S' = on S) switches"

lemma unswitched_refl: "unswitched S S"
  by (simp add: unswitched_def list_all_iff split_def)

lemma unswitched_trans: "unswitched S T \<Longrightarrow> unswitched T U \<Longrightarrow> unswitched S U"
  by (fastforce simp: unswitched_def list_all_iff)

lemma unswitched_switched: "unswitched S S' \<Longrightarrow> name \<notin> set (map (js \<circ> fst) switches) \<Longrightarrow> switched name v S S'"
  by (force simp: unswitched_def switched_def list_all_iff)

text \<open>What does not touch a switch: other fields, other parts of the machine.\<close>

definition switch_parts :: "profile \<Rightarrow> _" where
  "switch_parts S =
     (keys_of S, keyboard (machine_of S), key_host_of S,
      (enable8BitControl (machine_of S), enableDec12 (machine_of S), enableCsiJ3 (machine_of S)),
      (scrollOnKeystroke (machine_of S), scrollOnOutput (machine_of S), scrollWheelArrowKeys (machine_of S)),
      cursorBlink (options (vt_terminal (machine_of S))),
      enableBoldAsBright (textAttributes (current (vt_terminal (machine_of S)))),
      (clipboard_write (host_base S), screen_env (host_base S)),
      (copyOnSelect S, useDefaultWindowCopy S, mouseRightClickPaste S))"

lemma same_parts: "switch_parts S' = switch_parts S \<Longrightarrow> unswitched S S'"
  by (simp add: switch_parts_def unswitched_def switches_def key_switches_def machine_switches_def)

text \<open>The observers that set no switch.\<close>

lemma parts_prefs [simp]: "switch_parts (S\<lparr>prefs := W\<rparr>) = switch_parts S"
  "switch_parts (S\<lparr>bell_source := b\<rparr>) = switch_parts S" "switch_parts (S\<lparr>ui_calls := u\<rparr>) = switch_parts S"
  by (simp_all add: switch_parts_def)

lemma set_bell_parts: "set_bell E s S = Some S' \<Longrightarrow> switch_parts S' = switch_parts S"
  by (auto simp: set_bell_def split: option.splits)

lemma reset_own_parts: "reset_own name S = Some (calls, S') \<Longrightarrow> switch_parts S' = switch_parts S"
  by (auto simp: reset_own_def Option.bind_eq_Some_conv)

lemma bell_again_parts: "bell_again E calls S = Some S' \<Longrightarrow> switch_parts S' = switch_parts S"
proof (induction E calls S rule: bell_again.induct)
  case (1 E i s name m calls S)
  show ?case
  proof (cases "set_bell E s S")
    case None
    with 1(3) obtain none T where T: "reset_own (js ''audible-bell-sound'') S = Some (none, T)" "bell_again E calls T = Some S'"
      by (auto simp: Option.bind_eq_Some_conv)
    from 1(1) [OF None T(1) refl T(2)] reset_own_parts [OF T(1)] show ?thesis by simp
  next
    case (Some T)
    with 1(3) have "bell_again E calls T = Some S'" by simp
    from 1(2) [OF Some this] set_bell_parts [OF Some] show ?thesis by simp
  qed
qed simp_all

lemma bell_parts: "bell_changed E v S = Some S' \<Longrightarrow> switch_parts S' = switch_parts S"
  by (auto simp: bell_changed_def Option.bind_eq_Some_conv dest!: set_bell_parts reset_own_parts bell_again_parts
      split: option.splits pref_value.splits)

lemma set_text_color_machine:
  "set_text_color H e pref c m = Some m' \<Longrightarrow> m' = m\<lparr>events := events m'\<rparr>"
  by (auto simp: set_text_color_def emit_def split: option.splits color_value.splits)

lemma parts_events [simp]: "switch_parts (S\<lparr>machine_of := (machine_of S)\<lparr>events := e\<rparr>\<rparr>) = switch_parts S"
  by (simp add: switch_parts_def)

lemma text_color_parts:
  "text_color setBackgroundColor v S = Some S' \<Longrightarrow> switch_parts S' = switch_parts S"
  "text_color setForegroundColor v S = Some S' \<Longrightarrow> switch_parts S' = switch_parts S"
  unfolding text_color_def run_machine_def setBackgroundColor_def setForegroundColor_def
  by (auto split: pref_value.splits) (metis set_text_color_machine parts_events)+

lemma set_attributes_other:
  assumes "set_attributes f S = Some S'" "\<And>ta. enableBoldAsBright (f ta) = enableBoldAsBright ta"
  shows "switch_parts S' = switch_parts S"
proof -
  let ?t = "vt_terminal (machine_of S)"
  let ?t' = "?t\<lparr>primaryScreen := (primaryScreen ?t)\<lparr>textAttributes := f (textAttributes (primaryScreen ?t))\<rparr>,
      alternateScreen := (alternateScreen ?t)\<lparr>textAttributes := f (textAttributes (alternateScreen ?t))\<rparr>\<rparr>"
  have S': "S' = S\<lparr>machine_of := (machine_of S)\<lparr>vt_terminal := ?t'\<rparr>\<rparr>"
    using assms(1) by (simp add: set_attributes_def set_machine_def)
  have "enableBoldAsBright (textAttributes (current ?t')) = enableBoldAsBright (textAttributes (current ?t))"
    by (simp add: current_def assms(2))
  then show ?thesis unfolding S' switch_parts_def by simp
qed

lemma run_terminal_parts:
  assumes "run_machine (run f) S = Some S'"
    and "\<And>t t'. f t = Some t' \<Longrightarrow> cursorBlink (options t') = cursorBlink (options t) \<and>
      enableBoldAsBright (textAttributes (current t')) = enableBoldAsBright (textAttributes (current t))"
  shows "switch_parts S' = switch_parts S"
proof -
  from assms(1) obtain t where t: "f (vt_terminal (machine_of S)) = Some t"
      "S' = S\<lparr>machine_of := (machine_of S)\<lparr>vt_terminal := t\<rparr>\<rparr>"
    by (auto simp: run_machine_def run_def)
  from assms(2) [OF t(1)] show ?thesis by (simp add: t(2) switch_parts_def)
qed

lemma setColorPalette_other:
  assumes "setColorPalette i c t = Some t'"
  shows "cursorBlink (options t') = cursorBlink (options t) \<and>
    enableBoldAsBright (textAttributes (current t')) = enableBoldAsBright (textAttributes (current t))"
  using assms by (auto simp: setColorPalette_def setOverride_def on_screen_def current_def set_current_def
      split: option.splits if_splits color_value.splits)

lemma stock_colors_other:
  assumes "stock_colors i cs t = Some t'"
  shows "cursorBlink (options t') = cursorBlink (options t) \<and>
    enableBoldAsBright (textAttributes (current t')) = enableBoldAsBright (textAttributes (current t))"
  using assms
proof (induction cs arbitrary: i t)
  case (Cons c cs)
  then obtain u where "setColorPalette (Some i) (Color c) t = Some u" "stock_colors (i + 1) cs u = Some t'"
    by (auto simp: Option.bind_eq_Some_conv)
  with Cons.IH [of "i + 1" u] setColorPalette_other [of "Some i" "Color c" t u] show ?case by simp
qed simp

lemma palette_pref_parts [simp]: "switch_parts (S\<lparr>host_base := (host_base S)\<lparr>palette_pref := p\<rparr>\<rparr>) = switch_parts S"
  by (simp add: switch_parts_def)

lemma override_colors_parts: "override_colors E ms names S = Some S' \<Longrightarrow> switch_parts S' = switch_parts S"
proof (induction names arbitrary: S)
  case (Cons name names)
  show ?case
  proof (cases "palette_entry E (css (host_base S)) ms name")
    case (Some e)
    show ?thesis
    proof (cases e)
      case None
      with Some Cons.prems Cons.IH [of S] show ?thesis by simp
    next
      case ic: (Some ic)
      obtain i c where "ic = (i, c)" by fastforce
      with Some ic Cons.prems obtain T p where T: "run_machine (run (setColorPalette (Some i) c)) S = Some T"
          "override_colors E ms names (T\<lparr>host_base := (host_base T)\<lparr>palette_pref := p\<rparr>\<rparr>) = Some S'"
        by (auto simp: Option.bind_eq_Some_conv)
      from Cons.IH [OF T(2)] run_terminal_parts [OF T(1) setColorPalette_other] show ?thesis by simp
    qed
  qed (use Cons.prems in simp)
qed simp

lemma override_palette_parts:
  assumes "override_palette E v S = Some S'"
  shows "switch_parts S' = switch_parts S"
proof (cases "v \<noteq> NullValue \<and> js_typeof (Some v) \<noteq> ObjectType")
  case True
  with assms show ?thesis by (simp add: override_palette_def)
next
  case False
  with assms obtain T U where T: "run_machine (run (stock_colors 0 stockPalette)) S = Some T"
      "override_colors E (value_members E v) (map fst (value_members E v)) (T\<lparr>host_base := (host_base T)\<lparr>palette_pref := Map.empty\<rparr>\<rparr>) = Some U"
      "set_attributes (\<lambda>ta. ta\<lparr>colorPaletteOverrides := Map.empty\<rparr>) U = Some S'"
    by (auto simp: override_palette_def Option.bind_eq_Some_conv set_host_def)
  have "switch_parts S' = switch_parts U" using T(3) by (rule set_attributes_other) simp
  with override_colors_parts [OF T(2)] run_terminal_parts [OF T(1) stock_colors_other] show ?thesis by simp
qed

lemma bold_parts: "syncBoldSafeState E S = Some S' \<Longrightarrow> switch_parts S' = switch_parts S"
  unfolding syncBoldSafeState_def Option.bind_eq_Some_conv by (auto intro: set_attributes_other)

lemma font_parts: "syncFontFamily E S = Some S' \<Longrightarrow> switch_parts S' = switch_parts S"
  by (auto simp: syncFontFamily_def Option.bind_eq_Some_conv call_ui_def dest!: bold_parts)

lemma maps_parts: "override_maps E v S = Some S' \<Longrightarrow> switch_parts S' = switch_parts S"
  by (auto simp: override_maps_def set_machine_def switch_parts_def split: pref_value.splits)

lemma encoding_parts: "set_machine (setEncoding e) S = Some S' \<Longrightarrow> switch_parts S' = switch_parts S"
proof -
  assume "set_machine (setEncoding e) S = Some S'"
  then have S': "S' = S\<lparr>machine_of := setEncoding e (machine_of S)\<rparr>" by (simp add: set_machine_def)
  show ?thesis unfolding S' switch_parts_def by (simp add: setEncoding_def)
qed

lemma parts_switched:
  "switch_parts S' = switch_parts S \<Longrightarrow> name \<notin> set (map (js \<circ> fst) switches) \<Longrightarrow> switched name v S S'"
  by (rule unswitched_switched [OF same_parts])

lemmas no_switches = bell_parts text_color_parts override_palette_parts bold_parts font_parts maps_parts encoding_parts
lemmas setters = set_keys_def set_modes_def set_key_host_def set_machine_def run_machine_def run_total_def set_host_def
  call_ui_def set_attributes_def setCursorColor_def emit_def setCursorBlink_def set_options_def loadKeyBindings_def
  syncMousePasteButton_def pixels_def
lemmas all_switches = switches_def key_switches_def machine_switches_def

definition switches_ok :: "(jsstring \<times> (pref_value \<Rightarrow> profile \<Rightarrow> profile option)) list \<Rightarrow> bool" where
  "switches_ok obs \<longleftrightarrow> list_all (\<lambda>(name, f). \<forall>v S S'. f v S = Some S' \<longrightarrow> switched name v S S') obs"

lemma switches_ok_Nil: "switches_ok []"
  by (simp add: switches_ok_def)

lemma switches_ok_Cons:
  "switches_ok ((name, f) # obs) \<longleftrightarrow> (\<forall>v S S'. f v S = Some S' \<longrightarrow> switched name v S S') \<and> switches_ok obs"
  by (simp add: switches_ok_def)

lemma key_observers_ok: "switches_ok (key_observers E)"
  unfolding key_observers_def switches_ok_Cons
  by (intro conjI allI impI switches_ok_Nil;
    ((erule no_switches [THEN parts_switched], simp add: all_switches)
      | (clarsimp simp: setters; simp add: switched_def all_switches current_def)))

lemma look_observers_ok: "switches_ok (look_observers E)"
  unfolding look_observers_def switches_ok_Cons
  by (intro conjI allI impI switches_ok_Nil;
    ((erule no_switches [THEN parts_switched], simp add: all_switches)
      | (clarsimp simp: setters split: option.splits if_splits; simp add: switched_def all_switches current_def)))

lemma page_observers_ok: "switches_ok (page_observers E)"
  unfolding page_observers_def switches_ok_Cons
  by (intro conjI allI impI switches_ok_Nil;
    (clarsimp simp: setters Option.bind_eq_Some_conv split: option.splits if_splits; simp add: switched_def all_switches current_def))

lemma scroll_observers_ok: "switches_ok (scroll_observers E)"
  unfolding scroll_observers_def switches_ok_Cons
  by (intro conjI allI impI switches_ok_Nil;
    ((erule no_switches [THEN parts_switched], simp add: all_switches)
      | (clarsimp simp: setters split: option.splits if_splits; simp add: switched_def all_switches current_def)))

lemma observers_ok: "switches_ok (profile_observers E)"
  using key_observers_ok look_observers_ok page_observers_ok scroll_observers_ok
  by (simp add: profile_observers_def switches_ok_def)

end
