(* ===== verification/ProfileReady.thy ===== *)
theory ProfileReady
  imports ProfileProps
begin

text \<open>
  From \<open>setProfile\<close> to a terminal that is ready: the observers of a profile are those of its
  preferences, whatever happens before its items are read, and then every switch has the value of its
  preference.
\<close>

section \<open>Calls of observers\<close>

text \<open>The last value the observers for the preference \<open>n\<close> are called with.\<close>

fun told :: "profile_env \<Rightarrow> jsstring \<Rightarrow> observer_call list \<Rightarrow> pref_value option" where
  "told E n [] = None"
| "told E n (GlobalCall i name v # calls) = told E n calls"
| "told E n (RecordCall i v name m # calls) =
     (case told E n calls of
        Some u \<Rightarrow> Some u
      | None \<Rightarrow> if i < length (profile_observers E) \<and> fst (profile_observers E ! i) = n then Some v else None)"

lemma told_append: "told E n (xs @ ys) = (case told E n ys of Some v \<Rightarrow> Some v | None \<Rightarrow> told E n xs)"
  by (induction xs rule: told.induct) (auto split: option.split)

lemma nth_switched:
  assumes "i < length (profile_observers E)" "snd (profile_observers E ! i) v S = Some S'"
  shows "switched (fst (profile_observers E ! i)) v S S'"
proof -
  have "list_all (\<lambda>(name, f). \<forall>v S S'. f v S = Some S' \<longrightarrow> switched name v S S') (profile_observers E)"
    using observers_ok by (simp add: switches_ok_def)
  from this [unfolded list_all_length, rule_format, OF assms(1)] assms(2) show ?thesis by (simp add: split_def)
qed

lemma observe_told:
  assumes "observe E calls S = Some S'" "(n, on) \<in> set switches"
  shows "on S' = (case told E (js n) calls of Some v \<Rightarrow> truthy v | None \<Rightarrow> on S)"
  using assms(1)
proof (induction E calls S rule: observe.induct)
  case (3 E i v name m calls S)
  show ?case
  proof (cases "i < length (profile_observers E)")
    case True
    with 3(2) obtain T where T: "snd (profile_observers E ! i) v S = Some T" "observe E calls T = Some S'"
      by (auto simp: Option.bind_eq_Some_conv)
    have "on T = (if js n = fst (profile_observers E ! i) then truthy v else on S)"
      using nth_switched [OF True T(1)] assms(2) by (force simp: switched_def list_all_iff)
    with 3(1) [of T] T True show ?thesis by (auto split: option.split)
  next
    case False
    with 3 show ?thesis by (simp split: option.split)
  qed
qed simp_all

section \<open>What the observers leave\<close>

definition bell :: jsstring where "bell = js ''audible-bell-sound''"

text \<open>Observers and values of the preferences are the same, apart from the sound of the bell.\<close>

definition same_prefs :: "pref_world \<Rightarrow> pref_world \<Rightarrow> bool" where
  "same_prefs W W' \<longleftrightarrow> length (managers W') = length (managers W) \<and>
     (\<forall>m name. map_option observers (manager_record m name W') = map_option observers (manager_record m name W)) \<and>
     (\<forall>m name. name \<noteq> bell \<longrightarrow> pref_get m name W' = pref_get m name W)"

definition kept :: "profile \<Rightarrow> profile \<Rightarrow> bool" where
  "kept S S' \<longleftrightarrow> profileId S' = profileId S \<and> own_prefs S' = own_prefs S \<and> reads S' = reads S \<and>
     read_timeouts S' = read_timeouts S \<and> ready S' = ready S \<and> callbacks S' = callbacks S \<and> same_prefs (prefs S) (prefs S')"

lemma same_prefs_refl [simp]: "same_prefs W W"
  by (simp add: same_prefs_def)

lemma same_prefs_trans: "same_prefs U V \<Longrightarrow> same_prefs V W \<Longrightarrow> same_prefs U W"
  by (simp add: same_prefs_def)

lemma kept_refl [simp]: "kept S S"
  by (simp add: kept_def)

lemma kept_trans: "kept S T \<Longrightarrow> kept T U \<Longrightarrow> kept S U"
  by (auto simp: kept_def intro: same_prefs_trans)

lemma kept_updates [simp]:
  "kept S (T\<lparr>machine_of := x\<rparr>) = kept S T" "kept S (T\<lparr>host_base := h\<rparr>) = kept S T" "kept S (T\<lparr>keys_of := k\<rparr>) = kept S T"
  "kept S (T\<lparr>key_host_of := kh\<rparr>) = kept S T" "kept S (T\<lparr>bell_source := b\<rparr>) = kept S T" "kept S (T\<lparr>ui_calls := u\<rparr>) = kept S T"
  "kept S (T\<lparr>mousePasteButton := i\<rparr>) = kept S T" "kept (S\<lparr>ui_calls := u\<rparr>) T = kept S T"
  by (simp_all add: kept_def)

lemma put_record_any:
  "manager_record m' name' (put_record m name r W) =
    (if m' = m \<and> name' = name \<and> m < length (managers W) then Some r else manager_record m' name' W)"
proof (cases "m < length (managers W)")
  case True
  then show ?thesis
    by (auto simp: put_record_def update_manager_def manager_record_def AList.update_conv' nth_list_update)
next
  case False
  then show ?thesis by (simp add: put_record_def update_manager_def manager_record_def list_update_beyond)
qed

lemma record_updates [simp]:
  "manager_record m name (W\<lparr>observer_calls := c\<rparr>) = manager_record m name W"
  "manager_record m name (storage_removeItems ks W) = manager_record m name W"
  "manager_record m name (storage_setItem k v W) = manager_record m name W"
  "manager_record m name (add_task t W) = manager_record m name W"
  "managers (storage_removeItems ks W) = managers W" "managers (storage_setItem k v W) = managers W"
  "managers (add_task t W) = managers W"
  by (simp_all add: manager_record_def storage_removeItems_def storage_setItem_def storage_update_def add_task_def)

lemma notifyChange_managers: "notifyChange m name W = Some W' \<Longrightarrow> managers W' = managers W"
  by (auto simp: notifyChange_def split: option.splits)

lemma record_managers: "managers W' = managers W \<Longrightarrow> manager_record m name W' = manager_record m name W"
  by (simp add: manager_record_def)

lemma reset_same_prefs:
  assumes "pref_reset m bell W = Some W'"
  shows "same_prefs W (W'\<lparr>observer_calls := []\<rparr>)"
proof -
  from assms obtain r where r: "manager_record m bell W = Some r" by (auto simp: pref_reset_def split: option.splits)
  let ?W = "put_record m bell (r\<lparr>currentValue := None\<rparr>) (storage_removeItems [pref_key m bell W] W)"
  have "managers W' = managers W \<or> managers W' = managers ?W"
    using assms r by (auto simp: pref_reset_def Let_def dest: notifyChange_managers split: if_splits)
  then show ?thesis
  proof
    assume "managers W' = managers W"
    then show ?thesis by (simp add: same_prefs_def pref_get_def record_managers [of W' W])
  next
    assume w: "managers W' = managers ?W"
    have "manager_record i name W' = manager_record i name ?W" for i name by (rule record_managers [OF w])
    moreover have "length (managers W') = length (managers W)" unfolding w by (simp add: put_record_def update_manager_def)
    ultimately show ?thesis using r by (auto simp: same_prefs_def pref_get_def put_record_any)
  qed
qed

lemma reset_own_kept:
  assumes "reset_own bell S = Some (calls, S')"
  shows "kept S S'"
  using assms reset_same_prefs by (auto simp: reset_own_def Option.bind_eq_Some_conv kept_def)

lemma set_bell_kept: "set_bell E s S = Some S' \<Longrightarrow> kept S S'"
  by (auto simp: set_bell_def split: option.splits)

lemma bell_again_kept: "bell_again E calls S = Some S' \<Longrightarrow> kept S S'"
proof (induction E calls S rule: bell_again.induct)
  case (1 E i s name m calls S)
  show ?case
  proof (cases "set_bell E s S")
    case None
    with 1(3) obtain none T where T: "reset_own (js ''audible-bell-sound'') S = Some (none, T)" "bell_again E calls T = Some S'"
      by (auto simp: Option.bind_eq_Some_conv)
    from kept_trans [OF reset_own_kept [unfolded bell_def, OF T(1)] 1(1) [OF None T(1) refl T(2)]] show ?thesis .
  next
    case (Some T)
    with 1(3) have "bell_again E calls T = Some S'" by simp
    from kept_trans [OF set_bell_kept [OF Some] 1(2) [OF Some this]] show ?thesis .
  qed
qed simp_all

lemma bell_kept: 
  assumes "bell_changed E v S = Some S'"
  shows "kept S S'"
proof -
  from assms obtain s where v: "v = StringValue s" by (cases v) (simp_all add: bell_changed_def)
  show ?thesis
  proof (cases "set_bell E s S")
    case None
    with assms v obtain calls T where T: "reset_own (js ''audible-bell-sound'') S = Some (calls, T)" "bell_again E calls T = Some S'"
      by (auto simp: bell_changed_def Option.bind_eq_Some_conv)
    from kept_trans [OF reset_own_kept [unfolded bell_def, OF T(1)] bell_again_kept [OF T(2)]] show ?thesis .
  next
    case (Some T)
    with assms v show ?thesis using set_bell_kept by (simp add: bell_changed_def)
  qed
qed

lemma run_machine_kept: "run_machine f S = Some S' \<Longrightarrow> kept S S'"
  by (auto simp: run_machine_def)

lemma set_attributes_kept: "set_attributes f S = Some S' \<Longrightarrow> kept S S'"
  by (auto simp: set_attributes_def set_machine_def)

lemma bold_kept: "syncBoldSafeState E S = Some S' \<Longrightarrow> kept S S'"
  by (auto simp: syncBoldSafeState_def Option.bind_eq_Some_conv dest: set_attributes_kept)

lemma font_kept: "syncFontFamily E S = Some S' \<Longrightarrow> kept S S'"
  by (auto simp: syncFontFamily_def Option.bind_eq_Some_conv call_ui_def dest!: bold_kept intro: kept_trans)

lemma text_color_kept: "text_color f v S = Some S' \<Longrightarrow> kept S S'"
  by (auto simp: text_color_def dest: run_machine_kept split: pref_value.splits)

lemma override_colors_kept: "override_colors E ms names S = Some S' \<Longrightarrow> kept S S'"
proof (induction names arbitrary: S)
  case (Cons name names)
  show ?case
  proof (cases "palette_entry E (css (host_base S)) ms name")
    case (Some e)
    show ?thesis
    proof (cases e)
      case None
      with Some Cons.prems Cons.IH [of S] show ?thesis by simp
    next
      case ic: (Some ic)
      obtain i c where "ic = (i, c)" by fastforce
      with Some ic Cons.prems obtain T p where T: "run_machine (run (setColorPalette (Some i) c)) S = Some T"
          "override_colors E ms names (T\<lparr>host_base := (host_base T)\<lparr>palette_pref := p\<rparr>\<rparr>) = Some S'"
        by (auto simp: Option.bind_eq_Some_conv)
      have "kept S (T\<lparr>host_base := (host_base T)\<lparr>palette_pref := p\<rparr>\<rparr>)" using run_machine_kept [OF T(1)] by simp
      then show ?thesis using Cons.IH [OF T(2)] by (rule kept_trans)
    qed
  qed (use Cons.prems in simp)
qed simp

lemma palette_kept:
  assumes "override_palette E v S = Some S'"
  shows "kept S S'"
proof (cases "v \<noteq> NullValue \<and> js_typeof (Some v) \<noteq> ObjectType")
  case True
  with assms show ?thesis by (simp add: override_palette_def)
next
  case False
  with assms obtain T U where T: "run_machine (run (stock_colors 0 stockPalette)) S = Some T"
      "override_colors E (value_members E v) (map fst (value_members E v)) (T\<lparr>host_base := (host_base T)\<lparr>palette_pref := Map.empty\<rparr>\<rparr>) = Some U"
      "set_attributes (\<lambda>ta. ta\<lparr>colorPaletteOverrides := Map.empty\<rparr>) U = Some S'"
    by (auto simp: override_palette_def Option.bind_eq_Some_conv set_host_def)
  have "kept S (T\<lparr>host_base := (host_base T)\<lparr>palette_pref := Map.empty\<rparr>\<rparr>)" using run_machine_kept [OF T(1)] by simp
  from kept_trans [OF kept_trans [OF this override_colors_kept [OF T(2)]] set_attributes_kept [OF T(3)]] show ?thesis .
qed

lemma mouse_kept: "syncMousePasteButton E S = Some S' \<Longrightarrow> kept S S'"
  by (auto simp: syncMousePasteButton_def)

lemmas keeping = mouse_kept bell_kept text_color_kept palette_kept bold_kept font_kept run_machine_kept set_attributes_kept

definition keep_ok :: "(jsstring \<times> (pref_value \<Rightarrow> profile \<Rightarrow> profile option)) list \<Rightarrow> bool" where
  "keep_ok obs \<longleftrightarrow> list_all (\<lambda>(name, f). \<forall>v S S'. f v S = Some S' \<longrightarrow> kept S S') obs"

lemma keep_ok_Nil: "keep_ok []"
  by (simp add: keep_ok_def)

lemma keep_ok_Cons: "keep_ok ((name, f) # obs) \<longleftrightarrow> (\<forall>v S S'. f v S = Some S' \<longrightarrow> kept S S') \<and> keep_ok obs"
  by (simp add: keep_ok_def)

lemma observers_keep: "keep_ok (profile_observers E)"
  unfolding profile_observers_def observer_tables append_Cons append_Nil keep_ok_Cons
  by (intro conjI allI impI keep_ok_Nil;
    ((erule keeping) | (clarsimp simp: set_keys_def set_modes_def set_key_host_def set_machine_def set_host_def call_ui_def
        pixels_def loadKeyBindings_def override_maps_def Option.bind_eq_Some_conv
        split: option.splits if_splits pref_value.splits; simp add: kept_def)))

lemma observe_kept: "observe E calls S = Some S' \<Longrightarrow> kept S S'"
proof (induction E calls S rule: observe.induct)
  case (3 E i v name m calls S)
  show ?case
  proof (cases "i < length (profile_observers E)")
    case True
    with 3(2) obtain T where T: "snd (profile_observers E ! i) v S = Some T" "observe E calls T = Some S'"
      by (auto simp: Option.bind_eq_Some_conv)
    have "list_all (\<lambda>(name, f). \<forall>v S S'. f v S = Some S' \<longrightarrow> kept S S') (profile_observers E)"
      using observers_keep by (simp add: keep_ok_def)
    from this [unfolded list_all_length, rule_format, OF True] T(1) have "kept S T" by (simp add: split_def)
    moreover have "kept T S'" using 3(1) [of T] T True by simp
    ultimately show ?thesis by (rule kept_trans)
  qed (use 3 in simp)
qed simp_all

section \<open>The observers of a profile\<close>

text \<open>Every preference of the manager has the observers for its name, and those that are observed are defined.\<close>

definition observers_for :: "profile_env \<Rightarrow> jsstring \<Rightarrow> nat list" where
  "observers_for E name = map snd (filter (\<lambda>x. fst x = name)
     (zip (map fst (profile_observers E)) [0..<length (profile_observers E)]))"

definition linked :: "profile_env \<Rightarrow> nat \<Rightarrow> pref_world \<Rightarrow> bool" where
  "linked E m W \<longleftrightarrow> m < length (managers W) \<and>
     (\<forall>name r. manager_record m name W = Some r \<longrightarrow> observers r = observers_for E name) \<and>
     (\<forall>name \<in> fst ` set (profile_observers E). manager_record m name W \<noteq> None)"

lemma observers_for_iff:
  "i \<in> set (observers_for E name) \<longleftrightarrow> i < length (profile_observers E) \<and> fst (profile_observers E ! i) = name"
  unfolding observers_for_def by (auto simp: in_set_zip image_iff intro: exI [of _ i])

definition same_observers :: "pref_world \<Rightarrow> pref_world \<Rightarrow> bool" where
  "same_observers W W' \<longleftrightarrow> length (managers W) \<le> length (managers W') \<and>
     (\<forall>m name. m < length (managers W) \<longrightarrow>
        map_option observers (manager_record m name W') = map_option observers (manager_record m name W))"

lemma linked_same:
  assumes "linked E m W" "same_observers W W'"
  shows "linked E m W'"
proof -
  have m: "m < length (managers W)" using assms(1) by (simp add: linked_def)
  have same: "map_option observers (manager_record m name W') = map_option observers (manager_record m name W)" for name
    using assms(2) m by (simp add: same_observers_def)
  have "observers r = observers_for E name" if "manager_record m name W' = Some r" for name r
    using same [of name] assms(1) that by (cases "manager_record m name W") (auto simp: linked_def)
  moreover have "manager_record m name W' \<noteq> None" if "name \<in> fst ` set (profile_observers E)" for name
    using same [of name] assms(1) that by (cases "manager_record m name W'") (auto simp: linked_def)
  moreover have "m < length (managers W')" using m assms(2) by (simp add: same_observers_def)
  ultimately show ?thesis by (simp add: linked_def)
qed

lemma same_observers_refl [simp]: "same_observers W W"
  by (simp add: same_observers_def)

lemma same_observers_trans: "same_observers U V \<Longrightarrow> same_observers V W \<Longrightarrow> same_observers U W"
  by (auto simp: same_observers_def)

lemma same_observers_managers: "managers W' = managers W \<Longrightarrow> same_observers W W'"
  by (simp add: same_observers_def manager_record_def)

lemma same_prefs_observers: "same_prefs W W' \<Longrightarrow> same_observers W W'"
  by (simp add: same_prefs_def same_observers_def)

lemma managers_trans: "same_observers W V \<Longrightarrow> managers W' = managers V \<Longrightarrow> same_observers W W'"
  by (rule same_observers_trans [OF _ same_observers_managers])

lemma put_record_observers:
  assumes "manager_record m name W = Some r" "observers r' = observers r"
  shows "same_observers W (put_record m name r' W)"
proof -
  have "length (managers (put_record m name r' W)) = length (managers W)" by (simp add: put_record_def update_manager_def)
  then show ?thesis using assms by (auto simp: same_observers_def put_record_any)
qed

lemma update_manager_observers:
  assumes "\<And>M. prefRecords (f M) = prefRecords M"
  shows "same_observers W (update_manager m f W)"
proof -
  have "manager_record m' name (update_manager m f W) = manager_record m' name W" if "m' < length (managers W)" for m' name
    using that assms by (cases "m' = m") (simp_all add: manager_record_def update_manager_def)
  then show ?thesis by (simp add: same_observers_def update_manager_def)
qed

lemma notify_each_managers: "notify_each m names W = Some W' \<Longrightarrow> managers W' = managers W"
  by (induction names arbitrary: W) (auto simp: Option.bind_eq_Some_conv dest: notifyChange_managers)

text \<open>The operations that leave observers as they are.\<close>

lemma set_observers:
  assumes "pref_set m name v b W = Some W'"
  shows "same_observers W W'"
proof -
  from assms obtain r where r: "manager_record m name W = Some r" by (auto simp: pref_set_def split: option.splits)
  from assms r have "W' = W \<or> managers W' = managers (put_record m name (r\<lparr>currentValue := Some v\<rparr>) W) \<or>
      managers W' = managers (put_record m name (r\<lparr>currentValue := None\<rparr>) W)"
    by (auto simp: pref_set_def Let_def split: if_splits)
  moreover have "same_observers W (put_record m name (r\<lparr>currentValue := u\<rparr>) W)" for u
    by (rule put_record_observers [OF r]) simp
  ultimately show ?thesis using same_observers_managers managers_trans by blast
qed

lemma import_observers: "import_items m its W = Some W' \<Longrightarrow> same_observers W W'"
proof (induction its arbitrary: W)
  case (Cons x its)
  obtain name v where x: "x = (name, v)" by fastforce
  from Cons.prems obtain V where V: "pref_set m name v True W = Some V" "import_items m its V = Some W'"
    by (auto simp: Option.bind_eq_Some_conv x)
  from same_observers_trans [OF set_observers [OF V(1)] Cons.IH [OF V(2)]] show ?case .
qed simp

lemma reset_observers:
  assumes "pref_reset m name W = Some W'"
  shows "same_observers W W'"
proof -
  from assms obtain r where r: "manager_record m name W = Some r" by (auto simp: pref_reset_def split: option.splits)
  let ?W = "put_record m name (r\<lparr>currentValue := None\<rparr>) (storage_removeItems [pref_key m name W] W)"
  have "managers W' = managers W \<or> managers W' = managers ?W"
    using assms r by (auto simp: pref_reset_def Let_def dest: notifyChange_managers split: if_splits)
  moreover have "same_observers W ?W"
    by (rule same_observers_trans [OF same_observers_managers put_record_observers]) (simp_all add: r)
  ultimately show ?thesis using same_observers_managers managers_trans by blast
qed

lemma resetAll_observers:
  assumes "pref_resetAll m W = Some W'"
  shows "same_observers W W'"
proof -
  let ?V = "update_manager m (\<lambda>M. M\<lparr>prefRecords := map (apsnd (\<lambda>r. r\<lparr>currentValue := None\<rparr>)) (prefRecords M)\<rparr>) W"
  have "managers W' = managers ?V"
    using assms by (auto simp: pref_resetAll_def Let_def dest!: notify_each_managers)
  moreover have "same_observers W ?V"
  proof -
    have "map_option observers (manager_record m' name ?V) = map_option observers (manager_record m' name W)"
      if "m' < length (managers W)" for m' name
      using that by (cases "m' = m") (simp_all add: manager_record_def update_manager_def apsnd_def map_prod_def
        map_of_map option.map_comp comp_def split_def [symmetric])
    then show ?thesis by (simp add: same_observers_def update_manager_def)
  qed
  ultimately show ?thesis using managers_trans by blast
qed

lemma changeDefault_observers:
  assumes "changeDefault m name v W = Some W'"
  shows "same_observers W W'"
proof -
  from assms obtain r where r: "manager_record m name W = Some r" by (auto simp: changeDefault_def split: option.splits)
  let ?W = "put_record m name (r\<lparr>defaultValue := v\<rparr>) W"
  have "managers W' = managers W \<or> managers W' = managers ?W"
    using assms r by (auto simp: changeDefault_def Let_def dest: notifyChange_managers split: if_splits)
  moreover have "same_observers W ?W" by (rule put_record_observers [OF r]) simp
  ultimately show ?thesis using same_observers_managers managers_trans by blast
qed

lemma take_items_observers: "take_items m its W = Some W' \<Longrightarrow> same_observers W W'"
proof (induction m its W rule: take_items.induct)
  case (2 m key v its W)
  let ?name = "drop (length (prefix (managers W ! m))) key"
  from 2(2) obtain r where r: "manager_record m ?name W = Some r" by (auto simp: Let_def split: option.splits)
  let ?W = "put_record m ?name (r\<lparr>currentValue := Some v\<rparr>) W"
  have "take_items m its ?W = Some W'" using 2(2) r by (simp add: Let_def)
  from same_observers_trans [OF put_record_observers [OF r] 2(1) [OF refl r this]] show ?case by simp
qed simp

lemma take_change_observers:
  assumes "take_change m kc W = Some W'"
  shows "same_observers W W'"
proof -
  obtain k d where kc: "kc = (k, d)" by fastforce
  let ?name = "drop (length (prefix (managers W ! m))) k"
  show ?thesis
  proof (cases "manager_record m ?name W")
    case None
    then have "W' = W" using assms by (auto simp: kc take_change_def Let_def split: if_splits)
    then show ?thesis by simp
  next
    case (Some r)
    then obtain c where "W' = W \<or> managers W' = managers (put_record m ?name (r\<lparr>currentValue := c\<rparr>) W)"
      using assms by (auto simp: kc take_change_def Let_def dest!: notifyChange_managers split: if_splits)
    moreover have "same_observers W (put_record m ?name (r\<lparr>currentValue := c\<rparr>) W)"
      by (rule put_record_observers [OF Some]) simp
    ultimately show ?thesis using same_observers_managers managers_trans by blast
  qed
qed

lemma onStorageChange_observers: "onStorageChange m cs W = Some W' \<Longrightarrow> same_observers W W'"
  by (induction cs arbitrary: W)
    (auto simp: Option.bind_eq_Some_conv intro: same_observers_trans [OF take_change_observers])

lemma notify_observers_observers: "notify_observers ms cs W = Some W' \<Longrightarrow> same_observers W W'"
  by (induction ms arbitrary: W)
    (auto simp: Option.bind_eq_Some_conv intro: same_observers_trans [OF onStorageChange_observers])

text \<open>What other code does with the managers before the profile is ready.\<close>

fun keeps_observers :: "pref_op \<Rightarrow> bool" where
  "keeps_observers (Define m name v i) = False"
| "keeps_observers (AddObserver m name i) = False"
| "keeps_observers (RemoveObserver m name i) = False"
| "keeps_observers (ReadStorage m) = False"
| "keeps_observers _ = True"

lemma new_manager_observers: "same_observers W (new_manager pre W)"
  by (simp add: same_observers_def new_manager_def manager_record_def nth_append)

lemma step_observers:
  assumes "pref_step a W = Some W'" "keeps_observers a"
  shows "same_observers W W'"
proof (cases a)
  case (NewManager pre)
  with assms(1) show ?thesis using new_manager_observers by auto
next
  case (Set m name v save)
  with assms(1) show ?thesis using set_observers by simp
next
  case (Reset m name)
  with assms(1) show ?thesis using reset_observers by simp
next
  case (ResetAll m)
  with assms(1) show ?thesis using resetAll_observers by simp
next
  case (ChangeDefault m name v)
  with assms(1) show ?thesis using changeDefault_observers by simp
next
  case (Import m its)
  with assms(1) have i: "import_items m its (update_manager m (\<lambda>M. M\<lparr>isImportingJson := True\<rparr>) W) = Some W'"
    by (simp add: importFromJson_def)
  show ?thesis by (rule same_observers_trans [OF update_manager_observers import_observers [OF i]]) simp
next
  case (NotifyAll m)
  with assms(1) show ?thesis using same_observers_managers notify_each_managers by (simp add: notifyAll_def)
next
  case (AddGlobal m i)
  with assms(1) show ?thesis using update_manager_observers by (auto simp: add_global_observer_def)
next
  case (Activate m)
  with assms(1) have "W' = update_manager m (\<lambda>M. M\<lparr>isActive := True\<rparr>) (W\<lparr>storageObservers := storageObservers W @ [m]\<rparr>)"
    by (simp add: activate_def split: if_splits)
  then show ?thesis
    using same_observers_trans [OF same_observers_managers update_manager_observers] by simp
next
  case (Deactivate m)
  with assms(1) have "W' = update_manager m (\<lambda>M. M\<lparr>isActive := False\<rparr>) (W\<lparr>storageObservers := remove1 m (storageObservers W)\<rparr>)"
    by (simp add: deactivate_def split: if_splits)
  then show ?thesis
    using same_observers_trans [OF same_observers_managers update_manager_observers] by simp
next
  case Turn
  show ?thesis
  proof (cases "pref_tasks W")
    case (Cons t ts)
    then have run: "run_task t (W\<lparr>pref_tasks := ts\<rparr>) = Some W'" using Turn assms(1) by simp
    have "same_observers (W\<lparr>pref_tasks := ts\<rparr>) W'"
    proof (cases t)
      case (ChangeEvent cs)
      with run show ?thesis using notify_observers_observers by (simp add: run_task_def)
    next
      case (NotifyLater m name)
      with run have "managers W' = managers (W\<lparr>pref_tasks := ts\<rparr>)" by (simp add: run_task_def notifyChange_managers)
      then show ?thesis by (rule same_observers_managers)
    next
      case (ItemsRead m its)
      with run show ?thesis by (auto simp: run_task_def intro: same_observers_managers)
    next
      case (ItemsArrived m its)
      with run show ?thesis using take_items_observers by (simp add: run_task_def)
    qed
    then show ?thesis by (rule same_observers_trans [OF same_observers_managers, rotated]) simp
  qed (use Turn assms(1) in simp)
qed (use assms(2) in simp_all)

section \<open>The profile\<close>

lemma take_prefs_result:
  assumes "take_prefs E W S = Some S'"
  shows "same_prefs W (prefs S')" and "own_prefs S' = own_prefs S" "read_timeouts S' = read_timeouts S" "profileId S' = profileId S"
    "ready S' = ready S"
    and "(n, on) \<in> set switches \<Longrightarrow> on S' = (case told E (js n) (observer_calls W) of Some v \<Rightarrow> truthy v | None \<Rightarrow> on (S\<lparr>prefs := W\<lparr>observer_calls := []\<rparr>\<rparr>))"
proof -
  have k: "kept (S\<lparr>prefs := W\<lparr>observer_calls := []\<rparr>\<rparr>) S'"
    using assms observe_kept by (simp add: take_prefs_def)
  then have "same_prefs (W\<lparr>observer_calls := []\<rparr>) (prefs S')" by (simp add: kept_def)
  then show "same_prefs W (prefs S')" by (simp add: same_prefs_def pref_get_def)
  show "own_prefs S' = own_prefs S" "read_timeouts S' = read_timeouts S" "profileId S' = profileId S" "ready S' = ready S"
    using k by (simp_all add: kept_def)
  show "(n, on) \<in> set switches \<Longrightarrow> on S' = (case told E (js n) (observer_calls W) of Some v \<Rightarrow> truthy v | None \<Rightarrow> on (S\<lparr>prefs := W\<lparr>observer_calls := []\<rparr>\<rparr>))"
    using assms observe_told by (simp add: take_prefs_def)
qed

text \<open>The terminal's manager has the observers of the profile.\<close>

definition profile_linked :: "profile_env \<Rightarrow> profile \<Rightarrow> bool" where
  "profile_linked E S \<longleftrightarrow> (case own_prefs S of None \<Rightarrow> False | Some m \<Rightarrow> linked E m (prefs S))"

fun prefs_run :: "profile_env \<Rightarrow> pref_op list \<Rightarrow> profile \<Rightarrow> profile option" where
  "prefs_run E [] S = Some S"
| "prefs_run E (a # as) S = Option.bind (prefs_step E a S) (prefs_run E as)"

lemma prefs_step_linked:
  assumes "prefs_step E a S = Some S'" "keeps_observers a" "profile_linked E S"
  shows "profile_linked E S'"
proof -
  from assms(3) obtain m where m: "own_prefs S = Some m" "linked E m (prefs S)"
    by (auto simp: profile_linked_def split: option.splits)
  let ?T = "if (case (a, pref_tasks (prefs S)) of (Turn, ItemsArrived m its # ts) \<Rightarrow> True | _ \<Rightarrow> False)
    then S\<lparr>reads := tl (reads S), read_timeouts := read_timeouts S @ [reads S \<noteq> [] \<and> hd (reads S)]\<rparr> else S"
  from assms(1) obtain W where W: "pref_step a (prefs S) = Some W" "take_prefs E W ?T = Some S'"
    unfolding prefs_step_def Let_def Option.bind_eq_Some_conv by blast
  have "own_prefs ?T = own_prefs S" by simp
  note W = W this
  have "same_observers (prefs S) W" using step_observers [OF W(1) assms(2)] .
  then have "same_observers (prefs S) (prefs S')"
    using same_observers_trans same_prefs_observers [OF take_prefs_result(1) [OF W(2)]] by blast
  with linked_same [OF m(2)] have "linked E m (prefs S')" by blast
  then show ?thesis using take_prefs_result(2) [OF W(2)] W(3) m(1) by (simp add: profile_linked_def)
qed

lemma prefs_run_linked:
  assumes "prefs_run E as S = Some S'" "list_all keeps_observers as" "profile_linked E S"
  shows "profile_linked E S'"
  using assms
proof (induction as arbitrary: S)
  case (Cons a as)
  then show ?case using prefs_step_linked by (auto simp: Option.bind_eq_Some_conv)
qed simp

section \<open>Defining and observing\<close>

lemma definePreference_observers:
  assumes "definePreference m name v None W = Some W'" "m < length (managers W)"
  shows "length (managers W') = length (managers W) \<and>
    map_option observers (manager_record m n W') =
      (if n = name \<and> manager_record m n W = None then Some [] else map_option observers (manager_record m n W))"
proof (cases "manager_record m name W")
  case (Some r)
  with assms(1) have c: "changeDefault m name v W = Some W'" by (simp add: definePreference_def)
  have l: "length (managers W') = length (managers W)"
    using c by (auto simp: changeDefault_def Let_def put_record_def update_manager_def dest!: notifyChange_managers
        split: option.splits if_splits)
  show ?thesis using changeDefault_observers [OF c] l assms(2) Some by (auto simp: same_observers_def)
next
  case None
  with assms(1) have "W' = put_record m name \<lparr>defaultValue = v, currentValue = None, observers = []\<rparr> W"
    by (simp add: definePreference_def split: if_splits)
  then show ?thesis using None assms(2) by (simp add: put_record_any) (simp add: put_record_def update_manager_def)
qed

lemma definePreferences_observers:
  assumes "definePreferences m ds W = Some W'" "m < length (managers W)" "\<forall>d \<in> set ds. snd (snd d) = None"
  shows "length (managers W') = length (managers W) \<and>
    map_option observers (manager_record m n W') =
      (if n \<in> fst ` set ds \<and> manager_record m n W = None then Some [] else map_option observers (manager_record m n W))"
  using assms
proof (induction ds arbitrary: W)
  case (Cons d ds)
  obtain name v where d: "d = (name, v, None)" using Cons.prems(3) by (cases d) auto
  from Cons.prems(1) obtain V where V: "definePreference m name v None W = Some V" "definePreferences m ds V = Some W'"
    by (auto simp: Option.bind_eq_Some_conv d)
  have len: "length (managers V) = length (managers W)"
    and first: "map_option observers (manager_record m n V) =
      (if n = name \<and> manager_record m n W = None then Some [] else map_option observers (manager_record m n W))"
    using definePreference_observers [OF V(1) Cons.prems(2), of n] by blast+
  have l: "m < length (managers V)" using Cons.prems(2) len by simp
  have none: "\<forall>d \<in> set ds. snd (snd d) = None" using Cons.prems(3) by simp
  have rest: "length (managers W') = length (managers V) \<and>
      map_option observers (manager_record m n W') =
        (if n \<in> fst ` set ds \<and> manager_record m n V = None then Some [] else map_option observers (manager_record m n V))"
    by (rule Cons.IH [OF V(2) l none])
  have "manager_record m n V = None \<longleftrightarrow> n \<noteq> name \<and> manager_record m n W = None"
    using first by (cases "manager_record m n V"; cases "manager_record m n W") (auto split: if_splits)
  with first rest len show ?case by (cases "manager_record m n V"; cases "manager_record m n W") (auto simp: d split: if_splits)
qed simp

lemma add_observers_observers:
  assumes "add_observers m os W = Some W'" "m < length (managers W)"
  shows "length (managers W') = length (managers W) \<and>
    map_option observers (manager_record m n W') =
      map_option (\<lambda>is. is @ map snd (filter (\<lambda>x. fst x = n) os)) (map_option observers (manager_record m n W)) \<and>
    (\<forall>name \<in> fst ` set os. manager_record m name W \<noteq> None)"
  using assms
proof (induction os arbitrary: W)
  case Nil
  then show ?case by (simp add: option.map_comp comp_def)
next
  case (Cons x os)
  obtain name i where x: "x = (name, i)" by fastforce
  from Cons.prems(1) obtain r where r: "manager_record m name W = Some r"
      "add_observers m os (put_record m name (r\<lparr>observers := observers r @ [i]\<rparr>) W) = Some W'"
    by (auto simp: Option.bind_eq_Some_conv x add_record_observer_def)
  let ?V = "put_record m name (r\<lparr>observers := observers r @ [i]\<rparr>) W"
  have l: "length (managers ?V) = length (managers W)" by (simp add: put_record_def update_manager_def)
  then have rest: "length (managers W') = length (managers W) \<and>
      map_option observers (manager_record m n W') =
        map_option (\<lambda>is. is @ map snd (filter (\<lambda>x. fst x = n) os)) (map_option observers (manager_record m n ?V)) \<and>
      (\<forall>name \<in> fst ` set os. manager_record m name ?V \<noteq> None)"
    using Cons.IH [OF r(2)] Cons.prems(2) by simp
  have "\<forall>name \<in> fst ` set (x # os). manager_record m name W \<noteq> None"
    using rest r(1) Cons.prems(2) by (auto simp: x put_record_any split: if_splits)
  moreover have "map_option (\<lambda>is. is @ map snd (filter (\<lambda>x. fst x = n) os)) (map_option observers (manager_record m n ?V)) =
      map_option (\<lambda>is. is @ map snd (filter (\<lambda>x. fst x = n) (x # os))) (map_option observers (manager_record m n W))"
    using r(1) Cons.prems(2) by (cases "manager_record m n W") (auto simp: x put_record_any)
  ultimately show ?case using rest by simp
qed

lemma setProfile_linked:
  assumes "setProfile E name callback S = Some S'" "profileId S \<noteq> Some (filter (\<lambda>c. c \<noteq> 47) name)"
  shows "profile_linked E S'"
proof -
  let ?m = "length (managers (prefs S))" and ?name = "filter (\<lambda>c. c \<noteq> 47) name"
  let ?zip = "zip (map fst (profile_observers E)) [0..<length (profile_observers E)]"
  define ds :: "(jsstring \<times> pref_value \<times> nat option) list"
    where "ds = map (\<lambda>(name, p). (name, pref_default p, None)) defaultPreferences"
  from assms obtain U V W where
    U: "(case own_prefs S of None \<Rightarrow> Some (prefs S) | Some m \<Rightarrow> deactivate m (prefs S)) = Some U"
    and V: "new_profile_manager ?name U = Some V" and W: "addObservers ?m None ?zip V = Some W"
    and S': "take_prefs E (readStorage ?m W) (S\<lparr>profileId := Some ?name, own_prefs := Some ?m, reads := reads S @ [callback]\<rparr>) = Some S'"
    unfolding setProfile_def Let_def by (auto simp: Option.bind_eq_Some_conv split: if_splits)
  have m: "length (managers U) = ?m"
    using U by (auto simp: deactivate_def update_manager_def split: option.splits if_splits)
  let ?U = "new_manager (profile_prefix @ ?name) U"
  have new: "length (managers ?U) = ?m + 1" "manager_record ?m n ?U = None" for n
    using m by (simp_all add: new_manager_def manager_record_def nth_append)
  have d: "definePreferences ?m ds ?U = Some V" using V by (simp add: new_profile_manager_def m ds_def)
  have none: "\<forall>d \<in> set ds. snd (snd d) = None" by (auto simp: ds_def)
  have lt: "?m < length (managers ?U)" using new(1) by simp
  have lenV: "length (managers V) = ?m + 1" and V': "map_option observers (manager_record ?m n V) = (if n \<in> fst ` set ds then Some [] else None)" for n
    using definePreferences_observers [OF d lt none, of n] new by simp_all
  have a: "add_observers ?m ?zip V = Some W" using W by (simp add: addObservers_def)
  have ltV: "?m < length (managers V)" using lenV by simp
  have lenW: "length (managers W) = ?m + 1"
    and W': "map_option observers (manager_record ?m n W) =
      map_option (\<lambda>is. is @ map snd (filter (\<lambda>x. fst x = n) ?zip)) (map_option observers (manager_record ?m n V))"
    and known: "\<forall>name \<in> fst ` set ?zip. manager_record ?m name V \<noteq> None" for n
    using add_observers_observers [OF a ltV, of n] lenV by simp_all
  have obs: "map_option observers (manager_record ?m n W) = (if n \<in> fst ` set ds then Some (observers_for E n) else None)" for n
    unfolding W' V' observers_for_def by simp
  have "linked E ?m W"
    unfolding linked_def
  proof (intro conjI allI impI ballI)
    show "?m < length (managers W)" using lenW by simp
    show "observers r = observers_for E n" if "manager_record ?m n W = Some r" for n r
      using obs [of n] that by (simp split: if_splits)
    fix n
    assume n: "n \<in> fst ` set (profile_observers E)"
    have "map fst ?zip = map fst (profile_observers E)" by simp
    then have "n \<in> fst ` set ?zip" using n by (metis list.set_map)
    then have "map_option observers (manager_record ?m n V) \<noteq> None" using known by auto
    then show "manager_record ?m n W \<noteq> None" using obs [of n] V' [of n] by (auto split: if_splits)
  qed
  moreover have "same_observers W (prefs S')"
    by (rule same_observers_trans [OF same_observers_managers same_prefs_observers [OF take_prefs_result(1) [OF S']]])
      (simp add: readStorage_def)
  ultimately have "linked E ?m (prefs S')" by (rule linked_same)
  then show ?thesis using take_prefs_result(2) [OF S'] by (simp add: profile_linked_def)
qed

section \<open>All preferences are notified\<close>

definition record_calls :: "nat \<Rightarrow> jsstring \<Rightarrow> pref_world \<Rightarrow> observer_call list" where
  "record_calls m n W =
     (case manager_record m n W of
        None \<Rightarrow> []
      | Some r \<Rightarrow> map (\<lambda>i. GlobalCall i n (record_get r)) (globalObservers (managers W ! m)) @
          map (\<lambda>i. RecordCall i (record_get r) n m) (observers r))"

lemma notify_each_calls:
  "notify_each m names W = Some W' \<Longrightarrow>
    observer_calls W' = observer_calls W @ concat (map (\<lambda>n. record_calls m n W) names)"
proof (induction names arbitrary: W)
  case (Cons n names)
  from Cons.prems obtain V where V: "notifyChange m n W = Some V" "notify_each m names V = Some W'"
    by (auto simp: Option.bind_eq_Some_conv)
  have same: "managers V = managers W" using V(1) by (rule notifyChange_managers)
  have "record_calls m i V = record_calls m i W" for i
    by (simp only: record_calls_def record_managers [OF same] same)
  with Cons.IH [OF V(2)] V(1) show ?case by (auto simp: notifyChange_def record_calls_def split: option.splits)
qed simp

lemma told_global: "told E n (map (\<lambda>i. GlobalCall i name v) is) = None"
  by (induction "is") simp_all

lemma told_record:
  "told E n (map (\<lambda>i. RecordCall i v name m) is) =
    (if \<exists>i \<in> set is. i < length (profile_observers E) \<and> fst (profile_observers E ! i) = n then Some v else None)"
  by (induction "is") auto

lemma told_record_calls:
  assumes "linked E m W" "n \<in> fst ` set (profile_observers E)"
  shows "told E n (record_calls m name W) = (if name = n then map_option record_get (manager_record m n W) else None)"
proof (cases "manager_record m name W")
  case None
  then show ?thesis by (auto simp: record_calls_def)
next
  case (Some r)
  have o: "observers r = observers_for E name" using assms(1) Some by (simp add: linked_def)
  obtain i where "i < length (profile_observers E)" "fst (profile_observers E ! i) = n"
    using assms(2) by (metis (no_types, lifting) imageE in_set_conv_nth)
  then have "(\<exists>i \<in> set (observers r). i < length (profile_observers E) \<and> fst (profile_observers E ! i) = n) \<longleftrightarrow> name = n"
    by (auto simp: o observers_for_iff)
  then show ?thesis using Some
    by (cases "name = n") (simp_all add: record_calls_def told_append told_global told_record)
qed

lemma told_all:
  assumes "linked E m W" "n \<in> fst ` set (profile_observers E)" "manager_record m n W = Some r"
  shows "told E n (concat (map (\<lambda>n. record_calls m n W) names)) = (if n \<in> set names then Some (record_get r) else None)"
  by (induction names) (auto simp: told_append told_record_calls [OF assms(1,2)] assms(3))

lemma switch_names:
  assumes "(n, on) \<in> set switches"
  shows "js n \<in> fst ` set (profile_observers E)" and "js n \<noteq> bell"
proof -
  have "list_all (\<lambda>n. n \<in> set observed_names \<and> n \<noteq> ''audible-bell-sound'') (map fst switches)"
    by (simp add: all_switches observed_names_def)
  then have n: "n \<in> set observed_names" "n \<noteq> ''audible-bell-sound''" using assms by (force simp: list_all_iff)+
  have "fst ` set (profile_observers E) = set (map js observed_names)" by (metis list.set_map map_fst_observers)
  then show "js n \<in> fst ` set (profile_observers E)" using n(1) by simp
  show "js n \<noteq> bell" unfolding bell_def using n(2) by (simp del: js_Cons)
qed

lemma timeout_switches:
  assumes "profile_linked E S2" "read_timeouts S2 \<noteq> []" "timeout_ends E S2 = Some S3"
  shows "list_all (\<lambda>(n, on). map_option truthy (own_pref (js n) S3) = Some (on S3)) switches"
proof -
  from assms(1) obtain m where m: "own_prefs S2 = Some m" "linked E m (prefs S2)"
    by (auto simp: profile_linked_def split: option.splits)
  from assms(2) obtain cb rest where rt: "read_timeouts S2 = cb # rest" by (cases "read_timeouts S2") auto
  from assms(3) obtain W T where W: "notifyAll m (prefs S2) = Some W" "take_prefs E W (S2\<lparr>read_timeouts := rest\<rparr>) = Some T"
      "S3 = (if cb then T\<lparr>ready := True, callbacks := callbacks T + 1\<rparr> else T)"
    by (auto simp: timeout_ends_def rt m(1) Option.bind_eq_Some_conv)
  let ?names = "map fst (prefRecords (managers (prefs S2) ! m))"
  have calls: "observer_calls W = observer_calls (prefs S2) @ concat (map (\<lambda>n. record_calls m n (prefs S2)) ?names)"
    using W(1) notify_each_calls by (simp add: notifyAll_def)
  have same: "managers W = managers (prefs S2)" using W(1) notify_each_managers by (simp add: notifyAll_def)
  have parts: "switch_parts S3 = switch_parts T" by (simp add: W(3) switch_parts_def)
  have "map_option truthy (own_pref (js n) S3) = Some (on S3)" if sw: "(n, on) \<in> set switches" for n on
  proof -
    from m(2) switch_names(1) [OF sw] obtain r where r: "manager_record m (js n) (prefs S2) = Some r"
      unfolding linked_def by blast
    then have "(js n, r) \<in> set (prefRecords (managers (prefs S2) ! m))"
      by (auto simp: manager_record_def dest: map_of_SomeD)
    then have known: "js n \<in> set ?names" by force
    have "told E (js n) (observer_calls W) = Some (record_get r)"
      unfolding calls told_append told_all [OF m(2) switch_names(1) [OF sw] r] using known by simp
    then have "on T = truthy (record_get r)" using take_prefs_result(6) [OF W(2) sw] by simp
    moreover have "on S3 = on T" using same_parts [OF parts] sw by (force simp: unswitched_def list_all_iff)
    moreover have "own_pref (js n) S3 = Some (record_get r)"
    proof -
      have "pref_get m (js n) (prefs T) = pref_get m (js n) W"
        using take_prefs_result(1) [OF W(2)] switch_names(2) [OF sw] by (simp add: same_prefs_def)
      moreover have "pref_get m (js n) W = Some (record_get r)"
        using r record_managers [OF same] by (simp add: pref_get_def)
      moreover have "own_prefs S3 = Some m" using take_prefs_result(2) [OF W(2)] m(1) by (simp add: W(3))
      moreover have "prefs S3 = prefs T" by (simp add: W(3))
      ultimately show ?thesis by (simp add: own_pref_def)
    qed
    ultimately show ?thesis by simp
  qed
  then show ?thesis by (auto simp: list_all_iff)
qed

end
