(* ===== verification/ProfileStart.thy ===== *)
theory ProfileStart
  imports ProfileReady
begin

text \<open>
  A new terminal on a page where nothing is stored: \<open>setProfile\<close> does not throw, the items arrive, no
  observer throws for the default values, and the terminal gets ready.
\<close>

section \<open>Defining the preferences\<close>

text \<open>Only the records of one manager change.\<close>

definition only_records :: "nat \<Rightarrow> pref_world \<Rightarrow> pref_world \<Rightarrow> bool" where
  "only_records m W W' \<longleftrightarrow> length (managers W') = length (managers W) \<and> stored W' = stored W \<and>
     pref_tasks W' = pref_tasks W \<and> observer_calls W' = observer_calls W \<and>
     globalObservers (managers W' ! m) = globalObservers (managers W ! m)"

lemma only_records_refl: "only_records m W W"
  by (simp add: only_records_def)

lemma only_records_trans: "only_records m U V \<Longrightarrow> only_records m V W \<Longrightarrow> only_records m U W"
  by (simp add: only_records_def)

lemma put_record_only: "m < length (managers W) \<Longrightarrow> only_records m W (put_record m name r W)"
  by (simp add: only_records_def put_record_def update_manager_def)

definition fresh_record :: "pref_value \<Rightarrow> pref_record" where
  "fresh_record v = \<lparr>defaultValue = v, currentValue = None, observers = []\<rparr>"

lemma definePreferences_new:
  assumes "m < length (managers W)" "distinct (map fst ds)"
    and "\<forall>(name, v, i) \<in> set ds. i = None \<and> manager_record m name W = None \<and> \<not> inherited_name name"
  shows "\<exists>W'. definePreferences m ds W = Some W' \<and> only_records m W W' \<and>
    (\<forall>n. manager_record m n W' = (case map_of ds n of
       Some (v, i) \<Rightarrow> Some (fresh_record v) | None \<Rightarrow> manager_record m n W))"
  using assms
proof (induction ds arbitrary: W)
  case Nil
  then show ?case by (simp add: only_records_refl)
next
  case (Cons d ds)
  obtain name v where d: "d = (name, v, None)" using Cons.prems(3) by (cases d) auto
  let ?W = "put_record m name (fresh_record v) W"
  have first: "definePreference m name v None W = Some ?W"
    using Cons.prems(3) by (simp add: d definePreference_def fresh_record_def)
  have only: "only_records m W ?W" using Cons.prems(1) by (rule put_record_only)
  have names: "name \<notin> fst ` set ds" "distinct (map fst ds)" using Cons.prems(2) by (simp_all add: d)
  have l: "m < length (managers ?W)" using only Cons.prems(1) by (simp add: only_records_def)
  have "\<forall>(n, u, i) \<in> set ds. i = None \<and> manager_record m n ?W = None \<and> \<not> inherited_name n"
    using Cons.prems(1,3) names(1) by (force simp: put_record_any)
  from Cons.IH [OF l names(2) this] obtain W' where W': "definePreferences m ds ?W = Some W'" "only_records m ?W W'"
      "\<forall>n. manager_record m n W' = (case map_of ds n of
         Some (v, i) \<Rightarrow> Some (fresh_record v) | None \<Rightarrow> manager_record m n ?W)"
    by blast
  have "map_of ds name = None" using names(1) by (simp add: map_of_eq_None_iff)
  then have "manager_record m n W' = (case map_of (d # ds) n of
      Some (v, i) \<Rightarrow> Some (fresh_record v) | None \<Rightarrow> manager_record m n W)" for n
    using W'(3) [rule_format, of n] Cons.prems(1) by (cases "n = name") (simp_all add: d put_record_any split: option.split)
  moreover have "definePreferences m (d # ds) W = Some W'" using first W'(1) by (simp add: d)
  ultimately show ?case using only_records_trans [OF only W'(2)] by blast
qed

lemma add_observers_known:
  assumes "m < length (managers W)" "\<forall>name \<in> fst ` set os. manager_record m name W \<noteq> None"
  shows "\<exists>W'. add_observers m os W = Some W' \<and> only_records m W W' \<and>
    (\<forall>n. map_option (\<lambda>r. (defaultValue r, currentValue r)) (manager_record m n W') =
       map_option (\<lambda>r. (defaultValue r, currentValue r)) (manager_record m n W))"
  using assms
proof (induction os arbitrary: W)
  case Nil
  then show ?case by (simp add: only_records_refl)
next
  case (Cons x os)
  obtain name i where x: "x = (name, i)" by fastforce
  from Cons.prems(2) x obtain r where r: "manager_record m name W = Some r" by auto
  let ?W = "put_record m name (r\<lparr>observers := observers r @ [i]\<rparr>) W"
  have only: "only_records m W ?W" using Cons.prems(1) by (rule put_record_only)
  have l: "m < length (managers ?W)" using only Cons.prems(1) by (simp add: only_records_def)
  have "\<forall>name \<in> fst ` set os. manager_record m name ?W \<noteq> None"
    using Cons.prems by (auto simp: put_record_any)
  from Cons.IH [OF l this] obtain W' where W': "add_observers m os ?W = Some W'" "only_records m ?W W'"
      "\<forall>n. map_option (\<lambda>r. (defaultValue r, currentValue r)) (manager_record m n W') =
         map_option (\<lambda>r. (defaultValue r, currentValue r)) (manager_record m n ?W)"
    by blast
  have "map_option (\<lambda>r. (defaultValue r, currentValue r)) (manager_record m n ?W) =
      map_option (\<lambda>r. (defaultValue r, currentValue r)) (manager_record m n W)" for n
    using r Cons.prems(1) by (simp add: put_record_any)
  moreover have "add_observers m (x # os) W = Some W'" using r W'(1) by (simp add: x add_record_observer_def)
  ultimately show ?case using W'(3) only_records_trans [OF only W'(2)] by auto
qed

text \<open>The default values.\<close>

definition default_value :: "jsstring \<Rightarrow> pref_value option" where
  "default_value n = map_option pref_default (map_of defaultPreferences n)"

lemma map_of_defaults:
  "map_of (map (\<lambda>(name, p). (name, pref_default p, None)) defaultPreferences) n =
    map_option (\<lambda>v. (v, None)) (default_value n)"
  by (simp add: default_value_def map_of_map option.map_comp comp_def)

lemma no_inherited_names: "list_all (\<lambda>name. \<not> inherited_name (js name)) declared_names"
proof -
  have "list_all (\<lambda>name. name \<notin> set object_members) declared_names" by code_simp
  then show ?thesis by (auto simp: inherited_name_def list_all_iff)
qed

lemma observed_declared: "name \<in> fst ` set (profile_observers E) \<Longrightarrow> default_value name \<noteq> None"
proof -
  assume "name \<in> fst ` set (profile_observers E)"
  then have "name \<in> set (map js observed_names)" by (metis list.set_map map_fst_observers)
  moreover have "set observed_names \<subseteq> set declared_names"
    using mset_declared by (metis Un_upper1 set_append set_mset_mset)
  ultimately have "name \<in> set (map fst defaultPreferences)" unfolding map_fst_preferences by auto
  then show ?thesis by (simp add: default_value_def map_of_eq_None_iff)
qed

lemma special_defaults:
  "default_value bell = Some (StringValue (js ''lib-resource:hterm/audio/bell''))"
  "default_value (js ''background-color'') = Some (StringValue (js ''rgb(16, 16, 16)''))"
  "default_value (js ''foreground-color'') = Some (StringValue (js ''rgb(240, 240, 240)''))"
  "default_value (js ''color-palette-overrides'') = Some NullValue"
  unfolding default_value_def bell_def by code_simp+

section \<open>No observer throws\<close>

text \<open>The preferences that observers read, and that the values they are called with are those expected.\<close>

definition read_names :: "string list" where
  "read_names = [''enable-bold'', ''font-family'', ''font-smoothing'', ''mouse-paste-button'', ''keybindings'',
     ''keybindings-os-defaults'']"

definition knows :: "profile \<Rightarrow> bool" where
  "knows S \<longleftrightarrow> list_all (\<lambda>n. own_pref (js n) S \<noteq> None) read_names"

definition harmless :: "profile_env \<Rightarrow> jsstring \<Rightarrow> pref_value \<Rightarrow> bool" where
  "harmless E name v \<longleftrightarrow>
     (name = bell \<longrightarrow> (\<exists>s. v = StringValue s \<and> (\<forall>n. resource_name s = Some n \<longrightarrow> resource_url E n \<noteq> None))) \<and>
     (name \<in> {js ''background-color'', js ''foreground-color''} \<longrightarrow>
        (\<exists>s. v = StringValue s \<and> (\<forall>T. normalizeCSS T s \<noteq> Some Inherited))) \<and>
     (name = js ''color-palette-overrides'' \<longrightarrow> v = NullValue)"

lemma kept_knows: "kept S S' \<Longrightarrow> knows S \<Longrightarrow> knows S'"
  unfolding knows_def read_names_def by (auto simp: kept_def own_pref_def same_prefs_def bell_def)

lemma set_bell_total:
  assumes "\<forall>n. resource_name s = Some n \<longrightarrow> resource_url E n \<noteq> None"
  shows "\<exists>S'. bell_changed E (StringValue s) S = Some S'"
  using assms by (cases "resource_name s") (auto simp: bell_changed_def set_bell_def)

lemma text_color_total:
  assumes "\<forall>T. normalizeCSS T s \<noteq> Some Inherited"
  shows "\<exists>S'. text_color setBackgroundColor (StringValue s) S = Some S'" "\<exists>S'. text_color setForegroundColor (StringValue s) S = Some S'"
  using assms by (auto simp: text_color_def run_machine_def setBackgroundColor_def setForegroundColor_def set_text_color_def
      emit_def split: option.split color_value.split)

lemma own_pref_ui [simp]: "own_pref n (S\<lparr>ui_calls := u\<rparr>) = own_pref n S"
  by (simp add: own_pref_def)

lemma stock_colors_total: "stock_colors i cs t \<noteq> None"
  by (induction cs arbitrary: i t) (auto simp: setColorPalette_def)

lemma palette_total: "\<exists>S'. override_palette E NullValue S = Some S'"
proof -
  obtain t where "stock_colors 0 stockPalette (vt_terminal (machine_of S)) = Some t" using stock_colors_total by blast
  then show ?thesis
    by (simp add: override_palette_def value_members_def run_machine_def run_def set_host_def set_attributes_def set_machine_def)
qed

definition total_ok :: "profile_env \<Rightarrow> (jsstring \<times> (pref_value \<Rightarrow> profile \<Rightarrow> profile option)) list \<Rightarrow> bool" where
  "total_ok E obs \<longleftrightarrow> list_all (\<lambda>(name, f). \<forall>v S. knows S \<longrightarrow> harmless E name v \<longrightarrow> f v S \<noteq> None) obs"

lemma total_ok_Nil: "total_ok E []"
  by (simp add: total_ok_def)

lemma total_ok_Cons: "total_ok E ((name, f) # obs) \<longleftrightarrow>
    (\<forall>v S. knows S \<longrightarrow> harmless E name v \<longrightarrow> f v S \<noteq> None) \<and> total_ok E obs"
  by (simp add: total_ok_def)

lemma key_observers_total: "total_ok E (key_observers E)"
  unfolding key_observers_def total_ok_Cons
  by (intro conjI allI impI total_ok_Nil)
    (auto simp: harmless_def bell_def setters set_bell_total text_color_total)

lemma look_observers_total: "total_ok E (look_observers E)"
  unfolding look_observers_def total_ok_Cons
  by (intro conjI allI impI total_ok_Nil)
    (auto simp: harmless_def setters text_color_total palette_total override_maps_def syncBoldSafeState_def syncFontFamily_def
      knows_def read_names_def split: pref_value.split option.split)

lemma page_observers_total: "total_ok E (page_observers E)"
  unfolding page_observers_def total_ok_Cons
  by (intro conjI allI impI total_ok_Nil)
    (auto simp: setters knows_def read_names_def split: option.split)

lemma scroll_observers_total: "total_ok E (scroll_observers E)"
  unfolding scroll_observers_def total_ok_Cons
  by (intro conjI allI impI total_ok_Nil) (auto simp: setters split: option.split)

lemma observers_total: "total_ok E (profile_observers E)"
  using key_observers_total look_observers_total page_observers_total scroll_observers_total
  by (simp add: profile_observers_def total_ok_def)

fun harmless_call :: "profile_env \<Rightarrow> observer_call \<Rightarrow> bool" where
  "harmless_call E (GlobalCall i name v) = True"
| "harmless_call E (RecordCall i v name m) =
     (i < length (profile_observers E) \<longrightarrow> harmless E (fst (profile_observers E ! i)) v)"

lemma observe_total:
  assumes "knows S" "list_all (harmless_call E) calls"
  shows "observe E calls S \<noteq> None"
  using assms
proof (induction E calls S rule: observe.induct)
  case (3 E i v name m calls S)
  show ?case
  proof (cases "i < length (profile_observers E)")
    case True
    have "list_all (\<lambda>(name, f). \<forall>v S. knows S \<longrightarrow> harmless E name v \<longrightarrow> f v S \<noteq> None) (profile_observers E)"
      using observers_total by (simp add: total_ok_def)
    from this [unfolded list_all_length, rule_format, OF True] 3(2,3) True
    obtain T where T: "snd (profile_observers E ! i) v S = Some T" by (auto simp: split_def)
    have "list_all (\<lambda>(name, f). \<forall>v S S'. f v S = Some S' \<longrightarrow> kept S S') (profile_observers E)"
      using observers_keep by (simp add: keep_ok_def)
    from this [unfolded list_all_length, rule_format, OF True] T have "kept S T" by (simp add: split_def)
    with 3(2) have "knows T" by (rule kept_knows [rotated])
    with 3(1) [of T] T True 3(3) show ?thesis by simp
  qed (use 3 in simp)
qed simp_all

section \<open>The terminal gets ready\<close>

text \<open>The default values are harmless where the sound of the bell is a resource.\<close>

lemma rgb_defaults:
  "normalizeCSS T (js ''rgb(16, 16, 16)'') \<noteq> Some Inherited" "normalizeCSS T (js ''rgb(240, 240, 240)'') \<noteq> Some Inherited"
proof -
  have "match_rgbx (js ''rgb(16, 16, 16)'') \<noteq> None" "match_rgbx (js ''rgb(240, 240, 240)'') \<noteq> None" by code_simp+
  then show "normalizeCSS T (js ''rgb(16, 16, 16)'') \<noteq> Some Inherited" "normalizeCSS T (js ''rgb(240, 240, 240)'') \<noteq> Some Inherited"
    by (simp_all add: normalizeCSS_def)
qed

lemma bell_resource: "resource_name (js ''lib-resource:hterm/audio/bell'') = Some (js ''hterm/audio/bell'')"
  by code_simp

lemma defaults_harmless:
  assumes "resource_url E (js ''hterm/audio/bell'') \<noteq> None" "default_value name = Some v"
  shows "harmless E name v"
proof -
  have "\<forall>n. resource_name (js ''lib-resource:hterm/audio/bell'') = Some n \<longrightarrow> resource_url E n \<noteq> None"
    unfolding bell_resource using assms(1) by simp
  then show ?thesis
    unfolding harmless_def using assms(2) special_defaults rgb_defaults by auto
qed

lemma take_prefs_none:
  assumes "observer_calls W = []"
  shows "take_prefs E W S = Some (S\<lparr>prefs := W\<rparr>)"
  using assms by (simp add: take_prefs_def)

text \<open>A manager with the default values, where nothing is stored.\<close>

definition defaults_only :: "profile_env \<Rightarrow> nat \<Rightarrow> pref_world \<Rightarrow> bool" where
  "defaults_only E m W \<longleftrightarrow> linked E m W \<and> observer_calls W = [] \<and> globalObservers (managers W ! m) = [] \<and>
     (\<forall>n. map_option (\<lambda>r. (defaultValue r, currentValue r)) (manager_record m n W) =
       map_option (\<lambda>v. (v, None)) (default_value n))"

lemma setProfile_defaults:
  assumes "own_prefs S = None" "profileId S \<noteq> Some (filter (\<lambda>c. c \<noteq> 47) name)"
    and "stored (prefs S) = []" "pref_tasks (prefs S) = []" "observer_calls (prefs S) = []"
  shows "\<exists>W. setProfile E name callback S = Some (S\<lparr>profileId := Some (filter (\<lambda>c. c \<noteq> 47) name),
      own_prefs := Some (length (managers (prefs S))), reads := reads S @ [callback], prefs := W\<rparr>) \<and>
    pref_tasks W = [ItemsRead (length (managers (prefs S))) []] \<and> defaults_only E (length (managers (prefs S))) W"
proof -
  let ?m = "length (managers (prefs S))" and ?name = "filter (\<lambda>c. c \<noteq> 47) name"
  let ?zip = "zip (map fst (profile_observers E)) [0..<length (profile_observers E)]"
  let ?U = "new_manager (profile_prefix @ ?name) (prefs S)"
  define ds :: "(jsstring \<times> pref_value \<times> nat option) list"
    where "ds = map (\<lambda>(name, p). (name, pref_default p, None)) defaultPreferences"
  have U: "?m < length (managers ?U)" "manager_record ?m n ?U = None" "stored ?U = []" "pref_tasks ?U = []"
      "observer_calls ?U = []" "globalObservers (managers ?U ! ?m) = []" for n
    using assms by (simp_all add: new_manager_def manager_record_def nth_append)
  have names: "map fst ds = map js declared_names" unfolding map_fst_preferences [symmetric] ds_def by auto
  have dist: "distinct (map fst ds)" unfolding names distinct_js by (rule distinct_declared)
  have inh: "\<not> inherited_name name" if "name \<in> set (map fst ds)" for name
    using that no_inherited_names unfolding names by (auto simp: list_all_iff)
  have "\<forall>(name, v, i) \<in> set ds. i = None \<and> manager_record ?m name ?U = None \<and> \<not> inherited_name name"
  proof
    fix d
    assume d: "d \<in> set ds"
    then obtain name v where nv: "d = (name, v, None)" by (auto simp: ds_def)
    with d have "name \<in> set (map fst ds)" by force
    with inh U(2) nv show "case d of (name, v, i) \<Rightarrow> i = None \<and> manager_record ?m name ?U = None \<and> \<not> inherited_name name" by simp
  qed
  from definePreferences_new [OF U(1) dist this] obtain V where V: "definePreferences ?m ds ?U = Some V" "only_records ?m ?U V"
      "\<And>n. manager_record ?m n V = (case map_of ds n of Some (v, i) \<Rightarrow> Some (fresh_record v) | None \<Rightarrow> manager_record ?m n ?U)"
    by blast
  have rec: "manager_record ?m n V = map_option fresh_record (default_value n)" for n
    unfolding V(3) U(2) by (simp add: ds_def map_of_defaults split: option.split)
  have "map fst ?zip = map fst (profile_observers E)" by simp
  then have "fst ` set ?zip = fst ` set (profile_observers E)" by (metis list.set_map)
  then have "\<forall>name \<in> fst ` set ?zip. manager_record ?m name V \<noteq> None"
    using observed_declared by (auto simp: rec)
  from add_observers_known [OF _ this] V(2) U(1) obtain W where W: "add_observers ?m ?zip V = Some W" "only_records ?m V W"
      "\<And>n. map_option (\<lambda>r. (defaultValue r, currentValue r)) (manager_record ?m n W) =
        map_option (\<lambda>r. (defaultValue r, currentValue r)) (manager_record ?m n V)"
    by (auto simp: only_records_def)
  have only: "only_records ?m ?U W" using V(2) W(2) by (rule only_records_trans)
  let ?W = "readStorage ?m W"
  have "stored W = []" using only U(3) by (simp add: only_records_def)
  then have W': "?W = W\<lparr>pref_tasks := pref_tasks W @ [ItemsRead ?m []]\<rparr>"
    by (simp add: readStorage_def add_task_def memory_get_def List.map_filter_def)
  have calls: "observer_calls ?W = []" using only U(5) by (simp add: W' only_records_def)
  have set: "setProfile E name callback S =
      Some (S\<lparr>profileId := Some ?name, own_prefs := Some ?m, reads := reads S @ [callback], prefs := ?W\<rparr>)"
    using assms(1,2) V(1) W(1) take_prefs_none [OF calls]
    by (simp add: setProfile_def Let_def new_profile_manager_def addObservers_def ds_def)
  have "profile_linked E (S\<lparr>profileId := Some ?name, own_prefs := Some ?m, reads := reads S @ [callback], prefs := ?W\<rparr>)"
    using setProfile_linked [OF set assms(2)] .
  then have "linked E ?m ?W" by (simp add: profile_linked_def)
  moreover have "map_option (\<lambda>r. (defaultValue r, currentValue r)) (manager_record ?m n ?W) =
      map_option (\<lambda>v. (v, None)) (default_value n)" for n
  proof -
    have "manager_record ?m n ?W = manager_record ?m n W" by (simp add: W' manager_record_def)
    then show ?thesis using W(3) [of n] by (simp add: rec option.map_comp comp_def fresh_record_def)
  qed
  moreover have "globalObservers (managers ?W ! ?m) = []" using only U(6) by (simp add: W' only_records_def)
  ultimately have "defaults_only E ?m ?W" using calls by (simp add: defaults_only_def)
  moreover have "pref_tasks ?W = [ItemsRead ?m []]" using only U(4) by (simp add: W' only_records_def)
  ultimately show ?thesis using set by blast
qed

lemma notify_each_total:
  "\<forall>n \<in> set names. manager_record m n W \<noteq> None \<Longrightarrow> \<exists>W'. notify_each m names W = Some W'"
proof (induction names arbitrary: W)
  case (Cons n names)
  then obtain V where V: "notifyChange m n W = Some V" by (auto simp: notifyChange_def)
  have "\<forall>n \<in> set names. manager_record m n V \<noteq> None"
    using Cons.prems record_managers [OF notifyChange_managers [OF V]] by simp
  from Cons.IH [OF this] V show ?case by simp
qed simp

lemma notify_defaults:
  assumes "defaults_only E m W" "resource_url E (js ''hterm/audio/bell'') \<noteq> None"
  shows "\<exists>W'. notifyAll m W = Some W' \<and> managers W' = managers W \<and> list_all (harmless_call E) (observer_calls W')"
proof -
  let ?names = "map fst (prefRecords (managers W ! m))"
  have "\<forall>n \<in> set ?names. manager_record m n W \<noteq> None" by (auto simp: manager_record_def map_of_eq_None_iff)
  from notify_each_total [OF this] obtain W' where W': "notify_each m ?names W = Some W'" by blast
  have "harmless_call E c" if "c \<in> set (record_calls m n W)" for c n
  proof (cases "manager_record m n W")
    case None
    then show ?thesis using that by (simp add: record_calls_def)
  next
    case (Some r)
    have "map_option (\<lambda>r. (defaultValue r, currentValue r)) (manager_record m n W) = map_option (\<lambda>v. (v, None)) (default_value n)"
      using assms(1) by (simp add: defaults_only_def)
    then have "default_value n = Some (record_get r)" using Some by (cases "default_value n") (simp_all add: record_get_def)
    moreover have "observers r = observers_for E n" using assms(1) Some by (simp add: defaults_only_def linked_def)
    ultimately have r: "observers r = observers_for E n" "default_value n = Some (record_get r)" by simp_all
    from that Some assms(1) obtain i where "c = RecordCall i (record_get r) n m" "i \<in> set (observers r)"
      by (auto simp: record_calls_def defaults_only_def)
    then show ?thesis using defaults_harmless [OF assms(2) r(2)] by (simp add: r(1) observers_for_iff)
  qed
  moreover have "observer_calls W' = concat (map (\<lambda>n. record_calls m n W) ?names)"
    using notify_each_calls [OF W'] assms(1) by (simp add: defaults_only_def)
  ultimately have "list_all (harmless_call E) (observer_calls W')" by (fastforce simp: list_all_iff)
  then show ?thesis using W' notify_each_managers [OF W'] by (simp add: notifyAll_def)
qed

lemma defaults_known:
  assumes "own_prefs S = Some m" "defaults_only E m (prefs S)"
  shows "own_pref n S = default_value n"
proof -
  have "map_option (\<lambda>r. (defaultValue r, currentValue r)) (manager_record m n (prefs S)) =
      map_option (\<lambda>v. (v, None)) (default_value n)"
    using assms(2) by (simp add: defaults_only_def)
  then show ?thesis
    using assms(1) by (cases "manager_record m n (prefs S)"; cases "default_value n")
      (simp_all add: own_pref_def pref_get_def record_get_def)
qed

lemma read_names_known: "list_all (\<lambda>n. default_value (js n) \<noteq> None) read_names"
proof -
  have "list_all (\<lambda>n. n \<in> set declared_names) read_names" by (simp add: read_names_def declared_names_def)
  moreover have "default_value (js n) \<noteq> None" if "n \<in> set declared_names" for n
  proof -
    have "js n \<in> set (map fst defaultPreferences)" using that unfolding map_fst_preferences by simp
    then show ?thesis by (simp add: default_value_def map_of_eq_None_iff)
  qed
  ultimately show ?thesis by (simp add: list_all_iff)
qed

text \<open>The three steps that make a terminal ready.\<close>

lemma ready_steps:
  assumes "own_prefs S = None" "profileId S = None" "reads S = []" "read_timeouts S = []"
    and "stored (prefs S) = []" "pref_tasks (prefs S) = []" "observer_calls (prefs S) = []"
    and "resource_url E (js ''hterm/audio/bell'') \<noteq> None"
  shows "\<exists>S1 S2 S3. setProfile E name True S = Some S1 \<and> prefs_run E [Turn, Turn] S1 = Some S2 \<and>
    read_timeouts S2 = [True] \<and> timeout_ends E S2 = Some S3 \<and> ready S3 \<and> callbacks S3 = callbacks S + 1 \<and>
    profile_linked E S2 \<and> (\<forall>n. n \<noteq> bell \<longrightarrow> own_pref n S3 = default_value n)"
proof -
  let ?m = "length (managers (prefs S))" and ?name = "filter (\<lambda>c. c \<noteq> 47) name"
  from setProfile_defaults [of S name E True] assms obtain W where
    S1: "setProfile E name True S = Some (S\<lparr>profileId := Some ?name, own_prefs := Some ?m, reads := [True], prefs := W\<rparr>)"
    and W: "pref_tasks W = [ItemsRead ?m []]" "defaults_only E ?m W"
    by auto
  let ?S1 = "S\<lparr>profileId := Some ?name, own_prefs := Some ?m, reads := [True], prefs := W\<rparr>"
  let ?W1 = "W\<lparr>pref_tasks := [ItemsArrived ?m []]\<rparr>" and ?W2 = "W\<lparr>pref_tasks := []\<rparr>"
  have calls: "observer_calls W = []" using W(2) by (simp add: defaults_only_def)
  have t1: "prefs_step E Turn ?S1 = Some (?S1\<lparr>prefs := ?W1\<rparr>)"
    using W(1) calls by (simp add: prefs_step_def run_task_def add_task_def take_prefs_none)
  let ?S2 = "?S1\<lparr>prefs := ?W2, reads := [], read_timeouts := [True]\<rparr>"
  have t2: "prefs_step E Turn (?S1\<lparr>prefs := ?W1\<rparr>) = Some ?S2"
    using calls assms(4) by (simp add: prefs_step_def run_task_def take_prefs_none)
  have run: "prefs_run E [Turn, Turn] ?S1 = Some ?S2" using t1 t2 by simp
  have d2: "defaults_only E ?m ?W2"
    using W(2) unfolding defaults_only_def linked_def by (simp add: manager_record_def)
  from notify_defaults [OF d2 assms(8)] obtain W3 where W3: "notifyAll ?m ?W2 = Some W3" "managers W3 = managers ?W2"
      "list_all (harmless_call E) (observer_calls W3)" by blast
  let ?T = "?S2\<lparr>read_timeouts := [], prefs := W3\<lparr>observer_calls := []\<rparr>\<rparr>"
  have own2: "own_pref n ?T = default_value n" for n
  proof -
    have "pref_get ?m n (W3\<lparr>observer_calls := []\<rparr>) = pref_get ?m n ?W2"
      by (simp add: pref_get_def record_managers [OF W3(2)])
    then have "own_pref n ?T = own_pref n ?S2" by (simp add: own_pref_def)
    also have "\<dots> = default_value n" by (rule defaults_known [where m = ?m and E = E]) (simp_all add: d2)
    finally show ?thesis .
  qed
  have "knows ?T" using read_names_known unfolding knows_def own2 .
  then obtain T where T: "observe E (observer_calls W3) ?T = Some T" using observe_total W3(3) by blast
  have k: "kept ?T T" using T by (rule observe_kept)
  let ?S3 = "T\<lparr>ready := True, callbacks := callbacks T + 1\<rparr>"
  have "timeout_ends E ?S2 = Some ?S3" using W3(1) T by (simp add: timeout_ends_def take_prefs_def)
  moreover have "callbacks ?S3 = callbacks S + 1" using k by (simp add: kept_def)
  moreover have "own_pref n ?S3 = default_value n" if "n \<noteq> bell" for n
  proof -
    have "own_pref n ?S3 = own_pref n ?T" using k that by (simp add: kept_def own_pref_def same_prefs_def)
    then show ?thesis by (simp only: own2)
  qed
  moreover have "profile_linked E ?S2" using d2 by (simp add: profile_linked_def defaults_only_def)
  ultimately show ?thesis using S1 run by fastforce
qed

text \<open>
  C34. A terminal gets ready on a page where nothing is stored: \<open>setProfile\<close> does not throw, after two turns
  the items have arrived, in the timeout that follows no observer throws, the callback is called once, and the
  preferences of the terminal have the default values they are declared with, the sound of the bell excepted.
\<close>

theorem terminal_gets_ready:
  assumes "own_prefs S = None" "profileId S = None" "reads S = []" "read_timeouts S = []"
    and "stored (prefs S) = []" "pref_tasks (prefs S) = []" "observer_calls (prefs S) = []"
    and "resource_url E (js ''hterm/audio/bell'') \<noteq> None"
  shows "\<exists>S1 S2 S3. setProfile E name True S = Some S1 \<and> prefs_run E [Turn, Turn] S1 = Some S2 \<and>
    timeout_ends E S2 = Some S3 \<and> ready S3 \<and> callbacks S3 = callbacks S + 1 \<and>
    (\<forall>n. n \<noteq> js ''audible-bell-sound'' \<longrightarrow> own_pref n S3 = default_value n)"
  using ready_steps [OF assms, of name] unfolding bell_def by metis

text \<open>A terminal and a page for examples.\<close>

definition example_env :: profile_env where
  "example_env = \<lparr>os_name = js ''linux'', in_popup = False, language = js ''en-us'', object_text = (\<lambda>s. s),
     object_members_of = (\<lambda>s. []), object_elements = (\<lambda>s. None), parse_float = (\<lambda>s. None), bold_is_safe = True,
     notifications_granted = False, resource_url = (\<lambda>n. Some (js ''data:'')), other_action = (\<lambda>v. DEFAULT)\<rparr>"

definition example_profile :: "machine \<Rightarrow> profile" where
  "example_profile m = \<lparr>profileId = None, prefs = new_world, own_prefs = None, machine_of = m, host_base = unit_host,
     keys_of = new_keys False False, key_host_of = plain_host, bell_source = None, desktopNotificationBell = False,
     mouseHideWhileTyping = True, copyOnSelect = False, useDefaultWindowCopy = False, mouseRightClickPaste = False,
     mousePasteButton = 0, cursorBlinkCycle = [100, 100], wordBreakMatchLeft = NullValue, wordBreakMatchRight = NullValue,
     wordBreakMatchMiddle = NullValue, allowImagesInline = NullValue, ui_calls = [], reads = [], read_timeouts = [],
     ready = False, callbacks = 0\<rparr>"

lemma example_start:
  "own_prefs (example_profile m) = None" "profileId (example_profile m) = None" "reads (example_profile m) = []"
  "read_timeouts (example_profile m) = []" "stored (prefs (example_profile m)) = []"
  "pref_tasks (prefs (example_profile m)) = []" "observer_calls (prefs (example_profile m)) = []"
  "resource_url example_env (js ''hterm/audio/bell'') \<noteq> None"
  by (simp_all add: example_profile_def new_world_def example_env_def)

lemma terminal_gets_ready_witness:
  "\<exists>t cs m S1 S2 S3. new_terminal unit_env cs = Some t \<and> new_vt t = Some m \<and>
     setProfile example_env (js ''default'') True (example_profile m) = Some S1 \<and>
     prefs_run example_env [Turn, Turn] S1 = Some S2 \<and> timeout_ends example_env S2 = Some S3 \<and> ready S3"
proof -
  obtain t where t: "new_terminal unit_env undefined = Some t" using new_terminal_result [OF unit_wc] by metis
  obtain m where m: "new_vt t = Some m" by (rule new_vt_result)
  from terminal_gets_ready [OF example_start, of "js ''default''" m] t m show ?thesis by blast
qed

text \<open>
  C35. When \<open>setProfile\<close> has chosen a profile, whatever is stored and whatever other code sets, resets or
  imports until the stored items have arrived, the timeout that then ends brings every switch of the
  terminal, its keyboard and its interpreter to the value its preference has: from the keys that are sent to the modes
  a program may set.
\<close>

theorem switches_follow_preferences:
  assumes "setProfile E name callback S = Some S1" "profileId S \<noteq> Some (filter (\<lambda>c. c \<noteq> 47) name)"
    and "list_all keeps_observers as" "prefs_run E as S1 = Some S2"
    and "read_timeouts S2 \<noteq> []" "timeout_ends E S2 = Some S3"
  shows "list_all (\<lambda>(n, on). map_option truthy (own_pref (js n) S3) = Some (on S3)) switches"
  by (rule timeout_switches [OF prefs_run_linked [OF assms(4,3) setProfile_linked [OF assms(1,2)]] assms(5,6)])

lemma switches_follow_preferences_witness:
  "\<exists>t cs m S1 S2 S3. new_terminal unit_env cs = Some t \<and> new_vt t = Some m \<and>
     setProfile example_env (js ''default'') True (example_profile m) = Some S1 \<and>
     prefs_run example_env [Turn, Turn] S1 = Some S2 \<and> timeout_ends example_env S2 = Some S3 \<and>
     list_all (\<lambda>(n, on). map_option truthy (own_pref (js n) S3) = Some (on S3)) switches"
proof -
  obtain t where t: "new_terminal unit_env undefined = Some t" using new_terminal_result [OF unit_wc] by metis
  obtain m where m: "new_vt t = Some m" by (rule new_vt_result)
  from ready_steps [OF example_start, of "js ''default''" m] obtain S1 S2 S3 where
    S: "setProfile example_env (js ''default'') True (example_profile m) = Some S1"
      "prefs_run example_env [Turn, Turn] S1 = Some S2" "read_timeouts S2 = [True]" "timeout_ends example_env S2 = Some S3"
    by blast
  have "profileId (example_profile m) \<noteq> Some (filter (\<lambda>c. c \<noteq> 47) (js ''default''))" "list_all keeps_observers [Turn, Turn]"
    "read_timeouts S2 \<noteq> []"
    by (simp_all add: example_start(2) S(3))
  from switches_follow_preferences [OF S(1) this(1,2) S(2) this(3) S(4)] S t m show ?thesis by blast
qed

end
