(* ===== verification/TerminalEcho.thy ===== *)
theory TerminalEcho
  imports VtRun "HOL-Library.Sublist"
begin

text \<open>
  The terminal page sets \<open>sendString\<close> to \<open>print\<close> (terminal-1.0.0.js): what the terminal answers to
  a request is interpreted by the same interpreter, within the handler of the request. The
  answer takes the place of the buffer, and the handler's caller goes on with the parse state
  as it then is.
\<close>

section \<open>Interpreting with echo\<close>

text \<open>The strings sent during a turn of the loop: handlers send one at most.\<close>

definition answer_of :: "event \<Rightarrow> jsstring option" where
  "answer_of e = (case e of SendString s \<Rightarrow> Some s | _ \<Rightarrow> None)"

definition answers :: "machine \<Rightarrow> machine \<Rightarrow> jsstring list" where
  "answers m m' = List.map_filter answer_of (drop (length (events m)) (events m'))"

text \<open>
  The parse state within a handler that sends, and what the parse functions do to the state they
  find after it: the one of \<open>ESC\<close> has consumed a character before, that of operating system
  commands the whole string, those of control sequences and of text advance after. Each \<open>ESC\<close> has
  a function of its own, and compares with that one; no answer ends within an \<open>ESC\<close>.
\<close>

definition at_handler :: "host \<Rightarrow> machine \<Rightarrow> parse_state \<Rightarrow> parse_state" where
  "at_handler H m p =
     (case func p of
        parseESC \<Rightarrow> advance 1 p
      | parseOSC \<Rightarrow>
          (let p = fst (snd (parse_string H p m)) in
           case match_osc (args p ! 0) of None \<Rightarrow> p | Some (code, arg) \<Rightarrow> p\<lparr>args := (args p)[0 := arg]\<rparr>)
      | _ \<Rightarrow> p)"

definition after_handler :: "machine \<Rightarrow> parse_state \<Rightarrow> parse_state \<Rightarrow> parse_state" where
  "after_handler m p q =
     (case func p of
        parseESC \<Rightarrow> if func q = parseESC then resetParseFunction q else q
      | parseOSC \<Rightarrow> resetArguments q
      | parseCSI \<Rightarrow>
          (case peekChar p of
             None \<Rightarrow> q
           | Some c \<Rightarrow> advance 1 (if 64 \<le> c \<and> c \<le> 126 then finish_csi q else q))
      | parseUnknown \<Rightarrow>
          (case search (cc1_char m) (peekRemainingBuf p) of
             None \<Rightarrow> q
           | Some i \<Rightarrow> advance (i + 1) q)
      | _ \<Rightarrow> advance 1 q)"

text \<open>
  The loop of \<open>interpret\<close>. Calls that never come back, as each starts another one, are \<open>None\<close>
  like an exception; in the browser they are one, of the stack.
\<close>

partial_function (option) echo_loop :: "host \<Rightarrow> parse_state \<Rightarrow> machine \<Rightarrow> (parse_state \<times> machine) option" where
  "echo_loop H p m =
     (if isComplete p then Some (p, m)
      else Option.bind (parse_step H p m) (\<lambda>r.
        Option.bind
          (case answers m (snd r) of
             [] \<Rightarrow> Some r
           | s # ss \<Rightarrow> Option.bind (echo_loop H (resetBuf s (at_handler H m p)) (snd r))
               (\<lambda>a. Some (after_handler m p (fst a), snd a)))
          (\<lambda>r. if altered p (fst r) then echo_loop H (fst r) (snd r) else None)))"

definition echo_interpret :: "host \<Rightarrow> jsstring \<Rightarrow> parse_state \<times> machine \<Rightarrow> (parse_state \<times> machine) option" where
  "echo_interpret H b s = echo_loop H (resetBuf b (fst s)) (snd s)"

section \<open>Events are only added\<close>

definition grows :: "machine \<Rightarrow> machine option \<Rightarrow> bool" where
  "grows m r \<longleftrightarrow> (\<forall>m'. r = Some m' \<longrightarrow> prefix (events m) (events m'))"

lemma grows_simps [simp]:
  "grows m None" "grows m (Some m)" "grows m (run f m)" "grows m (run_total g m)" "grows m (emit e m)" "grows m (send s m)"
  by (auto simp: grows_def run_def run_total_def emit_def send_def)

lemma grows_update [simp]:
  "grows m (Some (m\<lparr>vt_terminal := t\<rparr>))" "grows m (send s (m\<lparr>vt_terminal := t\<rparr>))"
  by (simp_all add: grows_def send_def emit_def)

lemma grows_same: "events m' = events m \<Longrightarrow> grows m (Some m')"
  by (simp add: grows_def)

lemma grows_bind: "grows m r \<Longrightarrow> (\<And>m'. r = Some m' \<Longrightarrow> grows m' (f m')) \<Longrightarrow> grows m (r \<bind> f)"
  by (cases r) (auto simp: grows_def intro: prefix_order.trans)

lemma grows_value: "(\<And>x. grows m (f x)) \<Longrightarrow> grows m (Option.bind r f)"
  by (cases r) simp_all

lemma grows_emit_run [simp]: "grows m (emit e m \<bind> run_total g)"
  by (rule grows_bind) simp_all

lemma grows_if: "(P \<Longrightarrow> grows m a) \<Longrightarrow> (\<not> P \<Longrightarrow> grows m b) \<Longrightarrow> grows m (if P then a else b)"
  by simp

definition grows_entry :: "entry \<Rightarrow> bool" where
  "grows_entry e \<longleftrightarrow> (case e of Ignore \<Rightarrow> True
     | Handler sub f \<Rightarrow> (\<forall>H code p m. grows m (map_option snd (f H code p m))))"

lemma grows_act: "(\<And>H p m. grows m (f H p m)) \<Longrightarrow> grows_entry (act f)"
  by (simp add: grows_entry_def act_def option.map_comp comp_def option.map_ident)

lemma grows_state:
  "grows m (vt_saveCursor m)" "grows m (vt_restoreCursor H m)" "grows m (keyboard_mode k m)"
  "grows m (mouse_mode v b m)" "grows m (coordinates_mode v b m)" "grows m (decolm H b m)"
  "grows m (set_charset g m)" "grows m (set_charset_right g m)" "grows m (vt_reset m)"
  by (auto simp: vt_saveCursor_def vt_restoreCursor_def keyboard_mode_def mouse_mode_def coordinates_mode_def
      decolm_def set_charset_def set_charset_right_def vt_reset_def grows_def run_def run_total_def
      split: if_splits Option.bind_splits option.splits prod.splits)

lemma grows_modes: "grows m (setANSIMode i p b m)" "grows m (setDECMode H i p b m)"
proof -
  show "grows m (setANSIMode i p b m)" by (simp add: setANSIMode_def)
  have "\<forall>(n, f) \<in> set (dec_modes H b). \<forall>m. grows m (f m)"
    by (auto simp: dec_modes_def grows_state enter_alternate_def leave_alternate_def intro: grows_same intro!: grows_bind)
  then show "grows m (setDECMode H i p b m)"
    by (auto simp: setDECMode_def split: option.split dest!: map_of_SomeD)
qed

lemma grows_for_args: "(\<And>i m. grows m (f i m)) \<Longrightarrow> grows m (for_args f is m)"
  by (induction "is" arbitrary: m) (auto intro: grows_bind)

lemma grows_resets: "grows m (terminal_reset H m)" "grows m (softReset H m)"
  unfolding terminal_reset_def softReset_def by (intro grows_bind grows_state grows_simps)+

lemma grows_entries [simp]:
  "grows_entry Ignore" "grows_entry (act (\<lambda>H p. send s))" "grows_entry (act (\<lambda>H p. emit e))" "grows_entry (act (\<lambda>H p. vt_saveCursor))"
  "grows_entry (act (\<lambda>H p. vt_restoreCursor H))" "grows_entry (act (\<lambda>H p. keyboard_mode k))"
  "grows_entry (act (\<lambda>H p. terminal_reset H))" "grows_entry (act (\<lambda>H p. softReset H))"
  "grows_entry (act (\<lambda>H p. set_charset g))" "grows_entry (act (\<lambda>H p. set_charset_right g))"
  "grows_entry (term_act t)" "grows_entry (term_act_total l)" "grows_entry (count_act u)"
  "grows_entry (count_act_total v)" "grows_entry (tab_times l)" "grows_entry cancel"
  "grows_entry (begin_sequence fn)" "grows_entry (begin_string fn)" "grows_entry (intermediate fn)"
  "grows_entry (install h)"
  by (auto simp: grows_state grows_resets term_act_def term_act_total_def count_act_def count_act_total_def tab_times_def
      intro!: grows_act grows_value)
    (auto simp: grows_entry_def cancel_def begin_sequence_def begin_string_def
      intermediate_def install_def grows_def emit_def run_def)

lemma grows_cursor_style [simp]: "grows_entry cursor_style"
  unfolding cursor_style_def by (rule grows_act) (simp add: Let_def)

lemma grows_csi [simp]:
  "grows_entry column_act" "grows_entry cup" "grows_entry erase_display" "grows_entry erase_in_line"
  "grows_entry clear_tabs" "grows_entry (ansi_modes s)" "grows_entry (private_modes s)" "grows_entry status_report"
  "grows_entry private_report" "grows_entry scroll_region" "grows_entry tile_data"
  "grows_entry (act (\<lambda>H p m. if length (args p) \<le> 1 then iarg 0 1 p \<bind> (\<lambda>n. run (vtScrollDown (screen_env H) n) m) else Some m))"
  "grows_entry (act (\<lambda>H p m. if arg_unset 0 p then send w m else Some m))"
  "grows_entry (Handler True (\<lambda>H code p m. map_option (Pair p) (run (on_attributes (sgr p)) m)))"
  unfolding column_act_def cup_def erase_display_def erase_in_line_def clear_tabs_def ansi_modes_def
    private_modes_def status_report_def private_report_def scroll_region_def tile_data_def
  by (auto simp: report_position_def grows_modes Let_def intro!: grows_act grows_if grows_value grows_bind grows_for_args)
    (auto simp: grows_entry_def grows_def run_def option.map_comp comp_def)

lemma grows_colors: "grows m (setForegroundColor H v m)" "grows m (setBackgroundColor H v m)" "grows m (setCursorColor H v m)"
  by (auto simp: setForegroundColor_def setBackgroundColor_def setCursorColor_def set_text_color_def
      split: option.split color_value.split)

lemma grows_osc_colors:
  "(\<And>put H v m. put \<in> set puts \<Longrightarrow> grows m (put H v m)) \<Longrightarrow> grows m (osc_colors H puts xs m)"
  by (induction H puts xs m rule: osc_colors.induct) (auto split: option.split intro!: grows_bind)

lemma grows_osc_act: "(\<And>H s m. grows m (f H s m)) \<Longrightarrow> grows_entry (osc_act f)"
  by (simp add: osc_act_def grows_act)

lemma grows_osc [simp]:
  "grows_entry (osc_act (\<lambda>H arg. emit (e arg)))" "grows_entry (osc_act osc_palette)"
  "grows_entry (osc_act (\<lambda>H arg. run (f arg)))"
  "grows_entry (osc_act (\<lambda>H arg. osc_colors H [setForegroundColor, setBackgroundColor, setCursorColor] (split_on 59 arg)))"
  "grows_entry (osc_act (\<lambda>H arg. osc_colors H [setBackgroundColor, setCursorColor] (split_on 59 arg)))"
  "grows_entry (osc_act (\<lambda>H arg. osc_colors H [setCursorColor] (split_on 59 arg)))"
  "grows_entry (osc_act (\<lambda>H. osc_cursor_shape))" "grows_entry (osc_act osc_clipboard)"
  "grows_entry (osc_act (\<lambda>H. osc_reset_colors))" "grows_entry (osc_act (\<lambda>H. osc_notify))"
  "grows_entry (osc_act (\<lambda>H arg. setForegroundColor H v))" "grows_entry (osc_act (\<lambda>H arg. setBackgroundColor H v))"
  "grows_entry (osc_act (\<lambda>H arg. setCursorColor H v))"
  by (auto intro!: grows_osc_act grows_osc_colors grows_value simp: grows_colors osc_palette_def osc_cursor_shape_def
      osc_clipboard_def osc_reset_colors_def osc_notify_def Let_def split: option.split list.split)

lemma tables_grow: "\<forall>(code, e) \<in> set (table_of tab). grows_entry e"
proof -
  have esc: "\<forall>(code, e) \<in> set ESC. grows_entry e" by (simp add: ESC_def)
  then have "grows_entry (esc_entry code)" for code
    by (auto simp: esc_entry_def split: option.split dest!: map_of_SomeD)
  then have "\<forall>(code, e) \<in> set CC1. grows_entry e" by (simp add: CC1_def)
  moreover have "\<forall>(code, e) \<in> set CSI. grows_entry e"
    unfolding CSI_def list.set ball_simps prod.case by (intro conjI TrueI) (rule grows_entries grows_cursor_style grows_csi)+
  moreover have "\<forall>(code, e) \<in> set OSC. grows_entry e" by (simp add: OSC_def)
  ultimately show ?thesis using esc by (cases tab) (simp_all add: DCS_def)
qed

lemma grows_dispatch: "grows m (map_option snd (vt_dispatch H tab code p m))"
proof -
  have "grows_entry e" if "map_of (table_of tab) code = Some e" for e
    using that tables_grow [of tab] by (auto dest!: map_of_SomeD)
  then show ?thesis by (auto simp: vt_dispatch_def grows_entry_def split: option.split entry.split)
qed

text \<open>The same for the functions that parse.\<close>

definition adds :: "machine \<Rightarrow> (parse_state \<times> machine) option \<Rightarrow> bool" where
  "adds m r \<longleftrightarrow> (\<forall>p' m'. r = Some (p', m') \<longrightarrow> prefix (events m) (events m'))"

lemma adds_simps [simp]: "adds m None" "adds m (Some (p, m'))\<longleftrightarrow> prefix (events m) (events m')"
  by (auto simp: adds_def)

lemma adds_bind: "adds m r \<Longrightarrow> (\<And>p' m'. adds m' (f (p', m'))) \<Longrightarrow> adds m (r \<bind> f)"
  by (cases r) (auto simp: adds_def intro: prefix_order.trans)

lemma adds_after: "grows m r \<Longrightarrow> (\<And>m'. adds m' (f m')) \<Longrightarrow> adds m (r \<bind> f)"
  by (cases r) (auto simp: adds_def grows_def intro: prefix_order.trans)

lemma adds_dispatch [simp]: "adds m (vt_dispatch H tab code p m)"
  using grows_dispatch [of m H tab code p] by (simp add: adds_def grows_def)

lemma adds_value: "(\<And>x. adds m (f x)) \<Longrightarrow> adds m (Option.bind r f)"
  by (cases r) simp_all

lemma add_modifier_events [simp]: "events (add_modifier c p m) = events m"
  by (simp add: add_modifier_def)

lemma string_events: "parse_string H p m = (ok, p', m') \<Longrightarrow> events m' = events m"
  by (auto simp: parse_string_def string_start_def Let_def split: option.splits if_splits prod.splits)

lemma setEncoding_events [simp]: "events (setEncoding e m) = events m"
  by (simp add: setEncoding_def)

lemma step_adds: "adds m (parse_step H p m)"
proof (cases "func p")
  case parseUnknown
  have print: "grows m (vt_print H s m)" for s m by (simp add: vt_print_def)
  have "adds m (parse_unknown H p m)"
    by (auto simp: parse_unknown_def Let_def split: option.split intro!: adds_after [OF print] adds_bind)
  then show ?thesis using parseUnknown by (simp add: parse_step_def)
next
  case parseESC
  then show ?thesis
    by (cases "peekChar p") (auto simp: parse_step_def parse_esc_def consumeChar_def intro!: adds_bind)
next
  case parseCSI
  have "adds m (parse_csi_char H c p m)" for c
    by (auto simp: parse_csi_char_def intro!: adds_bind)
  then show ?thesis using parseCSI
    by (cases "peekChar p") (auto simp: parse_step_def parse_csi_def intro!: adds_bind)
next
  case parseDCS
  have "adds m (parse_dcs_char H c p m)" for c
    by (auto simp: parse_dcs_char_def)
  then show ?thesis using parseDCS
    by (cases "peekChar p") (auto simp: parse_step_def parse_dcs_def intro!: adds_bind)
next
  case parseUntilStringTerminator
  then show ?thesis using string_events [of H p m]
    by (cases "parse_string H p m") (simp add: parse_step_def)
next
  case parseOSC
  obtain ok p1 m1 where ps: "parse_string H p m = (ok, p1, m1)" by (metis prod_cases3)
  have "adds m1 (parse_osc H p m)"
    by (auto simp: parse_osc_def ps split: option.split intro!: adds_bind)
  then show ?thesis using parseOSC string_events [OF ps] by (simp add: parse_step_def adds_def)
next
  case parseTitle
  obtain ok p1 m1 where ps: "parse_string H p m = (ok, p1, m1)" by (metis prod_cases3)
  have "adds m1 (parse_title H p m)"
    by (auto simp: parse_title_def ps intro!: adds_after)
  then show ?thesis using parseTitle string_events [OF ps] by (simp add: parse_step_def adds_def)
next
  case parseHash
  then show ?thesis
    by (auto simp: parse_step_def parse_hash_def consumeChar_def intro!: adds_after)
next
  case parsePercent
  then show ?thesis
    by (auto simp: parse_step_def parse_percent_def consumeChar_def Let_def)
next
  case (parseCharset code)
  then show ?thesis
    by (auto simp: parse_step_def parse_charset_def consumeChar_def split: option.split intro!: adds_value)
qed (simp add: parse_step_def)

section \<open>Without answers\<close>

lemma answers_same [simp]: "events m' = events m \<Longrightarrow> answers m m' = []"
  by (simp add: answers_def)

lemma answers_split:
  "prefix (events m) (events m1) \<Longrightarrow> prefix (events m1) (events m2) \<Longrightarrow> answers m m2 = answers m m1 @ answers m1 m2"
  by (auto simp: prefix_def answers_def List.map_filter_def)

lemma loop_adds: "adds m (interpret_loop H p m)"
proof (induction H p m rule: interpret_loop.induct)
  case (1 H p m)
  show ?case
  proof (cases "isComplete p")
    case True
    then show ?thesis by (simp add: interpret_loop_unfold [of H p m])
  next
    case False
    show ?thesis
    proof (cases "parse_step H p m")
      case (Some r)
      obtain p1 m1 where r: "r = (p1, m1)" by force
      have "altered p p1" using parse_step_progress [OF False] Some r by (simp add: progress_def)
      then have "adds m1 (interpret_loop H p1 m1)" using 1 [OF False] Some r by simp
      then show ?thesis
        using step_adds [of m H p] Some r False
        by (auto simp: interpret_loop_unfold [of H p m] adds_def intro: prefix_order.trans)
    qed (simp add: False interpret_loop_unfold [of H p m])
  qed
qed

lemma echo_loop_unfold:
  "echo_loop H p m =
     (if isComplete p then Some (p, m)
      else Option.bind (parse_step H p m) (\<lambda>r.
        Option.bind
          (case answers m (snd r) of
             [] \<Rightarrow> Some r
           | s # ss \<Rightarrow> Option.bind (echo_loop H (resetBuf s (at_handler H m p)) (snd r))
               (\<lambda>a. Some (after_handler m p (fst a), snd a)))
          (\<lambda>r. if altered p (fst r) then echo_loop H (fst r) (snd r) else None)))"
  by (rule echo_loop.simps)

lemma echo_complete [simp]: "isComplete p \<Longrightarrow> echo_loop H p m = Some (p, m)"
  by (simp add: echo_loop_unfold [of H p m])

text \<open>As long as the terminal answers nothing, the loop is that of \<open>interpret\<close>.\<close>

lemma echo_silent_loop:
  "interpret_loop H p m = Some (p', m') \<Longrightarrow> answers m m' = [] \<Longrightarrow> echo_loop H p m = Some (p', m')"
proof (induction H p m rule: interpret_loop.induct)
  case (1 H p m)
  show ?case
  proof (cases "isComplete p")
    case True
    then show ?thesis using 1 by (simp add: interpret_loop_unfold [of H p m] echo_loop_unfold [of H p' m'])
  next
    case False
    obtain p1 m1 where step: "parse_step H p m = Some (p1, m1)"
      and rest: "interpret_loop H p1 m1 = Some (p', m')" and alt: "altered p p1"
      using "1.prems"(1) False parse_step_progress [OF False]
      by (auto simp: interpret_loop_unfold [of H p m] progress_def Option.bind_eq_Some_conv)
    have "answers m m1 = []" "answers m1 m' = []"
      using answers_split [of m m1 m'] step_adds [of m H p] loop_adds [of m1 H p1] step rest "1.prems"(2)
      by simp_all
    with "1.IH" [OF False step] rest alt step False show ?thesis by (simp add: echo_loop_unfold [of H p m])
  qed
qed

text \<open>\<open>interpret\<close> with echo is \<open>interpret\<close>, as long as the terminal answers nothing.\<close>

lemma echo_silent:
  "vt_interpret H b (p, m) = Some (p', m') \<Longrightarrow> answers m m' = [] \<Longrightarrow> echo_interpret H b (p, m) = Some (p', m')"
  by (simp add: vt_interpret_def echo_interpret_def echo_silent_loop)

interpretation echoing: reading echo_loop
proof
  fix p p' :: parse_state and m m' H
  assume "peekRemainingBuf p \<noteq> []" and step: "parse_step H p m = Some (p', m')" and "events m' = events m"
  then have "\<not> isComplete p" and "answers m m' = []" by (simp_all add: isComplete_rest)
  moreover from this(1) have "altered p p'" using parse_step_progress step by (simp add: progress_def)
  ultimately show "echo_loop H p m = echo_loop H p' m'" using step by (simp add: echo_loop_unfold [of H p m])
qed

section \<open>Requests\<close>

text \<open>A turn in which the terminal answers.\<close>

lemma echo_answer:
  assumes "peekRemainingBuf p \<noteq> []" and "parse_step H p m = Some (p1, m1)" and "answers m m1 = [s]"
    and "echo_loop H (resetBuf s (at_handler H m p)) m1 = Some (q, m2)" and "altered p (after_handler m p q)"
  shows "echo_loop H p m = echo_loop H (after_handler m p q) m2"
  using assms by (simp add: echo_loop_unfold [of H p m] isComplete_rest)

lemma echo_answer_fails:
  assumes "peekRemainingBuf p \<noteq> []" and "parse_step H p m = Some (p1, m1)" and "answers m m1 = [s]"
    and "echo_loop H (resetBuf s (at_handler H m p)) m1 = None"
  shows "echo_loop H p m = None"
  using assms by (simp add: echo_loop_unfold [of H p m] isComplete_rest)

lemma answers_send [simp]: "answers m (m\<lparr>events := events m @ [SendString s]\<rparr>) = [s]"
  by (simp add: answers_def answer_of_def List.map_filter_def)

text \<open>The answer to a position request, read in the middle of the sequence that asked for it.\<close>

lemma position_answer_read:
  assumes "func p = parseCSI" and "subargs p = None" and "peekRemainingBuf p = position_answer r c"
    and "0 \<le> r" and "0 \<le> c"
  obtains q where "at_rest q" "isComplete q"
    "echo_loop H p m = Some (q, m\<lparr>leadingModifier := [], trailingModifier := []\<rparr>)"
proof -
  let ?m = "m\<lparr>leadingModifier := [], trailingModifier := []\<rparr>"
  let ?as = "[js_of_int r, js_of_int c]" and ?p1 = "advance 1 (set_func parseESC p)"
  have rest: "peekRemainingBuf p = 27 # 91 # join_args ?as @ [82]" using assms(3) by (simp add: position_answer_def)
  have "parse_csi_char H 27 p m = Some (set_func parseESC p, m)"
    using assms(2) ESC_first by (simp add: parse_csi_char_def is_digit_def vt_dispatch_def CC1_def intermediate_def install_def)
  then have esc: "echo_loop H p m = echo_loop H ?p1 m" by (rule echoing.csi_silent [OF assms(1) rest]) simp
  have p1: "func ?p1 = parseESC" "subargs ?p1 = None" "peekRemainingBuf ?p1 = 91 # join_args ?as @ [82]"
    using assms(2) rest by simp_all
  obtain p2 where p2: "csi_ready p2 [] ([] @ join_args ?as @ [82]) ?m" "echo_loop H ?p1 m = echo_loop H p2 ?m"
    using echoing.csi_bracket [OF p1, of m H] by auto
  obtain p3 where p3: "csi_ready p3 ?as [82] ?m" "echo_loop H p2 ?m = echo_loop H p3 ?m"
    using echoing.csi_body [OF p2(1), of H] digits_js_of_int assms(4,5) by auto
  have "parse_csi_char H 82 p3 ?m = Some (finish_csi p3, ?m)"
    using p3(1) by (simp add: csi_ready_def parse_csi_char_def vt_dispatch_def CSI_def)
  then have "echo_loop H p3 ?m = echo_loop H (advance 1 (finish_csi p3)) ?m"
    using p3(1) by (intro echoing.csi_silent [of p3 82 "[]"]) (simp_all add: csi_ready_def)
  moreover have fin: "isComplete (advance 1 (finish_csi p3))" "at_rest (advance 1 (finish_csi p3))"
    using p3(1) by (simp_all add: csi_ready_def isComplete_rest at_rest_def)
  ultimately have "echo_loop H p m = Some (advance 1 (finish_csi p3), ?m)"
    using esc p2(2) p3(2) echo_complete [of "advance 1 (finish_csi p3)"] by simp
  with fin that show thesis by blast
qed

text \<open>
  A program that asks for the cursor position on the page's terminal loses the rest of what it
  printed: the text before the request is printed, the answer replaces the buffer and prints
  nothing, and what follows the request, whatever it is, never reaches the terminal.
\<close>

theorem request_drops_rest:
  assumes "at_rest p" and "plain_charset m" and "printable_str u"
    and "wc_ok (wc (screen_env H))" and "reachable (screen_env H) (vt_terminal m)"
  shows "\<exists>p' m' t. echo_interpret H (u @ position_request @ rest) (p, m) = Some (p', m') \<and> at_rest p' \<and>
    exec_all (screen_env H) (print_word u) (vt_terminal m) = Some t \<and> vt_terminal m' = t \<and>
    events m' = events m @ [SendString (position_answer (getCursorRow t + 1) (getCursorColumn t + 1))]"
proof -
  let ?E = "screen_env H" and ?b = "u @ position_request @ rest"
  have printable: "\<forall>c \<in> set u. printable c \<and> \<not> format_char c"
    using assms(3) by (auto simp: printable_def format_char_def)
  then have no_control: "\<forall>c \<in> set u. \<not> cc1_char m c" using cc1_plain by auto
  have "\<forall>op \<in> set (print_word u). \<forall>t. allowed op t" using assms(3) by (simp add: print_word_def)
  then obtain t where t: "exec_all ?E (print_word u) (vt_terminal m) = Some t" "reachable ?E t"
    using exec_all_reachable [OF assms(4,5)] by blast
  let ?m1 = "m\<lparr>vt_terminal := t\<rparr>"
  have print: "print_before H u m = Some ?m1"
    using t(1) vt_print_plain [OF assms(2), of H u]
    by (cases "u = []")
      (auto simp: print_before_def print_word_def exec_all_single [of ?E "Print u"] simp del: exec.simps exec_all.simps(2))
  have p: "at_rest (resetBuf ?b p)"
    "peekRemainingBuf (resetBuf ?b p) = u @ 27 # 91 # [] @ join_args [js_of_int 6] @ 110 # rest"
    using assms(1) by (simp_all add: at_rest_def resetBuf_def peekRemainingBuf_def position_request_def)
  let ?m2 = "?m1\<lparr>leadingModifier := [], trailingModifier := []\<rparr>"
  have six: "\<forall>a \<in> set [js_of_int 6]. list_all is_digit a" "[js_of_int 6] \<noteq> [[]]"
    using digits_js_of_int [of 6] by auto
  obtain p3 where p3: "csi_ready p3 [js_of_int 6] (110 # rest) ?m2"
    "echo_loop H (resetBuf ?b p) m = echo_loop H p3 ?m2"
    using echoing.csi_read [OF p no_control print _ six] by auto
  let ?a = "position_answer (getCursorRow t + 1) (getCursorColumn t + 1)"
  let ?m3 = "?m2\<lparr>events := events m @ [SendString ?a]\<rparr>"
  have "term_ok ?E t" by (rule reachable_ok [OF assms(4) t(2)])
  then have cur: "0 \<le> getCursorRow t" "0 \<le> getCursorColumn t"
    using term_ok_cursor [of ?E t] by (simp_all add: getCursorRow_def getCursorColumn_def)
  have six_is: "arg_is 0 p3 k \<longleftrightarrow> k = 6" for k
    using p3(1) arg_is_number [of 0 p3 6] by (auto simp: csi_ready_def)
  have csi: "func p3 = parseCSI" "subargs p3 = None" using p3(1) by (simp_all add: csi_ready_def)
  have "parse_csi_char H 110 p3 ?m2 = Some (finish_csi p3, ?m3)"
    using csi six_is by (simp add: parse_csi_char_def vt_dispatch_def CSI_def status_report_def act_def
        report_position_def send_def emit_def position_answer_def join_args_def)
  then have step: "parse_step H p3 ?m2 = Some (advance 1 (finish_csi p3), ?m3)"
    using p3(1) by (simp add: csi_ready_def parse_step_def parse_csi_def)
  have handler: "func (resetBuf ?a (at_handler H ?m2 p3)) = parseCSI" "subargs (resetBuf ?a (at_handler H ?m2 p3)) = None"
    "peekRemainingBuf (resetBuf ?a (at_handler H ?m2 p3)) = ?a"
    using csi by (simp_all add: at_handler_def resetBuf_def peekRemainingBuf_def)
  have same: "?m3\<lparr>leadingModifier := [], trailingModifier := []\<rparr> = ?m3" by simp
  obtain q where q: "at_rest q" "isComplete q" "echo_loop H (resetBuf ?a (at_handler H ?m2 p3)) ?m3 = Some (q, ?m3)"
    by (rule position_answer_read [OF handler, where m = ?m3 and H = H, unfolded same]) (use cur in simp_all)
  let ?q = "advance 1 (finish_csi q)"
  have after: "after_handler ?m2 p3 q = ?q" using p3(1) by (simp add: csi_ready_def after_handler_def)
  have fin: "isComplete ?q" "at_rest ?q" "altered p3 ?q"
    using q(1,2) p3(1) by (simp_all add: isComplete_def at_rest_def csi_ready_def altered_def)
  have "answers ?m2 ?m3 = [?a]" by (simp add: answers_def answer_of_def List.map_filter_def)
  from echo_answer [OF _ step this q(3), unfolded after] p3(1) fin(3)
  have "echo_loop H p3 ?m2 = echo_loop H ?q ?m3" by (simp add: csi_ready_def)
  then have "echo_interpret H ?b (p, m) = Some (?q, ?m3)"
    using p3(2) echo_complete [OF fin(1)] by (simp add: echo_interpret_def)
  with fin(2) t(1) show ?thesis by auto
qed

lemma request_drops_rest_witness:
  "\<exists>t m p' m' t'. reachable unit_env t \<and> new_vt t = Some m \<and>
     echo_interpret unit_host (js ''row '' @ position_request @ js '' of the log'') (new_parse_state, m) = Some (p', m') \<and>
     exec unit_env (Print (js ''row '')) t = Some t' \<and> vt_terminal m' = t'"
proof -
  obtain t where t: "reachable unit_env t" using placed_terminal [of 0 0] by auto
  obtain m where m: "new_vt t = Some m" "vt_terminal m = t" "plain_charset m" by (rule new_vt_plain)
  have "at_rest new_parse_state" by (simp add: at_rest_def new_parse_state_def)
  then have "\<exists>p' m' t'. echo_interpret unit_host (js ''row '' @ position_request @ js '' of the log'') (new_parse_state, m) =
      Some (p', m') \<and> at_rest p' \<and>
    exec_all (screen_env unit_host) (print_word (js ''row '')) (vt_terminal m) = Some t' \<and> vt_terminal m' = t' \<and>
    events m' = events m @ [SendString (position_answer (getCursorRow t' + 1) (getCursorColumn t' + 1))]"
    by (rule request_drops_rest) (use t m unit_wc in \<open>simp_all add: printable_def js_def\<close>)
  then show ?thesis using t m by (auto simp: print_word_def exec_all_single js_def simp del: exec.simps exec_all.simps)
qed

section \<open>A request that asks for itself\<close>

text \<open>
  \<open>CSI > c\<close>, with any arguments, is answered by \<open>CSI > 0 ; 256 ; 0 c\<close>. The states of an
  interpreter that is reading such a sequence:
\<close>

definition parameter_chars :: "jsstring \<Rightarrow> bool" where
  "parameter_chars x \<longleftrightarrow> (\<forall>c \<in> set x. is_digit c \<or> c = 59)"

definition asking :: "parse_state \<Rightarrow> machine \<Rightarrow> bool" where
  "asking p m \<longleftrightarrow> subargs p = None \<and> (\<exists>x s. parameter_chars x \<and>
     (func p \<in> {parseUnknown, parseCSI} \<and> peekRemainingBuf p = 27 # 91 # 62 # x @ 99 # s \<or>
      func p = parseESC \<and> peekRemainingBuf p = 91 # 62 # x @ 99 # s \<or>
      func p = parseCSI \<and> args p = [] \<and> leadingModifier m = [] \<and> trailingModifier m = [] \<and>
        peekRemainingBuf p = 62 # x @ 99 # s \<or>
      func p = parseCSI \<and> leadingModifier m = [62] \<and> trailingModifier m = [] \<and>
        peekRemainingBuf p = x @ 99 # s))"

definition device_answer :: jsstring where
  "device_answer = 27 # js ''[>0;256;0c''"

lemma asking_answer:
  assumes "func p \<in> {parseUnknown, parseCSI}" and "subargs p = None"
  shows "asking (resetBuf device_answer p) m"
proof -
  have "peekRemainingBuf (resetBuf device_answer p) = 27 # 91 # 62 # js ''0;256;0'' @ 99 # []"
    by (simp add: resetBuf_def peekRemainingBuf_def device_answer_def js_def)
  moreover have "parameter_chars (js ''0;256;0'')" by (simp add: parameter_chars_def js_def is_digit_def)
  moreover have "func (resetBuf device_answer p) \<in> {parseUnknown, parseCSI}" "subargs (resetBuf device_answer p) = None"
    using assms by (simp_all add: resetBuf_def)
  ultimately show ?thesis unfolding asking_def by blast
qed

text \<open>Such a state is followed by another one, in the same buffer or in that of the answer.\<close>

lemma asking_step:
  assumes "asking p m"
  shows "\<exists>p' m'. parse_step H p m = Some (p', m') \<and>
    (answers m m' = [] \<and> asking p' m' \<or> answers m m' = [device_answer] \<and> asking (resetBuf device_answer (at_handler H m p)) m')"
proof -
  obtain x s where p: "subargs p = None" "parameter_chars x" and
    "func p \<in> {parseUnknown, parseCSI} \<and> peekRemainingBuf p = 27 # 91 # 62 # x @ 99 # s \<or>
     func p = parseESC \<and> peekRemainingBuf p = 91 # 62 # x @ 99 # s \<or>
     func p = parseCSI \<and> args p = [] \<and> leadingModifier m = [] \<and> trailingModifier m = [] \<and>
       peekRemainingBuf p = 62 # x @ 99 # s \<or>
     func p = parseCSI \<and> leadingModifier m = [62] \<and> trailingModifier m = [] \<and> peekRemainingBuf p = x @ 99 # s"
    using assms by (auto simp: asking_def)
  then consider (start) "func p = parseUnknown" "peekRemainingBuf p = 27 # 91 # 62 # x @ 99 # s"
    | (within) "func p = parseCSI" "peekRemainingBuf p = 27 # 91 # 62 # x @ 99 # s"
    | (escape) "func p = parseESC" "peekRemainingBuf p = 91 # 62 # x @ 99 # s"
    | (mark) "func p = parseCSI" "args p = []" "leadingModifier m = []" "trailingModifier m = []"
        "peekRemainingBuf p = 62 # x @ 99 # s"
    | (params) "func p = parseCSI" "leadingModifier m = [62]" "trailingModifier m = []" "peekRemainingBuf p = x @ 99 # s"
    by auto
  then show ?thesis
  proof cases
    case start
    have "parse_step H p m = Some (advance 1 (set_func parseESC p), m)"
      using start p(1) ESC_first [of m]
      by (simp add: parse_step_def parse_unknown_def vt_dispatch_def CC1_def intermediate_def install_def)
    moreover have "asking (advance 1 (set_func parseESC p)) m"
      using start p unfolding asking_def by auto
    ultimately show ?thesis by simp
  next
    case within
    have "parse_step H p m = Some (advance 1 (set_func parseESC p), m)"
      using within p(1) ESC_first [of m]
      by (simp add: parse_step_def parse_csi_def parse_csi_char_def is_digit_def vt_dispatch_def CC1_def
          intermediate_def install_def)
    moreover have "asking (advance 1 (set_func parseESC p)) m"
      using within p unfolding asking_def by auto
    ultimately show ?thesis by simp
  next
    case escape
    let ?q = "set_func parseCSI (resetArguments (advance 1 p))" and ?m = "m\<lparr>leadingModifier := [], trailingModifier := []\<rparr>"
    have "parse_step H p m = Some (?q, ?m)"
      using escape p(1) by (simp add: parse_step_def parse_esc_def consumeChar_def vt_dispatch_def ESC_def begin_sequence_def)
    moreover have "asking ?q ?m" using escape p unfolding asking_def by auto
    ultimately show ?thesis by (intro exI [of _ ?q] exI [of _ ?m]) simp
  next
    case mark
    let ?m = "m\<lparr>leadingModifier := [62]\<rparr>"
    have "parse_step H p m = Some (advance 1 p, ?m)"
      using mark by (simp add: parse_step_def parse_csi_def parse_csi_char_def is_digit_def add_modifier_def)
    moreover have "asking (advance 1 p) ?m" using mark p unfolding asking_def by auto
    ultimately show ?thesis by (intro exI [of _ "advance 1 p"] exI [of _ ?m]) simp
  next
    case params
    show ?thesis
    proof (cases x)
      case Nil
      let ?m = "m\<lparr>events := events m @ [SendString device_answer]\<rparr>"
      have "parse_step H p m = Some (advance 1 (finish_csi p), ?m)"
        using params Nil p(1) by (simp add: parse_step_def parse_csi_def parse_csi_char_def vt_dispatch_def CSI_def
            act_def send_def emit_def device_answer_def)
      moreover have "asking (resetBuf device_answer (at_handler H m p)) ?m"
        using params(1) p(1) by (intro asking_answer) (simp_all add: at_handler_def)
      ultimately show ?thesis by auto
    next
      case (Cons c y)
      let ?q = "advance 1 (if c = 59 then next_arg p else extend_arg c p)"
      have c: "is_digit c \<or> c = 59" "parameter_chars y" using p(2) Cons by (auto simp: parameter_chars_def)
      then have "c < 64" "c \<noteq> 58" by (auto simp: is_digit_def)
      then have "parse_step H p m = Some (?q, m)"
        using params Cons c(1) by (auto simp: parse_step_def parse_csi_def parse_csi_char_def)
      moreover have "asking ?q m" using params Cons c(2) p(1) unfolding asking_def by auto
      ultimately show ?thesis by auto
    qed
  qed
qed

lemma asking_more: "asking p m \<Longrightarrow> \<not> isComplete p"
  by (auto simp: asking_def isComplete_rest)

text \<open>No number of turns gets to the end of the buffer.\<close>

lemma asking_forever:
  assumes "echo_loop H p m = Some r"
  shows "\<not> asking p m"
proof (rule echo_loop.raw_induct [OF _ assms])
  fix loop H p m r
  assume IH: "\<And>H p m r. loop H p m = Some r \<Longrightarrow> \<not> asking p m"
    and turn: "(if isComplete p then Some (p, m)
      else Option.bind (parse_step H p m) (\<lambda>r.
        Option.bind
          (case answers m (snd r) of
             [] \<Rightarrow> Some r
           | s # ss \<Rightarrow> Option.bind (loop H (resetBuf s (at_handler H m p)) (snd r))
               (\<lambda>a. Some (after_handler m p (fst a), snd a)))
          (\<lambda>r. if altered p (fst r) then loop H (fst r) (snd r) else None))) = Some r"
  show "\<not> asking p m"
  proof
    assume ask: "asking p m"
    obtain p' m' where step: "parse_step H p m = Some (p', m')"
      and next_state: "answers m m' = [] \<and> asking p' m' \<or>
        answers m m' = [device_answer] \<and> asking (resetBuf device_answer (at_handler H m p)) m'"
      using asking_step [OF ask] by blast
    from next_state show False
    proof
      assume "answers m m' = [] \<and> asking p' m'"
      then show False using IH turn step asking_more [OF ask] by (auto split: if_splits)
    next
      assume "answers m m' = [device_answer] \<and> asking (resetBuf device_answer (at_handler H m p)) m'"
      then show False using IH turn step asking_more [OF ask] by (auto simp: Option.bind_eq_Some_conv)
    qed
  qed
qed

text \<open>
  C40. The request \<open>CSI > c\<close> for the version of the terminal, with or without arguments, never
  returns on the page's terminal: its answer is the same request, which is interpreted within the
  handler of the first one, and so on. In the browser this ends with the exception of a full stack.
\<close>

theorem device_request_never_returns:
  assumes "at_rest p" and "parameter_chars x"
  shows "echo_interpret H (27 # 91 # 62 # x @ 99 # rest) (p, m) = None"
proof -
  let ?p = "resetBuf (27 # 91 # 62 # x @ 99 # rest) p"
  have "func ?p = parseUnknown" "subargs ?p = None" "peekRemainingBuf ?p = 27 # 91 # 62 # x @ 99 # rest"
    using assms(1) by (simp_all add: at_rest_def resetBuf_def peekRemainingBuf_def)
  then have "asking ?p m" using assms(2) unfolding asking_def by blast
  then show ?thesis
    using asking_forever [of H ?p m] by (cases "echo_loop H ?p m") (simp_all add: echo_interpret_def)
qed

lemma device_request_never_returns_witness:
  "\<exists>t m. new_vt t = Some m \<and> echo_interpret unit_host (27 # 91 # 62 # js ''0'' @ 99 # js ''next'') (new_parse_state, m) = None"
proof -
  obtain t where "reachable unit_env t" using placed_terminal [of 0 0] by auto
  moreover obtain m where "new_vt t = Some m" by (rule new_vt_plain)
  moreover have "at_rest new_parse_state" by (simp add: at_rest_def new_parse_state_def)
  then have "echo_interpret unit_host (27 # 91 # 62 # js ''0'' @ 99 # js ''next'') (new_parse_state, m) = None"
    by (rule device_request_never_returns) (simp add: parameter_chars_def js_def is_digit_def)
  ultimately show ?thesis by blast
qed

end
