(* ===== verification/VtMouse.thy ===== *)
theory VtMouse
  imports VtRun
begin

text \<open>
  The mouse: \<open>hterm.Terminal.onMouse_\<close>, as far as it decides whether and where the mouse is reported,
  and \<open>hterm.VT.onTerminalMouse_\<close>, which reports it (hterm_all-1.91.js). Selections, menus and the
  clipboard are the browser's.
\<close>

unbundle bit_operations_syntax

section \<open>Events\<close>

text \<open>
  An event of the mouse: \<open>e.type\<close>, \<open>e.button\<close>, the set of bits \<open>e.buttons\<close>, the keys held, whether
  \<open>e.deltaY\<close> is negative, and the row and column under it, from 1, before they are clipped. What
  \<open>onMouse_\<close> asks of the document is part of it: whether the position is on the scroll bar, whether
  nothing is selected, and how many rows and columns the wheel turned.
\<close>

datatype mouse_kind = Wheel | MouseDown | MouseUp | MouseMove | Click | DblClick

record mouse_event =
  mouse_kind :: mouse_kind
  button :: int
  buttons :: int
  shiftKey :: bool
  metaKey :: bool
  altKey :: bool
  ctrlKey :: bool
  wheel_up :: bool
  terminalRow :: int
  terminalColumn :: int
  on_scrollbar :: bool
  nothing_selected :: bool
  wheel_rows :: int
  wheel_columns :: int

section \<open>Reports\<close>

definition modifiers :: "bool \<Rightarrow> mouse_event \<Rightarrow> machine \<Rightarrow> int" where
  "modifiers altIsMeta e m =
     (if mouseReport m \<noteq> MOUSE_REPORT_PRESS then
        (if shiftKey e then 4 else 0) OR (if metaKey e \<or> altIsMeta \<and> altKey e then 8 else 0) OR
        (if ctrlKey e then 16 else 0)
      else 0)"

definition sgr_coordinates :: "machine \<Rightarrow> bool" where
  "sgr_coordinates m \<longleftrightarrow> mouseCoordinates m = MOUSE_COORDINATES_SGR"

text \<open>A coordinate as one character, up to \<open>limit\<close>.\<close>

definition coordinate_limit :: "machine \<Rightarrow> int" where
  "coordinate_limit m = (if mouseCoordinates m = MOUSE_COORDINATES_UTF8 then 2047 else 127)"

definition coordinate :: "machine \<Rightarrow> int \<Rightarrow> code_unit" where
  "coordinate m v = clamp (v + 32) 32 (coordinate_limit m)"

text \<open>
  A report of a number \<open>b\<close>: decimal numbers and a final \<open>M\<close> or \<open>m\<close>, or three characters.
\<close>

definition sgr_report :: "int \<Rightarrow> mouse_event \<Rightarrow> code_unit \<Rightarrow> jsstring" where
  "sgr_report b e final =
     27 # js ''[<'' @ js_of_int b @ js '';'' @ js_of_int (terminalColumn e) @ js '';'' @
       js_of_int (terminalRow e) @ [final]"

definition unit_report :: "code_unit \<Rightarrow> mouse_event \<Rightarrow> machine \<Rightarrow> jsstring" where
  "unit_report b e m = 27 # js ''[M'' @ [b, coordinate m (terminalColumn e), coordinate m (terminalRow e)]"

definition wheel_report :: "bool \<Rightarrow> mouse_event \<Rightarrow> machine \<Rightarrow> jsstring" where
  "wheel_report altIsMeta e m =
     (let b = ((if wheel_up e then 0 else 1) + 64) OR modifiers altIsMeta e m
      in if sgr_coordinates m then sgr_report b e 77 else unit_report (b + 32) e m)"

definition press_report :: "bool \<Rightarrow> mouse_event \<Rightarrow> machine \<Rightarrow> jsstring" where
  "press_report altIsMeta e m =
     (let b = min (button e) 2;
          b = (if sgr_coordinates m then b else b + 32);
          b = b OR modifiers altIsMeta e m
      in if sgr_coordinates m then sgr_report b e 77 else unit_report b e m)"

definition release_report :: "mouse_event \<Rightarrow> machine \<Rightarrow> jsstring" where
  "release_report e m =
     (if mouseReport m = MOUSE_REPORT_PRESS then []
      else if sgr_coordinates m then sgr_report (button e) e 109 else unit_report 35 e m)"

text \<open>With no button held, nothing is reported; a report like the last one is not sent.\<close>

definition drag_report :: "bool \<Rightarrow> mouse_event \<Rightarrow> machine \<Rightarrow> jsstring" where
  "drag_report altIsMeta e m =
     (let b = (if sgr_coordinates m then 0 else 32);
          b = b + (if buttons e AND 1 \<noteq> 0 then 0 else if buttons e AND 4 \<noteq> 0 then 1
                   else if buttons e AND 2 \<noteq> 0 then 2 else 3);
          b = (b + 32) OR modifiers altIsMeta e m
      in if sgr_coordinates m then sgr_report b e 77 else unit_report b e m)"

text \<open>\<open>sendString\<close>, unless the response is empty.\<close>

definition respond :: "jsstring \<Rightarrow> machine \<Rightarrow> machine option" where
  "respond r m = (if r = [] then Some m else send r m)"

definition onTerminalMouse :: "bool \<Rightarrow> mouse_event \<Rightarrow> machine \<Rightarrow> machine option" where
  "onTerminalMouse altIsMeta e m =
     (if mouseReport m = MOUSE_REPORT_DISABLED then Some m
      else if mouseReport m \<noteq> MOUSE_REPORT_DRAG \<and> mouse_kind e = MouseMove then Some m
      else
        (case mouse_kind e of
           Wheel \<Rightarrow> respond (wheel_report altIsMeta e m) m
         | MouseDown \<Rightarrow> respond (press_report altIsMeta e m) m
         | MouseUp \<Rightarrow> respond (release_report e m) m
         | MouseMove \<Rightarrow>
             (if buttons e = 0 then Some m
              else
                (let r = drag_report altIsMeta e m
                 in if lastMouseDragResponse m = Some r then Some m
                    else respond r (m\<lparr>lastMouseDragResponse := Some r\<rparr>)))
         | Click \<Rightarrow> Some m
         | DblClick \<Rightarrow> Some m))"

section \<open>What the terminal makes of an event\<close>

text \<open>
  The keys for what the wheel turned; the sign says which way. The string may be empty, and is
  sent all the same.
\<close>

definition delta_to_arrows :: "int \<Rightarrow> code_unit \<Rightarrow> code_unit \<Rightarrow> jsstring" where
  "delta_to_arrows n arrow_pos arrow_neg =
     concat (replicate (nat \<bar>n\<bar>) [27, 79, if n < 0 then arrow_neg else arrow_pos])"

definition wheel_arrows :: "mouse_event \<Rightarrow> machine \<Rightarrow> machine option" where
  "wheel_arrows e m =
     (if scrollWheelArrowKeys m \<and> \<not> shiftKey e \<and> applicationCursor (keyboard m) \<and>
         on_alternate (vt_terminal m) \<and> mouse_kind e = Wheel
      then send (delta_to_arrows (wheel_rows e) 65 66 @ delta_to_arrows (wheel_columns e) 67 68) m
      else Some m)"

text \<open>The position is clipped to the screen.\<close>

definition on_screen_event :: "terminal \<Rightarrow> mouse_event \<Rightarrow> mouse_event" where
  "on_screen_event t e =
     e\<lparr>terminalRow := clamp (terminalRow e) 1 (height (screenSize t)),
       terminalColumn := clamp (terminalColumn e) 1 (width (screenSize t))\<rparr>"

text \<open>
  The state is \<open>defeatMouseReports_\<close> and the interpreter. Pressing with the alt key defeats reports
  until the button is released with nothing selected; whether an event is reported is decided
  before that.
\<close>

definition onMouse :: "bool \<Rightarrow> mouse_event \<Rightarrow> bool \<times> machine \<Rightarrow> (bool \<times> machine) option" where
  "onMouse altIsMeta e s =
     (let (defeat, m) = s;
          report = (\<not> defeat \<and> mouseReport m \<noteq> MOUSE_REPORT_DISABLED);
          e = on_screen_event (vt_terminal m) e
      in if mouse_kind e = MouseDown \<and> on_scrollbar e then Some s
         else do {
           let defeat = (if mouse_kind e = MouseDown then altKey e \<or> \<not> report else defeat);
           m \<leftarrow> (if report then onTerminalMouse altIsMeta e m else wheel_arrows e m);
           Some (if mouse_kind e = MouseUp \<and> nothing_selected e then False else defeat, m)
         })"

fun mouse_run :: "bool \<Rightarrow> mouse_event list \<Rightarrow> bool \<times> machine \<Rightarrow> (bool \<times> machine) option" where
  "mouse_run altIsMeta [] s = Some s"
| "mouse_run altIsMeta (e # es) s = onMouse altIsMeta e s \<bind> mouse_run altIsMeta es"

section \<open>Reading reports\<close>

text \<open>
  How a program on the host reads a report, in decimal numbers or in characters: the number with
  the button and the modifiers, column and row, and whether the button is pressed.
\<close>

definition read_report :: "bool \<Rightarrow> jsstring \<Rightarrow> (int \<times> int \<times> int \<times> bool) option" where
  "read_report decimal s =
     (if decimal then
        (if take 3 s = 27 # js ''[<'' then
           (case map to_number (split_on 59 (butlast (drop 3 s))) of
              [Some b, Some x, Some y] \<Rightarrow> Some (b, x, y, last s = 77)
            | _ \<Rightarrow> None)
         else None)
      else
        (case s of
           [e, k, f, b, x, y] \<Rightarrow> if [e, k, f] = 27 # js ''[M'' then Some (b - 32, x - 32, y - 32, b \<noteq> 35) else None
         | _ \<Rightarrow> None))"

lemma to_number_int [simp]: "0 \<le> n \<Longrightarrow> to_number (js_of_int n) = Some n"
  by (simp add: to_number_def digits_js_of_int digits_value_of_int)

lemma no_separator: "0 \<le> n \<Longrightarrow> list_all (\<lambda>c. c \<noteq> 59) (js_of_int n)"
  using js_of_int_digits [of n] by (auto simp: list_all_iff is_digit_def)

lemma read_sgr:
  assumes "0 \<le> b" and "0 \<le> terminalColumn e" and "0 \<le> terminalRow e"
  shows "read_report True (sgr_report b e final) = Some (b, terminalColumn e, terminalRow e, final = 77)"
  using assms by (simp add: read_report_def sgr_report_def butlast_append split_on_digits split_on_last no_separator)

lemma read_unit:
  assumes "1 \<le> terminalColumn e" "terminalColumn e \<le> coordinate_limit m - 32"
    and "1 \<le> terminalRow e" "terminalRow e \<le> coordinate_limit m - 32"
  shows "read_report False (unit_report b e m) = Some (b - 32, terminalColumn e, terminalRow e, b \<noteq> 35)"
  using assms by (simp add: read_report_def unit_report_def coordinate_def clamp_def)

lemma modifiers_values: "modifiers a e m \<in> {0, 4, 8, 12, 16, 20, 24, 28}"
  by (simp add: modifiers_def)

lemma on_screen_event_simps [simp]:
  "mouse_kind (on_screen_event t e) = mouse_kind e" "altKey (on_screen_event t e) = altKey e"
  "button (on_screen_event t e) = button e" "buttons (on_screen_event t e) = buttons e"
  "on_scrollbar (on_screen_event t e) = on_scrollbar e" "nothing_selected (on_screen_event t e) = nothing_selected e"
  "modifiers a (on_screen_event t e) m = modifiers a e m"
  by (simp_all add: on_screen_event_def modifiers_def)

lemma on_screen_event_cell:
  assumes "term_ok E t"
  shows "1 \<le> terminalColumn (on_screen_event t e)" "terminalColumn (on_screen_event t e) \<le> width (screenSize t)"
    "1 \<le> terminalRow (on_screen_event t e)" "terminalRow (on_screen_event t e) \<le> height (screenSize t)"
  using term_ok_cursor [OF assms] by (simp_all add: on_screen_event_def clamp_def)

lemma report_nonempty [simp]: "sgr_report b e f \<noteq> []" "unit_report b e m \<noteq> []"
  by (simp_all add: sgr_report_def unit_report_def)

text \<open>An event for the witnesses: a button over a cell.\<close>

definition pointer :: "mouse_kind \<Rightarrow> bool \<Rightarrow> mouse_event" where
  "pointer k alt = \<lparr>mouse_kind = k, button = 0, buttons = 1, shiftKey = False, metaKey = False, altKey = alt,
     ctrlKey = False, wheel_up = False, terminalRow = 7, terminalColumn = 5, on_scrollbar = False,
     nothing_selected = True, wheel_rows = 0, wheel_columns = 0\<rparr>"

lemma pointer_simps [simp]:
  "mouse_kind (pointer k alt) = k" "altKey (pointer k alt) = alt" "\<not> on_scrollbar (pointer k alt)"
  "button (pointer k alt) = 0" "buttons (pointer k alt) = 1"
  by (simp_all add: pointer_def)

lemma reporting_machine:
  assumes "new_vt t = Some m" and "v \<noteq> MOUSE_REPORT_DISABLED"
  obtains m' where "mouse_mode v True m = Some m'" "vt_terminal m' = vt_terminal m" "mouseReport m' = v"
    "events m' = events m" "lastMouseDragResponse m' = None" "\<not> sgr_coordinates m'" "coordinate_limit m' = 127"
  using assms that [of "m\<lparr>mouseReport := v\<rparr>"]
  by (auto simp: mouse_mode_def new_vt_def sgr_coordinates_def coordinate_limit_def mouse_constants Option.bind_eq_Some_conv)

text \<open>
  C25. Where a program has the mouse reported, pressing a button sends one report, and the program
  reads from it the button, counted from 0 and at most 2, with the modifiers, and the cell the
  mouse is on. In the coordinates that are characters this holds on screens of at most 95 cells,
  or 2015 with UTF-8, across and down.
\<close>

theorem press_is_read:
  assumes "term_ok (screen_env H) (vt_terminal m)" and "mouseReport m \<noteq> MOUSE_REPORT_DISABLED"
    and "mouse_kind e = MouseDown" and "\<not> on_scrollbar e" and "0 \<le> button e"
    and "sgr_coordinates m \<or> width (screenSize (vt_terminal m)) \<le> coordinate_limit m - 32 \<and>
      height (screenSize (vt_terminal m)) \<le> coordinate_limit m - 32"
  shows "\<exists>r. onMouse a e (False, m) = Some (altKey e, m\<lparr>events := events m @ [SendString r]\<rparr>) \<and>
    read_report (sgr_coordinates m) r =
      Some (min (button e) 2 + modifiers a e m, terminalColumn (on_screen_event (vt_terminal m) e),
        terminalRow (on_screen_event (vt_terminal m) e), True)"
proof -
  let ?e = "on_screen_event (vt_terminal m) e" and ?b = "min (button e) 2"
  note cell = on_screen_event_cell [OF assms(1), of e]
  have b: "?b \<in> {0, 1, 2}" using assms(5) by auto
  have disjoint: "?b OR modifiers a e m = ?b + modifiers a e m"
      "(?b + 32) OR modifiers a e m = ?b + 32 + modifiers a e m"
    using b modifiers_values [of a e m] by auto
  have nonneg: "0 \<le> ?b + modifiers a e m" "?b + modifiers a e m \<noteq> 3" using b modifiers_values [of a e m] by auto
  have "read_report (sgr_coordinates m) (press_report a ?e m) =
      Some (?b + modifiers a e m, terminalColumn ?e, terminalRow ?e, True)"
  proof (cases "sgr_coordinates m")
    case True
    then show ?thesis using read_sgr [of "?b + modifiers a e m" ?e 77] cell nonneg by (simp add: press_report_def Let_def disjoint)
  next
    case False
    then have "terminalColumn ?e \<le> coordinate_limit m - 32" "terminalRow ?e \<le> coordinate_limit m - 32"
      using assms(6) cell by linarith+
    then show ?thesis using read_unit [of ?e m "?b + 32 + modifiers a e m"] False cell nonneg
      by (simp add: press_report_def Let_def disjoint)
  qed
  moreover have "press_report a ?e m \<noteq> []" by (simp add: press_report_def Let_def)
  ultimately show ?thesis
    using assms(2-4) by (intro exI [of _ "press_report a ?e m"])
      (simp add: onMouse_def onTerminalMouse_def respond_def send_def emit_def)
qed

lemma press_is_read_witness:
  "\<exists>t m m1 m' r. reachable unit_env t \<and> new_vt t = Some m \<and> mouse_mode MOUSE_REPORT_CLICK True m = Some m1 \<and>
     onMouse False (pointer MouseDown False) (False, m1) = Some (False, m') \<and> events m' = events m1 @ [SendString r] \<and>
     read_report False r = Some (0, 5, 7, True)"
proof -
  obtain t where t: "reachable unit_env t" "term_ok unit_env t" "screenSize t = \<lparr>width = 80, height = 24\<rparr>"
    using placed_terminal [of 0 0] by auto
  obtain m where m: "new_vt t = Some m" "vt_terminal m = t" by (rule new_vt_result)
  have on: "MOUSE_REPORT_CLICK \<noteq> MOUSE_REPORT_DISABLED" by (simp add: mouse_constants)
  obtain m1 where m1: "mouse_mode MOUSE_REPORT_CLICK True m = Some m1" "vt_terminal m1 = vt_terminal m"
    "mouseReport m1 = MOUSE_REPORT_CLICK" "\<not> sgr_coordinates m1" "coordinate_limit m1 = 127"
    using reporting_machine [OF m(1) on] by metis
  have "\<exists>r. onMouse False (pointer MouseDown False) (False, m1) =
      Some (altKey (pointer MouseDown False), m1\<lparr>events := events m1 @ [SendString r]\<rparr>) \<and>
    read_report (sgr_coordinates m1) r =
      Some (min (button (pointer MouseDown False)) 2 + modifiers False (pointer MouseDown False) m1,
        terminalColumn (on_screen_event (vt_terminal m1) (pointer MouseDown False)),
        terminalRow (on_screen_event (vt_terminal m1) (pointer MouseDown False)), True)"
    by (rule press_is_read [where H = unit_host]) (use m m1 t on in simp_all)
  then obtain r where r: "onMouse False (pointer MouseDown False) (False, m1) =
      Some (False, m1\<lparr>events := events m1 @ [SendString r]\<rparr>)" "read_report False r = Some (0, 5, 7, True)"
    using m m1 t by (auto simp: modifiers_def on_screen_event_def pointer_def clamp_def)
  show ?thesis using t(1) m(1) m1(1) r
    by (intro exI [of _ t] exI [of _ m] exI [of _ m1] exI [of _ "m1\<lparr>events := events m1 @ [SendString r]\<rparr>"] exI [of _ r]) simp
qed

text \<open>
  A press with the alt key held is reported, but from then on nothing is: the program never
  learns that the button is released.
\<close>

theorem alt_press_never_released:
  assumes "mouseReport m \<noteq> MOUSE_REPORT_DISABLED" and "mouse_kind e = MouseDown" and "\<not> on_scrollbar e"
    and "altKey e" and "mouse_kind e' = MouseUp"
  shows "\<exists>defeat. mouse_run a [e, e'] (False, m) =
    Some (defeat, m\<lparr>events := events m @ [SendString (press_report a (on_screen_event (vt_terminal m) e) m)]\<rparr>)"
proof -
  let ?r = "press_report a (on_screen_event (vt_terminal m) e) m"
  have "?r \<noteq> []" by (simp add: press_report_def Let_def)
  then show ?thesis
    using assms by (simp add: onMouse_def onTerminalMouse_def respond_def send_def emit_def wheel_arrows_def)
qed

lemma alt_press_never_released_witness:
  "\<exists>m m1 defeat r m'. new_vt undefined = Some m \<and> mouse_mode MOUSE_REPORT_CLICK True m = Some m1 \<and>
     mouse_run False [pointer MouseDown True, pointer MouseUp True] (False, m1) = Some (defeat, m') \<and>
     events m' = [SendString r]"
proof -
  obtain m where m: "new_vt undefined = Some m" "events m = []" by (rule new_vt_result)
  have on: "MOUSE_REPORT_CLICK \<noteq> MOUSE_REPORT_DISABLED" by (simp add: mouse_constants)
  obtain m1 where m1: "mouse_mode MOUSE_REPORT_CLICK True m = Some m1" "mouseReport m1 = MOUSE_REPORT_CLICK" "events m1 = []"
    using reporting_machine [OF m(1) on] m(2) by metis
  from alt_press_never_released [of m1 "pointer MouseDown True" "pointer MouseUp True" False] m1 on
  obtain defeat where "mouse_run False [pointer MouseDown True, pointer MouseUp True] (False, m1) =
      Some (defeat, m1\<lparr>events := events m1 @
        [SendString (press_report False (on_screen_event (vt_terminal m1) (pointer MouseDown True)) m1)]\<rparr>)"
    by auto
  with m m1 show ?thesis by fastforce
qed

text \<open>Reports depend on the modes alone.\<close>

lemma report_updates [simp]:
  "modifiers a e (m\<lparr>events := x\<rparr>) = modifiers a e m" "modifiers a e (m\<lparr>lastMouseDragResponse := y\<rparr>) = modifiers a e m"
  "unit_report b e (m\<lparr>events := x\<rparr>) = unit_report b e m" "unit_report b e (m\<lparr>lastMouseDragResponse := y\<rparr>) = unit_report b e m"
  "sgr_coordinates (m\<lparr>events := x\<rparr>) = sgr_coordinates m"
  "sgr_coordinates (m\<lparr>lastMouseDragResponse := y\<rparr>) = sgr_coordinates m"
  by (simp_all add: modifiers_def unit_report_def coordinate_def coordinate_limit_def sgr_coordinates_def)

lemma report_kinds_updates [simp]:
  "drag_report a e (m\<lparr>events := x\<rparr>) = drag_report a e m" "drag_report a e (m\<lparr>lastMouseDragResponse := y\<rparr>) = drag_report a e m"
  "press_report a e (m\<lparr>events := x\<rparr>) = press_report a e m"
  "press_report a e (m\<lparr>lastMouseDragResponse := y\<rparr>) = press_report a e m"
  "release_report e (m\<lparr>events := x\<rparr>) = release_report e m"
  "release_report e (m\<lparr>lastMouseDragResponse := y\<rparr>) = release_report e m"
  by (simp_all add: drag_report_def press_report_def release_report_def Let_def)

text \<open>
  A drag to a cell is not reported when the last drag that was reported was to the same cell
  with the same button, even when the button was released and pressed again in between.
\<close>

theorem second_drag_lost:
  assumes "mouseReport m = MOUSE_REPORT_DRAG" and "mouse_kind e = MouseMove" and "buttons e \<noteq> 0"
    and "mouse_kind up = MouseUp" and "mouse_kind down = MouseDown" and "\<not> on_scrollbar down" and "\<not> altKey down"
    and "lastMouseDragResponse m \<noteq> Some (drag_report a (on_screen_event (vt_terminal m) e) m)"
  shows "\<exists>m'. mouse_run a [e, up, down, e] (False, m) = Some (False, m') \<and>
    events m' = events m @ map SendString
      [drag_report a (on_screen_event (vt_terminal m) e) m,
       release_report (on_screen_event (vt_terminal m) up) m,
       press_report a (on_screen_event (vt_terminal m) down) m]"
proof -
  let ?s = "on_screen_event (vt_terminal m)"
  let ?m1 = "m\<lparr>lastMouseDragResponse := Some (drag_report a (?s e) m), events := events m @ [SendString (drag_report a (?s e) m)]\<rparr>"
  have mode: "MOUSE_REPORT_DRAG \<noteq> MOUSE_REPORT_DISABLED" "MOUSE_REPORT_DRAG \<noteq> MOUSE_REPORT_PRESS"
    by (simp_all add: mouse_constants)
  have nonempty: "drag_report a (?s e) m \<noteq> []" "press_report a (?s down) m \<noteq> []" "release_report (?s up) m \<noteq> []"
    using assms(1) mode by (simp_all add: drag_report_def press_report_def release_report_def Let_def)
  have drag: "onMouse a e (False, m) = Some (False, ?m1)"
    using assms(1-3,8) mode nonempty by (simp add: onMouse_def onTerminalMouse_def respond_def send_def emit_def Let_def)
  let ?m2 = "?m1\<lparr>events := events ?m1 @ [SendString (release_report (?s up) m)]\<rparr>"
  have up: "onMouse a up (False, ?m1) = Some (False, ?m2)"
    using assms(1,4) mode nonempty by (simp add: onMouse_def onTerminalMouse_def respond_def send_def emit_def)
  let ?m3 = "?m2\<lparr>events := events ?m2 @ [SendString (press_report a (?s down) m)]\<rparr>"
  have down: "onMouse a down (False, ?m2) = Some (False, ?m3)"
    using assms(1,5-7) mode nonempty by (simp add: onMouse_def onTerminalMouse_def respond_def send_def emit_def)
  have again: "onMouse a e (False, ?m3) = Some (False, ?m3)"
    using assms(1-3) mode by (simp add: onMouse_def onTerminalMouse_def Let_def)
  show ?thesis using drag up down again by (intro exI [of _ ?m3]) simp
qed

lemma second_drag_lost_witness:
  "\<exists>m m1 m'. new_vt undefined = Some m \<and> mouse_mode MOUSE_REPORT_DRAG True m = Some m1 \<and>
     mouse_run False [pointer MouseMove False, pointer MouseUp False, pointer MouseDown False, pointer MouseMove False]
       (False, m1) = Some (False, m') \<and> length (events m') = 3"
proof -
  obtain m where m: "new_vt undefined = Some m" "events m = []" by (rule new_vt_result)
  have on: "MOUSE_REPORT_DRAG \<noteq> MOUSE_REPORT_DISABLED" by (simp add: mouse_constants)
  obtain m1 where m1: "mouse_mode MOUSE_REPORT_DRAG True m = Some m1" "mouseReport m1 = MOUSE_REPORT_DRAG" "events m1 = []"
    "lastMouseDragResponse m1 = None"
    using reporting_machine [OF m(1) on] m(2) by metis
  from second_drag_lost [of m1 "pointer MouseMove False" "pointer MouseUp False" "pointer MouseDown False" False] m1
  obtain m' where "mouse_run False [pointer MouseMove False, pointer MouseUp False, pointer MouseDown False, pointer MouseMove False]
      (False, m1) = Some (False, m')" "length (events m') = 3"
    by auto
  with m m1 show ?thesis by blast
qed

end
