(* ===== verification/MultiSelect.thy ===== *)
theory MultiSelect
  imports Prelude
begin

text \<open>
  The dropdown with which the page selects hosts and programs, the class \<open>MultiSelect\<close> of
  multi-select-dropdown.js: its data, the parts of the document it builds and changes (the
  options, the hidden inputs of the form, the header), and the handlers of its events. The
  element \<open>select\<close> it is made from, widths and heights are left out.

  Values and texts are placed in the document by templates; here they are taken to be text
  without markup, so that what is read back from the document is what was placed there.
\<close>

section \<open>Data\<close>

record item =
  item_value :: jsstring
  item_label :: jsstring
  item_html :: "jsstring option"
  item_selected :: bool

text \<open>
  The options that matter: \<open>max\<close> is \<open>None\<close> when it is falsy; \<open>search\<close>, \<open>selectAll\<close> and
  \<open>closeListOnItemSelect\<close> are compared with true and \<open>'true'\<close>; \<open>listAll\<close> with those and with
  false and \<open>'false'\<close>, and is \<open>None\<close> when it is neither.
\<close>

record select_options =
  max_count :: "int option"
  with_search :: bool
  with_selectAll :: bool
  listAll :: "bool option"
  closeListOnItemSelect :: bool

text \<open>
  The children of the header: the count against the maximum, the placeholder, and the entries of
  class \<open>multi-select-header-option\<close>, one with the value of its option or one without.
\<close>

datatype header_span = MaxSpan jsstring | Placeholder | OptionSpan "jsstring option" jsstring

text \<open>
  The dropdown: for every option whether it has the class \<open>multi-select-selected\<close> and whether it
  is displayed; the values of the hidden inputs and the children of the header, in the order of
  the document; whether the header is active; the text of the search field; and whether the
  button that selects all has the class \<open>multi-select-selected\<close>.
\<close>

record select =
  data :: "item list"
  marked :: "bool list"
  displayed :: "bool list"
  inputs :: "jsstring list"
  header_spans :: "header_span list"
  header_active :: bool
  search_value :: jsstring
  all_marked :: bool


definition option_html :: "item \<Rightarrow> jsstring" where
  "option_html it =
     (case item_html it of
        None \<Rightarrow> item_label it
      | Some h \<Rightarrow> if h = [] then item_label it else h)"

definition selectedItems :: "select \<Rightarrow> item list" where
  "selectedItems s = filter item_selected (data s)"

definition selectedValues :: "select \<Rightarrow> jsstring list" where
  "selectedValues s = map item_value (selectedItems s)"


section \<open>The header\<close>

fun is_option_span :: "header_span \<Rightarrow> bool" where
  "is_option_span (OptionSpan v h) = True"
| "is_option_span sp = False"



fun remove_first_option :: "header_span list \<Rightarrow> header_span list" where
  "remove_first_option [] = []"
| "remove_first_option (x # xs) = (if is_option_span x then xs else x # remove_first_option xs)"

fun set_first_max :: "jsstring \<Rightarrow> header_span list \<Rightarrow> header_span list" where
  "set_first_max h [] = []"
| "set_first_max h (x # xs) = (case x of MaxSpan g \<Rightarrow> MaxSpan h # xs | _ \<Rightarrow> x # set_first_max h xs)"

definition count_span :: "select \<Rightarrow> header_span" where
  "count_span s = OptionSpan None (js_of_int (int (length (selectedValues s))) @ js '' selected'')"

definition max_text :: "select_options \<Rightarrow> select \<Rightarrow> jsstring" where
  "max_text Opt s =
     (case max_count Opt of
        None \<Rightarrow> []
      | Some n \<Rightarrow> js_of_int (int (length (selectedValues s))) @ js ''/'' @ js_of_int n)"

section \<open>The constructor\<close>




section \<open>Handlers\<close>




definition refresh_header :: "select_options \<Rightarrow> select \<Rightarrow> select" where
  "refresh_header Opt s =
     (let hs = header_spans s;
          hs = (if listAll Opt = Some False then count_span s # remove_first_option hs else hs);
          hs = (if \<not> list_ex is_option_span hs then Placeholder # hs
                else if Placeholder \<in> set hs then remove1 Placeholder hs else hs);
          hs = (if max_count Opt = None then hs else set_first_max (max_text Opt s) hs)
      in s\<lparr>header_spans := hs, search_value := (if with_search Opt then [] else search_value s),
           displayed := map (\<lambda>_. True) (displayed s),
           header_active := (header_active s \<and> \<not> closeListOnItemSelect Opt)\<rparr>)"







section \<open>Events\<close>





section \<open>The selection is one\<close>

text \<open>
  What a dropdown shows and submits is its data: the marks, the hidden inputs, the entries of the
  header, the placeholder exactly when there is none, the count against the maximum, which it
  does not pass.
\<close>

fun is_max_span :: "header_span \<Rightarrow> bool" where
  "is_max_span (MaxSpan h) = True"
| "is_max_span sp = False"

definition entry_span :: "item \<Rightarrow> header_span" where
  "entry_span it = OptionSpan (Some (item_value it)) (option_html it)"

definition entries_ok :: "select_options \<Rightarrow> select \<Rightarrow> bool" where
  "entries_ok Opt s \<longleftrightarrow>
     (let es = filter is_option_span (header_spans s)
      in (listAll Opt = Some True \<longrightarrow> mset es = mset (map entry_span (selectedItems s))) \<and>
         (listAll Opt = Some False \<longrightarrow> es = [count_span s] \<or> es = [] \<and> selectedItems s = []))"

definition placeholder_ok :: "select_options \<Rightarrow> select \<Rightarrow> bool" where
  "placeholder_ok Opt s \<longleftrightarrow> listAll Opt = None \<or>
     count_list (header_spans s) Placeholder = (if list_ex is_option_span (header_spans s) then 0 else 1)"

definition marks_ok :: "select \<Rightarrow> bool" where
  "marks_ok s \<longleftrightarrow> marked s = map item_selected (data s) \<and> length (displayed s) = length (data s) \<and>
     mset (inputs s) = mset (selectedValues s)"

definition within_max :: "select_options \<Rightarrow> item list \<Rightarrow> bool" where
  "within_max Opt items \<longleftrightarrow>
     (case max_count Opt of None \<Rightarrow> True | Some n \<Rightarrow> int (length (filter item_selected items)) \<le> n)"

definition select_ok :: "select_options \<Rightarrow> select \<Rightarrow> bool" where
  "select_ok Opt s \<longleftrightarrow> distinct (map item_value (data s)) \<and> marks_ok s \<and> entries_ok Opt s \<and>
     placeholder_ok Opt s \<and> filter is_max_span (header_spans s) = [MaxSpan (max_text Opt s)] \<and>
     within_max Opt (data s)"










lemma refresh_header_data [simp]:
  "data (refresh_header Opt s) = data s" "marked (refresh_header Opt s) = marked s"
  "inputs (refresh_header Opt s) = inputs s" "length (displayed (refresh_header Opt s)) = length (displayed s)"
  "all_marked (refresh_header Opt s) = all_marked s"
  by (simp_all add: refresh_header_def Let_def)


lemma entry_selected [simp]: "option_html (x\<lparr>item_selected := b\<rparr>) = option_html x"
    "entry_span (x\<lparr>item_selected := b\<rparr>) = entry_span x"
  by (simp_all add: entry_span_def option_html_def split: option.split)



lemma select_ok_data: "select_ok Opt s \<Longrightarrow> length (marked s) = length (data s)"
  by (simp add: select_ok_def marks_ok_def)













end
