(* ===== verification/TerminalPage.thy ===== *)
theory TerminalPage
  imports TerminalEcho VtMouse MultiSelect
begin

text \<open>
  The page that shows the logs, terminal-1.0.0.js, with the input and output objects it prints
  through, \<open>hterm.Terminal.IO\<close> (hterm_all-1.91.js): the terminals it makes, its web sockets, and
  what their messages print.
\<close>

section \<open>Input and output objects\<close>

text \<open>
  A terminal with its interpreter and its input and output objects, numbered as they are made:
  the one in the foreground, which the terminal has as \<open>io\<close>, the one each was pushed over,
  the text each has kept while it was in the background, and whether its \<open>sendString\<close> was set to
  its \<open>print\<close>; and a field of the terminal for the mouse. \<open>None\<close> is an exception.
\<close>

record console =
  interp :: "parse_state \<times> machine"
  active_io :: nat
  previousIO :: "nat \<Rightarrow> nat option"
  io_buffered :: "nat \<Rightarrow> jsstring"
  sends_by_print :: "nat \<Rightarrow> bool"
  io_count :: nat
  defeatMouseReports :: bool

text \<open>
  An answer of the terminal goes to the \<open>sendString\<close> of the object in the foreground. Where that
  is \<open>print\<close>, it is interpreted on the terminal in the middle of the text that asked for it; the
  one of the class does nothing to the terminal.
\<close>

definition console_interpret :: "host \<Rightarrow> jsstring \<Rightarrow> console \<Rightarrow> console option" where
  "console_interpret H s c =
     map_option (\<lambda>r. c\<lparr>interp := r\<rparr>)
       ((if sends_by_print c (active_io c) then echo_interpret H s else vt_interpret H s) (interp c))"

definition io_print :: "host \<Rightarrow> nat \<Rightarrow> jsstring \<Rightarrow> console \<Rightarrow> console option" where
  "io_print H i s c =
     (if active_io c \<noteq> i then Some (c\<lparr>io_buffered := (io_buffered c)(i := io_buffered c i @ s)\<rparr>)
      else console_interpret H s c)"

definition io_println :: "host \<Rightarrow> nat \<Rightarrow> jsstring \<Rightarrow> console \<Rightarrow> console option" where
  "io_println H i s = io_print H i (s @ [13, 10])"

definition io_push :: "console \<Rightarrow> nat \<times> console" where
  "io_push c =
     (let n = io_count c
      in (n, c\<lparr>active_io := n, previousIO := (previousIO c)(n := Some (active_io c)),
               io_buffered := (io_buffered c)(n := []), sends_by_print := (sends_by_print c)(n := False),
               io_count := n + 1\<rparr>))"

definition io_flush :: "host \<Rightarrow> nat \<Rightarrow> console \<Rightarrow> console option" where
  "io_flush H i c =
     (if io_buffered c i = [] then Some c
      else Option.bind (console_interpret H (io_buffered c i) c)
        (\<lambda>c. Some (c\<lparr>io_buffered := (io_buffered c)(i := [])\<rparr>)))"

text \<open>The first object has no previous one: popping it throws.\<close>

definition io_pop :: "host \<Rightarrow> nat \<Rightarrow> console \<Rightarrow> console option" where
  "io_pop H i c =
     (case previousIO c i of
        None \<Rightarrow> None
      | Some j \<Rightarrow> io_flush H j (c\<lparr>active_io := j\<rparr>))"

text \<open>An event of the mouse: what is sent for it goes to the object in the foreground.\<close>

definition console_mouse :: "host \<Rightarrow> mouse_event \<Rightarrow> console \<Rightarrow> console option" where
  "console_mouse H e c = do {
     (defeat, m) \<leftarrow> onMouse (alt_is_meta H) e (defeatMouseReports c, snd (interp c));
     let c' = c\<lparr>interp := (fst (interp c), m), defeatMouseReports := defeat\<rparr>;
     (case answers (snd (interp c)) m of
        [] \<Rightarrow> Some c'
      | s # _ \<Rightarrow> if sends_by_print c (active_io c) then console_interpret H s c' else Some c')
   }"

text \<open>A terminal after its constructor: \<open>io\<close> is its first object.\<close>

definition new_console :: "machine \<Rightarrow> console" where
  "new_console m = \<lparr>interp = (new_parse_state, m), active_io = 0, previousIO = Map.empty,
     io_buffered = (\<lambda>_. []), sends_by_print = (\<lambda>_. False), io_count = 1,
     defeatMouseReports = False\<rparr>"

lemma background_text_waits:
  assumes "previousIO c i = Some j" and "active_io c \<noteq> j" and "s \<noteq> []"
  shows "Option.bind (io_print H j s c) (io_pop H i) =
    Option.bind (console_interpret H (io_buffered c j @ s)
        (c\<lparr>active_io := j, io_buffered := (io_buffered c)(j := io_buffered c j @ s)\<rparr>))
      (\<lambda>c. Some (c\<lparr>io_buffered := (io_buffered c)(j := [])\<rparr>))"
proof -
  have swap: "c\<lparr>io_buffered := b, active_io := j\<rparr> = c\<lparr>active_io := j, io_buffered := b\<rparr>" for b by simp
  show ?thesis using assms by (simp add: io_print_def io_pop_def io_flush_def swap)
qed

section \<open>Log messages\<close>

record log_item =
  item_date :: jsstring
  item_host :: jsstring
  item_program :: jsstring
  item_message :: jsstring

record log_response =
  success :: bool
  logDataList :: "log_item list"
  errorMessage :: jsstring

text \<open>What \<open>new Date(d)\<close> gives for a date: \<open>toLocaleString()\<close> and \<open>getMilliseconds()\<close>.\<close>

record dates =
  toLocaleString :: "jsstring \<Rightarrow> jsstring"
  getMilliseconds :: "jsstring \<Rightarrow> jsstring"

definition log_prefix :: "dates \<Rightarrow> log_item \<Rightarrow> jsstring" where
  "log_prefix D it =
     toLocaleString D (item_date it) @ js '' '' @ getMilliseconds D (item_date it) @ js ''ms'' @
     js '' ['' @ item_host it @ js ''] ['' @ item_program it @ js ''] ''"

definition isMultilineMessage :: "jsstring \<Rightarrow> bool" where
  "isMultilineMessage s \<longleftrightarrow> 10 \<in> set s"

text \<open>\<open>message.split(/\r?\n|\r|\n/g)\<close>\<close>

definition after_cr :: "jsstring \<Rightarrow> jsstring" where
  "after_cr s = (case s of c # r \<Rightarrow> if c = 10 then r else s | [] \<Rightarrow> [])"

lemma length_after_cr [termination_simp]: "length (after_cr s) < Suc (length s)"
  by (simp add: after_cr_def split: list.split)

fun split_lines :: "jsstring \<Rightarrow> jsstring list" where
  "split_lines [] = [[]]"
| "split_lines (c # s) =
     (if c = 13 then [] # split_lines (after_cr s)
      else if c = 10 then [] # split_lines s
      else case split_lines s of [] \<Rightarrow> [[c]] | l # ls \<Rightarrow> (c # l) # ls)"

text \<open>The lines printed for a message: \<open>printMultilineMessage\<close>, or the message as it is.\<close>

definition item_lines :: "dates \<Rightarrow> log_item \<Rightarrow> jsstring list" where
  "item_lines D it =
     (if isMultilineMessage (item_message it) then
        (case split_lines (item_message it) of
           [] \<Rightarrow> []
         | l # ls \<Rightarrow> (log_prefix D it @ l) # ls)
      else [log_prefix D it @ item_message it])"

definition response_lines :: "dates \<Rightarrow> log_response \<Rightarrow> jsstring list" where
  "response_lines D r =
     (if success r then concat (map (item_lines D) (logDataList r))
      else [js ''WEBSOCKET: Log subscription error message: ['' @ errorMessage r @ js '']''])"

section \<open>The page\<close>

text \<open>
  The terminals the page has made, \<open>term\<close> being the last one; its variable \<open>terminalIO\<close>, an
  object of one of them; the web sockets it has made, with the selection each asks for; its
  variable \<open>socket\<close>; and the requests sent.
\<close>

record websocket =
  closed_by_page :: bool
  asked_hosts :: "jsstring list"
  asked_programs :: "jsstring list"

record page =
  consoles :: "console list"
  terminalIO :: "(nat \<times> nat) option"
  sockets :: "websocket list"
  socket :: "nat option"
  requests :: "(nat \<times> jsstring list \<times> jsstring list) list"

definition new_page :: page where
  "new_page = \<lparr>consoles = [], terminalIO = None, sockets = [], socket = None, requests = []\<rparr>"

text \<open>\<open>terminalIO.print\<close> and \<open>terminalIO.println\<close>, which throw before the first terminal is ready.\<close>

definition page_print :: "host \<Rightarrow> jsstring \<Rightarrow> page \<Rightarrow> page option" where
  "page_print H s P =
     (case terminalIO P of
        None \<Rightarrow> None
      | Some (k, i) \<Rightarrow> Option.bind (io_print H i s (consoles P ! k))
          (\<lambda>c. Some (P\<lparr>consoles := (consoles P)[k := c]\<rparr>)))"

definition page_println :: "host \<Rightarrow> jsstring \<Rightarrow> page \<Rightarrow> page option" where
  "page_println H s = page_print H (s @ [13, 10])"

fun print_lines :: "host \<Rightarrow> jsstring list \<Rightarrow> page \<Rightarrow> page option" where
  "print_lines H [] P = Some P"
| "print_lines H (l # ls) P = Option.bind (page_println H l P) (print_lines H ls)"

definition setupHterm :: "host \<Rightarrow> gsets \<Rightarrow> page \<Rightarrow> page option" where
  "setupHterm H cs P =
     (case new_terminal (screen_env H) cs \<bind> new_vt of
        None \<Rightarrow> None
      | Some m \<Rightarrow> Some (P\<lparr>consoles := consoles P @ [new_console m]\<rparr>))"

text \<open>
  \<open>onTerminalReady\<close>, called when the preferences of the terminal are read and set, the coding
  system among them.
\<close>

definition onTerminalReady :: "jsstring \<Rightarrow> nat \<Rightarrow> page \<Rightarrow> page" where
  "onTerminalReady encoding k P =
     (let (i, c) = io_push ((consoles P ! k)
            \<lparr>interp := map_prod id (setEncoding encoding) (interp (consoles P ! k))\<rparr>);
          c = c\<lparr>sends_by_print := (sends_by_print c)(i := True)\<rparr>
      in P\<lparr>consoles := (consoles P)[k := c], terminalIO := Some (k, i)\<rparr>)"

definition prompt :: jsstring where
  "prompt =
     27 # js ''[38:2:51:105:232mh'' @ 27 # js ''[38:2:213:15:37mt'' @ 27 # js ''[38:2:238:178:17me'' @
     27 # js ''[38:2:51:105:232mr'' @ 27 # js ''[38:2:0:153:37mm'' @ 27 # js ''[38:2:213:15:37m>'' @
     27 # js ''[0m ''"

definition onVTKeystroke :: "host \<Rightarrow> jsstring \<Rightarrow> page \<Rightarrow> page option" where
  "onVTKeystroke H str P =
     (if str = [13] then Option.bind (page_println H [] P) (page_print H prompt)
      else if str = [127] then page_print H (8 # 27 # js ''[K'') P
      else page_print H str P)"

definition getLatestLogs :: "jsstring list \<Rightarrow> jsstring list \<Rightarrow> page \<Rightarrow> page" where
  "getLatestLogs selectedHosts selectedPrograms P =
     (if selectedHosts \<noteq> [] \<and> selectedPrograms \<noteq> [] then
        P\<lparr>sockets := sockets P @ [\<lparr>closed_by_page = False, asked_hosts = selectedHosts,
            asked_programs = selectedPrograms\<rparr>], socket := Some (length (sockets P))\<rparr>
      else P)"

definition close_socket :: "page \<Rightarrow> page" where
  "close_socket P =
     (case socket P of
        None \<Rightarrow> P
      | Some j \<Rightarrow> P\<lparr>sockets := (sockets P)[j := (sockets P ! j)\<lparr>closed_by_page := True\<rparr>]\<rparr>)"

definition handleMultiSelectAction :: "host \<Rightarrow> gsets \<Rightarrow> jsstring list \<Rightarrow> jsstring list \<Rightarrow> page \<Rightarrow>
    page option" where
  "handleMultiSelectAction H cs selectedHosts selectedPrograms P =
     Option.bind (setupHterm H cs (close_socket P)) (\<lambda>P. Some (getLatestLogs selectedHosts selectedPrograms P))"

section \<open>Events\<close>

text \<open>
  What the page reacts to: it is loaded, a terminal is ready, the selection changes, and what web
  sockets and terminals report, by number.
\<close>

datatype page_event =
    Loaded | Ready nat | Selected "jsstring list" "jsstring list"
  | Opened nat | Closed bool jsstring jsstring nat | Message nat log_response | Failed nat
  | Keystroke nat jsstring | Mouse nat mouse_event

fun handle_event :: "host \<Rightarrow> dates \<Rightarrow> gsets \<Rightarrow> page_event \<Rightarrow> page \<Rightarrow> page option" where
  "handle_event H D cs Loaded P = setupHterm H cs P"
| "handle_event H D cs (Ready k) P = Some (onTerminalReady (js ''utf-8'') k P)"
| "handle_event H D cs (Selected hosts programs) P = handleMultiSelectAction H cs hosts programs P"
| "handle_event H D cs (Opened j) P =
     Some (P\<lparr>requests := requests P @ [(j, asked_hosts (sockets P ! j), asked_programs (sockets P ! j))]\<rparr>)"
| "handle_event H D cs (Closed wasClean code reason j) P =
     page_println H
       (if wasClean then js ''WEBSOCKET: Connection was closed''
        else js ''WEBSOCKET: Connection was closed with unsuccessful code ['' @ code @
             js ''] and reason ['' @ reason @ js '']'') P"
| "handle_event H D cs (Message j r) P = print_lines H (response_lines D r) P"
| "handle_event H D cs (Failed j) P = page_println H (js ''WEBSOCKET: Error has occurred'') P"
| "handle_event H D cs (Keystroke k str) P = onVTKeystroke H str P"
| "handle_event H D cs (Mouse k e) P =
     map_option (\<lambda>c. P\<lparr>consoles := (consoles P)[k := c]\<rparr>) (console_mouse H e (consoles P ! k))"



section \<open>One subscription at a time\<close>













section \<open>The page with its dropdowns\<close>


















section \<open>Printing log messages\<close>

lemma lineFeed_column:
  assumes ok: "term_ok E t" and "rc_column (cursor t) = 0" and "lineFeed E t = Some t'"
  shows "rc_column (cursor t') = 0"
proof -
  obtain t1 where t1: "newLine E t = Some t1" "term_ok E t1" "t' = setCursorColumn E 0 t1"
    using new_line.runs [OF ok TrueI] assms(2,3) by (auto simp: lineFeed_def)
  have "0 < width (screenSize t1)" using term_ok_cursor [OF t1(2)] by simp
  then show ?thesis using setCursorColumn_cursor [OF t1(2), of 0] t1(3) by (simp add: RowCol_def)
qed

lemma newLine_column:
  assumes ok: "term_ok E t" and "newLine E t = Some t'"
  shows "rc_column (cursor t') = 0"
proof -
  have col: "rc_column (cursor (setAbsoluteCursorPosition E r 0 t)) = 0" if "term_ok E t" for r t
    using moved_absolute(2) [OF term_ok_wf [OF that], of r 0] term_ok_cursor [OF that]
    by (simp add: RowCol_def clamp_def)
  have newline: "(\<exists>t1. vtScrollUp E 1 t = Some t1 \<and> t' = setAbsoluteCursorPosition E (rc_row (cursor t1)) 0 t1) \<or>
      t' = appendRows E 1 t \<or> insertRow_at_cursor E t = Some t' \<or> (\<exists>r. t' = setAbsoluteCursorPosition E r 0 t)"
    using assms(2) unfolding newLine_cases [OF ok]
    by (cases "vtScrollUp E 1 t") (simp_all split: if_split_asm, blast+)
  consider (scroll) t1 where "vtScrollUp E 1 t = Some t1" "t' = setAbsoluteCursorPosition E (rc_row (cursor t1)) 0 t1"
    | (append) "t' = appendRows E 1 t" | (insert) "insertRow_at_cursor E t = Some t'"
    | (move) r where "t' = setAbsoluteCursorPosition E r 0 t"
    using newline by blast
  then show ?thesis
  proof cases
    case scroll
    moreover have "term_ok E t1" using vt_scroll_up.runs [OF ok, of 1] scroll(1) by simp
    ultimately show ?thesis using col by simp
  next
    case append
    then show ?thesis using append_one(6) [OF ok] by (simp add: RowCol_def)
  next
    case insert
    obtain t2 where "insertRow_at_cursor E t = Some t2" "cursor t2 = RowCol (rc_row (cursor t)) 0"
      by (rule insertRow_at_cursor_result [OF ok])
    then show ?thesis using insert by (simp add: RowCol_def)
  next
    case move
    then show ?thesis using col ok by simp
  qed
qed

lemma line_end_column:
  assumes "term_ok E t" and "exec_all E [CursorColumn 0, FormFeed] t = Some t'"
  shows "rc_column (cursor t') = 0"
proof -
  let ?t = "setCursorColumn E 0 t"
  have ok: "term_ok E ?t" using exec_ok [OF assms(1), of "CursorColumn 0"] by simp
  have "0 < width (screenSize t)" using term_ok_cursor [OF assms(1)] by simp
  then have "rc_column (cursor ?t) = 0" using setCursorColumn_cursor [OF assms(1), of 0] by (simp add: RowCol_def)
  then show ?thesis using lineFeed_column [OF ok] newLine_column [OF ok] assms(2)
    by (simp add: formFeed_def Option.bind_eq_Some_conv split: if_splits)
qed

lemma text_ops_line: "text_ops w (l @ [13, 10]) = text_ops w l @ [CursorColumn 0, FormFeed]"
  by (induction w l rule: text_ops.induct) (auto simp: print_word_def format_char_def)

text \<open>A terminal between two messages: its interpreter waits, and text goes to it as it is.\<close>

definition quiet :: "host \<Rightarrow> nat \<Rightarrow> console \<Rightarrow> bool" where
  "quiet H i c \<longleftrightarrow> active_io c = i \<and> at_rest (fst (interp c)) \<and> plain_charset (snd (interp c)) \<and>
     reachable (screen_env H) (vt_terminal (snd (interp c)))"

definition shows_terminal :: "parse_state \<Rightarrow> terminal \<Rightarrow> console \<Rightarrow> console" where
  "shows_terminal p t c = c\<lparr>interp := (p, (snd (interp c))\<lparr>vt_terminal := t\<rparr>)\<rparr>"

lemma shows_terminal_simps [simp]:
  "vt_terminal (snd (interp (shows_terminal p t c))) = t"
  "shows_terminal p t (shows_terminal q u c) = shows_terminal p t c"
  by (simp_all add: shows_terminal_def)

lemma quiet_again: "quiet H i c \<Longrightarrow> at_rest p \<Longrightarrow> reachable (screen_env H) t \<Longrightarrow> quiet H i (shows_terminal p t c)"
  by (simp add: quiet_def shows_terminal_def)

lemma prints_text:
  assumes "quiet H i c" and "plain_text s" and "wc_ok (wc (screen_env H))"
  shows "\<exists>p t. io_print H i s c = Some (shows_terminal p t c) \<and> at_rest p \<and> reachable (screen_env H) t \<and>
    exec_all (screen_env H) (text_ops [] s) (vt_terminal (snd (interp c))) = Some t"
proof -
  obtain p m where i: "interp c = (p, m)" by force
  have q: "active_io c = i" "at_rest p" "plain_charset m" "reachable (screen_env H) (vt_terminal m)"
    using assms(1) i by (simp_all add: quiet_def)
  from text_interpreted [OF q(2,3) assms(2,3) q(4)] obtain p' t where
    r: "vt_interpret H s (p, m) = Some (p', m\<lparr>vt_terminal := t\<rparr>)" "at_rest p'"
    "exec_all (screen_env H) (text_ops [] s) (vt_terminal m) = Some t" "reachable (screen_env H) t"
    by blast
  have "echo_interpret H s (p, m) = Some (p', m\<lparr>vt_terminal := t\<rparr>)" by (rule echo_silent [OF r(1)]) simp
  with r i q(1) show ?thesis by (auto simp: io_print_def console_interpret_def shows_terminal_def)
qed

definition line_ops :: "jsstring \<Rightarrow> term_op list" where
  "line_ops l = text_ops [] l @ [CursorColumn 0, FormFeed]"

lemma line_ops_text: "text_ops [] (l @ [13, 10]) = line_ops l"
  by (simp add: text_ops_line line_ops_def)

lemma plain_line: "plain_text l \<Longrightarrow> plain_text (l @ [13, 10])"
  by (simp add: plain_text_def format_char_def)

lemma line_ops_column:
  assumes "wc_ok (wc E)" and "reachable E t" and "plain_text l" and "exec_all E (line_ops l) t = Some t'"
  shows "rc_column (cursor t') = 0"
proof -
  have "\<forall>op \<in> set (text_ops [] l). \<forall>t. allowed op t" using text_ops_printable [OF assms(3), of "[]"] by simp
  from exec_all_reachable [OF assms(1,2) this] obtain t1 where
    t1: "exec_all E (text_ops [] l) t = Some t1" "reachable E t1" by blast
  then have "exec_all E [CursorColumn 0, FormFeed] t1 = Some t'"
    using assms(4) by (simp add: line_ops_def exec_all_append del: exec_all.simps)
  then show ?thesis using line_end_column [OF reachable_ok [OF assms(1) t1(2)]] by blast
qed

lemma prints_lines:
  assumes "terminalIO P = Some (k, i)" and "k < length (consoles P)" and "wc_ok (wc (screen_env H))"
    and "quiet H i (consoles P ! k)" and "\<forall>l \<in> set ls. plain_text l"
  shows "\<exists>p t. print_lines H ls P = Some (P\<lparr>consoles := (consoles P)[k := shows_terminal p t (consoles P ! k)]\<rparr>) \<and>
    at_rest p \<and> reachable (screen_env H) t \<and>
    exec_all (screen_env H) (concat (map line_ops ls)) (vt_terminal (snd (interp (consoles P ! k)))) = Some t \<and>
    (ls = [] \<or> rc_column (cursor t) = 0)"
  using assms
proof (induction ls arbitrary: P)
  case Nil
  obtain p m where i: "interp (consoles P ! k) = (p, m)" by force
  then have "shows_terminal p (vt_terminal m) (consoles P ! k) = consoles P ! k" by (simp add: shows_terminal_def)
  then show ?case using Nil i by (intro exI [of _ p] exI [of _ "vt_terminal m"]) (simp add: quiet_def)
next
  case (Cons l ls)
  let ?c = "consoles P ! k" and ?E = "screen_env H"
  have l: "plain_text l" "\<forall>l \<in> set ls. plain_text l" using Cons.prems(5) by simp_all
  obtain p t where pt: "io_print H i (l @ [13, 10]) ?c = Some (shows_terminal p t ?c)" "at_rest p" "reachable ?E t"
    "exec_all ?E (line_ops l) (vt_terminal (snd (interp ?c))) = Some t"
    using prints_text [OF Cons.prems(4) plain_line [OF l(1)] Cons.prems(3)] unfolding line_ops_text by blast
  let ?P = "P\<lparr>consoles := (consoles P)[k := shows_terminal p t ?c]\<rparr>"
  have println: "page_println H l P = Some ?P"
    using Cons.prems(1) pt(1) by (simp add: page_println_def page_print_def)
  have k: "terminalIO ?P = Some (k, i)" "k < length (consoles ?P)" "consoles ?P ! k = shows_terminal p t ?c"
    using Cons.prems(1,2) by simp_all
  have quiet: "quiet H i (consoles ?P ! k)" using quiet_again [OF Cons.prems(4) pt(2,3)] k(3) by simp
  from Cons.IH [OF k(1,2) Cons.prems(3) quiet l(2)] obtain q u where
    qu: "print_lines H ls ?P = Some (?P\<lparr>consoles := (consoles ?P)[k := shows_terminal q u (shows_terminal p t ?c)]\<rparr>)"
      "at_rest q" "reachable ?E u" "exec_all ?E (concat (map line_ops ls)) t = Some u"
      "ls = [] \<or> rc_column (cursor u) = 0"
    unfolding k(3) by (auto simp del: page.simps)
  have "rc_column (cursor u) = 0"
  proof (cases "ls = []")
    case True
    then have "u = t" using qu(4) by simp
    moreover have "reachable ?E (vt_terminal (snd (interp ?c)))" using Cons.prems(4) by (simp add: quiet_def)
    ultimately show ?thesis using line_ops_column [OF Cons.prems(3) _ l(1) pt(4)] by blast
  qed (use qu(5) in simp)
  moreover have "exec_all ?E (concat (map line_ops (l # ls))) (vt_terminal (snd (interp ?c))) = Some u"
    using pt(4) qu(4) by (simp add: exec_all_append del: exec_all.simps)
  moreover have "print_lines H (l # ls) P = Some (P\<lparr>consoles := (consoles P)[k := shows_terminal q u ?c]\<rparr>)"
    using println qu(1) by simp
  ultimately show ?case using qu(2,3) by blast
qed

text \<open>The lines of a message have its characters, without the line ends.\<close>

lemma split_lines_set: "\<forall>l \<in> set (split_lines s). set l \<subseteq> set s - {10, 13}"
proof (induction s rule: split_lines.induct)
  case (2 c s)
  have sub: "set (after_cr s) \<subseteq> set s" by (auto simp: after_cr_def split: list.split)
  consider "c = 13" | "c = 10" | "c \<noteq> 13" "c \<noteq> 10" by blast
  then show ?case
  proof cases
    case 1
    then show ?thesis using "2.IH"(1) sub by auto
  next
    case 2
    then show ?thesis using "2.IH"(2) by auto
  next
    case 3
    then show ?thesis using "2.IH"(3) by (cases "split_lines s") auto
  qed
qed simp

lemma plain_text_append: "plain_text (s @ s') \<longleftrightarrow> plain_text s \<and> plain_text s'"
  by (auto simp: plain_text_def)

lemma plain_item_lines:
  assumes "plain_text (log_prefix D it)" and "plain_text (item_message it)" and "l \<in> set (item_lines D it)"
  shows "plain_text l"
proof -
  have "\<forall>l \<in> set (split_lines (item_message it)). plain_text l"
    using split_lines_set [of "item_message it"] assms(2) by (force simp: plain_text_def)
  then show ?thesis using assms
    by (cases "split_lines (item_message it)") (auto simp: item_lines_def plain_text_append split: if_splits)
qed

text \<open>
  C37. A message of the server with log messages of plain text prints them all, in order, on the
  terminal the page prints to: every line of a log message goes through exactly the calls its
  text stands for, then to the start of a new line. Nothing throws, no other part of the page
  changes, the interpreter waits for the next message, and the cursor is in the first column.
\<close>

theorem page_prints_logs:
  assumes "terminalIO P = Some (k, i)" and "k < length (consoles P)" and "wc_ok (wc (screen_env H))"
    and "quiet H i (consoles P ! k)" and "success r"
    and "\<forall>it \<in> set (logDataList r). plain_text (log_prefix D it) \<and> plain_text (item_message it)"
  shows "\<exists>p t. handle_event H D cs (Message j r) P =
      Some (P\<lparr>consoles := (consoles P)[k := shows_terminal p t (consoles P ! k)]\<rparr>) \<and>
    at_rest p \<and> reachable (screen_env H) t \<and>
    exec_all (screen_env H) (concat (map line_ops (concat (map (item_lines D) (logDataList r)))))
      (vt_terminal (snd (interp (consoles P ! k)))) = Some t \<and>
    (response_lines D r = [] \<or> rc_column (cursor t) = 0)"
proof -
  have "\<forall>l \<in> set (response_lines D r). plain_text l"
    using assms(5,6) plain_item_lines by (auto simp: response_lines_def)
  from prints_lines [OF assms(1-4) this] assms(5) show ?thesis by (simp add: response_lines_def)
qed

lemma page_prints_logs_witness:
  "\<forall>cs j. \<exists>D r P c p t. handle_event unit_host D cs (Message j r) P = Some (P\<lparr>consoles := [shows_terminal p t c]\<rparr>) \<and>
     length (concat (map (item_lines D) (logDataList r))) = 3 \<and> rc_column (cursor t) = 0"
proof (intro allI)
  fix cs j
  let ?D = "\<lparr>toLocaleString = \<lambda>_. js ''1/2/2024'', getMilliseconds = \<lambda>_. js ''7''\<rparr>"
  let ?item = "\<lambda>msg. \<lparr>item_date = [], item_host = js ''web'', item_program = js ''app'', item_message = msg\<rparr>"
  let ?r = "\<lparr>success = True, logDataList = [?item (js ''one''), ?item (js ''two'' @ [13, 10] @ js ''three'')],
    errorMessage = []\<rparr>"
  obtain t where t: "new_terminal unit_env cs = Some t" using new_terminal_result [OF unit_wc, of cs] by metis
  obtain m where m: "new_vt t = Some m" "vt_terminal m = t" "plain_charset m" by (rule new_vt_plain)
  let ?c = "new_console m"
  have quiet: "quiet unit_host 0 ?c"
    using m reachable.start [OF t] by (simp add: quiet_def new_console_def at_rest_def new_parse_state_def)
  let ?P = "new_page\<lparr>consoles := [?c], terminalIO := Some (0, 0)\<rparr>"
  have plain: "\<forall>it \<in> set (logDataList ?r). plain_text (log_prefix ?D it) \<and> plain_text (item_message it)"
    by (simp add: log_prefix_def plain_text_def printable_def format_char_def js_def)
  have lines: "length (concat (map (item_lines ?D) (logDataList ?r))) = 3"
    by (simp add: item_lines_def isMultilineMessage_def after_cr_def js_def)
  have "\<exists>p t. handle_event unit_host ?D cs (Message j ?r) ?P =
      Some (?P\<lparr>consoles := (consoles ?P)[0 := shows_terminal p t (consoles ?P ! 0)]\<rparr>) \<and>
    at_rest p \<and> reachable (screen_env unit_host) t \<and>
    exec_all (screen_env unit_host) (concat (map line_ops (concat (map (item_lines ?D) (logDataList ?r)))))
      (vt_terminal (snd (interp (consoles ?P ! 0)))) = Some t \<and>
    (response_lines ?D ?r = [] \<or> rc_column (cursor t) = 0)"
    by (rule page_prints_logs) (use quiet plain in simp_all)
  moreover have "response_lines ?D ?r \<noteq> []" using lines by (auto simp: response_lines_def)
  ultimately obtain p t where "handle_event unit_host ?D cs (Message j ?r) ?P =
      Some (?P\<lparr>consoles := [shows_terminal p t ?c]\<rparr>)" "rc_column (cursor t) = 0"
    by auto
  then show "\<exists>D r P c p t. handle_event unit_host D cs (Message j r) P = Some (P\<lparr>consoles := [shows_terminal p t c]\<rparr>) \<and>
      length (concat (map (item_lines D) (logDataList r))) = 3 \<and> rc_column (cursor t) = 0"
    using lines by blast
qed

end
