(* ===== verification/Spec2Isabelle.thy ===== *)
theory Spec2Isabelle
  imports VtChunks VtColors VtKeys PreferenceOps ProfileStart TerminalPage
begin

text \<open>
  A verification development of the JavaScript of srvlog, the program that shows the logs of
  many hosts in a terminal in the browser. All files are below
  src/srvlog-web/src/main/java/com/payneteasy/srvlog/wicket/page/js/.

  \<^bold>\<open>The program.\<close> The page terminal-1.0.0.js has two dropdowns (multi-select-dropdown.js) for
  hosts and programs. Every change of a selection closes the web socket, makes a new terminal
  and opens a web socket that asks for the logs selected. What the server sends is printed on
  the terminal, hterm (hterm_all-1.91.js): \<open>hterm.Terminal.IO\<close> hands the text to the interpreter
  of control sequences, \<open>hterm.VT\<close>, which translates characters by \<open>hterm.VT.CharacterMap\<close> and
  calls \<open>hterm.Terminal\<close>; that keeps two screens, the scrollback, modes and tab stops, and edits
  the rows of an \<open>hterm.Screen\<close>, whose nodes carry \<open>hterm.TextAttributes\<close> and are as wide as
  \<open>lib.wc\<close> says.

  \<^bold>\<open>Theories and code.\<close>
    \<^item> Prelude: strings of code units, \<open>substr\<close>, \<open>splice\<close>, numbers as text, and lemmas all share.
    \<^item> WcWidth: \<open>lib.wc\<close>, its tables of intervals entry by entry, the binary search, widths of
      characters and strings, substrings by columns.
    \<^item> Colors: of \<open>lib.colors\<close>, the patterns for \<open>rgb(...)\<close>, \<open>crackRGB\<close>, \<open>arrayToRGBA\<close>, \<open>setAlpha\<close>.
    \<^item> Palette: the colors in hexadecimal, in the notations of X11 and by name, and the stock palette.
    \<^item> TextAttributes: \<open>hterm.TextAttributes\<close>, the containers of text, when a container fits the
      attributes, the computation of colors, the split of wide characters.
    \<^item> CharacterMap: \<open>hterm.VT.CharacterMap\<close> and \<open>CharacterMaps\<close> with every shipped map.
    \<^item> Screen: \<open>hterm.Screen\<close>, \<open>Size\<close>, \<open>RowCol\<close>. The document is a function from row numbers to rows
      of nodes, so that a row keeps its identity when it moves; the cursor is a node and an offset.
    \<^item> Terminal: \<open>hterm.Terminal\<close> without its user interface, and \<open>hterm.Options\<close>. TerminalInv has
      the invariant \<open>term_ok\<close>, TerminalOps what each operation does to rows and text, TerminalSize
      the resizes and the change of screens, TerminalRun the terminal as a state machine.
    \<^item> VtState, VtOsc, VtHandlers, VtParser, VtLoop: \<open>hterm.VT\<close>: its state and \<open>ParseState\<close>; operating
      system commands and the palette; the handlers and the tables CC1, ESC, CSI, DCS, OSC; the
      functions that parse; the loop of \<open>interpret\<close>. VtProps, VtRun, VtColors and VtChunks hold what
      is proved of them.
    \<^item> VtMouse: which events of the mouse are reported to the host, and how.
    \<^item> KeyBindings: \<open>hterm.Parser\<close>, \<open>hterm.Keyboard.KeyPattern\<close> and \<open>Bindings\<close>: the syntax of keys and
      actions, and which binding a key has.
    \<^item> Keyboard: \<open>hterm.Keyboard\<close> and its map, entry by entry: what a key sends, calls, or leaves to the
      browser. VtKeys: the keyboard with the modes the interpreter has set.
    \<^item> Storage, Preferences: \<open>lib.Storage.Memory\<close> with the changes a storage reports, and
      \<open>lib.PreferenceManager\<close>: managers of preferences that share a storage, and the tasks of the event
      loop between them. PreferenceSync has what managers and storage agree on, PreferenceOps what single
      operations do.
    \<^item> DefaultPreferences: \<open>hterm.PreferenceManager\<close>, declaration by declaration. Profile:
      \<open>hterm.Terminal.prototype.setProfile\<close> and what each preference sets in terminal, keyboard and
      interpreter. ProfileProps has what the observers change, ProfileReady what a profile keeps until its
      items are read, ProfileStart that a terminal gets ready.
    \<^item> MultiSelect: the dropdown, its data and the parts of the document it keeps.
    \<^item> TerminalEcho: \<open>interpret\<close> where the terminal's answers are printed on it again, as the page has
      it.
    \<^item> TerminalPage: \<open>hterm.Terminal.IO\<close> and terminal-1.0.0.js, and the page with its dropdowns.

  Records have the fields of the objects, an operation has the name of its method where
  Isabelle allows it, and an operation that can throw has an option or a sum as its result.
  Strings are lists of code units, as in JavaScript. Widths, rows and columns are integers;
  the code does not come near the bounds of exact numbers. What the code takes from the browser
  is a parameter: the preferences of the width tables, of colors and the clipboard, the size of
  character cells, the clock, dates as text, \<open>atob\<close>, \<open>toLowerCase\<close> and \<open>innerText\<close>.

  \<^bold>\<open>What is shown.\<close> The widths: the search decides membership in the tables, widths of strings add
  up, substrings by columns cut where they should. Rows: \<open>insertString\<close>, \<open>overwriteString\<close>,
  \<open>deleteChars\<close> refine edits of the row's text. The terminal: from its constructor on, through all
  calls it is made for, the invariant holds, so that no call throws, each index of a row
  finds its row, and the cursor is on the screen; resizes keep the lines, new lines keep the
  history; insertion and deletion of lines, tab stops, saved cursors, and the cases in which the
  code does something else than it means or says. The interpreter: the turns of its loop are bounded on
  every input, and each alters the state; a control sequence gets to its handler with its arguments; text refines calls of the terminal; input can
  be cut within arguments; three forms of a color agree; a request for the position is answered, and
  so is one for a color, with the color that was set; some commands throw.
  With the answers printed again, a
  request loses what was printed after it, and the request for the version never returns.
  A press of the mouse is read from its report; some presses and drags are lost.
  Keys: the most specific binding of a key is found; sequences of keys are read back from their
  spelling; arrow keys and letters send what terminals send, and some keys something else.
  Preferences: once no event is due, every manager agrees with the storage they share; what is set is
  read at once, exports are imported as they were, and a read of the storage undoes what is set
  in the turn in which it began, and nothing that is set later. A terminal gets ready with its declared preferences, and its switches follow them.
  The page: logs of plain text are printed in order, each on its lines; what arrives is
  what the dropdowns select; a dropdown's marks, form inputs and header are its data.

  The interfaces are locales, each interpreted on the model: \<open>terminal_op\<close> (an operation that
  keeps the invariant and the frame, in TerminalOps, for every operation), \<open>row_provider\<close> (what
  the scroll port is told of rows, in TerminalRun) \<open>reading\<close> (a loop around the parse functions,
  in VtProps, for \<open>interpret_loop\<close> and in TerminalEcho for \<open>echo_loop\<close>), \<open>key_lookup\<close> (what the keyboard
  relies on when it looks for a binding, in KeyBindings) and \<open>change_log\<close> (a storage that reports its
  changes, in Storage).

  \<^bold>\<open>Loops.\<close> No fuel is used. The loop of \<open>interpret\<close> is a total function; every turn decreases a
  measure of the text left, the text collected and the parse function (VtLoop), and with \<open>N\<close> characters
  there are at most \<open>2 * (N + 1) ^ 2\<close> turns (VtProps). The loop that
  prints is a partial function, whose \<open>None\<close> is an exception or a loop that does not end; it is shown to
  return for text it is made for, on every terminal that allowed calls lead to; \<open>echo_loop\<close>, which
  interprets answers within the handler that sends them, is one too, as it need not return. All other
  recursion is structural or has a termination proof.

  \<^bold>\<open>Not modelled.\<close> The user interface of the terminal: scroll port, find bar, menus, accessibility,
  fonts, the blinking of the cursor, selections, clipboard, images,
  notifications. It is made of calls of the browser. Titles,
  colors of text and cursor, notifications and the clipboard are events with what the browser is
  given; the variables of CSS are not kept, and of images only the text of the command.
  Lists of child preferences, which nothing here defines, and the storages of the browser are left out.
  Conversions of colors that compute with fractions are left out. Printing is proved for printable
  ASCII; the definitions are for all text. The server is written in Java, and the other libraries
  in the directory are vendored.
\<close>

end
